(* ===== verification/Prelude.thy ===== *)
theory Prelude
  imports Main "HOL-Library.Word" "HOL-Library.Code_Target_Nat"
begin

text \<open>
  What every component shares: the machine types of the C code (\<open>uint8_t\<close> to
  \<open>uint64_t\<close> as words), the outcome of a C function that may leave the process through
  \<open>error ()\<close> or a failed \<open>assert\<close>, reads of NUL-padded buffers, the character classes
  of the C locale, and the collections of simplification rules the components fill.
\<close>

unbundle bit_operations_syntax

section \<open>Machine types\<close>

type_synonym u8 = "8 word"
type_synonym u16 = "16 word"
type_synonym u32 = "32 word"
type_synonym u64 = "64 word"

named_theorems tok_simps \<open>facts on token types and the ranges of the enum\<close>
named_theorems wf_simps \<open>well-formedness of statements and filters\<close>
named_theorems vm_simps \<open>unfolding of single machine steps\<close>

section \<open>Outcomes of C functions\<close>

text \<open>
  \<open>error (...)\<close> prints a message and calls \<open>exit (1)\<close>: \<open>Die\<close>. A failed \<open>assert\<close>, or
  a read or write the C standard leaves undefined, is \<open>Crash\<close>.
\<close>

datatype 'a cres = Done 'a | Die string | Crash string

primrec cbind :: "'a cres \<Rightarrow> ('a \<Rightarrow> 'b cres) \<Rightarrow> 'b cres" where
  "cbind (Done x) f = f x"
| "cbind (Die m) f = Die m"
| "cbind (Crash m) f = Crash m"

lemma cbind_eq_Done [simp]: "(cbind m f = Done y) = (\<exists>x. m = Done x \<and> f x = Done y)"
  by (cases m) auto

lemma cbind_eq_Die [simp]:
  "(cbind m f = Die e) = (m = Die e \<or> (\<exists>x. m = Done x \<and> f x = Die e))"
  by (cases m) auto

lemma cbind_eq_Crash [simp]:
  "(cbind m f = Crash e) = (m = Crash e \<or> (\<exists>x. m = Done x \<and> f x = Crash e))"
  by (cases m) auto

lemma cbind_Done_right [simp]: "cbind m Done = m"
  by (cases m) auto

lemma cbind_assoc: "cbind (cbind m f) g = cbind m (\<lambda>x. cbind (f x) g)"
  by (cases m) auto

section \<open>Reads of buffers\<close>

text \<open>
  The source map is anonymous memory, so a read behind the text gives a NUL byte; the map
  always keeps room for it (\<open>init_source\<close> grows the map when fewer than 0x20 bytes are
  left).
\<close>

definition char_at :: "string \<Rightarrow> nat \<Rightarrow> char" where
  "char_at s i = (if i < length s then s ! i else CHR 0x00)"

lemma char_at_in [simp]: "i < length s \<Longrightarrow> char_at s i = s ! i"
  by (simp add: char_at_def)

lemma char_at_out [simp]: "length s \<le> i \<Longrightarrow> char_at s i = CHR 0x00"
  by (simp add: char_at_def)

lemma char_at_append:
  "char_at (s @ t) i = (if i < length s then s ! i else char_at t (i - length s))"
  by (auto simp: char_at_def nth_append)

lemma char_at_take: "i < n \<Longrightarrow> char_at (take n s) i = char_at s i"
  by (simp add: char_at_def)

lemma char_at_pad [simp]: "char_at (s @ replicate n CHR 0x00) i = char_at s i"
  by (auto simp: char_at_def nth_append)

lemma char_at_drop: "char_at (drop n s) i = char_at s (n + i)"
  by (auto simp: char_at_def)

text \<open>\<open>slice s i n\<close> is the C string piece of \<open>n\<close> bytes at \<open>i\<close>.\<close>

definition slice :: "string \<Rightarrow> nat \<Rightarrow> nat \<Rightarrow> string" where
  "slice s i n = take n (drop i s)"

lemma length_slice [simp]: "length (slice s i n) = min n (length s - i)"
  by (simp add: slice_def min.commute)

text \<open>\<open>memchr\<close>: the first index in \<open>[i, i + n)\<close> that holds \<open>c\<close>.\<close>

fun memchr :: "string \<Rightarrow> char \<Rightarrow> nat \<Rightarrow> nat \<Rightarrow> nat option" where
  "memchr s c i 0 = None"
| "memchr s c i (Suc n) = (if char_at s i = c then Some i else memchr s c (Suc i) n)"

lemma memchr_Some:
  "memchr s c i n = Some j \<Longrightarrow>
   i \<le> j \<and> j < i + n \<and> char_at s j = c \<and> (\<forall>l. i \<le> l \<and> l < j \<longrightarrow> char_at s l \<noteq> c)"
proof (induction s c i n rule: memchr.induct)
  case (2 s c i n)
  show ?case
  proof (cases "char_at s i = c")
    case True
    with "2.prems" show ?thesis by auto
  next
    case False
    with 2 have IH: "Suc i \<le> j" "j < Suc i + n" "char_at s j = c"
      "\<forall>l. Suc i \<le> l \<and> l < j \<longrightarrow> char_at s l \<noteq> c" by auto
    from IH(4) False have "\<forall>l. i \<le> l \<and> l < j \<longrightarrow> char_at s l \<noteq> c"
      by (metis Suc_leI order_le_less)
    with IH show ?thesis by auto
  qed
qed simp

lemma memchr_None:
  "memchr s c i n = None \<Longrightarrow> i \<le> l \<Longrightarrow> l < i + n \<Longrightarrow> char_at s l \<noteq> c"
proof (induction s c i n rule: memchr.induct)
  case (2 s c i n)
  then show ?case by (cases "l = i") (auto split: if_splits)
qed simp

section \<open>Character classes of the C locale\<close>

text \<open>\<open>lc_c\<close> is the C locale: bytes above 0x7f belong to no class.\<close>

definition isupper_l :: "char \<Rightarrow> bool" where
  "isupper_l c = (65 \<le> (of_char c :: nat) \<and> (of_char c :: nat) \<le> 90)"

definition islower_l :: "char \<Rightarrow> bool" where
  "islower_l c = (97 \<le> (of_char c :: nat) \<and> (of_char c :: nat) \<le> 122)"

definition isdigit_l :: "char \<Rightarrow> bool" where
  "isdigit_l c = (48 \<le> (of_char c :: nat) \<and> (of_char c :: nat) \<le> 57)"

definition isalpha_l :: "char \<Rightarrow> bool" where
  "isalpha_l c = (isupper_l c \<or> islower_l c)"

definition isalnum_l :: "char \<Rightarrow> bool" where
  "isalnum_l c = (isalpha_l c \<or> isdigit_l c)"

definition isspace_l :: "char \<Rightarrow> bool" where
  "isspace_l c = ((of_char c :: nat) = 32 \<or> (9 \<le> (of_char c :: nat) \<and> (of_char c :: nat) \<le> 13))"

definition ispunct_l :: "char \<Rightarrow> bool" where
  "ispunct_l c = (33 \<le> (of_char c :: nat) \<and> (of_char c :: nat) \<le> 126 \<and> \<not> isalnum_l c)"

lemmas ctype_defs = isupper_l_def islower_l_def isdigit_l_def isalpha_l_def isalnum_l_def
  isspace_l_def ispunct_l_def

section \<open>Lists and maps\<close>

lemma nth_list_update_if:
  "i < length xs \<Longrightarrow> xs[i := x] ! j = (if i = j then x else xs ! j)"
  by simp

lemma takeWhile_length_le: "length (takeWhile P xs) \<le> length xs"
  by (induction xs) auto

lemma fold_invariant_list:
  "P s \<Longrightarrow> (\<And>x s. x \<in> set xs \<Longrightarrow> P s \<Longrightarrow> P (f x s)) \<Longrightarrow> P (fold f xs s)"
  by (induction xs arbitrary: s) auto

end
