(* ===== verification/Tokens.thy ===== *)
theory Tokens
  imports Prelude
begin

text \<open>
  The token types of \<open>include/lexical/token.h\<close> and the table \<open>token_pairs\<close> of
  \<open>src/lexical/token.c\<close>. The enum is split into the runs of constants that the code
  addresses as ranges (\<open>match_from_to (ADD_TO, XOR_TO)\<close> and so on); every constant keeps
  its name as an abbreviation (\<open>A\<close>, \<open>X\<close> and \<open>AND\<close> are \<open>Tk_A\<close>, \<open>Tk_X\<close> and \<open>Tk_AND\<close>),
  and \<open>tk_num\<close> is its numeric value. The order of the enum, on which the range tests
  rest, is the class instance \<open>linorder\<close>.
\<close>

section \<open>The enum\<close>

datatype arch_tk = ARCH_X86' | ARCH_I686' | ARCH_X86_64' | ARCH_X32' | ARCH_AARCH64'
  | ARCH_ARMV8L' | ARCH_ARMV7L' | ARCH_ARM' | ARCH_LOONGARCH64' | ARCH_M68K'
  | ARCH_MIPSEL64N32' | ARCH_MIPSEL64' | ARCH_MIPSEL' | ARCH_MIPS64N32' | ARCH_MIPS64'
  | ARCH_MIPS' | ARCH_PARISC64' | ARCH_PARISC' | ARCH_PPC64LE' | ARCH_PPC64' | ARCH_PPC'
  | ARCH_S390X' | ARCH_S390' | ARCH_RISCV64' | ARCH_SH4' | ARCH_SHEB' | ARCH_SH'

datatype action_tk = KILL_PROC' | KILL' | ALLOW' | NOTIFY' | LOG' | TRACE' | TRAP'
  | ERRNO'

datatype keyword_tk = RETURN' | IF' | GOTO' | ELSE' | COMMA'

datatype var_tk = Tk_A' | Tk_X' | MEM' | ATTR_LEN' | ATTR_SYSCALL' | ATTR_ARCH'
  | ATTR_LOWPC' | ATTR_HIGHPC' | ATTR_LOWARG' | ATTR_HIGHARG'

datatype bracket_tk = DOT' | LEFT_BRACKET' | RIGHT_BRACKET' | LEFT_PAREN' | RIGHT_PAREN'

datatype assign_tk = ADD_TO' | SUB_TO' | MULTI_TO' | DIVIDE_TO' | LSH_TO' | RSH_TO'
  | AND_TO' | OR_TO' | XOR_TO'

datatype compare_tk = EQUAL_EQUAL' | BANG_EQUAL' | GREATER_EQUAL' | GREATER_THAN'
  | LESS_EQUAL' | LESS_THAN' | Tk_AND'

datatype sign_tk = EQUAL' | NEGATIVE' | BANG'

datatype lex_tk = NUMBER' | IDENTIFIER' | UNKNOWN' | COMMENT' | EOL' | TOKEN_EOF'
  | LABEL_DECL' | OVERFLOW_NUMBER'

datatype token_type =
    Arch_tk arch_tk | Action_tk action_tk | Keyword_tk keyword_tk
  | Var_tk var_tk | Bracket_tk bracket_tk | Assign_tk assign_tk | Compare_tk compare_tk
  | Sign_tk sign_tk | Lex_tk lex_tk

abbreviation ARCH_X86 :: token_type where "ARCH_X86 \<equiv> Arch_tk ARCH_X86'"
abbreviation ARCH_I686 :: token_type where "ARCH_I686 \<equiv> Arch_tk ARCH_I686'"
abbreviation ARCH_X86_64 :: token_type where "ARCH_X86_64 \<equiv> Arch_tk ARCH_X86_64'"
abbreviation ARCH_X32 :: token_type where "ARCH_X32 \<equiv> Arch_tk ARCH_X32'"
abbreviation ARCH_AARCH64 :: token_type where "ARCH_AARCH64 \<equiv> Arch_tk ARCH_AARCH64'"
abbreviation ARCH_ARMV8L :: token_type where "ARCH_ARMV8L \<equiv> Arch_tk ARCH_ARMV8L'"
abbreviation ARCH_ARMV7L :: token_type where "ARCH_ARMV7L \<equiv> Arch_tk ARCH_ARMV7L'"
abbreviation ARCH_ARM :: token_type where "ARCH_ARM \<equiv> Arch_tk ARCH_ARM'"
abbreviation ARCH_LOONGARCH64 :: token_type where "ARCH_LOONGARCH64 \<equiv> Arch_tk ARCH_LOONGARCH64'"
abbreviation ARCH_M68K :: token_type where "ARCH_M68K \<equiv> Arch_tk ARCH_M68K'"
abbreviation ARCH_MIPSEL64N32 :: token_type where "ARCH_MIPSEL64N32 \<equiv> Arch_tk ARCH_MIPSEL64N32'"
abbreviation ARCH_MIPSEL64 :: token_type where "ARCH_MIPSEL64 \<equiv> Arch_tk ARCH_MIPSEL64'"
abbreviation ARCH_MIPSEL :: token_type where "ARCH_MIPSEL \<equiv> Arch_tk ARCH_MIPSEL'"
abbreviation ARCH_MIPS64N32 :: token_type where "ARCH_MIPS64N32 \<equiv> Arch_tk ARCH_MIPS64N32'"
abbreviation ARCH_MIPS64 :: token_type where "ARCH_MIPS64 \<equiv> Arch_tk ARCH_MIPS64'"
abbreviation ARCH_MIPS :: token_type where "ARCH_MIPS \<equiv> Arch_tk ARCH_MIPS'"
abbreviation ARCH_PARISC64 :: token_type where "ARCH_PARISC64 \<equiv> Arch_tk ARCH_PARISC64'"
abbreviation ARCH_PARISC :: token_type where "ARCH_PARISC \<equiv> Arch_tk ARCH_PARISC'"
abbreviation ARCH_PPC64LE :: token_type where "ARCH_PPC64LE \<equiv> Arch_tk ARCH_PPC64LE'"
abbreviation ARCH_PPC64 :: token_type where "ARCH_PPC64 \<equiv> Arch_tk ARCH_PPC64'"
abbreviation ARCH_PPC :: token_type where "ARCH_PPC \<equiv> Arch_tk ARCH_PPC'"
abbreviation ARCH_S390X :: token_type where "ARCH_S390X \<equiv> Arch_tk ARCH_S390X'"
abbreviation ARCH_S390 :: token_type where "ARCH_S390 \<equiv> Arch_tk ARCH_S390'"
abbreviation ARCH_RISCV64 :: token_type where "ARCH_RISCV64 \<equiv> Arch_tk ARCH_RISCV64'"
abbreviation ARCH_SH4 :: token_type where "ARCH_SH4 \<equiv> Arch_tk ARCH_SH4'"
abbreviation ARCH_SHEB :: token_type where "ARCH_SHEB \<equiv> Arch_tk ARCH_SHEB'"
abbreviation ARCH_SH :: token_type where "ARCH_SH \<equiv> Arch_tk ARCH_SH'"
abbreviation KILL_PROC :: token_type where "KILL_PROC \<equiv> Action_tk KILL_PROC'"
abbreviation KILL :: token_type where "KILL \<equiv> Action_tk KILL'"
abbreviation ALLOW :: token_type where "ALLOW \<equiv> Action_tk ALLOW'"
abbreviation NOTIFY :: token_type where "NOTIFY \<equiv> Action_tk NOTIFY'"
abbreviation LOG :: token_type where "LOG \<equiv> Action_tk LOG'"
abbreviation TRACE :: token_type where "TRACE \<equiv> Action_tk TRACE'"
abbreviation TRAP :: token_type where "TRAP \<equiv> Action_tk TRAP'"
abbreviation ERRNO :: token_type where "ERRNO \<equiv> Action_tk ERRNO'"
abbreviation RETURN :: token_type where "RETURN \<equiv> Keyword_tk RETURN'"
abbreviation IF :: token_type where "IF \<equiv> Keyword_tk IF'"
abbreviation GOTO :: token_type where "GOTO \<equiv> Keyword_tk GOTO'"
abbreviation ELSE :: token_type where "ELSE \<equiv> Keyword_tk ELSE'"
abbreviation COMMA :: token_type where "COMMA \<equiv> Keyword_tk COMMA'"
abbreviation Tk_A :: token_type where "Tk_A \<equiv> Var_tk Tk_A'"
abbreviation Tk_X :: token_type where "Tk_X \<equiv> Var_tk Tk_X'"
abbreviation MEM :: token_type where "MEM \<equiv> Var_tk MEM'"
abbreviation ATTR_LEN :: token_type where "ATTR_LEN \<equiv> Var_tk ATTR_LEN'"
abbreviation ATTR_SYSCALL :: token_type where "ATTR_SYSCALL \<equiv> Var_tk ATTR_SYSCALL'"
abbreviation ATTR_ARCH :: token_type where "ATTR_ARCH \<equiv> Var_tk ATTR_ARCH'"
abbreviation ATTR_LOWPC :: token_type where "ATTR_LOWPC \<equiv> Var_tk ATTR_LOWPC'"
abbreviation ATTR_HIGHPC :: token_type where "ATTR_HIGHPC \<equiv> Var_tk ATTR_HIGHPC'"
abbreviation ATTR_LOWARG :: token_type where "ATTR_LOWARG \<equiv> Var_tk ATTR_LOWARG'"
abbreviation ATTR_HIGHARG :: token_type where "ATTR_HIGHARG \<equiv> Var_tk ATTR_HIGHARG'"
abbreviation DOT :: token_type where "DOT \<equiv> Bracket_tk DOT'"
abbreviation LEFT_BRACKET :: token_type where "LEFT_BRACKET \<equiv> Bracket_tk LEFT_BRACKET'"
abbreviation RIGHT_BRACKET :: token_type where "RIGHT_BRACKET \<equiv> Bracket_tk RIGHT_BRACKET'"
abbreviation LEFT_PAREN :: token_type where "LEFT_PAREN \<equiv> Bracket_tk LEFT_PAREN'"
abbreviation RIGHT_PAREN :: token_type where "RIGHT_PAREN \<equiv> Bracket_tk RIGHT_PAREN'"
abbreviation ADD_TO :: token_type where "ADD_TO \<equiv> Assign_tk ADD_TO'"
abbreviation SUB_TO :: token_type where "SUB_TO \<equiv> Assign_tk SUB_TO'"
abbreviation MULTI_TO :: token_type where "MULTI_TO \<equiv> Assign_tk MULTI_TO'"
abbreviation DIVIDE_TO :: token_type where "DIVIDE_TO \<equiv> Assign_tk DIVIDE_TO'"
abbreviation LSH_TO :: token_type where "LSH_TO \<equiv> Assign_tk LSH_TO'"
abbreviation RSH_TO :: token_type where "RSH_TO \<equiv> Assign_tk RSH_TO'"
abbreviation AND_TO :: token_type where "AND_TO \<equiv> Assign_tk AND_TO'"
abbreviation OR_TO :: token_type where "OR_TO \<equiv> Assign_tk OR_TO'"
abbreviation XOR_TO :: token_type where "XOR_TO \<equiv> Assign_tk XOR_TO'"
abbreviation EQUAL_EQUAL :: token_type where "EQUAL_EQUAL \<equiv> Compare_tk EQUAL_EQUAL'"
abbreviation BANG_EQUAL :: token_type where "BANG_EQUAL \<equiv> Compare_tk BANG_EQUAL'"
abbreviation GREATER_EQUAL :: token_type where "GREATER_EQUAL \<equiv> Compare_tk GREATER_EQUAL'"
abbreviation GREATER_THAN :: token_type where "GREATER_THAN \<equiv> Compare_tk GREATER_THAN'"
abbreviation LESS_EQUAL :: token_type where "LESS_EQUAL \<equiv> Compare_tk LESS_EQUAL'"
abbreviation LESS_THAN :: token_type where "LESS_THAN \<equiv> Compare_tk LESS_THAN'"
abbreviation Tk_AND :: token_type where "Tk_AND \<equiv> Compare_tk Tk_AND'"
abbreviation EQUAL :: token_type where "EQUAL \<equiv> Sign_tk EQUAL'"
abbreviation NEGATIVE :: token_type where "NEGATIVE \<equiv> Sign_tk NEGATIVE'"
abbreviation BANG :: token_type where "BANG \<equiv> Sign_tk BANG'"
abbreviation NUMBER :: token_type where "NUMBER \<equiv> Lex_tk NUMBER'"
abbreviation IDENTIFIER :: token_type where "IDENTIFIER \<equiv> Lex_tk IDENTIFIER'"
abbreviation UNKNOWN :: token_type where "UNKNOWN \<equiv> Lex_tk UNKNOWN'"
abbreviation COMMENT :: token_type where "COMMENT \<equiv> Lex_tk COMMENT'"
abbreviation EOL :: token_type where "EOL \<equiv> Lex_tk EOL'"
abbreviation TOKEN_EOF :: token_type where "TOKEN_EOF \<equiv> Lex_tk TOKEN_EOF'"
abbreviation LABEL_DECL :: token_type where "LABEL_DECL \<equiv> Lex_tk LABEL_DECL'"
abbreviation OVERFLOW_NUMBER :: token_type where "OVERFLOW_NUMBER \<equiv> Lex_tk OVERFLOW_NUMBER'"

primrec arch_num :: "arch_tk \<Rightarrow> nat" where
  "arch_num ARCH_X86' = 0"
| "arch_num ARCH_I686' = 1"
| "arch_num ARCH_X86_64' = 2"
| "arch_num ARCH_X32' = 3"
| "arch_num ARCH_AARCH64' = 4"
| "arch_num ARCH_ARMV8L' = 5"
| "arch_num ARCH_ARMV7L' = 6"
| "arch_num ARCH_ARM' = 7"
| "arch_num ARCH_LOONGARCH64' = 8"
| "arch_num ARCH_M68K' = 9"
| "arch_num ARCH_MIPSEL64N32' = 10"
| "arch_num ARCH_MIPSEL64' = 11"
| "arch_num ARCH_MIPSEL' = 12"
| "arch_num ARCH_MIPS64N32' = 13"
| "arch_num ARCH_MIPS64' = 14"
| "arch_num ARCH_MIPS' = 15"
| "arch_num ARCH_PARISC64' = 16"
| "arch_num ARCH_PARISC' = 17"
| "arch_num ARCH_PPC64LE' = 18"
| "arch_num ARCH_PPC64' = 19"
| "arch_num ARCH_PPC' = 20"
| "arch_num ARCH_S390X' = 21"
| "arch_num ARCH_S390' = 22"
| "arch_num ARCH_RISCV64' = 23"
| "arch_num ARCH_SH4' = 24"
| "arch_num ARCH_SHEB' = 25"
| "arch_num ARCH_SH' = 26"

primrec action_num :: "action_tk \<Rightarrow> nat" where
  "action_num KILL_PROC' = 27"
| "action_num KILL' = 28"
| "action_num ALLOW' = 29"
| "action_num NOTIFY' = 30"
| "action_num LOG' = 31"
| "action_num TRACE' = 32"
| "action_num TRAP' = 33"
| "action_num ERRNO' = 34"

primrec keyword_num :: "keyword_tk \<Rightarrow> nat" where
  "keyword_num RETURN' = 35"
| "keyword_num IF' = 36"
| "keyword_num GOTO' = 37"
| "keyword_num ELSE' = 38"
| "keyword_num COMMA' = 39"

primrec var_num :: "var_tk \<Rightarrow> nat" where
  "var_num Tk_A' = 40"
| "var_num Tk_X' = 41"
| "var_num MEM' = 42"
| "var_num ATTR_LEN' = 43"
| "var_num ATTR_SYSCALL' = 44"
| "var_num ATTR_ARCH' = 45"
| "var_num ATTR_LOWPC' = 46"
| "var_num ATTR_HIGHPC' = 47"
| "var_num ATTR_LOWARG' = 48"
| "var_num ATTR_HIGHARG' = 49"

primrec bracket_num :: "bracket_tk \<Rightarrow> nat" where
  "bracket_num DOT' = 50"
| "bracket_num LEFT_BRACKET' = 51"
| "bracket_num RIGHT_BRACKET' = 52"
| "bracket_num LEFT_PAREN' = 53"
| "bracket_num RIGHT_PAREN' = 54"

primrec assign_num :: "assign_tk \<Rightarrow> nat" where
  "assign_num ADD_TO' = 55"
| "assign_num SUB_TO' = 56"
| "assign_num MULTI_TO' = 57"
| "assign_num DIVIDE_TO' = 58"
| "assign_num LSH_TO' = 59"
| "assign_num RSH_TO' = 60"
| "assign_num AND_TO' = 61"
| "assign_num OR_TO' = 62"
| "assign_num XOR_TO' = 63"

primrec compare_num :: "compare_tk \<Rightarrow> nat" where
  "compare_num EQUAL_EQUAL' = 64"
| "compare_num BANG_EQUAL' = 65"
| "compare_num GREATER_EQUAL' = 66"
| "compare_num GREATER_THAN' = 67"
| "compare_num LESS_EQUAL' = 68"
| "compare_num LESS_THAN' = 69"
| "compare_num Tk_AND' = 70"

primrec sign_num :: "sign_tk \<Rightarrow> nat" where
  "sign_num EQUAL' = 71"
| "sign_num NEGATIVE' = 72"
| "sign_num BANG' = 73"

primrec lex_num :: "lex_tk \<Rightarrow> nat" where
  "lex_num NUMBER' = 74"
| "lex_num IDENTIFIER' = 75"
| "lex_num UNKNOWN' = 76"
| "lex_num COMMENT' = 77"
| "lex_num EOL' = 78"
| "lex_num TOKEN_EOF' = 79"
| "lex_num LABEL_DECL' = 80"
| "lex_num OVERFLOW_NUMBER' = 81"

primrec tk_num :: "token_type \<Rightarrow> nat" where
  "tk_num (Arch_tk t) = arch_num t"
| "tk_num (Action_tk t) = action_num t"
| "tk_num (Keyword_tk t) = keyword_num t"
| "tk_num (Var_tk t) = var_num t"
| "tk_num (Bracket_tk t) = bracket_num t"
| "tk_num (Assign_tk t) = assign_num t"
| "tk_num (Compare_tk t) = compare_num t"
| "tk_num (Sign_tk t) = sign_num t"
| "tk_num (Lex_tk t) = lex_num t"

primrec arch_str :: "arch_tk \<Rightarrow> string" where
  "arch_str ARCH_X86' = ''i386''"
| "arch_str ARCH_I686' = ''i686''"
| "arch_str ARCH_X86_64' = ''x86_64''"
| "arch_str ARCH_X32' = ''x32''"
| "arch_str ARCH_AARCH64' = ''aarch64''"
| "arch_str ARCH_ARMV8L' = ''armv8l''"
| "arch_str ARCH_ARMV7L' = ''armv7l''"
| "arch_str ARCH_ARM' = ''arm''"
| "arch_str ARCH_LOONGARCH64' = ''loongarch64''"
| "arch_str ARCH_M68K' = ''m68k''"
| "arch_str ARCH_MIPSEL64N32' = ''mipsel64n32''"
| "arch_str ARCH_MIPSEL64' = ''mipsel64''"
| "arch_str ARCH_MIPSEL' = ''mipsel''"
| "arch_str ARCH_MIPS64N32' = ''mips64n32''"
| "arch_str ARCH_MIPS64' = ''mips64''"
| "arch_str ARCH_MIPS' = ''mips''"
| "arch_str ARCH_PARISC64' = ''parisc64''"
| "arch_str ARCH_PARISC' = ''parisc''"
| "arch_str ARCH_PPC64LE' = ''ppc64le''"
| "arch_str ARCH_PPC64' = ''ppc64''"
| "arch_str ARCH_PPC' = ''ppc''"
| "arch_str ARCH_S390X' = ''s390x''"
| "arch_str ARCH_S390' = ''s390''"
| "arch_str ARCH_RISCV64' = ''riscv64''"
| "arch_str ARCH_SH4' = ''sh4''"
| "arch_str ARCH_SHEB' = ''sheb''"
| "arch_str ARCH_SH' = ''sh''"

primrec action_str :: "action_tk \<Rightarrow> string" where
  "action_str KILL_PROC' = ''KILL_PROCESS''"
| "action_str KILL' = ''KILL''"
| "action_str ALLOW' = ''ALLOW''"
| "action_str NOTIFY' = ''NOTIFY''"
| "action_str LOG' = ''LOG''"
| "action_str TRACE' = ''TRACE''"
| "action_str TRAP' = ''TRAP''"
| "action_str ERRNO' = ''ERRNO''"

primrec keyword_str :: "keyword_tk \<Rightarrow> string" where
  "keyword_str RETURN' = ''return''"
| "keyword_str IF' = ''if''"
| "keyword_str GOTO' = ''goto''"
| "keyword_str ELSE' = ''else''"
| "keyword_str COMMA' = '',''"

primrec var_str :: "var_tk \<Rightarrow> string" where
  "var_str Tk_A' = ''$A''"
| "var_str Tk_X' = ''$X''"
| "var_str MEM' = ''$mem''"
| "var_str ATTR_LEN' = ''$scmp_data_len''"
| "var_str ATTR_SYSCALL' = ''$syscall_nr''"
| "var_str ATTR_ARCH' = ''$arch''"
| "var_str ATTR_LOWPC' = ''$low_pc''"
| "var_str ATTR_HIGHPC' = ''$high_pc''"
| "var_str ATTR_LOWARG' = ''$low_args''"
| "var_str ATTR_HIGHARG' = ''$high_args''"

primrec bracket_str :: "bracket_tk \<Rightarrow> string" where
  "bracket_str DOT' = ''.''"
| "bracket_str LEFT_BRACKET' = ''[''"
| "bracket_str RIGHT_BRACKET' = '']''"
| "bracket_str LEFT_PAREN' = ''(''"
| "bracket_str RIGHT_PAREN' = '')''"

primrec assign_str :: "assign_tk \<Rightarrow> string" where
  "assign_str ADD_TO' = ''+=''"
| "assign_str SUB_TO' = ''-=''"
| "assign_str MULTI_TO' = ''*=''"
| "assign_str DIVIDE_TO' = ''/=''"
| "assign_str LSH_TO' = ''<<=''"
| "assign_str RSH_TO' = ''>>=''"
| "assign_str AND_TO' = ''&=''"
| "assign_str OR_TO' = ''|=''"
| "assign_str XOR_TO' = ''^=''"

primrec compare_str :: "compare_tk \<Rightarrow> string" where
  "compare_str EQUAL_EQUAL' = ''==''"
| "compare_str BANG_EQUAL' = ''!=''"
| "compare_str GREATER_EQUAL' = ''>=''"
| "compare_str GREATER_THAN' = ''>''"
| "compare_str LESS_EQUAL' = ''<=''"
| "compare_str LESS_THAN' = ''<''"
| "compare_str Tk_AND' = ''&''"

primrec sign_str :: "sign_tk \<Rightarrow> string" where
  "sign_str EQUAL' = ''=''"
| "sign_str NEGATIVE' = ''-''"
| "sign_str BANG' = ''!''"

primrec lex_str :: "lex_tk \<Rightarrow> string" where
  "lex_str NUMBER' = ''number''"
| "lex_str IDENTIFIER' = ''identifier''"
| "lex_str UNKNOWN' = ''unknown''"
| "lex_str COMMENT' = ''#''"
| "lex_str EOL' = ''line_end''"
| "lex_str TOKEN_EOF' = ''eof''"
| "lex_str LABEL_DECL' = ''label_decl''"
| "lex_str OVERFLOW_NUMBER' = ''ERANGE''"

primrec token_pairs :: "token_type \<Rightarrow> string" where
  "token_pairs (Arch_tk t) = arch_str t"
| "token_pairs (Action_tk t) = action_str t"
| "token_pairs (Keyword_tk t) = keyword_str t"
| "token_pairs (Var_tk t) = var_str t"
| "token_pairs (Bracket_tk t) = bracket_str t"
| "token_pairs (Assign_tk t) = assign_str t"
| "token_pairs (Compare_tk t) = compare_str t"
| "token_pairs (Sign_tk t) = sign_str t"
| "token_pairs (Lex_tk t) = lex_str t"

definition token_order :: "token_type list" where
  "token_order =
    [ARCH_X86, ARCH_I686, ARCH_X86_64, ARCH_X32, ARCH_AARCH64, ARCH_ARMV8L, ARCH_ARMV7L
     , ARCH_ARM, ARCH_LOONGARCH64, ARCH_M68K, ARCH_MIPSEL64N32, ARCH_MIPSEL64
     , ARCH_MIPSEL, ARCH_MIPS64N32, ARCH_MIPS64, ARCH_MIPS, ARCH_PARISC64, ARCH_PARISC
     , ARCH_PPC64LE, ARCH_PPC64, ARCH_PPC, ARCH_S390X, ARCH_S390, ARCH_RISCV64, ARCH_SH4
     , ARCH_SHEB, ARCH_SH, KILL_PROC, KILL, ALLOW, NOTIFY, LOG, TRACE, TRAP, ERRNO
     , RETURN, IF, GOTO, ELSE, COMMA, Tk_A, Tk_X, MEM, ATTR_LEN, ATTR_SYSCALL, ATTR_ARCH
     , ATTR_LOWPC, ATTR_HIGHPC, ATTR_LOWARG, ATTR_HIGHARG, DOT, LEFT_BRACKET
     , RIGHT_BRACKET, LEFT_PAREN, RIGHT_PAREN, ADD_TO, SUB_TO, MULTI_TO, DIVIDE_TO
     , LSH_TO, RSH_TO, AND_TO, OR_TO, XOR_TO, EQUAL_EQUAL, BANG_EQUAL, GREATER_EQUAL
     , GREATER_THAN, LESS_EQUAL, LESS_THAN, Tk_AND, EQUAL, NEGATIVE, BANG, NUMBER
     , IDENTIFIER, UNKNOWN, COMMENT, EOL, TOKEN_EOF, LABEL_DECL, OVERFLOW_NUMBER]"

section \<open>The order of the enum\<close>

lemma token_order_nth: "token_order ! tk_num t = t"
  apply (cases t)
  by (rename_tac x; case_tac x; simp add: token_order_def)+

lemma tk_num_inj: "tk_num s = tk_num t \<Longrightarrow> s = t"
  by (metis token_order_nth)

instantiation token_type :: linorder
begin

definition less_eq_token_type :: "token_type \<Rightarrow> token_type \<Rightarrow> bool" where
  "s \<le> t \<longleftrightarrow> tk_num s \<le> tk_num t"

definition less_token_type :: "token_type \<Rightarrow> token_type \<Rightarrow> bool" where
  "s < t \<longleftrightarrow> tk_num s < tk_num t"

instance
  by standard (auto simp: less_eq_token_type_def less_token_type_def intro: tk_num_inj)

end

text \<open>\<open>type >= from && type <= to\<close>.\<close>

definition tk_between :: "token_type \<Rightarrow> token_type \<Rightarrow> token_type \<Rightarrow> bool" where
  "tk_between from to t = (from \<le> t \<and> t \<le> to)"

lemma tk_between_num: "tk_between a b t = (tk_num a \<le> tk_num t \<and> tk_num t \<le> tk_num b)"
  by (simp add: tk_between_def less_eq_token_type_def)

text \<open>The ranges the code tests, read off the order.\<close>

lemma between_arch [tok_simps]: "tk_between ARCH_X86 ARCH_SH t = (\<exists>a. t = Arch_tk a)"
  apply (cases t)
  by (rename_tac x; case_tac x; simp add: tk_between_num)+

lemma between_assign [tok_simps]: "tk_between ADD_TO XOR_TO t = (\<exists>a. t = Assign_tk a)"
  apply (cases t)
  by (rename_tac x; case_tac x; simp add: tk_between_num)+

lemma between_compare [tok_simps]: "tk_between EQUAL_EQUAL Tk_AND t = (\<exists>c. t = Compare_tk c)"
  apply (cases t)
  by (rename_tac x; case_tac x; simp add: tk_between_num)+

lemma between_shift [tok_simps]: "tk_between LSH_TO RSH_TO t = (t = LSH_TO \<or> t = RSH_TO)"
  apply (cases t)
  by (rename_tac x; case_tac x; simp add: tk_between_num)+

lemma between_data_action [tok_simps]:
  "tk_between TRACE ERRNO t = (t = TRACE \<or> t = TRAP \<or> t = ERRNO)"
  apply (cases t)
  by (rename_tac x; case_tac x; simp add: tk_between_num)+

lemma between_plain_action [tok_simps]:
  "tk_between KILL_PROC LOG t =
     (t = KILL_PROC \<or> t = KILL \<or> t = ALLOW \<or> t = NOTIFY \<or> t = LOG)"
  apply (cases t)
  by (rename_tac x; case_tac x; simp add: tk_between_num)+

lemma between_lvalue [tok_simps]: "tk_between Tk_A MEM t = (t = Tk_A \<or> t = Tk_X \<or> t = MEM)"
  apply (cases t)
  by (rename_tac x; case_tac x; simp add: tk_between_num)+

lemma between_plain_attr [tok_simps]:
  "tk_between ATTR_LEN ATTR_HIGHPC t =
     (t = ATTR_LEN \<or> t = ATTR_SYSCALL \<or> t = ATTR_ARCH \<or> t = ATTR_LOWPC \<or> t = ATTR_HIGHPC)"
  apply (cases t)
  by (rename_tac x; case_tac x; simp add: tk_between_num)+

lemma between_abs_attr [tok_simps]:
  "tk_between ATTR_SYSCALL ATTR_HIGHARG t =
     (t = ATTR_SYSCALL \<or> t = ATTR_ARCH \<or> t = ATTR_LOWPC \<or> t = ATTR_HIGHPC
      \<or> t = ATTR_LOWARG \<or> t = ATTR_HIGHARG)"
  apply (cases t)
  by (rename_tac x; case_tac x; simp add: tk_between_num)+

section \<open>Tokens\<close>

text \<open>
  \<open>token_start\<close> is a pointer into the source map: an index, or \<open>None\<close> for the \<open>NULL\<close>
  the scanner uses at the end of the file.
\<close>

record token_t =
  tk_type :: token_type
  tk_start :: "nat option"
  tk_len :: u16
  tk_line_nr :: u16
  tk_data :: u32

text \<open>No spelling is empty or holds a line break or a NUL.\<close>

lemma token_pairs_ne [simp]: "token_pairs t \<noteq> []"
  apply (cases t)
  by (rename_tac x; case_tac x; simp)+

lemma token_pairs_chars: "c \<in> set (token_pairs t) \<Longrightarrow> c \<noteq> CHR 0x0A \<and> c \<noteq> CHR 0x00"
  apply (cases t)
  by (rename_tac x; case_tac x; auto)+


end
