(* ===== verification/Arch_Trans.thy ===== *)
theory Arch_Trans
  imports Tokens "HOL-Library.Sublist"
begin

text \<open>
  \<open>src/utils/arch_trans.c\<close> and \<open>include/x-macro/arch_table.h\<close>: the maps between the
  internal architecture tokens, their names, and libseccomp's \<open>SCMP_ARCH_*\<close> numbers.

  libseccomp is not part of the repository, so what the code uses of it is a parameter, the
  record \<open>scmp_lib\<close>: the macros \<open>SCMP_ARCH_*\<close> (keyed by the internal architecture that the
  table pairs them with), whether the installed version is 2.6 or later, and the two name
  lookups. The lemmas show that the table is inverted by the reverse lookup and that the name
  lookup finds the longest architecture name at the head of a text.
\<close>

section \<open>libseccomp\<close>

record scmp_lib =
  scmp_arch_macro :: "arch_tk \<Rightarrow> u32"
  scmp_ver_2_6 :: bool
  syscall_resolve_name_arch :: "u32 \<Rightarrow> string \<Rightarrow> u32"
  syscall_resolve_num_arch :: "u32 \<Rightarrow> u32 \<Rightarrow> string option"

section \<open>The architecture table\<close>

text \<open>The entries of the X-macro table in order; those libseccomp only has since 2.6.\<close>

definition arch_table_all :: "arch_tk list" where
  "arch_table_all =
    [ARCH_X86', ARCH_X86_64', ARCH_X32', ARCH_AARCH64', ARCH_ARM',
     ARCH_LOONGARCH64', ARCH_M68K', ARCH_SH', ARCH_SHEB',
     ARCH_MIPSEL64N32', ARCH_MIPSEL64', ARCH_MIPSEL', ARCH_MIPS64N32', ARCH_MIPS64',
     ARCH_MIPS', ARCH_PARISC64', ARCH_PARISC', ARCH_PPC64LE', ARCH_PPC64', ARCH_PPC',
     ARCH_S390X', ARCH_S390', ARCH_RISCV64']"

definition arch_since_2_6 :: "arch_tk list" where
  "arch_since_2_6 = [ARCH_LOONGARCH64', ARCH_M68K', ARCH_SH', ARCH_SHEB']"

definition arch_table :: "scmp_lib \<Rightarrow> (arch_tk \<times> u32) list" where
  "arch_table lib =
     map (\<lambda>a. (a, scmp_arch_macro lib a))
       (filter (\<lambda>a. scmp_ver_2_6 lib \<or> a \<notin> set arch_since_2_6) arch_table_all)"

primrec scmp_arch_name :: "arch_tk \<Rightarrow> string" where
  "scmp_arch_name ARCH_X86' = ''SCMP_ARCH_X86''"
| "scmp_arch_name ARCH_I686' = ''SCMP_ARCH_X86''"
| "scmp_arch_name ARCH_X86_64' = ''SCMP_ARCH_X86_64''"
| "scmp_arch_name ARCH_X32' = ''SCMP_ARCH_X32''"
| "scmp_arch_name ARCH_AARCH64' = ''SCMP_ARCH_AARCH64''"
| "scmp_arch_name ARCH_ARMV8L' = ''SCMP_ARCH_ARM''"
| "scmp_arch_name ARCH_ARMV7L' = ''SCMP_ARCH_ARM''"
| "scmp_arch_name ARCH_ARM' = ''SCMP_ARCH_ARM''"
| "scmp_arch_name ARCH_LOONGARCH64' = ''SCMP_ARCH_LOONGARCH64''"
| "scmp_arch_name ARCH_M68K' = ''SCMP_ARCH_M68K''"
| "scmp_arch_name ARCH_MIPSEL64N32' = ''SCMP_ARCH_MIPSEL64N32''"
| "scmp_arch_name ARCH_MIPSEL64' = ''SCMP_ARCH_MIPSEL64''"
| "scmp_arch_name ARCH_MIPSEL' = ''SCMP_ARCH_MIPSEL''"
| "scmp_arch_name ARCH_MIPS64N32' = ''SCMP_ARCH_MIPS64N32''"
| "scmp_arch_name ARCH_MIPS64' = ''SCMP_ARCH_MIPS64''"
| "scmp_arch_name ARCH_MIPS' = ''SCMP_ARCH_MIPS''"
| "scmp_arch_name ARCH_PARISC64' = ''SCMP_ARCH_PARISC64''"
| "scmp_arch_name ARCH_PARISC' = ''SCMP_ARCH_PARISC''"
| "scmp_arch_name ARCH_PPC64LE' = ''SCMP_ARCH_PPC64LE''"
| "scmp_arch_name ARCH_PPC64' = ''SCMP_ARCH_PPC64''"
| "scmp_arch_name ARCH_PPC' = ''SCMP_ARCH_PPC''"
| "scmp_arch_name ARCH_S390X' = ''SCMP_ARCH_S390X''"
| "scmp_arch_name ARCH_S390' = ''SCMP_ARCH_S390''"
| "scmp_arch_name ARCH_RISCV64' = ''SCMP_ARCH_RISCV64''"
| "scmp_arch_name ARCH_SH4' = ''SCMP_ARCH_SH''"
| "scmp_arch_name ARCH_SHEB' = ''SCMP_ARCH_SHEB''"
| "scmp_arch_name ARCH_SH' = ''SCMP_ARCH_SH''"

section \<open>From internal architectures to libseccomp and back\<close>

definition arch_pairs :: "scmp_lib \<Rightarrow> arch_tk \<Rightarrow> u32" where
  "arch_pairs lib a =
     (case a of
        ARCH_I686' \<Rightarrow> scmp_arch_macro lib ARCH_X86'
      | ARCH_ARMV7L' \<Rightarrow> scmp_arch_macro lib ARCH_ARM'
      | ARCH_ARMV8L' \<Rightarrow> scmp_arch_macro lib ARCH_ARM'
      | ARCH_SH4' \<Rightarrow> (if scmp_ver_2_6 lib then scmp_arch_macro lib ARCH_SH' else - 1)
      | _ \<Rightarrow> (case map_of (arch_table lib) a of Some v \<Rightarrow> v | None \<Rightarrow> - 1))"

definition internal_arch_to_scmp_arch :: "scmp_lib \<Rightarrow> token_type \<Rightarrow> u32" where
  "internal_arch_to_scmp_arch lib t =
     (case t of Arch_tk a \<Rightarrow> arch_pairs lib a | _ \<Rightarrow> - 1)"

text \<open>The \<open>switch\<close> over the table; \<open>None\<close> is the \<open>-1\<close> behind it.\<close>

definition scmp_arch_to_internal_arch :: "scmp_lib \<Rightarrow> u32 \<Rightarrow> token_type option" where
  "scmp_arch_to_internal_arch lib v =
     map_option (\<lambda>e. Arch_tk (fst e)) (find (\<lambda>e. snd e = v) (arch_table lib))"

definition scmp_arch_to_internal_str :: "scmp_lib \<Rightarrow> u32 \<Rightarrow> string option" where
  "scmp_arch_to_internal_str lib v = map_option token_pairs (scmp_arch_to_internal_arch lib v)"

definition scmp_arch_to_scmp_str :: "scmp_lib \<Rightarrow> u32 \<Rightarrow> string cres" where
  "scmp_arch_to_scmp_str lib v =
     (case find (\<lambda>e. snd e = v) (arch_table lib) of
        Some e \<Rightarrow> Done (scmp_arch_name (fst e))
      | None \<Rightarrow> Crash ''Unexpected unknown scmp_arch'')"

section \<open>Architecture names\<close>

text \<open>\<open>!strncmp (s, t, n)\<close>.\<close>

fun strncmp_eq :: "string \<Rightarrow> string \<Rightarrow> nat \<Rightarrow> bool" where
  "strncmp_eq s t 0 = True"
| "strncmp_eq s t (Suc n) =
     (char_at s 0 = char_at t 0
      \<and> (char_at s 0 = CHR 0x00 \<or> strncmp_eq (drop 1 s) (drop 1 t) n))"

definition maybe_match_arch :: "string \<Rightarrow> bool \<Rightarrow> arch_tk \<Rightarrow> bool" where
  "maybe_match_arch s strict a =
     strncmp_eq s (arch_str a) (length (arch_str a) + (if strict then 1 else 0))"

text \<open>The cases of the \<open>switch\<close> on the first character, each with its tries in order.\<close>

definition arch_cases :: "char \<Rightarrow> arch_tk list" where
  "arch_cases c =
     (if c = CHR ''i'' then [ARCH_X86', ARCH_I686']
      else if c = CHR ''x'' then [ARCH_X86_64', ARCH_X32']
      else if c = CHR ''a'' then [ARCH_AARCH64', ARCH_ARMV8L', ARCH_ARMV7L', ARCH_ARM']
      else if c = CHR ''l'' then [ARCH_LOONGARCH64']
      else if c = CHR ''m'' then
        [ARCH_M68K', ARCH_MIPSEL64N32', ARCH_MIPSEL64', ARCH_MIPSEL', ARCH_MIPS64N32',
         ARCH_MIPS64', ARCH_MIPS']
      else if c = CHR ''p'' then
        [ARCH_PARISC64', ARCH_PARISC', ARCH_PPC64LE', ARCH_PPC64', ARCH_PPC']
      else if c = CHR ''s'' then [ARCH_S390X', ARCH_S390', ARCH_SH4', ARCH_SHEB', ARCH_SH']
      else if c = CHR ''r'' then [ARCH_RISCV64']
      else [])"

definition str_to_internal_arch :: "string \<Rightarrow> bool \<Rightarrow> token_type" where
  "str_to_internal_arch s strict =
     (case find (maybe_match_arch s strict) (arch_cases (char_at s 0)) of
        Some a \<Rightarrow> Arch_tk a
      | None \<Rightarrow> UNKNOWN)"

definition str_to_scmp_arch :: "scmp_lib \<Rightarrow> string \<Rightarrow> bool \<Rightarrow> u32" where
  "str_to_scmp_arch lib s strict =
     (let tk = str_to_internal_arch s strict in
      if tk = UNKNOWN then - 1 else internal_arch_to_scmp_arch lib tk)"

section \<open>Name lookup\<close>

lemma strncmp_eq_prefix: "CHR 0x00 \<notin> set t \<Longrightarrow> strncmp_eq s t (length t) = prefix t s"
proof (induction t arbitrary: s)
  case (Cons x t)
  then show ?case by (cases s) auto
qed simp

lemma strncmp_eq_full:
  "CHR 0x00 \<notin> set t \<Longrightarrow> CHR 0x00 \<notin> set s \<Longrightarrow> strncmp_eq s t (Suc (length t)) = (s = t)"
proof (induction t arbitrary: s)
  case Nil
  then show ?case by (cases s) auto
next
  case (Cons x t)
  then show ?case by (cases s) auto
qed

lemma arch_str_no_nul: "CHR 0x00 \<notin> set (arch_str a)"
  using token_pairs_chars [of _ "Arch_tk a"] by auto

lemma maybe_match_arch_prefix: "maybe_match_arch s False a = prefix (arch_str a) s"
  by (simp add: maybe_match_arch_def strncmp_eq_prefix arch_str_no_nul)

lemma maybe_match_arch_full: "CHR 0x00 \<notin> set s \<Longrightarrow> maybe_match_arch s True a = (s = arch_str a)"
  using strncmp_eq_full [OF arch_str_no_nul, of s a] by (simp add: maybe_match_arch_def)

lemma arch_str_inj: "arch_str a = arch_str b \<Longrightarrow> a = b"
  by (cases a; cases b; simp)

lemma arch_str_ne: "arch_str a \<noteq> []"
  using token_pairs_ne [of "Arch_tk a"] by simp

lemma in_arch_cases: "a \<in> set (arch_cases (hd (arch_str a)))"
  by (cases a; simp add: arch_cases_def)

text \<open>In every case of the \<open>switch\<close>, a longer name is tried before its prefixes.\<close>

lemma arch_cases_sorted:
  "sorted_wrt (\<lambda>a b. \<not> prefix (arch_str a) (arch_str b)) (arch_cases c)"
  by (simp add: arch_cases_def)

lemma arch_cases_hd:
  "prefix (arch_str a) s \<Longrightarrow> char_at s 0 = hd (arch_str a)"
  using arch_str_ne [of a] by (auto simp: prefix_def hd_append hd_conv_nth nth_append)

lemma find_longest:
  assumes "sorted_wrt (\<lambda>a b. \<not> prefix (f a) (f b)) xs"
    and "find (\<lambda>a. prefix (f a) s) xs = Some a" and "b \<in> set xs" and "prefix (f b) s"
  shows "length (f b) \<le> length (f a)"
  using assms
proof (induction xs)
  case (Cons x xs)
  show ?case
  proof (cases "prefix (f x) s")
    case True
    with Cons.prems have "a = x" by simp
    with Cons.prems True show ?thesis
      by (auto dest: prefix_same_cases prefix_length_le)
  next
    case False
    with Cons show ?thesis by auto
  qed
qed simp

lemma str_to_internal_arch_iff:
  "str_to_internal_arch s False = Arch_tk a \<longleftrightarrow>
     prefix (arch_str a) s \<and> (\<forall>b. prefix (arch_str b) s \<longrightarrow> length (arch_str b) \<le> length (arch_str a))"
proof -
  let ?xs = "arch_cases (char_at s 0)"
  have found: "prefix (arch_str b) s \<Longrightarrow> b \<in> set ?xs" for b
    using in_arch_cases [of b] by (simp add: arch_cases_hd)
  have longest: "length (arch_str b) \<le> length (arch_str c)"
    if "find (maybe_match_arch s False) ?xs = Some c" "prefix (arch_str b) s" for b c
    using find_longest [OF arch_cases_sorted, of s "char_at s 0" c b] that found
    by (simp add: maybe_match_arch_prefix [abs_def])
  show ?thesis
  proof (cases "find (maybe_match_arch s False) ?xs")
    case None
    with found have "\<not> prefix (arch_str a) s"
      by (auto simp: find_None_iff maybe_match_arch_prefix)
    with None show ?thesis by (simp add: str_to_internal_arch_def)
  next
    case (Some c)
    then have c: "prefix (arch_str c) s" by (auto simp: find_Some_iff maybe_match_arch_prefix)
    have "c = a" if "prefix (arch_str a) s"
      "\<forall>b. prefix (arch_str b) s \<longrightarrow> length (arch_str b) \<le> length (arch_str a)"
    proof -
      from that c longest [OF Some] have "length (arch_str c) = length (arch_str a)"
        by (simp add: order_antisym)
      with prefix_same_cases [OF c that(1)] have "arch_str c = arch_str a"
        by (auto simp: prefix_def)
      then show ?thesis by (rule arch_str_inj)
    qed
    with Some c longest show ?thesis by (auto simp: str_to_internal_arch_def)
  qed
qed

lemma str_to_internal_arch_strict_iff:
  assumes "CHR 0x00 \<notin> set s"
  shows "str_to_internal_arch s True = Arch_tk a \<longleftrightarrow> s = arch_str a"
proof -
  let ?xs = "arch_cases (char_at s 0)"
  show ?thesis
  proof (cases "find (maybe_match_arch s True) ?xs")
    case None
    then have "s \<noteq> arch_str a"
      using in_arch_cases [of a] arch_cases_hd [of a s]
      by (auto simp: find_None_iff maybe_match_arch_full [OF assms])
    with None show ?thesis by (simp add: str_to_internal_arch_def)
  next
    case (Some c)
    then have "s = arch_str c" by (auto simp: find_Some_iff maybe_match_arch_full [OF assms])
    with Some show ?thesis by (auto simp: str_to_internal_arch_def dest: arch_str_inj)
  qed
qed

section \<open>Table lookup\<close>

text \<open>The entry an alias shares: what the reverse lookup returns.\<close>

definition canonical_arch :: "arch_tk \<Rightarrow> arch_tk" where
  "canonical_arch a =
     (case a of ARCH_I686' \<Rightarrow> ARCH_X86' | ARCH_ARMV7L' \<Rightarrow> ARCH_ARM' | ARCH_ARMV8L' \<Rightarrow> ARCH_ARM'
      | ARCH_SH4' \<Rightarrow> ARCH_SH' | _ \<Rightarrow> a)"

definition arch_available :: "scmp_lib \<Rightarrow> arch_tk \<Rightarrow> bool" where
  "arch_available lib a = (scmp_ver_2_6 lib \<or> canonical_arch a \<notin> set arch_since_2_6)"

text \<open>
  The table is compiled into the labels of a C \<open>switch\<close>, which have to be distinct: the
  macros of the installed libseccomp satisfy this or the file does not compile.
\<close>

definition scmp_macros_distinct :: "scmp_lib \<Rightarrow> bool" where
  "scmp_macros_distinct lib = distinct (map snd (arch_table lib))"

lemma distinct_arch_table_all: "distinct arch_table_all"
  by (simp add: arch_table_all_def)

lemma arch_table_fst: "map fst (arch_table lib) =
    filter (\<lambda>a. scmp_ver_2_6 lib \<or> a \<notin> set arch_since_2_6) arch_table_all"
  by (simp add: arch_table_def comp_def)

lemma map_of_arch_table:
  "a \<in> set arch_table_all \<Longrightarrow> scmp_ver_2_6 lib \<or> a \<notin> set arch_since_2_6 \<Longrightarrow>
   map_of (arch_table lib) a = Some (scmp_arch_macro lib a)"
  by (simp add: arch_table_def map_of_map_restrict restrict_map_def)

lemma arch_pairs_available:
  "arch_available lib a \<Longrightarrow> arch_pairs lib a = scmp_arch_macro lib (canonical_arch a)"
  by (cases a)
     (simp_all add: arch_pairs_def arch_available_def canonical_arch_def map_of_arch_table
       arch_table_all_def arch_since_2_6_def)

lemma canonical_in_table:
  "arch_available lib a \<Longrightarrow>
   (canonical_arch a, scmp_arch_macro lib (canonical_arch a)) \<in> set (arch_table lib)"
  by (cases a)
     (auto simp: arch_table_def arch_available_def canonical_arch_def arch_table_all_def
       arch_since_2_6_def)

lemma find_snd_distinct:
  "distinct (map snd xs) \<Longrightarrow> (k, v) \<in> set xs \<Longrightarrow> find (\<lambda>e. snd e = v) xs = Some (k, v)"
  by (induction xs) (auto simp: rev_image_eqI)

lemma scmp_arch_inverse:
  assumes "scmp_macros_distinct lib" and "arch_available lib a"
  shows "scmp_arch_to_internal_arch lib (internal_arch_to_scmp_arch lib (Arch_tk a))
         = Some (Arch_tk (canonical_arch a))"
  using find_snd_distinct [OF _ canonical_in_table [OF assms(2)]] assms
  by (simp add: scmp_arch_to_internal_arch_def internal_arch_to_scmp_arch_def
      arch_pairs_available scmp_macros_distinct_def)

end
