(* ===== verification/Numbers.thy ===== *)
theory Numbers
  imports Prelude
begin

text \<open>
  Numbers as text: the conversions \<open>%u\<close>, \<open>%x\<close>, \<open>%#x\<close> and the zero-padded forms the
  printers use, and \<open>strtoul\<close>/\<open>strtoull\<close> with base 0 and 10 as the scanner, the
  emulator and the option parser call them. The C library is modelled by what the code uses
  of it. The round trips show that a number printed in decimal or as \<open>0x...\<close> is read back
  unchanged, which the printed disassembly rests on.
\<close>

section \<open>Printing\<close>

definition digit_char :: "nat \<Rightarrow> char" where
  "digit_char d = char_of (if d < 10 then 48 + d else 87 + d)"

function base_str :: "nat \<Rightarrow> nat \<Rightarrow> string" where
  "base_str b n =
     (if b < 2 \<or> n < b then [digit_char n] else base_str b (n div b) @ [digit_char (n mod b)])"
  by pat_completeness auto
termination
  by (relation "measure snd") auto

declare base_str.simps [simp del]

text \<open>\<open>%u\<close> and \<open>%d\<close> of a non-negative number, \<open>%x\<close>, \<open>%#x\<close>, and zero padding.\<close>

definition dec_str :: "nat \<Rightarrow> string" where
  "dec_str n = base_str 10 n"

definition hex_str :: "nat \<Rightarrow> string" where
  "hex_str n = base_str 16 n"

definition alt_hex_str :: "nat \<Rightarrow> string" where
  "alt_hex_str n = (if n = 0 then ''0'' else ''0x'' @ hex_str n)"

definition pad0 :: "nat \<Rightarrow> string \<Rightarrow> string" where
  "pad0 w s = replicate (w - length s) CHR ''0'' @ s"

section \<open>strtoull\<close>

text \<open>The value of a digit, 36 for a character that is none.\<close>

definition digit_val :: "char \<Rightarrow> nat" where
  "digit_val c =
     (if isdigit_l c then of_char c - 48
      else if islower_l c then of_char c - 87
      else if isupper_l c then of_char c - 55
      else 36)"

definition num_val :: "nat \<Rightarrow> string \<Rightarrow> nat" where
  "num_val b s = foldl (\<lambda>a c. a * b + digit_val c) 0 s"

text \<open>\<open>strtoull (s, &end, base)\<close>: the value, \<open>end - s\<close>, and whether \<open>errno\<close> is \<open>ERANGE\<close>.\<close>

definition strtoull :: "nat \<Rightarrow> string \<Rightarrow> u64 \<times> nat \<times> bool" where
  "strtoull base s =
     (let ws = length (takeWhile isspace_l s);
          s1 = drop ws s;
          neg = (s1 \<noteq> [] \<and> hd s1 = CHR ''-'');
          sg = (if s1 \<noteq> [] \<and> (hd s1 = CHR ''-'' \<or> hd s1 = CHR ''+'') then 1 else 0);
          s2 = drop sg s1;
          hexpre = ((base = 0 \<or> base = 16) \<and> char_at s2 0 = CHR ''0''
                    \<and> (char_at s2 1 = CHR ''x'' \<or> char_at s2 1 = CHR ''X'')
                    \<and> digit_val (char_at s2 2) < 16);
          pre = (if hexpre then 2 else 0);
          b = (if hexpre then 16
               else if base = 0 then (if char_at s2 0 = CHR ''0'' then 8 else 10)
               else base);
          ds = takeWhile (\<lambda>c. digit_val c < b) (drop pre s2);
          v = num_val b ds
      in if ds = [] then (0, 0, False)
         else if 2 ^ 64 \<le> v then (- 1, ws + sg + pre + length ds, True)
         else (if neg then - of_nat v else of_nat v, ws + sg + pre + length ds, False))"

section \<open>Digits\<close>

text \<open>Each fact on the sixteen digits is one evaluation.\<close>

definition digit_ok :: "nat \<Rightarrow> bool" where
  "digit_ok d = (let c = digit_char d in
     digit_val c = d \<and> \<not> isspace_l c \<and> c \<noteq> CHR ''-'' \<and> c \<noteq> CHR ''+'' \<and> isalnum_l c
     \<and> c \<noteq> CHR ''x'' \<and> c \<noteq> CHR ''X'' \<and> (d \<noteq> 0 \<longrightarrow> c \<noteq> CHR ''0'') \<and> (d < 10 \<longrightarrow> isdigit_l c))"

lemma digit_ok: "d < 16 \<Longrightarrow> digit_ok d"
proof -
  have "list_all digit_ok [0..<16]" by code_simp
  then show "d < 16 \<Longrightarrow> digit_ok d" by (simp add: list_all_iff)
qed

lemma digit_val_digit_char [simp]: "d < 16 \<Longrightarrow> digit_val (digit_char d) = d"
  using digit_ok [of d] by (simp add: digit_ok_def Let_def)

lemma digit_char_0: "digit_char 0 = CHR ''0''"
  by code_simp

section \<open>Reading back what was printed\<close>

lemma base_str_ne [simp]: "base_str b n \<noteq> []"
  by (subst base_str.simps) simp

lemma base_str_digits:
  "2 \<le> b \<Longrightarrow> b \<le> 16 \<Longrightarrow> c \<in> set (base_str b n) \<Longrightarrow> \<exists>d < b. c = digit_char d"
proof (induction b n rule: base_str.induct)
  case (1 b n)
  show ?case
  proof (cases "n < b")
    case True
    with 1 show ?thesis by (subst (asm) base_str.simps) auto
  next
    case False
    with 1(2,4) have "c \<in> set (base_str b (n div b)) \<or> c = digit_char (n mod b)"
      by (subst (asm) base_str.simps) auto
    with 1(1-3) False show ?thesis by (auto intro: exI [of _ "n mod b"])
  qed
qed

lemma num_val_append: "num_val b (s @ [c]) = num_val b s * b + digit_val c"
  by (simp add: num_val_def)

lemma num_val_base_str: "2 \<le> b \<Longrightarrow> b \<le> 16 \<Longrightarrow> num_val b (base_str b n) = n"
proof (induction b n rule: base_str.induct)
  case (1 b n)
  show ?case
  proof (cases "n < b")
    case True
    with 1(2,3) show ?thesis by (subst base_str.simps) (simp add: num_val_def)
  next
    case False
    with 1 have "num_val b (base_str b (n div b)) = n div b" by simp
    moreover from 1(2,3) have "n mod b < 16"
      by (intro less_le_trans [OF mod_less_divisor]) auto
    ultimately show ?thesis using False 1(2)
      by (subst base_str.simps) (simp add: num_val_append)
  qed
qed

lemma hd_base_str: "2 \<le> b \<Longrightarrow> b \<le> 16 \<Longrightarrow> 0 < n \<Longrightarrow> \<exists>d. 0 < d \<and> d < b \<and> hd (base_str b n) = digit_char d"
proof (induction b n rule: base_str.induct)
  case (1 b n)
  show ?case
  proof (cases "n < b")
    case True
    with 1 show ?thesis by (subst base_str.simps) auto
  next
    case False
    with 1(2) have "0 < n div b" by (simp add: div_greater_zero_iff)
    with 1 False show ?thesis by (subst base_str.simps) simp
  qed
qed

lemma takeWhile_digits:
  assumes "2 \<le> b" "b \<le> 16" and rest: "rest = [] \<or> \<not> isalnum_l (hd rest)"
  shows "takeWhile (\<lambda>c. digit_val c < b) (base_str b n @ rest) = base_str b n"
proof -
  have "\<And>c. c \<in> set (base_str b n) \<Longrightarrow> digit_val c < b"
    using base_str_digits [OF assms(1,2)] assms(2) by fastforce
  moreover have "takeWhile (\<lambda>c. digit_val c < b) rest = []"
    using rest assms(2) by (cases rest) (auto simp: digit_val_def isalnum_l_def isalpha_l_def)
  ultimately show ?thesis by (simp add: takeWhile_append2)
qed

text \<open>A decimal number is read back, whatever follows it that is no letter or digit.\<close>

lemma strtoull_dec:
  assumes n: "n < 2 ^ 64" and rest: "rest = [] \<or> \<not> isalnum_l (hd rest)"
  shows "strtoull 0 (dec_str n @ rest) = (of_nat n, length (dec_str n), False)"
proof -
  let ?s = "dec_str n @ rest"
  obtain d where d: "d < 10" "hd ?s = digit_char d" "0 < n \<longrightarrow> 0 < d"
    using hd_base_str [of 10 n] base_str_digits [of 10 "hd (base_str 10 n)" n]
    by (cases "0 < n") (auto simp: dec_str_def)
  note ok = digit_ok [of d, unfolded digit_ok_def Let_def]
  have ne: "?s \<noteq> []" by (simp add: dec_str_def)
  have h: "char_at ?s 0 = digit_char d" using d ne by (simp add: hd_conv_nth)
  have ws: "takeWhile isspace_l ?s = []"
    using ok d ne by (cases ?s) auto
  show ?thesis
  proof (cases "0 < n")
    case True
    with d ok have nz: "char_at ?s 0 \<noteq> CHR ''0''" using h by simp
    have tw: "takeWhile (\<lambda>c. digit_val c < 10) ?s = dec_str n"
      unfolding dec_str_def by (rule takeWhile_digits [OF _ _ rest]) auto
    have "num_val 10 (dec_str n) = n" unfolding dec_str_def by (rule num_val_base_str) auto
    moreover have "dec_str n \<noteq> []" by (simp add: dec_str_def)
    ultimately show ?thesis
      unfolding strtoull_def Let_def ws using nz ok d n ne by (simp add: tw)
  next
    case False
    then have n0: "n = 0" by simp
    have s: "dec_str n = ''0''" by (simp add: n0 dec_str_def base_str.simps digit_char_0)
    have r1: "char_at (''0'' @ rest) 1 \<noteq> CHR ''x''" "char_at (''0'' @ rest) 1 \<noteq> CHR ''X''"
      using rest by (cases rest; auto simp: ctype_defs)+
    have "takeWhile (\<lambda>c. digit_val c < 8) rest = []"
      using rest by (cases rest) (auto simp: digit_val_def isalnum_l_def isalpha_l_def)
    moreover have "digit_val CHR ''0'' = 0" by code_simp
    ultimately have tw: "takeWhile (\<lambda>c. digit_val c < 8) (''0'' @ rest) = ''0''" by simp
    have v: "num_val 8 ''0'' = 0" by code_simp
    have ws': "takeWhile isspace_l (''0'' @ rest) = []" using ws by (simp add: s)
    have c0: "char_at (''0'' @ rest) 0 = CHR ''0''" by simp
    show ?thesis
      unfolding strtoull_def Let_def s ws' list.size drop_0 using r1 tw v c0 n0 by simp
  qed
qed

text \<open>A number printed as \<open>0x%x\<close> is read back.\<close>

lemma strtoull_hex:
  assumes n: "n < 2 ^ 64" and rest: "rest = [] \<or> \<not> isalnum_l (hd rest)"
  shows "strtoull 0 (''0x'' @ hex_str n @ rest) = (of_nat n, 2 + length (hex_str n), False)"
proof -
  let ?s = "''0x'' @ hex_str n @ rest"
  have ne: "hex_str n \<noteq> []" by (simp add: hex_str_def)
  have "hd (hex_str n) \<in> set (hex_str n)" using ne by simp
  then obtain d where d: "d < 16" "hd (hex_str n) = digit_char d"
    using base_str_digits [of 16 "hd (hex_str n)" n] by (auto simp: hex_str_def)
  have c2: "char_at ?s 2 = digit_char d"
    using d ne by (simp add: char_at_def nth_append hd_conv_nth)
  have tw: "takeWhile (\<lambda>c. digit_val c < 16) (hex_str n @ rest) = hex_str n"
    unfolding hex_str_def by (rule takeWhile_digits [OF _ _ rest]) auto
  have nv: "num_val 16 (hex_str n) = n" unfolding hex_str_def by (rule num_val_base_str) auto
  have ws: "takeWhile isspace_l ?s = []" by (simp add: isspace_l_def)
  have c01: "char_at ?s 0 = CHR ''0''" "char_at ?s 1 = CHR ''x''" by simp_all
  show ?thesis
    unfolding strtoull_def Let_def ws using c01 c2 d n ne by (simp add: tw nv)
qed

end
