(* ===== verification/Messages.thy ===== *)
theory Messages
  imports Prelude
begin

text \<open>
  The messages of \<open>include/utils/error.h\<close> that the modelled code prints or stores.
  \<open>gettext\<close> is the identity here: these are the untranslated texts, and a format keeps its
  conversions.
\<close>

definition M_UNSUPPORTED_ARCH :: string where
  "M_UNSUPPORTED_ARCH = ''Architecture name %s is not supported''"

definition M_PROBE_TERMINATED :: string where
  "M_PROBE_TERMINATED = ''Found errors when assembling BPF from trace''"

definition M_REQUEST_TMPFILE_FAILED :: string where
  "M_REQUEST_TMPFILE_FAILED = ''Failed to request a temporary file: %s''"

definition M_EMU_TERMINATED :: string where
  "M_EMU_TERMINATED = ''Found errors when assembling text before emulating''"

definition M_INPUT_SYS_NR :: string where
  "M_INPUT_SYS_NR = ''Please input syscall_nr (syscall name or number)''"

definition M_INVALID_SYSNR :: string where
  "M_INVALID_SYSNR = ''Invalid syscall_nr''"

definition M_ASM_TERMINATED :: string where
  "M_ASM_TERMINATED = ''Found errors when assembling''"

definition M_STATEMENT_OVERFLOW :: string where
  "M_STATEMENT_OVERFLOW = ''Input file has more than 4096 statements!''"

definition M_DISASM_TERMINATED :: string where
  "M_DISASM_TERMINATED = ''Found fatal errors when disassembling''"

definition M_NO_FILTER :: string where
  "M_NO_FILTER = ''The input is empty''"

definition M_TOO_LARGE_INPUT :: string where
  "M_TOO_LARGE_INPUT = ''The input is larger than 4096 filters! Perhaps inputting a wrong file?''"

definition M_INPUT_HAS_LEFTOVER :: string where
  "M_INPUT_HAS_LEFTOVER = ''%u byte(s) at the end of input could not fit into a filter''"

definition M_START_TRACING :: string where
  "M_START_TRACING = ''Start tracing process %d''"

definition M_PEEKDATA_FAILED_ADR :: string where
  "M_PEEKDATA_FAILED_ADR = ''Peekdata failed at %p''"

definition M_EXECV_ERR :: string where
  "M_EXECV_ERR = ''Failed to execute new program''"

definition M_PROCESS_FORK :: string where
  "M_PROCESS_FORK = ''Process %d spawned a new pid %d''"

definition M_PROCESS_EXIT :: string where
  "M_PROCESS_EXIT = ''Process %d exited''"

definition M_PID_BPF_SECCOMP :: string where
  "M_PID_BPF_SECCOMP = ''Process %d invoked seccomp (%s, %s, &prog)''"

definition M_PID_BPF_PRCTL :: string where
  "M_PID_BPF_PRCTL = ''Process %d invoked prctl (PR_SET_SECCOMP, %s, &prog)''"

definition M_PID_BPF_LOAD_FAIL :: string where
  "M_PID_BPF_LOAD_FAIL = ''Process %d failed to load seccomp filter: %s''"

definition M_BPF_FAIL_UNKNOWN :: string where
  "M_BPF_FAIL_UNKNOWN = ''Unknown reason''"

definition M_PROCFS_NOT_ACCESSIBLE :: string where
  "M_PROCFS_NOT_ACCESSIBLE = ''Procfs not accessible, unable to perform''"

definition M_NOT_AN_CBPF :: string where
  "M_NOT_AN_CBPF = ''Found unresolvable non-classic BPF, skipping''"

definition M_SEIZING_KERNEL_THREAD :: string where
  "M_SEIZING_KERNEL_THREAD = ''Kernel thread can not be seized''"

definition M_NO_FILTER_FOUND :: string where
  "M_NO_FILTER_FOUND = ''No seccomp filters found in process %d''"

definition M_TARGET_TRACED_BY :: string where
  "M_TARGET_TRACED_BY = ''Target process is already being traced by process %d''"

definition M_FOUND_STRICT_MODE :: string where
  "M_FOUND_STRICT_MODE = ''Process %d loaded strict seccomp mode, which only allows read, write, exit_group and sigreturn!''"

definition M_UNKNOWN_GETFILTER_ERR :: string where
  "M_UNKNOWN_GETFILTER_ERR = ''Unknown error when get filter: %s''"

definition M_UNKNOWN_SEIZE_ERR :: string where
  "M_UNKNOWN_SEIZE_ERR = ''Unknown error when seizing process: %s''"

definition M_SEIZE_NONEXIST_PROC :: string where
  "M_SEIZE_NONEXIST_PROC = ''The process to seize does not exist''"

definition ACTION_GET_FILTER :: string where
  "ACTION_GET_FILTER = ''ptrace get seccomp filters''"

definition ACTION_PTRACE_SEIZE :: string where
  "ACTION_PTRACE_SEIZE = ''ptrace seizing''"

definition M_TRACE_UNDER_ATTACK :: string where
  "M_TRACE_UNDER_ATTACK = ''Unexpected race condition detected when reading seccomp filters, please consider use capture subcommand''"

definition M_FAILED_SEIZE_CHILD :: string where
  "M_FAILED_SEIZE_CHILD = ''Can not trace child process %d, probably because it is being traced''"

definition M_CAP_SYS_PTRACE_OR_KTHREAD :: string where
  "M_CAP_SYS_PTRACE_OR_KTHREAD = ''perhaps seizing kthread or lacking CAP_SYS_PTRACE''"

definition M_REQUIRE_CAP_SYS_ADMIN :: string where
  "M_REQUIRE_CAP_SYS_ADMIN = ''Run with CAP_SYS_ADMIN capability to fetch seccomp filters''"

definition M_REQUIRE_CAP_SYS_PTRACE :: string where
  "M_REQUIRE_CAP_SYS_PTRACE = ''Run with CAP_SYS_PTRACE capability to seize a foreign process''"

definition M_CANNOT_WORK_FROM_32_TO_64 :: string where
  "M_CANNOT_WORK_FROM_32_TO_64 = ''32-bit tracer can not ptrace 64-bit tracee''"

definition M_TRACEE_ARCH_NOT_SUPPORTED :: string where
  "M_TRACEE_ARCH_NOT_SUPPORTED = ''libseccomp does not support the tracee'' @ [CHR 0x27] @ ''s arch (%#x)''"

definition M_CAP_SYS_ADMIN_OR_IN_SECCOMP :: string where
  "M_CAP_SYS_ADMIN_OR_IN_SECCOMP = ''perhaps lacking CAP_SYS_ADMIN or ceccomp is in seccomp mode''"

definition M_GET_FILTER_UNSUPPORTED :: string where
  "M_GET_FILTER_UNSUPPORTED = ''PTRACE_GET_SECCOMP_FILTER is not supported on your system''"

definition M_CECCOMP_IN_SECCOMP :: string where
  "M_CECCOMP_IN_SECCOMP = ''Ceccomp is in seccomp mode, fetching seccomp filters of other process is not permitted''"

definition M_GET_FILTER_UNSUPPORTED_OR_NO_FILTER :: string where
  "M_GET_FILTER_UNSUPPORTED_OR_NO_FILTER = ''perhaps PTRACE_GET_SECCOMP_FILTER is not supported or no seccomp filter in target process''"

definition M_INVALID_COLOR_MODE :: string where
  "M_INVALID_COLOR_MODE = ''Invalid color mode''"

definition M_INVALID_ASM_FMT :: string where
  "M_INVALID_ASM_FMT = ''Invalid asm format''"

definition M_INVALID_NUMBER :: string where
  "M_INVALID_NUMBER = ''Invalid number''"

definition M_UNABLE_OPEN_FILE :: string where
  "M_UNABLE_OPEN_FILE = ''Unable to open file %s: %s''"

definition M_READ_FAIL :: string where
  "M_READ_FAIL = ''Reading input failed: %s''"

definition M_FOUND_SUS_ZERO :: string where
  "M_FOUND_SUS_ZERO = ''Found '' @ [CHR 0x27] @ [CHR 0x5C] @ ''0'' @ [CHR 0x27] @ '' at file offset %lu, perhaps it'' @ [CHR 0x27] @ ''s not a text file?''"

definition M_FOUND_SUS_NO_LF :: string where
  "M_FOUND_SUS_NO_LF = ''No line break in source file, perhaps it'' @ [CHR 0x27] @ ''s not a text file?''"

definition M_FOUND_SUS_LINE :: string where
  "M_FOUND_SUS_LINE = ''Line %u has more than %u bytes, perhaps the input is not a text file?''"

definition M_FILE_TOO_LARGE :: string where
  "M_FILE_TOO_LARGE = ''The input file is greater than 4 MiB!''"

definition M_LINES_TOO_MANY :: string where
  "M_LINES_TOO_MANY = ''Found more than 16384 lines of text, perhaps it'' @ [CHR 0x27] @ ''s not for ceccomp?''"

definition M_CANNOT_FIND_LABEL :: string where
  "M_CANNOT_FIND_LABEL = ''Can not find label declaration''"

definition M_UNEXPECT_TOKEN :: string where
  "M_UNEXPECT_TOKEN = ''Unexpected token''"

definition M_DUPLICATED_LABEL :: string where
  "M_DUPLICATED_LABEL = ''Found duplicated label declaration''"

definition M_NUMBER_OVERFLOW :: string where
  "M_NUMBER_OVERFLOW = ''Input number exceeds 32-bit range''"

definition M_EXPECT_OPERATOR :: string where
  "M_EXPECT_OPERATOR = ''Expect operator''"

definition M_EXPECT_RIGHT_VAR :: string where
  "M_EXPECT_RIGHT_VAR = ''Expect rvalue''"

definition M_EXPECT_RETURN_VAL :: string where
  "M_EXPECT_RETURN_VAL = ''Expect return value''"

definition M_EXPECT_NUMBER :: string where
  "M_EXPECT_NUMBER = ''Expect number''"

definition M_EXPECT_PAREN :: string where
  "M_EXPECT_PAREN = ''Expect parenthesis''"

definition M_EXPECT_BRACKET :: string where
  "M_EXPECT_BRACKET = ''Expect bracket''"

definition M_EXPECT_COMPARTOR :: string where
  "M_EXPECT_COMPARTOR = ''Expect comparator''"

definition M_EXPECT_LABEL :: string where
  "M_EXPECT_LABEL = ''Expect label''"

definition M_EXPECT_SYSCALL :: string where
  "M_EXPECT_SYSCALL = ''Expect valid syscall name''"

definition M_EXPECT_ARCH :: string where
  "M_EXPECT_ARCH = ''Architecture token does not match any libseccomp arch, perhaps system libseccomp is too old''"

definition M_EXPECT_GOTO :: string where
  "M_EXPECT_GOTO = ''Expect '' @ [CHR 0x27] @ ''goto'' @ [CHR 0x27]"

definition M_EXPECT_A :: string where
  "M_EXPECT_A = ''Expect '' @ [CHR 0x27] @ ''$A'' @ [CHR 0x27]"

definition M_EXPECT_ELSE :: string where
  "M_EXPECT_ELSE = ''Expect '' @ [CHR 0x27] @ ''else'' @ [CHR 0x27]"

definition M_RIGHT_SHOULD_BE_A :: string where
  "M_RIGHT_SHOULD_BE_A = ''Rvalue should be '' @ [CHR 0x27] @ ''$A'' @ [CHR 0x27]"

definition M_RIGHT_CAN_NOT_BE_A :: string where
  "M_RIGHT_CAN_NOT_BE_A = ''Rvalue can not be '' @ [CHR 0x27] @ ''$A'' @ [CHR 0x27]"

definition M_RIGHT_CAN_NOT_BE_X :: string where
  "M_RIGHT_CAN_NOT_BE_X = ''Rvalue can not be '' @ [CHR 0x27] @ ''$X'' @ [CHR 0x27]"

definition M_RIGHT_SHOULD_BE_A_OR_X :: string where
  "M_RIGHT_SHOULD_BE_A_OR_X = ''Rvalue should be '' @ [CHR 0x27] @ ''$A'' @ [CHR 0x27] @ '' or '' @ [CHR 0x27] @ ''$X'' @ [CHR 0x27]"

definition M_RIGHT_SHOULD_BE_X_OR_NUM :: string where
  "M_RIGHT_SHOULD_BE_X_OR_NUM = ''Rvalue should be '' @ [CHR 0x27] @ ''$X'' @ [CHR 0x27] @ '' or number''"

definition M_OPERATOR_SHOULD_BE_EQUAL :: string where
  "M_OPERATOR_SHOULD_BE_EQUAL = ''Operator should be '' @ [CHR 0x27] @ ''='' @ [CHR 0x27]"

definition M_LEFT_SHOULD_BE_A :: string where
  "M_LEFT_SHOULD_BE_A = ''Lvalue should be '' @ [CHR 0x27] @ ''$A'' @ [CHR 0x27]"

definition M_INVALID_ATTR_LOAD :: string where
  "M_INVALID_ATTR_LOAD = ''seccomp_data load offset must be 4-byte aligned''"

definition M_ATTR_OFFSET_OVERFLOW :: string where
  "M_ATTR_OFFSET_OVERFLOW = ''seccomp_data load offset greater than the struct''"

definition M_ARGS_IDX_OUT_OF_RANGE :: string where
  "M_ARGS_IDX_OUT_OF_RANGE = ''Args index out of range (0-5)''"

definition M_MEM_IDX_OUT_OF_RANGE :: string where
  "M_MEM_IDX_OUT_OF_RANGE = ''Mem index out of range (0-15)''"

definition M_UNINITIALIZED_MEM :: string where
  "M_UNINITIALIZED_MEM = ''Accessing uninitialized mem''"

definition M_ALU_DIV_BY_ZERO :: string where
  "M_ALU_DIV_BY_ZERO = ''Dividing by zero''"

definition M_ALU_SH_OUT_OF_RANGE :: string where
  "M_ALU_SH_OUT_OF_RANGE = ''Left or right shifting more than 32 bits''"

definition M_RET_DATA_OVERFLOW :: string where
  "M_RET_DATA_OVERFLOW = ''Data carried by return motion exceeds 0xffff''"

definition M_JT_TOO_FAR :: string where
  "M_JT_TOO_FAR = ''JT is larger than 0xff''"

definition M_JT_MUST_BE_POSITIVE :: string where
  "M_JT_MUST_BE_POSITIVE = ''JT must be positive''"

definition M_JF_TOO_FAR :: string where
  "M_JF_TOO_FAR = ''JF is larger than 0xff''"

definition M_JF_MUST_BE_POSITIVE :: string where
  "M_JF_MUST_BE_POSITIVE = ''JF must be positive''"

definition M_JT_INVALID_TAG :: string where
  "M_JT_INVALID_TAG = ''JT out of filters''"

definition M_JF_INVALID_TAG :: string where
  "M_JF_INVALID_TAG = ''JF out of filters''"

definition M_JA_OUT_OF_FILTERS :: string where
  "M_JA_OUT_OF_FILTERS = ''JA out of filters''"

definition M_JA_MUST_BE_POSITIVE :: string where
  "M_JA_MUST_BE_POSITIVE = ''JA must be positive''"

definition M_MUST_END_WITH_RET :: string where
  "M_MUST_END_WITH_RET = ''BPF filters must end with return''"

definition M_NO_VALID_CODE :: string where
  "M_NO_VALID_CODE = ''The input does not contain any valid statement''"

definition M_INVALID_OPERATION :: string where
  "M_INVALID_OPERATION = ''Invalid or unknown operation''"

definition M_UNEXPECTED_EBPF_INSN :: string where
  "M_UNEXPECTED_EBPF_INSN = ''Unexpected bpf_insn (#%u) in kernel migrated eBPF (assertion failed at %s#L%d: %s), please open an issue and upload your eBPF case''"

definition M_SAVE_EBPF_SUCCEEDED :: string where
  "M_SAVE_EBPF_SUCCEEDED = ''Your eBPF case has been saved in %s (binary file)''"

definition M_SAVE_EBPF_FAILED :: string where
  "M_SAVE_EBPF_FAILED = ''Failed to save your eBPF case due to %s''"

definition M_EBPF_INPUT_ERROR :: string where
  "M_EBPF_INPUT_ERROR = ''#%u: Input eBPF insn does not meet assertion at %s#L%d: %s'' @ [CHR 0x0A] @ ''%s''"

definition M_FAILED_EBPF_CONVERSION :: string where
  "M_FAILED_EBPF_CONVERSION = ''Failed to convert eBPF back to cBPF''"

definition M_PROCESS_HAS_FILTER_COUNT :: string where
  "M_PROCESS_HAS_FILTER_COUNT = ''Process %d has %d seccomp filter(s)''"

definition M_UNKNOWN_PROG_ABORTED :: string where
  "M_UNKNOWN_PROG_ABORTED = ''eBPF program failed to locate seccomp filters, %s''"

definition M_UNKNOWN_TASK_ABORTED :: string where
  "M_UNKNOWN_TASK_ABORTED = ''eBPF program failed to retrieve seccomp filter in a task, %s''"

definition M_PID_NOT_FOUND :: string where
  "M_PID_NOT_FOUND = ''Process %d does not exist''"

definition M_CAPTURE_PID_HELP :: string where
  "M_CAPTURE_PID_HELP = ''please run '' @ [CHR 0x27] @ ''bpftool prog trace'' @ [CHR 0x27] @ '' for details.''"

definition M_PROG_TRUNCATED :: string where
  "M_PROG_TRUNCATED = ''Too many seccomp filters (> 32) in a task! The rest are truncated.''"

definition M_FAILED_OPEN_LOAD :: string where
  "M_FAILED_OPEN_LOAD = ''Failed to open or load eBPF prog %s''"

definition M_FAILED_UPDATE_MAP :: string where
  "M_FAILED_UPDATE_MAP = ''Failed to update eBPF map''"

definition M_FAILED_CREATE_RINGBUF :: string where
  "M_FAILED_CREATE_RINGBUF = ''Failed to create ring buffer''"

definition M_FAILED_ATTACH :: string where
  "M_FAILED_ATTACH = ''Failed to attach eBPF prog''"

definition M_CAPTURE_EBPF_IN_TASK :: string where
  "M_CAPTURE_EBPF_IN_TASK = ''Capturing new seccomp filter in process %d (%s)''"

definition M_CAPTURE_DISABLED :: string where
  "M_CAPTURE_DISABLED = ''Capture is disabled during configuration, probably due to absence of libbpf. You may rebuild it with libbpf support.''"

definition M_EBPF_NOT_CAPABLE :: string where
  "M_EBPF_NOT_CAPABLE = ''Loading eBPF program require CAP_SYS_ADMIN || (CAP_BPF && CAP_PERFMON), you may rerun ceccomp with sudo.''"

definition M_LINUX_NO_TASK_FROM_PID :: string where
  "M_LINUX_NO_TASK_FROM_PID = ''Your kernel (%d.%d) is so old that task_from_pid is not available.''"

definition M_CAPTURE_POLL_FAIL :: string where
  "M_CAPTURE_POLL_FAIL = ''Did not receive any message from eBPF!''"

definition M_CAPTURE_POLL_ERROR :: string where
  "M_CAPTURE_POLL_ERROR = ''Did not receive any message from eBPF, due to %s''"

end
