(* ===== verification/Read_Source.thy ===== *)
theory Read_Source
  imports Messages
begin

text \<open>
  \<open>src/utils/read_source.c\<close>: reading the source file into one memory map, normalising its
  line breaks and removing colour escapes in place, and handing it out line by line.

  The map is the text read so far, \<open>src_text\<close>, followed by NUL bytes up to \<open>map_len\<close>
  (anonymous memory is zero-filled, and \<open>char_at\<close> reads it so). The results of the
  successive calls of \<open>read\<close> are a parameter of \<open>init_source\<close>: \<open>None\<close> is an error, an
  empty chunk is the end of the file.
\<close>

section \<open>The state\<close>

datatype file_type_t = FT_UNKNOWN | UNIX | WINDOWS | MACOS

record source_t =
  src_text :: string
  src_current :: nat
  src_cursor :: nat
  map_len :: nat

definition GROW_LEN :: nat where "GROW_LEN = 0x4000"
definition MAX_LINE_LEN :: nat where "MAX_LINE_LEN = 0x180"
definition MAX_FILE_LEN :: nat where "MAX_FILE_LEN = 0x400000"
definition BPF_MAXINSNS :: nat where "BPF_MAXINSNS = 4096"

text \<open>\<open>text[i] = c\<close>, in the zero-filled map.\<close>

definition poke :: "string \<Rightarrow> nat \<Rightarrow> char \<Rightarrow> string" where
  "poke s i c = (if i < length s then s[i := c] else s @ replicate (i - length s) CHR 0x00 @ [c])"

section \<open>Removing colours\<close>

text \<open>The loop of \<open>clear_color\<close>: the bytes it keeps; the flag is \<open>colorstart != NULL\<close>.\<close>

fun clear_loop :: "bool \<Rightarrow> string \<Rightarrow> string" where
  "clear_loop _ [] = []"
| "clear_loop False (c # cs) =
     (if c \<noteq> CHR 0x1B then c # clear_loop False cs else clear_loop True cs)"
| "clear_loop True (c # cs) = (if c = CHR ''m'' then clear_loop False cs else clear_loop True cs)"

text \<open>
  \<open>clear_color (text + start, len)\<close>: what is kept moves to the front of the range and the
  rest of the range is zeroed.
\<close>

definition clear_color :: "string \<Rightarrow> nat \<Rightarrow> nat \<Rightarrow> string" where
  "clear_color s start len =
     (case memchr s CHR 0x1B start len of
        None \<Rightarrow> s
      | Some cursor \<Rightarrow>
          (let s' = s @ replicate (start + len - length s) CHR 0x00;
               kept = clear_loop False (slice s' cursor (start + len - cursor))
           in take cursor s' @ kept @ replicate (start + len - cursor - length kept) CHR 0x00
              @ drop (start + len) s'))"

section \<open>Line breaks\<close>

definition detect_file_type :: "string \<Rightarrow> nat \<Rightarrow> (file_type_t \<times> char) cres" where
  "detect_file_type s current =
     (case memchr s CHR 0x0A 0 current of
        None \<Rightarrow> (if memchr s CHR 0x0D 0 current \<noteq> None then Done (MACOS, CHR 0x0D)
                 else Die M_FOUND_SUS_NO_LF)
      | Some lb \<Rightarrow> Done (if lb \<noteq> 0 \<and> char_at s (lb - 1) = CHR 0x0D then WINDOWS else UNIX, CHR 0x0A))"

definition fix_break :: "file_type_t \<Rightarrow> string \<Rightarrow> nat \<Rightarrow> string" where
  "fix_break ft s lb =
     (if ft = WINDOWS then poke (poke s (lb - 1) CHR 0x0A) lb CHR 0x00 else poke s lb CHR 0x0A)"

text \<open>The loop over the lines: the text, the start of the rest and the line number it ends with.\<close>

function process_lines ::
  "file_type_t \<Rightarrow> char \<Rightarrow> nat \<Rightarrow> string \<Rightarrow> nat \<Rightarrow> nat \<Rightarrow> (string \<times> nat \<times> nat) cres" where
  "process_lines ft lf text_top s line_start line_nr =
     (if line_start + MAX_LINE_LEN \<le> text_top \<and> memchr s lf line_start MAX_LINE_LEN = None
      then Die M_FOUND_SUS_LINE
      else
        case (if line_start + MAX_LINE_LEN \<le> text_top then memchr s lf line_start MAX_LINE_LEN
              else memchr s lf line_start (text_top - line_start)) of
          None \<Rightarrow> Done (s, line_start, line_nr)
        | Some lb \<Rightarrow>
            process_lines ft lf text_top
              (clear_color (fix_break ft s lb) line_start (lb - line_start + 1)) (lb + 1) (line_nr + 1))"
  by pat_completeness auto
termination
  by (relation "measure (\<lambda>(ft, lf, text_top, s, line_start, line_nr). text_top - line_start)")
     (auto dest!: memchr_Some split: if_splits)

declare process_lines.simps [simp del]

definition process_source :: "string \<Rightarrow> nat \<Rightarrow> (nat \<times> string) cres" where
  "process_source s current =
     cbind (detect_file_type s current) (\<lambda>(ft, lf).
     cbind (process_lines ft lf current s 0 1) (\<lambda>(s, line_start, line_nr).
       if 4 * BPF_MAXINSNS \<le> line_nr then Die M_LINES_TOO_MANY
       else if current = line_start then Done (line_nr, s)
       else Done (line_nr + 1, clear_color s line_start (current - line_start + 1))))"

section \<open>Reading the file\<close>

definition increase_map :: "source_t \<Rightarrow> source_t" where
  "increase_map st =
     (if map_len st = 0 then st\<lparr>map_len := GROW_LEN\<rparr>
      else if src_current st + GROW_LEN \<le> map_len st then st
      else st\<lparr>map_len := map_len st + GROW_LEN\<rparr>)"

text \<open>
  The \<open>do ... while (read_len > 0)\<close> loop over the chunks; a list that ends without an
  empty chunk ends the file. A chunk is stored behind the text read so far, and one that does
  not fit into the map would be written outside it.
\<close>

fun read_chunks :: "string option list \<Rightarrow> source_t \<Rightarrow> source_t cres" where
  "read_chunks [] st = Done (increase_map st)"
| "read_chunks (r # rs) st =
     (let st = increase_map st in
      case r of
        None \<Rightarrow> Die M_READ_FAIL
      | Some chunk \<Rightarrow>
          if map_len st < src_current st + GROW_LEN then Crash ''read behind the map''
          else
            (let st = st\<lparr>src_text := src_text st @ chunk, src_current := src_current st + length chunk\<rparr>
             in if MAX_FILE_LEN < src_current st then Die M_FILE_TOO_LARGE
                else if chunk = [] then Done st
                else read_chunks rs st))"

definition init_source :: "string option list \<Rightarrow> (nat \<times> source_t) cres" where
  "init_source reads =
     cbind (read_chunks reads \<lparr>src_text = [], src_current = 0, src_cursor = 0, map_len = 0\<rparr>) (\<lambda>st.
       if memchr (src_text st) CHR 0x00 0 (src_current st) \<noteq> None then Die M_FOUND_SUS_ZERO
       else
         let st = (if src_current st mod GROW_LEN = 0
                      \<or> GROW_LEN - 0x20 < src_current st mod GROW_LEN
                   then increase_map st else st)
         in cbind (process_source (src_text st) (src_current st)) (\<lambda>(lines, s).
              Done (lines, st\<lparr>src_text := s\<rparr>)))"

section \<open>Handing out lines\<close>

text \<open>\<open>do line_break++; while (line_break < top && *line_break == '\0')\<close>.\<close>

function skip_nuls :: "string \<Rightarrow> nat \<Rightarrow> nat \<Rightarrow> nat" where
  "skip_nuls s text_top i = (if i < text_top \<and> char_at s i = CHR 0x00 then skip_nuls s text_top (Suc i) else i)"
  by pat_completeness auto
termination
  by (relation "measure (\<lambda>(s, text_top, i). text_top - i)") auto

declare skip_nuls.simps [simp del]

definition next_line :: "source_t \<Rightarrow> nat option \<times> source_t" where
  "next_line st =
     (if src_current st \<le> src_cursor st then (None, st)
      else
        let read_ptr = src_cursor st in
        case memchr (src_text st) CHR 0x0A read_ptr (src_current st - read_ptr) of
          None \<Rightarrow>
            (Some read_ptr,
             st\<lparr>src_text := poke (src_text st) (src_current st) CHR 0x0A,
                src_cursor := src_current st\<rparr>)
        | Some lb \<Rightarrow>
            (Some read_ptr, st\<lparr>src_cursor := skip_nuls (src_text st) (src_current st) (Suc lb)\<rparr>))"

section \<open>The map is never left\<close>

text \<open>Before every \<open>read\<close> there is room for a whole chunk.\<close>

lemma increase_map_room:
  "src_current st \<le> map_len st \<Longrightarrow>
   src_current (increase_map st) + GROW_LEN \<le> map_len (increase_map st)
   \<and> src_current (increase_map st) = src_current st \<and> src_text (increase_map st) = src_text st"
  by (auto simp: increase_map_def)

lemma read_chunks_room:
  assumes "src_current st \<le> map_len st" and "src_current st = length (src_text st)"
    and "src_current st \<le> MAX_FILE_LEN"
    and "\<And>c. Some c \<in> set reads \<Longrightarrow> length c \<le> GROW_LEN"
  shows "(\<forall>m. read_chunks reads st \<noteq> Crash m)
    \<and> (\<forall>st'. read_chunks reads st = Done st' \<longrightarrow>
         src_current st' + GROW_LEN \<le> map_len st' \<and> src_current st' = length (src_text st')
         \<and> src_current st' \<le> MAX_FILE_LEN \<and> src_cursor st' = src_cursor st)"
  using assms
proof (induction reads st rule: read_chunks.induct)
  case (1 st)
  then show ?case using increase_map_room [of st] by (auto simp: increase_map_def)
next
  case (2 r rs st)
  note room = increase_map_room [OF 2(2)]
  have cur: "src_cursor (increase_map st) = src_cursor st" by (simp add: increase_map_def)
  show ?case
  proof (cases r)
    case (Some chunk)
    let ?st = "(increase_map st)\<lparr>src_text := src_text (increase_map st) @ chunk,
      src_current := src_current (increase_map st) + length chunk\<rparr>"
    have len: "length chunk \<le> GROW_LEN" using 2(5) Some by simp
    have pre: "src_current ?st \<le> map_len ?st" "src_current ?st = length (src_text ?st)"
      using room len 2(3) by auto
    have eq: "read_chunks (r # rs) st =
      (if MAX_FILE_LEN < src_current ?st then Die M_FILE_TOO_LARGE
       else if chunk = [] then Done ?st else read_chunks rs ?st)"
      using room Some by (simp add: Let_def)
    show ?thesis
    proof (cases "MAX_FILE_LEN < src_current ?st \<or> chunk = []")
      case True
      with eq room pre cur show ?thesis by auto
    next
      case False
      then have rec: "read_chunks (r # rs) st = read_chunks rs ?st" using eq by simp
      have small: "src_current ?st \<le> MAX_FILE_LEN" using False by simp
      have cur2: "src_cursor ?st = src_cursor st" using cur by simp
      have nf: "\<not> map_len (increase_map st) < src_current (increase_map st) + GROW_LEN"
        using room by simp
      have nf2: "\<not> MAX_FILE_LEN < src_current ?st" "chunk \<noteq> []" using False by auto
      have mem: "\<And>c. Some c \<in> set rs \<Longrightarrow> length c \<le> GROW_LEN" using 2(5) by simp
      show ?thesis
        unfolding rec cur2 [symmetric]
        by (rule "2.IH" [OF refl Some nf refl nf2 pre small mem])
    qed
  qed simp
qed

lemma process_lines_no_crash: "process_lines ft lf t s ls nr \<noteq> Crash m"
proof (induction ft lf t s ls nr rule: process_lines.induct)
  case (1 ft lf t s ls nr)
  let ?m = "if ls + MAX_LINE_LEN \<le> t then memchr s lf ls MAX_LINE_LEN
            else memchr s lf ls (t - ls)"
  let ?die = "ls + MAX_LINE_LEN \<le> t \<and> memchr s lf ls MAX_LINE_LEN = None"
  show ?case
  proof (cases ?die)
    case True
    then show ?thesis by (subst process_lines.simps) simp
  next
    case False
    show ?thesis
    proof (cases ?m)
      case None
      then show ?thesis using False by (subst process_lines.simps) simp
    next
      case (Some lb)
      show ?thesis
        using "1.IH" [OF False Some] False Some
        by (subst process_lines.simps) (simp only: if_False option.simps simp_thms)
    qed
  qed
qed

lemma process_source_no_crash: "process_source s c \<noteq> Crash m"
  by (auto simp: process_source_def detect_file_type_def process_lines_no_crash
      split: option.splits prod.splits if_splits)

lemma init_source_room:
  assumes "\<And>c. Some c \<in> set reads \<Longrightarrow> length c \<le> GROW_LEN"
  shows "(\<forall>m. init_source reads \<noteq> Crash m)
    \<and> (\<forall>n st. init_source reads = Done (n, st) \<longrightarrow>
         src_current st + GROW_LEN \<le> map_len st \<and> src_current st \<le> MAX_FILE_LEN \<and> src_cursor st = 0)"
proof -
  let ?st0 = "\<lparr>src_text = [], src_current = 0, src_cursor = 0, map_len = 0\<rparr>"
  have "(\<forall>m. read_chunks reads ?st0 \<noteq> Crash m)
    \<and> (\<forall>st'. read_chunks reads ?st0 = Done st' \<longrightarrow>
         src_current st' + GROW_LEN \<le> map_len st' \<and> src_current st' = length (src_text st')
         \<and> src_current st' \<le> MAX_FILE_LEN \<and> src_cursor st' = src_cursor ?st0)"
    by (rule read_chunks_room) (use assms in simp_all)
  moreover have "src_current st + GROW_LEN \<le> map_len st \<Longrightarrow> increase_map st = st" for st
    by (simp add: increase_map_def GROW_LEN_def)
  ultimately show ?thesis
    by (cases "read_chunks reads ?st0")
       (auto simp: init_source_def Let_def process_source_no_crash split: prod.splits if_splits)
qed

section \<open>Colours are gone, everything else stays\<close>

lemma clear_loop_no_esc: "CHR 0x1B \<notin> set (clear_loop b s)"
  by (induction b s rule: clear_loop.induct) auto

lemma clear_loop_id: "CHR 0x1B \<notin> set s \<Longrightarrow> clear_loop False s = s"
  by (induction s) auto

lemma length_clear_loop: "length (clear_loop b s) \<le> length s"
  by (induction b s rule: clear_loop.induct) auto

lemma memchr_None_iff: "memchr s c i n = None \<longleftrightarrow> (\<forall>l. i \<le> l \<and> l < i + n \<longrightarrow> char_at s l \<noteq> c)"
proof (induction s c i n rule: memchr.induct)
  case (2 s c i n)
  have "(i \<le> l \<and> l < i + Suc n) = (l = i \<or> (Suc i \<le> l \<and> l < Suc i + n))" for l by auto
  then show ?case using 2 by (cases "char_at s i = c") auto
qed auto

lemma clear_color_id: "CHR 0x1B \<notin> set s \<Longrightarrow> clear_color s start len = s"
proof -
  assume "CHR 0x1B \<notin> set s"
  then have "memchr s CHR 0x1B start len = None"
    by (auto simp: memchr_None_iff char_at_def) (metis nth_mem)
  then show ?thesis by (simp add: clear_color_def)
qed

lemma char_at_prefix:
  "i < n \<Longrightarrow> length (take n s) = n \<Longrightarrow> char_at (take n s @ t) i = char_at s i"
  by (auto simp: char_at_def nth_append)

lemma char_at_middle:
  "length p = n \<Longrightarrow> n \<le> i \<Longrightarrow> i < n + length r \<Longrightarrow> char_at (p @ r @ t) i \<in> set r"
  by (auto simp: char_at_def nth_append)

text \<open>The text keeps its length, and no escape is left in the range.\<close>

lemma clear_color_length:
  "length (clear_color s start len) = (if memchr s CHR 0x1B start len = None then length s
     else max (length s) (start + len))"
proof (cases "memchr s CHR 0x1B start len")
  case (Some cursor)
  let ?s = "s @ replicate (start + len - length s) CHR 0x00"
  let ?k = "clear_loop False (slice ?s cursor (start + len - cursor))"
  from memchr_Some [OF Some] have c: "start \<le> cursor" "cursor < start + len" by auto
  have "length ?k \<le> start + len - cursor"
    using length_clear_loop [of False "slice ?s cursor (start + len - cursor)"] by simp
  with c Some show ?thesis by (auto simp: clear_color_def Let_def max_def)
qed (simp add: clear_color_def)

lemma clear_color_no_esc:
  assumes "start \<le> i" "i < start + len"
  shows "char_at (clear_color s start len) i \<noteq> CHR 0x1B"
proof (cases "memchr s CHR 0x1B start len")
  case None
  then have "clear_color s start len = s" by (simp add: clear_color_def)
  then show ?thesis using assms None by (simp add: memchr_None_iff)
next
  case (Some cursor)
  let ?s = "s @ replicate (start + len - length s) CHR 0x00"
  let ?k = "clear_loop False (slice ?s cursor (start + len - cursor))"
  let ?r = "?k @ replicate (start + len - cursor - length ?k) CHR 0x00"
  from memchr_Some [OF Some] have c: "start \<le> cursor" "cursor < start + len"
    "\<forall>l. start \<le> l \<and> l < cursor \<longrightarrow> char_at s l \<noteq> CHR 0x1B" by auto
  have lk: "length ?k \<le> start + len - cursor"
    using length_clear_loop [of False "slice ?s cursor (start + len - cursor)"] by simp
  have lr: "length ?r = start + len - cursor" using lk by simp
  have res: "clear_color s start len = take cursor ?s @ ?r @ drop (start + len) ?s"
    using Some by (simp add: clear_color_def Let_def)
  have lc: "length (take cursor ?s) = cursor" using c by simp
  show ?thesis
  proof (cases "i < cursor")
    case True
    have "char_at (take cursor ?s @ Y) i = char_at ?s i" for Y
      by (rule char_at_prefix [OF True lc])
    then have "char_at (clear_color s start len) i = char_at ?s i"
      unfolding res by this
    also have "\<dots> = char_at s i" by simp
    finally show ?thesis using c assms True by simp
  next
    case False
    then have le: "cursor \<le> i" "i < cursor + length ?r" using lr c assms by linarith+
    have "char_at (clear_color s start len) i \<in> set ?r"
      unfolding res by (rule char_at_middle [OF lc le])
    moreover have "CHR 0x1B \<notin> set ?r"
      using clear_loop_no_esc by auto
    ultimately show ?thesis by metis
  qed
qed

text \<open>
  A text with Unix line breaks and no escape is passed through unchanged, whatever its line
  breaks are, and the line number counts them.
\<close>

lemma count_list_drop_slice:
  "lb < length s \<Longrightarrow> ls \<le> lb \<Longrightarrow> s ! lb = c \<Longrightarrow> (\<forall>l. ls \<le> l \<and> l < lb \<longrightarrow> s ! l \<noteq> c) \<Longrightarrow>
   count_list (drop ls s) c = Suc (count_list (drop (Suc lb) s) c)"
proof -
  assume a: "lb < length s" "ls \<le> lb" "s ! lb = c" "\<forall>l. ls \<le> l \<and> l < lb \<longrightarrow> s ! l \<noteq> c"
  have d: "drop (lb - ls) (drop ls s) = s ! lb # drop (Suc lb) s"
    using a Cons_nth_drop_Suc [of lb s] by simp
  have "drop ls s = take (lb - ls) (drop ls s) @ s ! lb # drop (Suc lb) s"
    using append_take_drop_id [of "lb - ls" "drop ls s", unfolded d] by simp
  moreover have "c \<notin> set (take (lb - ls) (drop ls s))"
    using a by (auto simp: in_set_conv_nth)
  ultimately have "count_list (drop ls s) c = count_list (s ! lb # drop (Suc lb) s) c"
    by (metis count_list_append count_notin add_0)
  then show ?thesis using a(3) by simp
qed

lemma process_lines_plain:
  assumes "ft \<noteq> WINDOWS" and "lf = CHR 0x0A" and "text_top = length s" and "CHR 0x1B \<notin> set s"
    and "process_lines ft lf text_top s ls nr = Done (s', ls', nr')" and "ls \<le> length s"
  shows "s' = s \<and> ls' \<le> length s \<and> nr' = nr + count_list (drop ls s) CHR 0x0A
     \<and> CHR 0x0A \<notin> set (drop ls' s)"
  using assms
proof (induction ft lf text_top s ls nr rule: process_lines.induct)
  case (1 ft lf t s ls nr)
  let ?m = "if ls + MAX_LINE_LEN \<le> t then memchr s lf ls MAX_LINE_LEN
            else memchr s lf ls (t - ls)"
  have nodie: "\<not> (ls + MAX_LINE_LEN \<le> t \<and> memchr s lf ls MAX_LINE_LEN = None)"
  proof
    assume "ls + MAX_LINE_LEN \<le> t \<and> memchr s lf ls MAX_LINE_LEN = None"
    then have "process_lines ft lf t s ls nr = Die M_FOUND_SUS_LINE"
      by (subst process_lines.simps) simp
    with "1.prems"(5) show False by simp
  qed
  show ?case
  proof (cases ?m)
    case None
    then have none: "memchr s lf ls (t - ls) = None" "\<not> ls + MAX_LINE_LEN \<le> t"
      using nodie by (auto split: if_splits)
    have out: "s' = s" "ls' = ls" "nr' = nr"
      using "1.prems"(5) none by (auto simp: process_lines.simps [of ft lf t s ls nr])
    have "CHR 0x0A \<notin> set (drop ls s)"
      using none(1) "1.prems"(2,3,6)
      by (auto simp: memchr_None_iff in_set_conv_nth)
    then show ?thesis using out "1.prems" by (simp add: count_notin)
  next
    case (Some lb)
    then have lb: "ls \<le> lb" "lb < t" "char_at s lb = lf" "\<forall>l. ls \<le> l \<and> l < lb \<longrightarrow> char_at s l \<noteq> lf"
      by (auto dest!: memchr_Some split: if_splits)
    then have lbl: "lb < length s" "s ! lb = CHR 0x0A" using "1.prems" by auto
    have same: "clear_color (fix_break ft s lb) ls (lb - ls + 1) = s"
      using "1.prems"(1,4) lbl list_update_id [of s lb]
      by (simp add: fix_break_def poke_def clear_color_id)
    have rec: "process_lines ft lf t s (lb + 1) (nr + 1) = Done (s', ls', nr')"
      using "1.prems"(5) nodie Some same
      by (simp add: process_lines.simps [of ft lf t s ls nr] split: if_splits)
    have "s' = s \<and> ls' \<le> length s \<and> nr' = (nr + 1) + count_list (drop (lb + 1) s) CHR 0x0A
      \<and> CHR 0x0A \<notin> set (drop ls' s)"
      using "1.IH" [OF nodie Some] "1.prems"(1-4) lbl rec same by simp
    moreover have "count_list (drop ls s) CHR 0x0A = Suc (count_list (drop (Suc lb) s) CHR 0x0A)"
      using count_list_drop_slice [OF lbl(1) lb(1) lbl(2)] lb(4) lbl(1) "1.prems"(2) by auto
    ultimately show ?thesis by simp
  qed
qed

end
