(* ===== verification/Scanner.thy ===== *)
theory Scanner
  imports Arch_Trans Numbers Read_Source
begin

text \<open>
  \<open>src/lexical/scanner.c\<close>: one token per call from the source map of \<open>Read_Source\<close>.

  Pointers into the map are indices. \<open>token_start\<close> is \<open>None\<close> for the \<open>NULL\<close> at the end of
  the file; \<open>current_char\<close> is \<open>NULL\<close> exactly then, and is 0 here. A comment that no line break
  ends would be scanned out of the map: \<open>Crash\<close>. The invariant \<open>scan_ok\<close> (the current line
  has a line break ahead) excludes it, and every token that is not the end of the file
  lowers \<open>scan_left\<close>, on which the loops of the parser rest.
\<close>

section \<open>The state\<close>

record scanner_t =
  token_start :: "nat option"
  current_char :: nat
  line_nr :: u16

record scan_state =
  source :: source_t
  scanner :: scanner_t
  unknown_count :: u8

abbreviation stext :: "scan_state \<Rightarrow> string" where
  "stext st \<equiv> src_text (source st)"

abbreviation scur :: "scan_state \<Rightarrow> nat" where
  "scur st \<equiv> current_char (scanner st)"

definition isidentifier :: "char \<Rightarrow> bool" where
  "isidentifier c = (isalnum_l c \<or> c = CHR ''_'')"

definition peek :: "nat \<Rightarrow> scan_state \<Rightarrow> char" where
  "peek offset st = char_at (stext st) (scur st + offset)"

definition advance :: "nat \<Rightarrow> scan_state \<Rightarrow> scan_state" where
  "advance n st = st\<lparr>scanner := (scanner st)\<lparr>current_char := scur st + n\<rparr>\<rparr>"

text \<open>\<open>init_token\<close> and \<open>init_token_data\<close> of \<open>token.c\<close>.\<close>

definition init_token :: "scanner_t \<Rightarrow> token_type \<Rightarrow> token_t \<Rightarrow> token_t" where
  "init_token sc ty t =
     t\<lparr>tk_type := ty, tk_start := token_start sc,
       tk_len := of_nat (current_char sc - (case token_start sc of None \<Rightarrow> 0 | Some i \<Rightarrow> i)),
       tk_line_nr := line_nr sc\<rparr>"

definition init_token_data :: "scanner_t \<Rightarrow> token_type \<Rightarrow> u32 \<Rightarrow> token_t \<Rightarrow> token_t" where
  "init_token_data sc ty d t = (init_token sc ty t)\<lparr>tk_data := d\<rparr>"

text \<open>The macros \<open>INIT_TOKEN\<close>, \<open>INIT_TOKEN_DATA\<close> and \<open>INIT_TOKEN_ADV1\<close>.\<close>

type_synonym scan_result = "(token_t \<times> scan_state) cres"

definition INIT_TOKEN :: "token_type \<Rightarrow> token_t \<Rightarrow> scan_state \<Rightarrow> scan_result" where
  "INIT_TOKEN ty t st = Done (init_token (scanner st) ty t, st)"

definition INIT_TOKEN_DATA :: "token_type \<Rightarrow> u32 \<Rightarrow> token_t \<Rightarrow> scan_state \<Rightarrow> scan_result" where
  "INIT_TOKEN_DATA ty d t st = Done (init_token_data (scanner st) ty d t, st)"

definition INIT_TOKEN_ADV1 :: "token_type \<Rightarrow> token_t \<Rightarrow> scan_state \<Rightarrow> scan_result" where
  "INIT_TOKEN_ADV1 ty t st = INIT_TOKEN ty t (advance 1 st)"

section \<open>Matching\<close>

text \<open>A match is the state after it, \<open>None\<close> when there is none.\<close>

definition match_offset :: "char \<Rightarrow> nat \<Rightarrow> scan_state \<Rightarrow> scan_state option" where
  "match_offset c offset st = (if peek offset st = c then Some (advance (offset + 1) st) else None)"

definition match_token :: "token_type \<Rightarrow> scan_state \<Rightarrow> scan_state option" where
  "match_token tk st =
     (let len = length (token_pairs tk) in
      if \<not> strncmp_eq (drop (scur st) (stext st)) (token_pairs tk) len then None
      else if isidentifier (peek len st) then None
      else Some (advance len st))"

definition token_range :: "token_type \<Rightarrow> token_type \<Rightarrow> token_type list" where
  "token_range from to = filter (tk_between from to) token_order"

fun match_tokens :: "token_type list \<Rightarrow> scan_state \<Rightarrow> (token_type \<times> scan_state) option" where
  "match_tokens [] st = None"
| "match_tokens (tk # tks) st =
     (case match_token tk st of Some st' \<Rightarrow> Some (tk, st') | None \<Rightarrow> match_tokens tks st)"

definition match_token_range ::
  "token_type \<Rightarrow> token_type \<Rightarrow> scan_state \<Rightarrow> (token_type \<times> scan_state) option" where
  "match_token_range from to st = match_tokens (token_range from to) st"

definition reset_to_nextline :: "token_t \<Rightarrow> scan_state \<Rightarrow> scan_result" where
  "reset_to_nextline t st =
     (let t' = init_token (scanner st) EOL t;
          (nextline, src) = next_line (source st)
      in Done (t', st\<lparr>source := src,
           scanner := \<lparr>token_start = nextline,
                       current_char = (case nextline of None \<Rightarrow> 0 | Some i \<Rightarrow> i),
                       line_nr = line_nr (scanner st) + 1\<rparr>\<rparr>))"

definition init_scanner :: "nat option \<Rightarrow> scanner_t" where
  "init_scanner start =
     \<lparr>token_start = start, current_char = (case start of None \<Rightarrow> 0 | Some i \<Rightarrow> i), line_nr = 1\<rparr>"

section \<open>Loops\<close>

function skip_spaces :: "string \<Rightarrow> nat \<Rightarrow> nat" where
  "skip_spaces s i =
     (if isspace_l (char_at s i) \<and> char_at s i \<noteq> CHR 0x0A then skip_spaces s (Suc i) else i)"
  by pat_completeness auto
termination
  by (relation "measure (\<lambda>(s, i). length s - i)") (auto simp: char_at_def isspace_l_def split: if_splits)

declare skip_spaces.simps [simp del]

text \<open>The end of a comment, \<open>None\<close> when the loop leaves the text.\<close>

function comment_end :: "string \<Rightarrow> nat \<Rightarrow> nat option" where
  "comment_end s i =
     (if length s \<le> i then None else if s ! i = CHR 0x0A then Some i else comment_end s (Suc i))"
  by pat_completeness auto
termination
  by (relation "measure (\<lambda>(s, i). length s - i)") auto

declare comment_end.simps [simp del]

function skip_identifier :: "string \<Rightarrow> nat \<Rightarrow> nat" where
  "skip_identifier s i = (if isidentifier (char_at s i) then skip_identifier s (Suc i) else i)"
  by pat_completeness auto
termination
  by (relation "measure (\<lambda>(s, i). length s - i)")
     (auto simp: char_at_def isidentifier_def ctype_defs split: if_splits)

declare skip_identifier.simps [simp del]

definition goto_char :: "nat \<Rightarrow> scan_state \<Rightarrow> scan_state" where
  "goto_char i st = st\<lparr>scanner := (scanner st)\<lparr>current_char := i\<rparr>\<rparr>"

section \<open>The scanner\<close>

definition scan_unknown :: "token_t \<Rightarrow> scan_state \<Rightarrow> scan_result" where
  "scan_unknown t st =
     (if 5 < unknown_count st then INIT_TOKEN TOKEN_EOF t st
      else INIT_TOKEN UNKNOWN t (advance 1 (st\<lparr>unknown_count := unknown_count st + 1\<rparr>)))"

text \<open>The alternatives \<open>if (match_offset ('=', 1)) INIT_TOKEN (ty)\<close>, tried in order.\<close>

definition or_match ::
  "(scan_state \<Rightarrow> scan_state option) \<Rightarrow> token_type \<Rightarrow> (token_t \<Rightarrow> scan_state \<Rightarrow> scan_result)
    \<Rightarrow> token_t \<Rightarrow> scan_state \<Rightarrow> scan_result" where
  "or_match m ty other t st = (case m st of Some st' \<Rightarrow> INIT_TOKEN ty t st' | None \<Rightarrow> other t st)"

definition match_shift :: "char \<Rightarrow> scan_state \<Rightarrow> scan_state option" where
  "match_shift c st = (if peek 1 st = c then match_offset CHR ''='' 2 st else None)"

definition scan_punct :: "char \<Rightarrow> token_t \<Rightarrow> scan_state \<Rightarrow> scan_result" where
  "scan_punct c t st =
     (let eq = match_offset CHR ''='' 1 in
      if c = CHR ''$'' then
        or_match (match_offset CHR ''A'' 1) Tk_A
          (or_match (match_offset CHR ''X'' 1) Tk_X
            (\<lambda>t st. case match_token_range MEM ATTR_HIGHARG st of
               Some (tk, st') \<Rightarrow> INIT_TOKEN tk t st'
             | None \<Rightarrow> scan_unknown t st)) t st
      else if c = CHR '','' then INIT_TOKEN_ADV1 COMMA t st
      else if c = CHR ''.'' then INIT_TOKEN_ADV1 DOT t st
      else if c = CHR ''['' then INIT_TOKEN_ADV1 LEFT_BRACKET t st
      else if c = CHR '']'' then INIT_TOKEN_ADV1 RIGHT_BRACKET t st
      else if c = CHR ''('' then INIT_TOKEN_ADV1 LEFT_PAREN t st
      else if c = CHR '')'' then INIT_TOKEN_ADV1 RIGHT_PAREN t st
      else if c = CHR ''+'' then or_match eq ADD_TO scan_unknown t st
      else if c = CHR ''-'' then or_match eq SUB_TO (INIT_TOKEN_ADV1 NEGATIVE) t st
      else if c = CHR ''*'' then or_match eq MULTI_TO scan_unknown t st
      else if c = CHR ''/'' then or_match eq DIVIDE_TO scan_unknown t st
      else if c = CHR ''<'' then
        or_match eq LESS_EQUAL
          (or_match (match_shift CHR ''<'') LSH_TO (INIT_TOKEN_ADV1 LESS_THAN)) t st
      else if c = CHR ''>'' then
        or_match eq GREATER_EQUAL
          (or_match (match_shift CHR ''>'') RSH_TO (INIT_TOKEN_ADV1 GREATER_THAN)) t st
      else if c = CHR ''&'' then or_match eq AND_TO (INIT_TOKEN_ADV1 Tk_AND) t st
      else if c = CHR ''|'' then or_match eq OR_TO scan_unknown t st
      else if c = CHR ''^'' then or_match eq XOR_TO scan_unknown t st
      else if c = CHR ''!'' then or_match eq BANG_EQUAL (INIT_TOKEN_ADV1 BANG) t st
      else if c = CHR ''='' then or_match eq EQUAL_EQUAL (INIT_TOKEN_ADV1 EQUAL) t st
      else scan_unknown t st)"

definition scan_identifier :: "token_t \<Rightarrow> scan_state \<Rightarrow> scan_result" where
  "scan_identifier t st =
     (let st = goto_char (skip_identifier (stext st) (Suc (scur st))) st in
      case match_offset CHR '':'' 0 st of
        Some st' \<Rightarrow> INIT_TOKEN LABEL_DECL t st'
      | None \<Rightarrow> INIT_TOKEN IDENTIFIER t st)"

text \<open>\<open>unsigned long\<close> has 64 bits: a number that does not fit 32 bits is refused.\<close>

definition scan_number :: "token_t \<Rightarrow> scan_state \<Rightarrow> scan_result" where
  "scan_number t st =
     (let (num, n, _) = strtoull 0 (drop (scur st) (stext st)) in
      if n = 0 then scan_unknown t st
      else if ucast (ucast num :: u32) \<noteq> num then INIT_TOKEN_ADV1 OVERFLOW_NUMBER t st
      else INIT_TOKEN_DATA NUMBER (ucast num) t (advance n st))"

definition scan_rest :: "token_t \<Rightarrow> scan_state \<Rightarrow> scan_result" where
  "scan_rest t st =
     (if isalpha_l (peek 0 st) then scan_identifier t st
      else if isdigit_l (peek 0 st) then scan_number t st
      else scan_unknown t st)"

definition scan_lower :: "token_t \<Rightarrow> scan_state \<Rightarrow> scan_result" where
  "scan_lower t st =
     (case match_token_range RETURN ELSE st of
        Some (tk, st') \<Rightarrow> INIT_TOKEN tk t st'
      | None \<Rightarrow>
          (let tk = str_to_internal_arch (drop (scur st) (stext st)) False;
               len = length (token_pairs tk)
           in if tk \<noteq> UNKNOWN \<and> \<not> isidentifier (peek len st) then INIT_TOKEN tk t (advance len st)
              else scan_rest t st))"

definition scan_upper :: "token_t \<Rightarrow> scan_state \<Rightarrow> scan_result" where
  "scan_upper t st =
     (case match_token_range KILL_PROC ERRNO st of
        Some (tk, st') \<Rightarrow> INIT_TOKEN tk t st'
      | None \<Rightarrow> scan_rest t st)"

definition scan_token :: "token_t \<Rightarrow> scan_state \<Rightarrow> scan_result" where
  "scan_token t st =
     (if token_start (scanner st) = None then INIT_TOKEN TOKEN_EOF t st
      else
        let cur = skip_spaces (stext st) (scur st);
            st = st\<lparr>scanner := (scanner st)\<lparr>current_char := cur, token_start := Some cur\<rparr>\<rparr>
        in case match_offset CHR ''#'' 0 st of
             Some st' \<Rightarrow>
               (case comment_end (stext st') (scur st') of
                  Some e \<Rightarrow> INIT_TOKEN COMMENT t (goto_char e st')
                | None \<Rightarrow> Crash ''read behind the map'')
           | None \<Rightarrow>
               (case match_offset CHR 0x0A 0 st of
                  Some st' \<Rightarrow> reset_to_nextline t st'
                | None \<Rightarrow>
                    (let c = peek 0 st in
                     if islower_l c then scan_lower t st
                     else if isupper_l c then scan_upper t st
                     else if ispunct_l c then scan_punct c t st
                     else scan_rest t st)))"

section \<open>Tokens stay in their line\<close>

text \<open>
  \<open>line_end e st\<close>: the scanner is in a line whose line break is at \<open>e\<close>, and the source
  continues behind it, or ends there.
\<close>

definition line_end :: "nat \<Rightarrow> scan_state \<Rightarrow> bool" where
  "line_end e st \<longleftrightarrow>
     scur st \<le> e \<and> e < length (stext st) \<and> stext st ! e = CHR 0x0A
     \<and> e \<le> src_current (source st)
     \<and> (e < src_cursor (source st) \<or> src_current (source st) \<le> src_cursor (source st))"

definition scan_ok :: "scan_state \<Rightarrow> bool" where
  "scan_ok st \<longleftrightarrow> (token_start (scanner st) \<noteq> None \<longrightarrow> (\<exists>e. line_end e st))"

definition scan_left :: "scan_state \<Rightarrow> nat" where
  "scan_left st =
     (if token_start (scanner st) = None then 0 else Suc (src_current (source st) - scur st))"

text \<open>
  A token scanned in the line: the scanner has moved on, but not over the line break, or it
  has given up on the file. The length of a word fits its 16 bits, because no word of the
  text is longer than two lines.
\<close>

definition short_words :: "string \<Rightarrow> bool" where
  "short_words s \<longleftrightarrow> (\<forall>i. \<exists>k \<le> 2 * MAX_LINE_LEN. \<not> isidentifier (char_at s (i + k)))"

definition word_ok :: "string \<Rightarrow> token_t \<Rightarrow> bool" where
  "word_ok s t \<longleftrightarrow>
     (tk_type t = IDENTIFIER \<longrightarrow> short_words s \<longrightarrow> 0 < tk_len t)
     \<and> (tk_type t = LABEL_DECL \<longrightarrow> short_words s \<longrightarrow> 1 < tk_len t)"

definition plain_tk :: "token_type \<Rightarrow> bool" where
  "plain_tk ty \<longleftrightarrow> ty \<notin> {EOL, COMMENT, TOKEN_EOF, IDENTIFIER, LABEL_DECL}"

definition in_line :: "nat \<Rightarrow> scan_state \<Rightarrow> scan_result \<Rightarrow> bool" where
  "in_line e st r \<longleftrightarrow>
     (\<exists>t' st'. r = Done (t', st')
        \<and> source st' = source st \<and> token_start (scanner st') = token_start (scanner st)
        \<and> tk_start t' = token_start (scanner st)
        \<and> tk_len t' = of_nat (scur st' - the (token_start (scanner st)))
        \<and> tk_type t' \<noteq> EOL \<and> tk_type t' \<noteq> COMMENT \<and> word_ok (stext st) t'
        \<and> (if tk_type t' = TOKEN_EOF then st' = st else scur st < scur st' \<and> scur st' \<le> e))"

lemma move_in_line:
  "stext st ! e = CHR 0x0A \<Longrightarrow> e < length (stext st) \<Longrightarrow> scur st \<le> e \<Longrightarrow>
   (\<And>k. k < n \<Longrightarrow> peek k st \<noteq> CHR 0x0A) \<Longrightarrow> scur st + n \<le> e"
proof (rule ccontr)
  assume a: "stext st ! e = CHR 0x0A" "e < length (stext st)" "scur st \<le> e"
    "\<And>k. k < n \<Longrightarrow> peek k st \<noteq> CHR 0x0A" "\<not> scur st + n \<le> e"
  have "peek (e - scur st) st \<noteq> CHR 0x0A" by (rule a(4)) (use a in simp)
  with a show False by (simp add: peek_def)
qed

lemma in_line_INIT_TOKEN:
  assumes "source st' = source st" "token_start (scanner st') = token_start (scanner st)"
    "token_start (scanner st) \<noteq> None"
    "scur st < scur st'" "scur st' \<le> e" "plain_tk ty"
  shows "in_line e st (INIT_TOKEN ty t st')"
  using assms by (auto simp: in_line_def INIT_TOKEN_def init_token_def word_ok_def plain_tk_def)

text \<open>What every part of the scanner below assumes of its state.\<close>

definition at_char :: "nat \<Rightarrow> scan_state \<Rightarrow> bool" where
  "at_char e st \<longleftrightarrow>
     line_end e st \<and> token_start (scanner st) = Some (scur st) \<and> peek 0 st \<noteq> CHR 0x0A"

lemma at_char_lt: "at_char e st \<Longrightarrow> scur st < e"
  by (auto simp: at_char_def line_end_def peek_def order_le_less)

lemma at_char_move:
  "at_char e st \<Longrightarrow> (\<And>k. k < n \<Longrightarrow> peek k st \<noteq> CHR 0x0A) \<Longrightarrow> scur st + n \<le> e"
  by (rule move_in_line) (auto simp: at_char_def line_end_def)

lemma advance_simps [simp]:
  "source (advance n st) = source st"
  "token_start (scanner (advance n st)) = token_start (scanner st)"
  "scur (advance n st) = scur st + n"
  "unknown_count (advance n st) = unknown_count st"
  by (simp_all add: advance_def)

lemma goto_char_simps [simp]:
  "source (goto_char i st) = source st"
  "token_start (scanner (goto_char i st)) = token_start (scanner st)"
  "scur (goto_char i st) = i"
  by (simp_all add: goto_char_def)

lemma in_line_advance:
  assumes "at_char e st" "0 < n" "\<And>k. k < n \<Longrightarrow> peek k st \<noteq> CHR 0x0A"
    "plain_tk ty"
  shows "in_line e st (INIT_TOKEN ty t (advance n st))"
  using assms at_char_move [of e st n] by (intro in_line_INIT_TOKEN) (auto simp: at_char_def)

lemma in_line_unknown: "at_char e st \<Longrightarrow> in_line e st (scan_unknown t st)"
proof -
  assume a: "at_char e st"
  show ?thesis
  proof (cases "5 < unknown_count st")
    case True
    with a show ?thesis
      by (auto simp: scan_unknown_def in_line_def INIT_TOKEN_def init_token_def at_char_def word_ok_def)
  next
    case False
    with a at_char_lt [OF a] show ?thesis
      by (auto simp: scan_unknown_def in_line_def INIT_TOKEN_def init_token_def at_char_def word_ok_def)
  qed
qed

lemma in_line_adv1:
  "at_char e st \<Longrightarrow> plain_tk ty \<Longrightarrow>
   in_line e st (INIT_TOKEN_ADV1 ty t st)"
  unfolding INIT_TOKEN_ADV1_def by (rule in_line_advance) (auto simp: at_char_def)

text \<open>A match of a text without line breaks.\<close>

definition ok_match :: "(scan_state \<Rightarrow> scan_state option) \<Rightarrow> bool" where
  "ok_match m \<longleftrightarrow>
     (\<forall>e st st'. at_char e st \<longrightarrow> m st = Some st' \<longrightarrow>
        (\<exists>n > 0. st' = advance n st \<and> (\<forall>k < n. peek k st \<noteq> CHR 0x0A)))"

lemma in_line_ok_match:
  assumes "at_char e st" "ok_match m" "m st = Some st'"
    and "plain_tk ty"
  shows "in_line e st (INIT_TOKEN ty t st')"
proof -
  from assms(1-3) obtain n where n: "n > 0" "st' = advance n st" "\<forall>k < n. peek k st \<noteq> CHR 0x0A"
    unfolding ok_match_def by blast
  show ?thesis unfolding n(2)
    by (rule in_line_advance [OF assms(1) n(1) _ assms(4)]) (use n(3) in blast)
qed

lemma in_line_or_match:
  assumes "at_char e st" "ok_match m" "in_line e st (other t st)"
    and "plain_tk ty"
  shows "in_line e st (or_match m ty other t st)"
  using assms(3) in_line_ok_match [OF assms(1,2) _ assms(4)]
  by (cases "m st") (simp_all add: or_match_def)

lemma in_line_if:
  "in_line e st x \<Longrightarrow> in_line e st y \<Longrightarrow> in_line e st (if c then x else y)"
  by simp

lemma ok_match_eq: "c \<noteq> CHR 0x0A \<Longrightarrow> ok_match (match_offset c 1)"
  by (auto simp: ok_match_def match_offset_def at_char_def less_2_cases_iff numeral_2_eq_2
      less_Suc_eq intro!: exI [of _ 2] split: if_splits)

lemma ok_match_shift: "c \<noteq> CHR 0x0A \<Longrightarrow> ok_match (match_shift c)"
  by (auto simp: ok_match_def match_shift_def match_offset_def at_char_def numeral_3_eq_3
      less_Suc_eq numeral_2_eq_2 intro!: exI [of _ 3] split: if_splits)

lemma prefix_peek:
  assumes "prefix p (drop (scur st) (stext st))" "k < length p"
  shows "peek k st = p ! k"
proof -
  from assms(1) obtain r where r: "drop (scur st) (stext st) = p @ r" by (auto simp: prefix_def)
  have "peek k st = char_at (drop (scur st) (stext st)) k"
    by (simp add: peek_def char_at_drop add.commute)
  then show ?thesis using assms(2) unfolding r by (simp add: nth_append)
qed

lemma token_pairs_peek:
  "prefix (token_pairs tk) (drop (scur st) (stext st)) \<Longrightarrow> k < length (token_pairs tk) \<Longrightarrow>
   peek k st \<noteq> CHR 0x0A"
  using prefix_peek [of "token_pairs tk" st k] token_pairs_chars [of _ tk] nth_mem by metis

lemma token_pairs_no_nul: "CHR 0x00 \<notin> set (token_pairs tk)"
  using token_pairs_chars by auto

lemma ok_match_token: "ok_match (match_token tk)"
  unfolding ok_match_def match_token_def Let_def
proof (intro allI impI)
  fix e st st'
  let ?n = "length (token_pairs tk)"
  assume "(if \<not> strncmp_eq (drop (scur st) (stext st)) (token_pairs tk) ?n then None
    else if isidentifier (peek ?n st) then None else Some (advance ?n st)) = Some st'"
  then have "prefix (token_pairs tk) (drop (scur st) (stext st))" "st' = advance ?n st"
    by (auto simp: strncmp_eq_prefix token_pairs_no_nul split: if_splits)
  then have "0 < ?n \<and> st' = advance ?n st \<and> (\<forall>k < ?n. peek k st \<noteq> CHR 0x0A)"
    using token_pairs_peek [of tk st] by simp
  then show "\<exists>n>0. st' = advance n st \<and> (\<forall>k < n. peek k st \<noteq> CHR 0x0A)" by blast
qed

lemma match_tokens_in:
  "match_tokens tks st = Some (tk, st') \<Longrightarrow> tk \<in> set tks \<and> match_token tk st = Some st'"
  by (induction tks) (auto split: option.splits)

lemma in_line_range:
  assumes a: "at_char e st" and m: "match_token_range from to st = Some (tk, st')"
    and r: "\<And>tk. tk_between from to tk \<Longrightarrow> plain_tk tk"
  shows "in_line e st (INIT_TOKEN tk t st')"
proof -
  from match_tokens_in [OF m [unfolded match_token_range_def]]
  have tk: "tk_between from to tk" and mt: "match_token tk st = Some st'"
    by (auto simp: token_range_def)
  show ?thesis
    by (rule in_line_ok_match [where m = "match_token tk"]) (use a mt r [OF tk] ok_match_token in auto)
qed

lemma range_ends:
  "tk_between MEM ATTR_HIGHARG tk \<Longrightarrow> plain_tk tk"
  "tk_between RETURN ELSE tk \<Longrightarrow> plain_tk tk"
  "tk_between KILL_PROC ERRNO tk \<Longrightarrow> plain_tk tk"
  by (auto simp: tk_between_num plain_tk_def)

lemma in_line_attr:
  "at_char e st \<Longrightarrow>
   in_line e st (case match_token_range MEM ATTR_HIGHARG st of
       Some (tk, st') \<Rightarrow> INIT_TOKEN tk t st' | None \<Rightarrow> scan_unknown t st)"
  using in_line_range [OF _ _ range_ends(1)] in_line_unknown by (auto split: option.split)

lemma in_line_punct: "at_char e st \<Longrightarrow> in_line e st (scan_punct c t st)"
  unfolding scan_punct_def Let_def
  by (intro in_line_if in_line_or_match in_line_adv1 in_line_unknown in_line_attr
      ok_match_eq ok_match_shift) (simp_all add: plain_tk_def)

lemma skip_identifier_stop:
  "i \<le> skip_identifier s i \<and> \<not> isidentifier (char_at s (skip_identifier s i))
   \<and> (\<forall>k. i \<le> k \<and> k < skip_identifier s i \<longrightarrow> isidentifier (char_at s k))"
proof (induction s i rule: skip_identifier.induct)
  case (1 s i)
  show ?case
  proof (cases "isidentifier (char_at s i)")
    case True
    then have "skip_identifier s i = skip_identifier s (Suc i)"
      by (simp add: skip_identifier.simps [of s i])
    with 1 [OF True] True show ?thesis by (metis Suc_leD Suc_leI le_neq_implies_less)
  next
    case False
    then show ?thesis by (auto simp: skip_identifier.simps [of s i])
  qed
qed

lemma newline_no_identifier [simp]: "\<not> isidentifier CHR 0x0A"
  by (simp add: isidentifier_def ctype_defs)

lemma short_words_skip:
  assumes "short_words s"
  shows "skip_identifier s i - i \<le> 2 * MAX_LINE_LEN"
proof -
  from assms obtain k where k: "k \<le> 2 * MAX_LINE_LEN" "\<not> isidentifier (char_at s (i + k))"
    by (auto simp: short_words_def)
  have "skip_identifier s i \<le> i + k"
    using skip_identifier_stop [of i s] k(2) by (meson le_add1 not_le)
  with k show ?thesis by linarith
qed

lemma of_nat_u16_less: "0 < n \<Longrightarrow> n < 65536 \<Longrightarrow> (0::u16) < of_nat n"
  by (simp add: word_less_nat_alt unat_of_nat)

lemma of_nat_u16_less1: "1 < n \<Longrightarrow> n < 65536 \<Longrightarrow> (1::u16) < of_nat n"
  by (simp add: word_less_nat_alt unat_of_nat)

lemma in_line_identifier:
  assumes a: "at_char e st"
  shows "in_line e st (scan_identifier t st)"
proof -
  let ?s = "stext st" and ?i = "scur st"
  let ?j = "skip_identifier ?s (Suc ?i)"
  from a have e: "?i < e" "?s ! e = CHR 0x0A" "e < length ?s"
    and start: "token_start (scanner st) = Some ?i"
    by (auto simp: at_char_lt at_char_def line_end_def)
  have j: "Suc ?i \<le> ?j" using skip_identifier_stop by blast
  have je: "?j \<le> e"
  proof (rule ccontr)
    assume "\<not> ?j \<le> e"
    with e(1) have "Suc ?i \<le> e \<and> e < ?j" by simp
    then have "isidentifier (char_at ?s e)"
      using skip_identifier_stop [of "Suc ?i" ?s] by blast
    with e show False by simp
  qed
  have short: "?j - Suc ?i \<le> 768" if "short_words ?s"
    using short_words_skip [OF that, of "Suc ?i"] by (simp add: MAX_LINE_LEN_def)
  show ?thesis
  proof (cases "char_at ?s ?j = CHR '':''")
    case True
    then have "?j \<noteq> e" using e by auto
    with je have "?j < e" by simp
    moreover have "1 < (of_nat (Suc ?j - ?i) :: u16)" if "short_words ?s"
      by (rule of_nat_u16_less1) (use j short [OF that] in linarith)+
    ultimately show ?thesis
      using True j start
      by (auto simp: scan_identifier_def Let_def match_offset_def peek_def INIT_TOKEN_def
          init_token_def in_line_def word_ok_def)
  next
    case False
    moreover have "0 < (of_nat (?j - ?i) :: u16)" if "short_words ?s"
      by (rule of_nat_u16_less) (use j short [OF that] in linarith)+
    ultimately show ?thesis
      using j je start
      by (auto simp: scan_identifier_def Let_def match_offset_def peek_def INIT_TOKEN_def
          init_token_def in_line_def word_ok_def)
  qed
qed

text \<open>A number is read from digits only, so it does not reach the line break.\<close>

lemma nth_takeWhile_char:
  "k < length (takeWhile P s) \<Longrightarrow> P (char_at s k)"
  by (metis char_at_in length_takeWhile_le nth_mem order_less_le_trans set_takeWhileD takeWhile_nth)

lemma digit_first: "isdigit_l c \<Longrightarrow> \<not> isspace_l c \<and> c \<noteq> CHR ''-'' \<and> c \<noteq> CHR ''+''"
  by (auto simp: ctype_defs)

lemma strtoull_end:
  assumes r: "strtoull 0 s = (v, n, r)" and d: "isdigit_l (char_at s 0)" and k: "k < n"
  shows "char_at s k \<noteq> CHR 0x0A"
proof -
  from d have ne: "s \<noteq> []" by (cases s) (auto simp: ctype_defs)
  then have hd: "hd s = char_at s 0" by (cases s) auto
  from digit_first [OF d] have ws: "takeWhile isspace_l s = []"
    and sg: "hd s \<noteq> CHR ''-''" "hd s \<noteq> CHR ''+''"
    using ne hd by (cases s; simp)+
  define hexpre where "hexpre = (char_at s 0 = CHR ''0''
    \<and> (char_at s 1 = CHR ''x'' \<or> char_at s 1 = CHR ''X'') \<and> digit_val (char_at s 2) < 16)"
  define pre :: nat where "pre = (if hexpre then 2 else 0)"
  define b :: nat where
    "b = (if hexpre then 16 else if char_at s 0 = CHR ''0'' then 8 else 10)"
  define ds where "ds = takeWhile (\<lambda>c. digit_val c < b) (drop pre s)"
  have "strtoull 0 s =
    (if ds = [] then (0, 0, False)
     else if 2 ^ 64 \<le> num_val b ds then (- 1, pre + length ds, True)
     else (of_nat (num_val b ds), pre + length ds, False))"
    unfolding strtoull_def Let_def ds_def b_def pre_def hexpre_def by (simp add: ws sg)
  then have "n = 0 \<or> n = pre + length ds"
    using r by (auto split: if_splits)
  with k have kl: "k < pre + length ds" by auto
  show ?thesis
  proof (cases "k < pre")
    case True
    then have "hexpre" "k = 0 \<or> k = 1" by (auto simp: pre_def split: if_splits)
    then show ?thesis by (auto simp: hexpre_def)
  next
    case False
    with kl have "k - pre < length ds" by simp
    then have "digit_val (char_at (drop pre s) (k - pre)) < b"
      unfolding ds_def by (rule nth_takeWhile_char)
    then have "digit_val (char_at s k) < 36"
      using False by (auto simp: char_at_drop b_def split: if_splits)
    then show ?thesis by (auto simp: digit_val_def ctype_defs)
  qed
qed

lemma in_line_number:
  assumes a: "at_char e st" and d: "isdigit_l (peek 0 st)"
  shows "in_line e st (scan_number t st)"
proof -
  let ?s = "drop (scur st) (stext st)"
  obtain v n r where r: "strtoull 0 ?s = (v, n, r)" by (metis prod_cases3)
  have pk: "peek k st = char_at ?s k" for k by (simp add: peek_def char_at_drop add.commute)
  have pc: "k < n \<Longrightarrow> peek k st \<noteq> CHR 0x0A" for k
    using strtoull_end [OF r] d unfolding pk by blast
  show ?thesis
  proof (cases "n = 0 \<or> ucast (ucast v :: u32) \<noteq> v")
    case True
    then show ?thesis
      using in_line_unknown [OF a] in_line_adv1 [OF a, of OVERFLOW_NUMBER]
      by (auto simp: scan_number_def r plain_tk_def)
  next
    case False
    then have "0 < n" by simp
    with at_char_move [OF a, of n] pc False a show ?thesis
      by (auto simp: scan_number_def r INIT_TOKEN_DATA_def init_token_data_def init_token_def
          in_line_def word_ok_def at_char_def)
  qed
qed

lemma in_line_rest: "at_char e st \<Longrightarrow> in_line e st (scan_rest t st)"
  by (simp add: scan_rest_def in_line_identifier in_line_number in_line_unknown)

lemma in_line_upper: "at_char e st \<Longrightarrow> in_line e st (scan_upper t st)"
  using in_line_range [OF _ _ range_ends(3)] in_line_rest
  by (auto simp: scan_upper_def split: option.split)

lemma str_to_internal_arch_Some:
  "str_to_internal_arch s False = tk \<Longrightarrow> tk \<noteq> UNKNOWN \<Longrightarrow> prefix (token_pairs tk) s \<and> plain_tk tk"
  by (auto simp: str_to_internal_arch_def maybe_match_arch_prefix [abs_def] find_Some_iff plain_tk_def
      split: option.splits)

lemma in_line_lower: "at_char e st \<Longrightarrow> in_line e st (scan_lower t st)"
proof (cases "match_token_range RETURN ELSE st")
  case None
  assume a: "at_char e st"
  let ?tk = "str_to_internal_arch (drop (scur st) (stext st)) False"
  show ?thesis
  proof (cases "?tk \<noteq> UNKNOWN \<and> \<not> isidentifier (peek (length (token_pairs ?tk)) st)")
    case True
    with str_to_internal_arch_Some [OF refl, of "drop (scur st) (stext st)"]
    have p: "prefix (token_pairs ?tk) (drop (scur st) (stext st))" "plain_tk ?tk" by auto
    have "in_line e st (INIT_TOKEN ?tk t (advance (length (token_pairs ?tk)) st))"
      by (rule in_line_advance [OF a _ token_pairs_peek [OF p(1)] p(2)]) auto
    with True None show ?thesis by (simp add: scan_lower_def Let_def)
  next
    case False
    with None in_line_rest [OF a] show ?thesis by (auto simp: scan_lower_def Let_def)
  qed
next
  case (Some p)
  assume "at_char e st"
  with Some in_line_range [OF _ _ range_ends(2)] show ?thesis
    by (cases p) (auto simp: scan_lower_def)
qed

section \<open>Lines\<close>

lemma skip_spaces_stop:
  "i \<le> e \<Longrightarrow> char_at s e = CHR 0x0A \<Longrightarrow> i \<le> skip_spaces s i \<and> skip_spaces s i \<le> e"
proof (induction s i rule: skip_spaces.induct)
  case (1 s i)
  show ?case
  proof (cases "isspace_l (char_at s i) \<and> char_at s i \<noteq> CHR 0x0A")
    case True
    then have "i \<noteq> e" using 1(3) by metis
    with 1 True show ?thesis by (auto simp: skip_spaces.simps [of s i])
  next
    case False
    with 1(2) show ?thesis by (auto simp: skip_spaces.simps [of s i])
  qed
qed

lemma comment_end_stop:
  "i \<le> e \<Longrightarrow> e < length s \<Longrightarrow> s ! e = CHR 0x0A \<Longrightarrow>
   \<exists>j. comment_end s i = Some j \<and> i \<le> j \<and> j \<le> e"
proof (induction s i rule: comment_end.induct)
  case (1 s i)
  show ?case
  proof (cases "s ! i = CHR 0x0A")
    case False
    with 1(2,4) have "Suc i \<le> e" by (metis Suc_leI le_neq_implies_less)
    with 1 False show ?thesis by (auto simp: comment_end.simps [of s i])
  qed (use 1 in \<open>auto simp: comment_end.simps [of s i]\<close>)
qed

lemma comment_end_nl: "comment_end s i = Some j \<Longrightarrow> char_at s j = CHR 0x0A"
proof (induction s i rule: comment_end.induct)
  case (1 s i)
  show ?case
  proof (cases "length s \<le> i \<or> s ! i = CHR 0x0A")
    case True
    with 1(2) show ?thesis by (auto simp: comment_end.simps [of s i] split: if_splits)
  next
    case False
    with 1 show ?thesis by (simp add: comment_end.simps [of s i])
  qed
qed

lemma skip_nuls_bounds: "i \<le> t \<Longrightarrow> i \<le> skip_nuls s t i \<and> skip_nuls s t i \<le> t"
proof (induction s t i rule: skip_nuls.induct)
  case (1 s t i)
  then show ?case by (auto simp: skip_nuls.simps [of s t i])
qed

lemma length_poke: "length (poke s i c) = max (length s) (Suc i)"
  by (auto simp: poke_def)

lemma poke_nth_same: "poke s i c ! i = c"
  by (auto simp: poke_def nth_append)

text \<open>A new line: it starts at the cursor and its line break is ahead.\<close>

lemma next_line_ok:
  assumes "next_line src = (r, src')"
  shows "src_current src' = src_current src
    \<and> (r = None \<longrightarrow> src' = src \<and> src_current src \<le> src_cursor src)
    \<and> (\<forall>i. r = Some i \<longrightarrow> i = src_cursor src \<and> i < src_current src
        \<and> (\<exists>e. i \<le> e \<and> e < length (src_text src') \<and> src_text src' ! e = CHR 0x0A
              \<and> e \<le> src_current src' \<and> (e < src_cursor src' \<or> src_current src' \<le> src_cursor src')))"
proof (cases "src_current src \<le> src_cursor src")
  case True
  with assms show ?thesis by (auto simp: next_line_def)
next
  case False
  let ?c = "src_cursor src" and ?n = "src_current src"
  show ?thesis
  proof (cases "memchr (src_text src) CHR 0x0A ?c (?n - ?c)")
    case None
    with False assms have r: "r = Some ?c"
      "src' = src\<lparr>src_text := poke (src_text src) ?n CHR 0x0A, src_cursor := ?n\<rparr>"
      by (simp_all add: next_line_def Let_def)
    have "?c \<le> ?n \<and> ?n < length (src_text src') \<and> src_text src' ! ?n = CHR 0x0A
      \<and> ?n \<le> src_current src' \<and> src_current src' \<le> src_cursor src'"
      using False by (simp add: r length_poke poke_nth_same)
    moreover have "src_current src' = ?n" by (simp add: r(2))
    ultimately show ?thesis using False unfolding r(1) by (intro conjI allI impI exI [of _ ?n]) auto
  next
    case (Some lb)
    from memchr_Some [OF Some] False have lb: "?c \<le> lb" "lb < ?n"
      "char_at (src_text src) lb = CHR 0x0A" by auto
    then have "lb < length (src_text src)" by (auto simp: char_at_def split: if_splits)
    moreover have "Suc lb \<le> skip_nuls (src_text src) ?n (Suc lb)"
      using skip_nuls_bounds [of "Suc lb" ?n "src_text src"] lb by simp
    moreover have "r = Some ?c"
      "src' = src\<lparr>src_cursor := skip_nuls (src_text src) ?n (Suc lb)\<rparr>"
      using False Some assms by (simp_all add: next_line_def Let_def)
    ultimately show ?thesis using False lb by (intro conjI allI impI exI [of _ lb]) auto
  qed
qed

text \<open>Lines never grow words: the line break that ends the last line separates.\<close>

lemma next_line_words:
  "short_words (src_text src) \<Longrightarrow> short_words (src_text (snd (next_line src)))"
proof -
  assume s: "short_words (src_text src)"
  have "short_words (poke (src_text src) n CHR 0x0A)" for n
    unfolding short_words_def
  proof
    fix i
    from s obtain k where k: "k \<le> 2 * MAX_LINE_LEN" "\<not> isidentifier (char_at (src_text src) (i + k))"
      by (auto simp: short_words_def)
    have "char_at (poke (src_text src) n CHR 0x0A) j
      = (if j = n then CHR 0x0A else char_at (src_text src) j)" for j
      by (auto simp: poke_def char_at_def nth_append nth_list_update nth_Cons')
    with k show "\<exists>k \<le> 2 * MAX_LINE_LEN. \<not> isidentifier (char_at (poke (src_text src) n CHR 0x0A) (i + k))"
      by (intro exI [of _ k]) simp
  qed
  with s show ?thesis by (auto simp: next_line_def Let_def split: option.split)
qed

lemma next_line_text:
  "next_line src = (r, src') \<Longrightarrow> length (src_text src) \<le> length (src_text src')
   \<and> (short_words (src_text src) \<longrightarrow> short_words (src_text src'))"
  using next_line_words [of src]
  by (auto simp: next_line_def Let_def length_poke split: option.splits if_splits)

text \<open>What a call of \<open>scan_token\<close> guarantees.\<close>

definition scanned :: "scan_state \<Rightarrow> token_t \<Rightarrow> scan_state \<Rightarrow> bool" where
  "scanned st t' st' \<longleftrightarrow>
     scan_ok st' \<and> word_ok (stext st) t' \<and> length (stext st) \<le> length (stext st')
     \<and> (\<forall>i. tk_start t' = Some i \<longrightarrow> i < length (stext st'))
     \<and> (short_words (stext st) \<longrightarrow> short_words (stext st'))
     \<and> (tk_type t' = COMMENT \<longrightarrow> peek 0 st' = CHR 0x0A \<and> token_start (scanner st') \<noteq> None)
     \<and> (peek 0 st = CHR 0x0A \<longrightarrow> token_start (scanner st) \<noteq> None \<longrightarrow> tk_type t' = EOL)
     \<and> (if token_start (scanner st) = None then tk_type t' = TOKEN_EOF \<and> st' = st
        else tk_start t' \<noteq> None
          \<and> (token_start (scanner st') = None \<longrightarrow> tk_type t' = EOL)
          \<and> (tk_type t' \<noteq> EOL \<longrightarrow> source st' = source st)
          \<and> (tk_type t' \<noteq> TOKEN_EOF \<longrightarrow> scan_left st' < scan_left st))
     \<and> scan_left st' \<le> scan_left st"

lemma in_line_scanned:
  assumes r: "in_line e st1 r" and a: "at_char e st1"
    and src: "source st1 = source st" and cur: "scur st \<le> scur st1"
    and nl: "peek 0 st \<noteq> CHR 0x0A"
    and ts: "token_start (scanner st) \<noteq> None"
  shows "\<exists>t' st'. r = Done (t', st') \<and> scanned st t' st'"
proof -
  from a have le: "scur st1 \<le> e" "e < length (stext st1)" "stext st1 ! e = CHR 0x0A"
    "e \<le> src_current (source st1)"
    "e < src_cursor (source st1) \<or> src_current (source st1) \<le> src_cursor (source st1)"
    and ts1: "token_start (scanner st1) = Some (scur st1)"
    by (auto simp: at_char_def line_end_def)
  from r obtain t' st' where r: "r = Done (t', st')"
    and i: "source st' = source st1" "token_start (scanner st') = Some (scur st1)"
      "tk_start t' = Some (scur st1)" "tk_type t' \<noteq> EOL" "tk_type t' \<noteq> COMMENT"
      "word_ok (stext st1) t'"
      "if tk_type t' = TOKEN_EOF then st' = st1 else scur st1 < scur st' \<and> scur st' \<le> e"
    by (auto simp: in_line_def ts1)
  have cur': "scur st' \<le> e" "scur st1 \<le> scur st'" using i(7) le(1) by (auto split: if_splits)
  have ok: "scan_ok st'"
    unfolding scan_ok_def line_end_def
    by (intro impI exI [of _ e]) (use le cur' i(1) in auto)
  have "tk_type t' \<noteq> TOKEN_EOF \<Longrightarrow> scan_left st' < scan_left st" "scan_left st' \<le> scan_left st"
    using i(1,2,7) ts src cur cur' le(4) by (auto simp: scan_left_def)
  then show ?thesis
    using r i ok ts src le(1,2) nl by (auto simp: scanned_def)
qed

lemma scan_token_ok:
  assumes ok: "scan_ok st"
  shows "\<exists>t' st'. scan_token t st = Done (t', st') \<and> scanned st t' st'"
proof (cases "token_start (scanner st)")
  case None
  then show ?thesis
    using ok by (auto simp: scan_token_def INIT_TOKEN_def init_token_def scanned_def word_ok_def)
next
  case (Some ts)
  with ok obtain e where e: "scur st \<le> e" "e < length (stext st)" "stext st ! e = CHR 0x0A"
    "e \<le> src_current (source st)"
    "e < src_cursor (source st) \<or> src_current (source st) \<le> src_cursor (source st)"
    by (auto simp: scan_ok_def line_end_def)
  define cur where "cur = skip_spaces (stext st) (scur st)"
  have cur: "scur st \<le> cur" "cur \<le> e"
    using skip_spaces_stop [of "scur st" e "stext st"] e by (simp_all add: cur_def)
  define st1 where "st1 = st\<lparr>scanner := (scanner st)\<lparr>current_char := cur, token_start := Some cur\<rparr>\<rparr>"
  have st1: "source st1 = source st" "scur st1 = cur" "token_start (scanner st1) = Some cur"
    by (simp_all add: st1_def)
  have le1: "line_end e st1" using e cur st1 by (simp add: line_end_def)
  have nl: "peek 0 st = CHR 0x0A \<Longrightarrow> cur = scur st"
    by (simp add: cur_def peek_def skip_spaces.simps)
  have nlp: "peek 0 st = CHR 0x0A \<Longrightarrow> peek 0 st1 = CHR 0x0A"
    using nl st1 by (simp add: peek_def)
  consider (comment) "peek 0 st1 = CHR ''#''" | (eol) "peek 0 st1 = CHR 0x0A"
    | (other) "peek 0 st1 \<noteq> CHR ''#''" "peek 0 st1 \<noteq> CHR 0x0A" by blast
  then show ?thesis
  proof cases
    case comment
    then have "cur \<noteq> e" using e st1 by (auto simp: peek_def)
    with cur have ce: "Suc cur \<le> e" by simp
    obtain j where j: "comment_end (stext st) (Suc cur) = Some j" "Suc cur \<le> j" "j \<le> e"
      using comment_end_stop [OF ce e(2,3)] by blast
    have nlj: "char_at (stext st) j = CHR 0x0A"
      using comment_end_nl [OF j(1)] .
    have nn: "peek 0 st \<noteq> CHR 0x0A" using comment nlp by auto
    have "scan_token t st = Done (init_token (scanner (goto_char j (advance 1 st1))) COMMENT t,
        goto_char j (advance 1 st1))"
      using Some comment j(1) st1
      by (simp add: scan_token_def Let_def cur_def [symmetric] st1_def [symmetric] match_offset_def
          INIT_TOKEN_def)
    moreover have "scanned st (init_token (scanner (goto_char j (advance 1 st1))) COMMENT t)
        (goto_char j (advance 1 st1))"
      using Some e j cur st1 nlj nn
      by (auto simp: scanned_def init_token_def scan_ok_def line_end_def word_ok_def scan_left_def
          peek_def intro!: exI [of _ e])
    ultimately show ?thesis by blast
  next
    case eol
    obtain nl src where nl: "next_line (source st) = (nl, src)" by (cases "next_line (source st)")
    have tx: "length (stext st) \<le> length (src_text src)" "cur < length (src_text src)"
      "short_words (stext st) \<Longrightarrow> short_words (src_text src)"
      using next_line_text [OF nl] cur e(2) by auto
    define st2 where "st2 = (advance 1 st1)\<lparr>source := src,
      scanner := \<lparr>token_start = nl, current_char = (case nl of None \<Rightarrow> 0 | Some i \<Rightarrow> i),
                 line_nr = line_nr (scanner (advance 1 st1)) + 1\<rparr>\<rparr>"
    have "scan_token t st = Done (init_token (scanner (advance 1 st1)) EOL t, st2)"
      using Some eol st1 nl
      by (simp add: scan_token_def Let_def cur_def [symmetric] st1_def [symmetric] match_offset_def
          reset_to_nextline_def st2_def)
    moreover have "scanned st (init_token (scanner (advance 1 st1)) EOL t) st2"
    proof (cases nl)
      case None
      then show ?thesis
        using Some st1 tx by (auto simp: scanned_def init_token_def st2_def scan_ok_def word_ok_def
            scan_left_def)
    next
      case (Some i)
      from next_line_ok [OF nl [unfolded Some]]
      have i: "src_current src = src_current (source st)" "i = src_cursor (source st)"
          "i < src_current (source st)"
        and ex: "\<exists>e. i \<le> e \<and> e < length (src_text src) \<and> src_text src ! e = CHR 0x0A
          \<and> e \<le> src_current src \<and> (e < src_cursor src \<or> src_current src \<le> src_cursor src)"
        by blast+
      from ex obtain e' where e': "i \<le> e'" "e' < length (src_text src)" "src_text src ! e' = CHR 0x0A"
          "e' \<le> src_current src" "e' < src_cursor src \<or> src_current src \<le> src_cursor src"
        by blast
      have "line_end e' st2" using Some e' by (simp add: st2_def line_end_def)
      then have "scan_ok st2" by (auto simp: scan_ok_def)
      moreover have "e < i" using e(5) i by auto
      then have "scan_left st2 < scan_left st"
        using Some i e(1) \<open>token_start (scanner st) = Some ts\<close>
        by (simp add: scan_left_def st2_def)
      ultimately show ?thesis
        using Some st1 tx \<open>token_start (scanner st) = Some ts\<close>
        by (auto simp: scanned_def init_token_def word_ok_def st2_def)
    qed
    ultimately show ?thesis by blast
  next
    case other
    have a: "at_char e st1" using le1 other st1 by (simp add: at_char_def)
    define r where "r = (let c = peek 0 st1 in
      if islower_l c then scan_lower t st1 else if isupper_l c then scan_upper t st1
      else if ispunct_l c then scan_punct c t st1 else scan_rest t st1)"
    have "in_line e st1 r"
      using a by (simp add: r_def Let_def in_line_lower in_line_upper in_line_punct in_line_rest)
    moreover have "scan_token t st = r"
      using Some other
      by (simp add: scan_token_def Let_def cur_def [symmetric] st1_def [symmetric] match_offset_def
          r_def)
    ultimately show ?thesis
      using in_line_scanned [OF _ a, of r st] st1 cur Some nlp other(2) by auto
  qed
qed

end
