(* ===== verification/Statements.thy ===== *)
theory Statements
  imports Tokens
begin

text \<open>
  The statements of \<open>include/lexical/parser.h\<close>, which the parser and the decoder produce and
  every later stage works on.

  A \<open>string_t\<close> (and the pair \<open>line_start\<close>, \<open>line_len\<close>) is represented by the bytes it
  delimits, \<open>None\<close> for a \<open>NULL\<close> start: the memory behind it is not written while the
  statement lives. \<open>error_start\<close> is kept as the distance from \<open>line_start\<close>, the only use
  the code makes of it. The union of line types is a datatype; \<open>memset (local, 0, ...)\<close> is
  \<open>zero_statement\<close>.
\<close>

type_synonym string_t = "string option"

record label_t =
  key :: string_t
  label_nr :: u16

record obj_t =
  obj_type :: token_type
  obj_data :: u32
  literal :: string_t

record assign_line_t =
  left_var :: obj_t
  operator :: token_type
  right_var :: obj_t

datatype comparator_t = CMP_NUMBER | CMP_ARCH | CMP_SYSCALL | CMP_ARCH_SYSCALL

record jump_line_t =
  if_bang :: bool
  if_condition :: bool
  cmptype :: comparator_t
  comparator :: token_type
  cmpobj :: obj_t
  jt :: label_t
  jf :: label_t

record return_line_t =
  ret_obj :: obj_t
  real_obj :: obj_t

record error_line_t =
  error_start :: int
  error_msg :: string

datatype line_t =
    ASSIGN_LINE assign_line_t
  | JUMP_LINE jump_line_t
  | RETURN_LINE return_line_t
  | EMPTY_LINE
  | EOF_LINE
  | ERROR_LINE error_line_t

record statement_t =
  line :: line_t
  label_decl :: string_t
  text_nr :: u16
  code_nr :: u16
  line_text :: string_t
  comment :: int

text \<open>What \<open>memset\<close> with zero leaves behind: the enums read as their first constant.\<close>

definition zero_label :: label_t where
  "zero_label = \<lparr>key = None, label_nr = 0\<rparr>"

definition zero_obj :: obj_t where
  "zero_obj = \<lparr>obj_type = ARCH_X86, obj_data = 0, literal = None\<rparr>"

definition zero_assign :: assign_line_t where
  "zero_assign = \<lparr>left_var = zero_obj, operator = ARCH_X86, right_var = zero_obj\<rparr>"

definition zero_jump :: jump_line_t where
  "zero_jump = \<lparr>if_bang = False, if_condition = False, cmptype = CMP_NUMBER, comparator = ARCH_X86,
     cmpobj = zero_obj, jt = zero_label, jf = zero_label\<rparr>"

definition zero_return :: return_line_t where
  "zero_return = \<lparr>ret_obj = zero_obj, real_obj = zero_obj\<rparr>"

definition zero_statement :: statement_t where
  "zero_statement = \<lparr>line = ASSIGN_LINE zero_assign, label_decl = None, text_nr = 0, code_nr = 0,
     line_text = None, comment = 0\<rparr>"

lemmas zero_defs = zero_label_def zero_obj_def zero_assign_def zero_jump_def zero_return_def
  zero_statement_def

definition is_assign :: "line_t \<Rightarrow> bool" where
  "is_assign l = (case l of ASSIGN_LINE _ \<Rightarrow> True | _ \<Rightarrow> False)"

definition is_return :: "line_t \<Rightarrow> bool" where
  "is_return l = (case l of RETURN_LINE _ \<Rightarrow> True | _ \<Rightarrow> False)"

definition is_error :: "line_t \<Rightarrow> bool" where
  "is_error l = (case l of ERROR_LINE _ \<Rightarrow> True | _ \<Rightarrow> False)"

section \<open>Well-formed lines\<close>

text \<open>
  What the grammar of the parser guarantees of a line that is no error: the operands and
  operators a line can hold, whatever their values. The resolver checks the rest.
\<close>

definition wf_right :: "obj_t \<Rightarrow> bool" where
  "wf_right r \<longleftrightarrow> (\<exists>v. obj_type r = Var_tk v) \<or> obj_type r = NUMBER"

definition wf_assign :: "assign_line_t \<Rightarrow> bool" where
  "wf_assign a \<longleftrightarrow>
     obj_type (left_var a) \<in> {Tk_A, Tk_X, MEM}
     \<and> ((\<exists>p. operator a = Assign_tk p) \<or> operator a = EQUAL \<or> operator a = NEGATIVE)
     \<and> wf_right (right_var a)"

definition wf_label :: "label_t \<Rightarrow> bool" where
  "wf_label l \<longleftrightarrow> (\<exists>c cs. key l = Some (c # cs))"

definition wf_jump :: "jump_line_t \<Rightarrow> bool" where
  "wf_jump j \<longleftrightarrow>
     wf_label (jt j)
     \<and> (if_condition j \<longrightarrow>
          (\<exists>c. comparator j = Compare_tk c) \<and> obj_type (cmpobj j) \<in> {Tk_X, NUMBER}
          \<and> (key (jf j) = None \<or> wf_label (jf j)))"

definition wf_return :: "return_line_t \<Rightarrow> bool" where
  "wf_return r \<longleftrightarrow>
     (\<exists>a. obj_type (ret_obj r) = Action_tk a) \<or> obj_type (ret_obj r) = Tk_A
     \<or> obj_type (ret_obj r) = NUMBER"

text \<open>The actions without data carry none.\<close>

definition dataless :: "token_type \<Rightarrow> bool" where
  "dataless t \<longleftrightarrow> t \<in> {KILL_PROC, KILL, ALLOW, NOTIFY, LOG}"

definition wf_return_data :: "return_line_t \<Rightarrow> bool" where
  "wf_return_data r \<longleftrightarrow> (dataless (obj_type (ret_obj r)) \<longrightarrow> obj_data (ret_obj r) = 0)"

definition wf_line :: "line_t \<Rightarrow> bool" where
  "wf_line l =
     (case l of
        ASSIGN_LINE a \<Rightarrow> wf_assign a
      | JUMP_LINE j \<Rightarrow> wf_jump j
      | RETURN_LINE r \<Rightarrow> wf_return r \<and> wf_return_data r
      | _ \<Rightarrow> True)"

lemmas wf_line_defs = wf_line_def wf_assign_def wf_right_def wf_jump_def wf_label_def wf_return_def
  wf_return_data_def dataless_def

end
