(* ===== verification/Vectors.thy ===== *)
theory Vectors
  imports Prelude
begin

text \<open>
  \<open>src/utils/vector.c\<close>: the growable array the statements live in. A slot that was
  allocated but never written is \<open>None\<close>; \<open>v_data\<close> has one entry per allocated element, so
  an access behind it is an access outside the block. The interface \<open>growable\<close> states what
  the parser, the decoder and the printers rely on: a push appends and moves nothing.
\<close>

section \<open>The vector\<close>

record 'a vector_t =
  v_count :: u32
  v_capacity :: u32
  v_data :: "'a option list"

text \<open>\<open>realloc\<close> to \<open>n\<close> elements: the common prefix survives, the rest is not initialised.\<close>

definition update_vector :: "'a vector_t \<Rightarrow> 'a vector_t" where
  "update_vector v =
     (let n = unat (v_capacity v) in
      v\<lparr>v_data := take n (v_data v) @ replicate (n - length (v_data v)) None\<rparr>)"

definition init_vector :: "u64 \<Rightarrow> 'a vector_t" where
  "init_vector initial_capacity =
     update_vector \<lparr>v_count = 0,
       v_capacity = (if initial_capacity \<noteq> 0 then ucast initial_capacity else 0x10),
       v_data = []\<rparr>"

definition free_vector :: "'a vector_t \<Rightarrow> 'a vector_t" where
  "free_vector v = update_vector (v\<lparr>v_count := 0, v_capacity := 0\<rparr>)"

definition push_vector :: "'a vector_t \<Rightarrow> 'a \<Rightarrow> 'a vector_t cres" where
  "push_vector v x =
     (let v = (if v_capacity v \<le> v_count v
               then update_vector (v\<lparr>v_capacity := v_capacity v * 2\<rparr>) else v)
      in if unat (v_count v) < length (v_data v)
         then Done (v\<lparr>v_data := (v_data v)[unat (v_count v) := Some x], v_count := v_count v + 1\<rparr>)
         else Crash ''write outside the vector'')"

definition get_vector :: "'a vector_t \<Rightarrow> u32 \<Rightarrow> 'a cres" where
  "get_vector v i =
     (if unat i < length (v_data v)
      then (case v_data v ! unat i of Some x \<Rightarrow> Done x | None \<Rightarrow> Crash ''uninitialised element'')
      else Crash ''read outside the vector'')"

section \<open>The interface\<close>

text \<open>\<open>room v\<close>: the vector can grow by one more element without wrapping its capacity.\<close>

locale growable =
  fixes push :: "'v \<Rightarrow> 'a \<Rightarrow> 'v cres"
    and get :: "'v \<Rightarrow> u32 \<Rightarrow> 'a cres"
    and elems :: "'v \<Rightarrow> 'a list"
    and invar :: "'v \<Rightarrow> bool"
    and limit :: nat
  assumes push_ok: "invar v \<Longrightarrow> length (elems v) < limit \<Longrightarrow>
      \<exists>v'. push v x = Done v' \<and> invar v' \<and> elems v' = elems v @ [x]"
    and get_ok: "invar v \<Longrightarrow> unat i < length (elems v) \<Longrightarrow> get v i = Done (elems v ! unat i)"
begin

text \<open>The loop \<open>for (...) push_vector (v, &x)\<close>.\<close>

primrec push_all :: "'v \<Rightarrow> 'a list \<Rightarrow> 'v cres" where
  "push_all v [] = Done v"
| "push_all v (x # xs) = cbind (push v x) (\<lambda>v. push_all v xs)"

lemma push_all_ok:
  "invar v \<Longrightarrow> length (elems v) + length xs \<le> limit \<Longrightarrow>
   \<exists>v'. push_all v xs = Done v' \<and> invar v' \<and> elems v' = elems v @ xs"
proof (induction xs arbitrary: v)
  case (Cons x xs)
  from Cons.prems obtain v1 where
    v1: "push v x = Done v1" "invar v1" "elems v1 = elems v @ [x]"
    using push_ok [of v x] by auto
  with Cons.prems Cons.IH [of v1] show ?case by auto
qed simp

lemma push_all_get:
  assumes "invar v" "elems v = []" "length xs \<le> limit" "unat i < length xs"
  shows "\<exists>v'. push_all v xs = Done v' \<and> get v' i = Done (xs ! unat i)"
  using push_all_ok [of v xs] get_ok assms by fastforce

end

section \<open>The vector provides it\<close>

definition vec_ok :: "'a vector_t \<Rightarrow> bool" where
  "vec_ok v \<longleftrightarrow>
     length (v_data v) = unat (v_capacity v) \<and> 0 < v_capacity v \<and> v_count v \<le> v_capacity v
     \<and> (\<forall>i < unat (v_count v). v_data v ! i \<noteq> None)"

definition vec_elems :: "'a vector_t \<Rightarrow> 'a list" where
  "vec_elems v = map the (take (unat (v_count v)) (v_data v))"

lemma vec_ok_init:
  assumes "unat n < 2 ^ 32"
  shows "vec_ok (init_vector n :: 'a vector_t) \<and> vec_elems (init_vector n :: 'a vector_t) = []"
proof -
  have "(ucast n :: u32) \<noteq> 0" if "n \<noteq> 0"
  proof -
    have "unat (ucast n :: u32) = unat n" using assms by (simp add: unsigned_ucast_eq take_bit_nat_eq_self)
    with that show ?thesis by (metis unat_eq_zero unat_0)
  qed
  then show ?thesis
    by (auto simp: vec_ok_def vec_elems_def init_vector_def update_vector_def Let_def word_neq_0_conv)
qed

lemma length_vec_elems: "vec_ok v \<Longrightarrow> length (vec_elems v) = unat (v_count v)"
  by (auto simp: vec_ok_def vec_elems_def word_le_nat_alt)

text \<open>Doubling the capacity keeps the elements and makes room.\<close>

lemma vec_grow:
  assumes ok: "vec_ok v" and full: "v_capacity v \<le> v_count v" and lim: "unat (v_count v) < 2 ^ 31"
  defines "w \<equiv> update_vector (v\<lparr>v_capacity := v_capacity v * 2\<rparr>)"
  shows "length (v_data w) = unat (v_capacity w) \<and> unat (v_count w) < unat (v_capacity w)
    \<and> v_count w = v_count v \<and> take (unat (v_count v)) (v_data w) = take (unat (v_count v)) (v_data v)"
proof -
  from ok full have eq: "v_count v = v_capacity v" by (auto simp: vec_ok_def)
  with lim have "unat (v_capacity v * 2) = unat (v_capacity v) * 2"
    by (simp add: unat_word_ariths)
  moreover from ok have "0 < unat (v_capacity v)" by (simp add: vec_ok_def word_less_nat_alt)
  ultimately show ?thesis
    using ok eq by (auto simp: w_def update_vector_def Let_def vec_ok_def)
qed

lemma vec_push:
  assumes ok: "vec_ok v" and lim: "length (vec_elems v) < 2 ^ 31"
  shows "\<exists>w. push_vector v x = Done w \<and> vec_ok w \<and> vec_elems w = vec_elems v @ [x]"
proof -
  define u where "u = (if v_capacity v \<le> v_count v
    then update_vector (v\<lparr>v_capacity := v_capacity v * 2\<rparr>) else v)"
  let ?n = "unat (v_count v)"
  have n: "?n < 2 ^ 31" using lim by (simp add: length_vec_elems [OF ok])
  have u: "length (v_data u) = unat (v_capacity u)" "?n < unat (v_capacity u)"
    "v_count u = v_count v" "take ?n (v_data u) = take ?n (v_data v)"
    using vec_grow [OF ok _ n] ok
    by (auto simp: u_def vec_ok_def not_le word_less_nat_alt)
  have len: "?n < length (v_data u)" using u by simp
  have suc: "unat (v_count v + 1) = Suc ?n" using n by (simp add: unat_word_ariths)
  let ?w = "u\<lparr>v_data := (v_data u)[?n := Some x], v_count := v_count u + 1\<rparr>"
  have push: "push_vector v x = Done ?w"
    using len u(3) unfolding push_vector_def u_def [symmetric] by (simp add: Let_def)
  have tk: "take (Suc ?n) ((v_data u)[?n := Some x]) = take ?n (v_data v) @ [Some x]"
    using len u(4) by (simp add: take_Suc_conv_app_nth)
  have elems: "vec_elems ?w = vec_elems v @ [x]"
    using tk u(3) suc by (simp add: vec_elems_def)
  have old: "\<And>i. i < ?n \<Longrightarrow> v_data u ! i = v_data v ! i"
    using u(4) by (metis nth_take)
  have "vec_ok ?w"
    using u len suc old ok
    by (auto simp: vec_ok_def word_le_nat_alt word_less_nat_alt nth_list_update less_Suc_eq)
  with push elems show ?thesis by blast
qed

lemma vec_get:
  assumes "vec_ok v" and "unat i < length (vec_elems v)"
  shows "get_vector v i = Done (vec_elems v ! unat i)"
proof -
  have "unat i < unat (v_count v)" using assms length_vec_elems by metis
  with assms(1) show ?thesis
    by (auto simp: get_vector_def vec_elems_def vec_ok_def word_le_nat_alt)
qed

interpretation vec: growable push_vector get_vector vec_elems vec_ok "2 ^ 31"
  by unfold_locales (auto intro: vec_push vec_get)

end
