(* ===== verification/Hash_Table.thy ===== *)
theory Hash_Table
  imports Prelude
begin

text \<open>
  \<open>src/utils/hash.c\<close>: the table of labels. The hash table itself is the vendored library
  Verstable; \<open>hash.c\<close> uses it as a map from the label's bytes to a statement number, keeps
  the first binding of a key and reports a second one. The map is an association list here.
  The interface \<open>label_table\<close> is what the parser (which declares labels) and the resolver
  (which looks them up) rely on.
\<close>

section \<open>The table\<close>

type_synonym hkey_t = string
type_synonym str_table = "(hkey_t \<times> u16) list"

definition init_table :: str_table where
  "init_table = []"

text \<open>
  \<open>vt_get_or_insert\<close>: the iterator of the entry with the key, after inserting it if there
  was none; \<open>None\<close> is the end iterator it returns when memory runs out (\<open>oom\<close>).
\<close>

definition vt_get_or_insert :: "bool \<Rightarrow> str_table \<Rightarrow> hkey_t \<Rightarrow> u16 \<Rightarrow> u16 option \<times> str_table" where
  "vt_get_or_insert oom t key v =
     (case map_of t key of
        Some w \<Rightarrow> (Some w, t)
      | None \<Rightarrow> if oom then (None, t) else (Some v, (key, v) # t))"

definition insert_key :: "bool \<Rightarrow> hkey_t \<Rightarrow> u16 \<Rightarrow> str_table \<Rightarrow> int \<times> str_table" where
  "insert_key oom key line_nr t =
     (let prev_size = length t;
          (itr, t') = vt_get_or_insert oom t key line_nr
      in (if itr = None then - 1 else if prev_size = length t' then 1 else 0, t'))"

text \<open>\<open>(uint16_t)-1\<close> when there is no such label.\<close>

definition find_key :: "hkey_t \<Rightarrow> str_table \<Rightarrow> u16" where
  "find_key key t = (case map_of t key of None \<Rightarrow> - 1 | Some v \<Rightarrow> v)"

definition free_table :: "str_table \<Rightarrow> str_table" where
  "free_table t = []"

section \<open>The interface\<close>

locale label_table =
  fixes empty :: 't
    and insert :: "'k \<Rightarrow> 'v \<Rightarrow> 't \<Rightarrow> int \<times> 't"
    and lookup :: "'t \<Rightarrow> 'k \<Rightarrow> 'v option"
  assumes lookup_empty: "lookup empty k = None"
    and insert_new: "lookup t k = None \<Longrightarrow>
      fst (insert k v t) = 0 \<and> lookup (snd (insert k v t)) = (lookup t)(k \<mapsto> v)"
    and insert_old: "lookup t k = Some w \<Longrightarrow> insert k v t = (1, t)"
begin

text \<open>The first declaration of a label stays.\<close>

lemma lookup_stable: "lookup t k = Some w \<Longrightarrow> lookup (snd (insert k' v t)) k = Some w"
  using insert_new [of t k' v] insert_old [of t k' _ v] by (cases "lookup t k'") auto

lemma insert_fst: "fst (insert k v t) = (if lookup t k = None then 0 else 1)"
  using insert_new [of t k v] insert_old [of t k _ v] by (cases "lookup t k") auto

lemma insert_fresh:
  "fst (insert k v t) \<noteq> 1 \<Longrightarrow> lookup t k = None \<and> lookup (snd (insert k v t)) = (lookup t)(k \<mapsto> v)"
  using insert_new [of t k v] by (simp add: insert_fst split: if_splits)

lemma dom_insert: "dom (lookup (snd (insert k v t))) = Set.insert k (dom (lookup t))"
  using insert_new [of t k v] insert_old [of t k _ v] by (cases "lookup t k") auto

end

section \<open>The table provides it\<close>

interpretation labels: label_table init_table "insert_key False" map_of
  by unfold_locales
     (auto simp: init_table_def insert_key_def vt_get_or_insert_def Let_def)

lemma find_key_Some: "map_of t k = Some v \<Longrightarrow> find_key k t = v"
  by (simp add: find_key_def)

lemma find_key_found: "find_key k t \<noteq> - 1 \<Longrightarrow> map_of t k = Some (find_key k t)"
  by (auto simp: find_key_def split: option.splits)

end
