(* ===== verification/Parser.thy ===== *)
theory Parser
  imports Scanner Statements Vectors Hash_Table
begin

text \<open>
  \<open>src/lexical/parser.c\<close>: from tokens to statements, with one token of lookahead, labels in
  the table of \<open>Hash_Table\<close> and the statements in vectors.

  The static variables are the record \<open>pstate\<close>. A parser function is a state transformer
  whose outcome is a value, \<open>Longjmp\<close> (the \<open>longjmp\<close> of \<open>error_at\<close>, which \<open>parse_line\<close>
  catches), \<open>Exit\<close> (\<open>error ()\<close>) or \<open>Abort\<close> (a loop ran out of fuel, or the C code would
  leave the source map or subtract a \<open>NULL\<close> pointer). The fuel of the loops is the number of
  characters left; \<open>parser_ok\<close> shows that no run aborts. Memory is assumed to be
  available: \<open>insert_key\<close> does not fail. The pointers of \<open>code_ptr_v\<close> are indices into
  \<open>text_v\<close>.
\<close>

section \<open>State and outcomes\<close>

record pstate =
  p_scan :: scan_state
  p_previous :: token_t
  p_current :: token_t
  p_next :: token_t
  p_text_nr :: u16
  p_code_nr :: u16
  p_labels :: str_table
  p_local :: statement_t
  p_line_start :: "nat option"

datatype 'a presult = Ok 'a | Longjmp | Exit string | Abort string

type_synonym 'a pm = "pstate \<Rightarrow> 'a presult \<times> pstate"

definition preturn :: "'a \<Rightarrow> 'a pm" where
  "preturn x s = (Ok x, s)"

definition pbind :: "'a pm \<Rightarrow> ('a \<Rightarrow> 'b pm) \<Rightarrow> 'b pm" where
  "pbind m f s =
     (case m s of
        (Ok x, s') \<Rightarrow> f x s'
      | (Longjmp, s') \<Rightarrow> (Longjmp, s')
      | (Exit e, s') \<Rightarrow> (Exit e, s')
      | (Abort e, s') \<Rightarrow> (Abort e, s'))"

definition pget :: "(pstate \<Rightarrow> 'a) \<Rightarrow> 'a pm" where
  "pget f s = (Ok (f s), s)"

definition pmodify :: "(pstate \<Rightarrow> pstate) \<Rightarrow> unit pm" where
  "pmodify f s = (Ok (), f s)"

definition plift :: "'a cres \<Rightarrow> 'a pm" where
  "plift r s = (case r of Done x \<Rightarrow> (Ok x, s) | Die e \<Rightarrow> (Exit e, s) | Crash e \<Rightarrow> (Abort e, s))"

definition set_local :: "(statement_t \<Rightarrow> statement_t) \<Rightarrow> unit pm" where
  "set_local f = pmodify (\<lambda>s. s\<lparr>p_local := f (p_local s)\<rparr>)"

text \<open>Pointer differences; both pointers \<open>NULL\<close> give 0.\<close>

definition ptr_diff :: "nat option \<Rightarrow> nat option \<Rightarrow> int cres" where
  "ptr_diff p q =
     (case (p, q) of
        (Some a, Some b) \<Rightarrow> Done (int a - int b)
      | (None, None) \<Rightarrow> Done 0
      | _ \<Rightarrow> Crash ''difference of a NULL pointer'')"

abbreviation ptext :: "pstate \<Rightarrow> string" where
  "ptext s \<equiv> stext (p_scan s)"

text \<open>The bytes from \<open>start\<close> to the end of a token, and those of a token.\<close>

definition text_span :: "string \<Rightarrow> nat option \<Rightarrow> nat \<Rightarrow> string_t" where
  "text_span s p n = map_option (\<lambda>i. slice s i n) p"

definition span_to :: "string \<Rightarrow> nat option \<Rightarrow> token_t \<Rightarrow> string_t" where
  "span_to s p t =
     (case (p, tk_start t) of
        (Some a, Some b) \<Rightarrow> Some (slice s a (b + unat (tk_len t) - a))
      | _ \<Rightarrow> None)"

section \<open>Tokens\<close>

definition advance :: "unit pm" where
  "advance s =
     (let s = s\<lparr>p_previous := p_current s, p_current := p_next s\<rparr> in
      case scan_token (p_next s) (p_scan s) of
        Done (t, sc) \<Rightarrow> (Ok (), s\<lparr>p_next := t, p_scan := sc\<rparr>)
      | Die e \<Rightarrow> (Exit e, s)
      | Crash e \<Rightarrow> (Abort e, s))"

definition peek :: "token_type \<Rightarrow> pstate \<Rightarrow> bool" where
  "peek expected s = (expected = tk_type (p_next s))"

definition peek_from_to :: "token_type \<Rightarrow> token_type \<Rightarrow> pstate \<Rightarrow> bool" where
  "peek_from_to from to s = tk_between from to (tk_type (p_next s))"

definition match_if :: "(pstate \<Rightarrow> bool) \<Rightarrow> bool pm" where
  "match_if p s = (if p s then pbind advance (\<lambda>_. preturn True) s else preturn False s)"

definition match :: "token_type \<Rightarrow> bool pm" where
  "match expected = match_if (peek expected)"

definition match_from_to :: "token_type \<Rightarrow> token_type \<Rightarrow> bool pm" where
  "match_from_to from to = match_if (peek_from_to from to)"

text \<open>\<open>while (!(match (EOL) || peek (TOKEN_EOF))) advance ();\<close>\<close>

fun sync :: "nat \<Rightarrow> unit pm" where
  "sync 0 = (\<lambda>s. (Abort ''out of fuel'', s))"
| "sync (Suc n) =
     pbind (match EOL) (\<lambda>m. pbind (pget (peek TOKEN_EOF)) (\<lambda>eof.
       if m \<or> eof then preturn () else pbind advance (\<lambda>_. sync n)))"

text \<open>\<open>local->line_len = end - local->line_start\<close>, in 16 bits.\<close>

definition set_line_len :: "nat option \<Rightarrow> unit pm" where
  "set_line_len end_ptr =
     pbind (pget p_line_start) (\<lambda>start.
     pbind (plift (ptr_diff end_ptr start)) (\<lambda>d.
     pbind (pget ptext) (\<lambda>s.
       set_local (\<lambda>l. l\<lparr>line_text := text_span s start (unat (of_int d :: u16))\<rparr>))))"

definition error_at :: "token_t \<Rightarrow> string \<Rightarrow> 'a pm" where
  "error_at token err_msg =
     pbind (pget (\<lambda>s. scan_left (p_scan s) + 2)) (\<lambda>fuel.
     pbind (sync fuel) (\<lambda>_.
     pbind (pget (\<lambda>s. tk_start (p_current s))) (\<lambda>end_ptr.
     pbind (set_line_len end_ptr) (\<lambda>_.
     pbind (pget p_line_start) (\<lambda>start.
     pbind (plift (ptr_diff (tk_start token) start)) (\<lambda>d.
     pbind (set_local (\<lambda>l. l\<lparr>line := ERROR_LINE \<lparr>error_start = d, error_msg = err_msg\<rparr>\<rparr>)) (\<lambda>_.
       (\<lambda>s. (Longjmp, s)))))))))"

definition error_next :: "string \<Rightarrow> 'a pm" where
  "error_next err_msg = pbind (pget p_next) (\<lambda>t. error_at t err_msg)"

text \<open>\<open>if (!match (tk)) error_at (parse.next, msg);\<close>\<close>

definition expect :: "bool pm \<Rightarrow> string \<Rightarrow> unit pm" where
  "expect m err_msg = pbind m (\<lambda>ok. if ok then preturn () else error_next err_msg)"

definition match_number :: "bool pm" where
  "match_number =
     pbind (match NUMBER) (\<lambda>m.
     if m then preturn True
     else pbind (pget (peek OVERFLOW_NUMBER)) (\<lambda>ovf.
       if ovf then error_next M_NUMBER_OVERFLOW else preturn False))"

definition paren_num :: "u32 pm" where
  "paren_num =
     pbind (match LEFT_PAREN) (\<lambda>m.
     if \<not> m then preturn 0
     else pbind (expect match_number M_EXPECT_NUMBER) (\<lambda>_.
          pbind (expect (match RIGHT_PAREN) M_EXPECT_PAREN) (\<lambda>_.
          pget (\<lambda>s. tk_data (p_previous s)))))"

definition bracket_num :: "u32 pm" where
  "bracket_num =
     pbind (expect (match LEFT_BRACKET) M_EXPECT_BRACKET) (\<lambda>_.
     pbind (expect match_number M_EXPECT_NUMBER) (\<lambda>_.
     pbind (expect (match RIGHT_BRACKET) M_EXPECT_BRACKET) (\<lambda>_.
     pget (\<lambda>s. tk_data (p_previous s)))))"

section \<open>Lines\<close>

definition empty_line :: "line_t pm" where
  "empty_line = pbind (pmodify (\<lambda>s. s\<lparr>p_code_nr := p_code_nr s - 1\<rparr>)) (\<lambda>_. preturn EMPTY_LINE)"

definition eof_line :: "line_t pm" where
  "eof_line = preturn EOF_LINE"

text \<open>\<open>literal\<close> from \<open>start\<close> to the end of the current token.\<close>

definition with_literal :: "nat option \<Rightarrow> token_type \<Rightarrow> u32 \<Rightarrow> obj_t pm" where
  "with_literal start ty d =
     pget (\<lambda>s. \<lparr>obj_type = ty, obj_data = d, literal = span_to (ptext s) start (p_current s)\<rparr>)"

definition current_type :: "token_type pm" where
  "current_type = pget (\<lambda>s. tk_type (p_current s))"

definition next_start :: "nat option pm" where
  "next_start = pget (\<lambda>s. tk_start (p_next s))"

definition return_line :: "line_t pm" where
  "return_line =
     pbind next_start (\<lambda>start.
     pbind (match_from_to TRACE ERRNO) (\<lambda>m.
     pbind
       (if m then
          pbind current_type (\<lambda>ty. pbind paren_num (\<lambda>d. with_literal start ty d))
        else pbind match_number (\<lambda>m.
          if m then pbind (pget (\<lambda>s. tk_data (p_current s))) (\<lambda>d. with_literal start NUMBER d)
          else pbind (match_from_to KILL_PROC LOG) (\<lambda>m.
            pbind (if m then preturn True else match Tk_A) (\<lambda>m.
            if m then pbind current_type (\<lambda>ty. with_literal start ty 0)
            else error_next M_EXPECT_RETURN_VAL))))
       (\<lambda>obj. preturn (RETURN_LINE (zero_return\<lparr>ret_obj := obj\<rparr>)))))"

definition label :: "label_t pm" where
  "label =
     pbind (expect (match IDENTIFIER) M_EXPECT_LABEL) (\<lambda>_.
     pget (\<lambda>s. zero_label\<lparr>key :=
       text_span (ptext s) (tk_start (p_current s)) (unat (tk_len (p_current s)))\<rparr>))"

definition resolve_name_arch :: "scmp_lib \<Rightarrow> u32 \<Rightarrow> token_t \<Rightarrow> u32 pm" where
  "resolve_name_arch lib arch_token sys_token =
     pget (\<lambda>s. syscall_resolve_name_arch lib arch_token
       (case text_span (ptext s) (tk_start sys_token) (unat (tk_len sys_token)) of
          None \<Rightarrow> [] | Some name \<Rightarrow> name))"

definition compare_arch_syscall :: "scmp_lib \<Rightarrow> nat option \<Rightarrow> u16 \<Rightarrow> (obj_t \<times> comparator_t) pm" where
  "compare_arch_syscall lib start len =
     pbind (pget (peek IDENTIFIER)) (\<lambda>ident.
     if \<not> ident then error_next M_EXPECT_SYSCALL
     else pbind (pget p_previous) (\<lambda>arch.
       let scmp_arch = internal_arch_to_scmp_arch lib (tk_type arch) in
       if scmp_arch = - 1 then error_at arch M_EXPECT_ARCH
       else pbind (pget p_next) (\<lambda>sys.
         pbind (resolve_name_arch lib scmp_arch sys) (\<lambda>nr.
         if nr = - 1 then error_next M_EXPECT_SYSCALL
         else pbind advance (\<lambda>_. pget (\<lambda>s.
           (\<lparr>obj_type = NUMBER, obj_data = nr,
             literal = text_span (ptext s) start (unat len + unat (tk_len sys) + 1)\<rparr>,
            CMP_ARCH_SYSCALL)))))))"

definition compare_obj :: "scmp_lib \<Rightarrow> u32 \<Rightarrow> (obj_t \<times> comparator_t) pm" where
  "compare_obj lib local_arch =
     pbind (pget p_next) (\<lambda>tok.
     let start = tk_start tok; len = tk_len tok;
         obj = (\<lambda>ty d cmp. pget (\<lambda>s.
           (\<lparr>obj_type = ty, obj_data = d, literal = text_span (ptext s) start (unat len)\<rparr>, cmp)))
     in
     pbind (match Tk_X) (\<lambda>m.
     if m then obj Tk_X 0 CMP_NUMBER
     else pbind match_number (\<lambda>m.
     if m then pbind (pget (\<lambda>s. tk_data (p_current s))) (\<lambda>d. obj NUMBER d CMP_NUMBER)
     else pbind (match IDENTIFIER) (\<lambda>m.
     if m then
       pbind (pget p_current) (\<lambda>cur.
       pbind (resolve_name_arch lib local_arch cur) (\<lambda>nr.
       if nr = - 1 then error_at cur M_EXPECT_SYSCALL else obj NUMBER nr CMP_SYSCALL))
     else
       pbind (expect (match_from_to ARCH_X86 ARCH_SH) M_UNEXPECT_TOKEN) (\<lambda>_.
       pbind (match DOT) (\<lambda>dot.
       if \<not> dot then
         pbind (pget p_current) (\<lambda>cur.
         let d = internal_arch_to_scmp_arch lib (tk_type cur) in
         if d = - 1 then error_at cur M_EXPECT_ARCH else obj NUMBER d CMP_ARCH)
       else compare_arch_syscall lib start len))))))"

definition condition :: "scmp_lib \<Rightarrow> u32 \<Rightarrow> jump_line_t pm" where
  "condition lib local_arch =
     pbind (match BANG) (\<lambda>bang.
     pbind (expect (match LEFT_PAREN) M_EXPECT_PAREN) (\<lambda>_.
     pbind (expect (match Tk_A) M_EXPECT_A) (\<lambda>_.
     pbind (expect (match_from_to EQUAL_EQUAL Tk_AND) M_EXPECT_COMPARTOR) (\<lambda>_.
     pbind current_type (\<lambda>cmp.
     pbind (compare_obj lib local_arch) (\<lambda>(obj, ty).
     pbind (expect (match RIGHT_PAREN) M_EXPECT_PAREN) (\<lambda>_.
       preturn (zero_jump\<lparr>if_bang := bang, if_condition := True, cmptype := ty,
         comparator := cmp, cmpobj := obj\<rparr>))))))))"

definition ja_line :: "line_t pm" where
  "ja_line = pbind label (\<lambda>l. preturn (JUMP_LINE (zero_jump\<lparr>if_condition := False, jt := l\<rparr>)))"

definition jump_line :: "scmp_lib \<Rightarrow> u32 \<Rightarrow> line_t pm" where
  "jump_line lib local_arch =
     pbind (condition lib local_arch) (\<lambda>j.
     pbind (expect (match GOTO) M_EXPECT_GOTO) (\<lambda>_.
     pbind label (\<lambda>l.
     pbind (match COMMA) (\<lambda>comma.
     if \<not> comma then preturn (JUMP_LINE (j\<lparr>jt := l, jf := zero_label\<rparr>))
     else
       pbind (expect (match ELSE) M_EXPECT_ELSE) (\<lambda>_.
       pbind (expect (match GOTO) M_EXPECT_GOTO) (\<lambda>_.
       pbind label (\<lambda>l'. preturn (JUMP_LINE (j\<lparr>jt := l, jf := l'\<rparr>)))))))))"

definition left :: "obj_t pm" where
  "left =
     pbind (pget p_current) (\<lambda>cur.
     pbind (if tk_type cur = MEM then bracket_num else preturn 0) (\<lambda>d.
     with_literal (tk_start cur) (tk_type cur) d))"

text \<open>A chain \<open>match (t1) || match (t2) || ...\<close>.\<close>

fun match_any :: "bool pm list \<Rightarrow> bool pm" where
  "match_any [] = preturn False"
| "match_any (m # ms) = pbind m (\<lambda>ok. if ok then preturn True else match_any ms)"

definition right :: "obj_t pm" where
  "right =
     pbind next_start (\<lambda>start.
     pbind (match_any [match Tk_A, match Tk_X, match_from_to ATTR_LEN ATTR_HIGHPC]) (\<lambda>m.
     if m then pbind current_type (\<lambda>ty. with_literal start ty 0)
     else pbind (match_any [match MEM, match ATTR_LOWARG, match ATTR_HIGHARG]) (\<lambda>m.
     if m then
       pbind current_type (\<lambda>ty. pbind bracket_num (\<lambda>d. with_literal start ty d))
     else pbind match_number (\<lambda>m.
     if m then
       pbind (pget p_current) (\<lambda>cur. with_literal start (tk_type cur) (tk_data cur))
     else error_next M_EXPECT_RIGHT_VAR))))"

definition assign_line :: "line_t pm" where
  "assign_line =
     pbind left (\<lambda>l.
     pbind (match_from_to ADD_TO XOR_TO) (\<lambda>m.
     pbind
       (if m then current_type
        else pbind (match EQUAL) (\<lambda>m.
          if m then pbind (match NEGATIVE) (\<lambda>_. current_type)
          else error_next M_EXPECT_OPERATOR))
       (\<lambda>op.
     pbind right (\<lambda>r.
     preturn (ASSIGN_LINE \<lparr>left_var = l, operator = op, right_var = r\<rparr>)))))"

definition expression_line :: "scmp_lib \<Rightarrow> u32 \<Rightarrow> line_t pm" where
  "expression_line lib local_arch =
     pbind (pget (\<lambda>s. peek EOL s \<or> peek COMMENT s)) (\<lambda>empty.
     if empty then empty_line
     else pbind (pget (peek TOKEN_EOF)) (\<lambda>eof.
     if eof then eof_line
     else pbind (pget p_code_nr) (\<lambda>nr.
     if of_nat BPF_MAXINSNS < nr then (\<lambda>s. (Exit M_STATEMENT_OVERFLOW, s))
     else pbind (match RETURN) (\<lambda>m.
     if m then return_line
     else pbind (match IF) (\<lambda>m.
     if m then jump_line lib local_arch
     else pbind (match GOTO) (\<lambda>m.
     if m then ja_line
     else pbind (match_from_to Tk_A MEM) (\<lambda>m.
     if m then assign_line
     else error_next M_UNEXPECT_TOKEN)))))))"

text \<open>The comment and the end of a line; \<open>local->comment\<close> is an \<open>int16_t\<close>.\<close>

definition comment_pos :: "int pm" where
  "comment_pos =
     pbind (match COMMENT) (\<lambda>m.
     if m then
       pbind (pget (\<lambda>s. (tk_start (p_current s), p_line_start s))) (\<lambda>(p, q).
       pbind (plift (ptr_diff p q)) (\<lambda>d. preturn (sint (of_int d :: 16 word))))
     else preturn (- 1))"

definition end_of_line :: "unit pm" where
  "end_of_line =
     pbind (match EOL) (\<lambda>m. pbind (pget (peek TOKEN_EOF)) (\<lambda>eof.
     if m then pbind (pget (\<lambda>s. tk_start (p_current s))) set_line_len
     else if eof then pbind (pget (\<lambda>s. tk_start (p_next s))) set_line_len
     else error_next M_UNEXPECT_TOKEN))"

definition expression :: "scmp_lib \<Rightarrow> u32 \<Rightarrow> unit pm" where
  "expression lib local_arch =
     pbind (expression_line lib local_arch) (\<lambda>l.
     pbind (set_local (\<lambda>st. st\<lparr>line := l\<rparr>)) (\<lambda>_.
     pbind comment_pos (\<lambda>c.
     pbind (set_local (\<lambda>st. st\<lparr>comment := c\<rparr>)) (\<lambda>_.
     end_of_line))))"

text \<open>\<open>while (match_number () && count < 4) count++;\<close> with \<open>4 - count\<close> left.\<close>

fun skip_numbers :: "nat \<Rightarrow> unit pm" where
  "skip_numbers 0 = pbind match_number (\<lambda>_. preturn ())"
| "skip_numbers (Suc n) = pbind match_number (\<lambda>m. if m then skip_numbers n else preturn ())"

definition declare_label :: "unit pm" where
  "declare_label =
     pbind (pget p_current) (\<lambda>cur.
     pbind (pget (\<lambda>s. text_span (ptext s) (tk_start cur) (unat (tk_len cur) - 1))) (\<lambda>decl.
     pbind (set_local (\<lambda>l. l\<lparr>label_decl := decl\<rparr>)) (\<lambda>_.
     pbind (pget (\<lambda>s. insert_key False (the decl) (p_code_nr s) (p_labels s))) (\<lambda>(rc, tab).
     pbind (pmodify (\<lambda>s. s\<lparr>p_labels := tab\<rparr>)) (\<lambda>_.
     if rc = 1 then error_at cur M_DUPLICATED_LABEL else skip_numbers 4)))))"

definition parse_label_decl :: "unit pm" where
  "parse_label_decl = pbind (match LABEL_DECL) (\<lambda>m. if \<not> m then preturn () else declare_label)"

definition parse_line :: "scmp_lib \<Rightarrow> u32 \<Rightarrow> statement_t pm" where
  "parse_line lib local_arch s =
     (let nr = p_text_nr s + 1; code = p_code_nr s + 1;
          s = s\<lparr>p_text_nr := nr, p_code_nr := code,
                p_local := zero_statement\<lparr>text_nr := nr, code_nr := code\<rparr>,
                p_line_start := tk_start (p_next s)\<rparr>
      in case pbind parse_label_decl (\<lambda>_. expression lib local_arch) s of
           (Ok _, s') \<Rightarrow> (Ok (p_local s'), s')
         | (Longjmp, s') \<Rightarrow> (Ok (p_local s'), s')
         | (Exit e, s') \<Rightarrow> (Exit e, s')
         | (Abort e, s') \<Rightarrow> (Abort e, s'))"

section \<open>The parser\<close>

definition zero_token :: token_t where
  "zero_token = \<lparr>tk_type = ARCH_X86, tk_start = None, tk_len = 0, tk_line_nr = 0, tk_data = 0\<rparr>"

text \<open>\<open>init_scanner (next_line ())\<close>, \<open>init_table ()\<close> and \<open>init_parser (scmp_arch)\<close>.\<close>

definition start_pstate :: "source_t \<Rightarrow> pstate" where
  "start_pstate src0 =
     (let (start, src) = next_line src0 in
      \<lparr>p_scan = \<lparr>source = src, scanner = init_scanner start, unknown_count = 0\<rparr>,
       p_previous = zero_token, p_current = zero_token, p_next = zero_token,
       p_text_nr = 0, p_code_nr = 0, p_labels = init_table, p_local = zero_statement,
       p_line_start = None\<rparr>)"

definition init_parser :: "source_t \<Rightarrow> unit presult \<times> pstate" where
  "init_parser src = advance (start_pstate src)"

fun parse_lines :: "scmp_lib \<Rightarrow> u32 \<Rightarrow> nat \<Rightarrow> statement_t vector_t \<Rightarrow> statement_t vector_t pm" where
  "parse_lines lib local_arch 0 text_v = (\<lambda>s. (Abort ''out of fuel'', s))"
| "parse_lines lib local_arch (Suc n) text_v =
     pbind (parse_line lib local_arch) (\<lambda>st.
     if line st = EOF_LINE then preturn text_v
     else pbind (plift (push_vector text_v st)) (\<lambda>text_v. parse_lines lib local_arch n text_v))"

text \<open>The loop that collects the pointers of the lines that are not empty.\<close>

fun code_ptrs :: "nat \<Rightarrow> nat \<Rightarrow> statement_t vector_t \<Rightarrow> u32 vector_t \<Rightarrow> u32 vector_t cres" where
  "code_ptrs 0 i text_v code_v = Done code_v"
| "code_ptrs (Suc n) i text_v code_v =
     cbind (get_vector text_v (of_nat i)) (\<lambda>st.
     if line st = EMPTY_LINE then code_ptrs n (Suc i) text_v code_v
     else cbind (push_vector code_v (of_nat i)) (\<lambda>code_v. code_ptrs n (Suc i) text_v code_v))"

definition parser ::
  "scmp_lib \<Rightarrow> u32 \<Rightarrow> statement_t vector_t \<Rightarrow> u32 vector_t \<Rightarrow> (statement_t vector_t \<times> u32 vector_t) pm" where
  "parser lib local_arch text_v code_v =
     pbind (plift (push_vector text_v zero_statement)) (\<lambda>text_v.
     pbind (plift (push_vector code_v 0)) (\<lambda>code_v.
     pbind (pget (\<lambda>s. scan_left (p_scan s) + 3)) (\<lambda>fuel.
     pbind (parse_lines lib local_arch fuel text_v) (\<lambda>text_v.
     plift (cbind (code_ptrs (unat (v_count text_v) - 1) 1 text_v code_v) (\<lambda>code_v.
       Done (text_v, code_v)))))))"

text \<open>
  \<open>lines = init_source (fp) + 1\<close>, the vectors with room for them, and the parser: what
  \<open>assemble\<close>, \<open>emulate\<close> and \<open>render\<close> start with.
\<close>

definition parse_source ::
  "scmp_lib \<Rightarrow> u32 \<Rightarrow> string option list
    \<Rightarrow> (statement_t vector_t \<times> u32 vector_t \<times> str_table) cres" where
  "parse_source lib scmp_arch reads =
     cbind (init_source reads) (\<lambda>(nr, src).
     let lines = of_nat nr + 1 :: u64 in
     case init_parser src of
       (Ok _, s) \<Rightarrow>
         (case parser lib scmp_arch (init_vector lines) (init_vector (min lines (of_nat (BPF_MAXINSNS + 1)))) s of
            (Ok (text_v, code_v), s') \<Rightarrow> Done (text_v, code_v, p_labels s')
          | (Longjmp, _) \<Rightarrow> Crash ''longjmp without setjmp''
          | (Exit e, _) \<Rightarrow> Die e
          | (Abort e, _) \<Rightarrow> Crash e)
     | (Longjmp, _) \<Rightarrow> Crash ''longjmp without setjmp''
     | (Exit e, _) \<Rightarrow> Die e
     | (Abort e, _) \<Rightarrow> Crash e)"

end
