(* ===== verification/Parser_Inv.thy ===== *)
theory Parser_Inv
  imports Parser
begin

text \<open>
  The proof rules for the parser: \<open>wp m Q R s\<close> says that \<open>m\<close>, run on \<open>s\<close>, ends with a
  value and a state in \<open>Q\<close>, in \<open>Longjmp\<close> with a state in \<open>R\<close>, or by leaving the process,
  and never aborts. One rule per parser function states what it does to the invariant and
  which line it builds.
\<close>

section \<open>Weakest preconditions\<close>

definition wp :: "'a pm \<Rightarrow> ('a \<Rightarrow> pstate \<Rightarrow> bool) \<Rightarrow> (pstate \<Rightarrow> bool) \<Rightarrow> pstate \<Rightarrow> bool" where
  "wp m Q R s =
     (case m s of (Ok x, s') \<Rightarrow> Q x s' | (Longjmp, s') \<Rightarrow> R s' | (Exit e, s') \<Rightarrow> True
      | (Abort e, s') \<Rightarrow> False)"

lemma wp_pbind [simp]: "wp (pbind m f) Q R = wp m (\<lambda>x. wp (f x) Q R) R"
  by (rule ext) (auto simp: wp_def pbind_def split: prod.splits presult.splits)

lemma wp_preturn [simp]: "wp (preturn x) Q R = Q x"
  by (rule ext) (simp add: wp_def preturn_def)

lemma wp_pget [simp]: "wp (pget f) Q R = (\<lambda>s. Q (f s) s)"
  by (rule ext) (simp add: wp_def pget_def)

lemma wp_pmodify [simp]: "wp (pmodify f) Q R = (\<lambda>s. Q () (f s))"
  by (rule ext) (simp add: wp_def pmodify_def)

lemma wp_set_local [simp]: "wp (set_local f) Q R = (\<lambda>s. Q () (s\<lparr>p_local := f (p_local s)\<rparr>))"
  by (simp add: set_local_def)

lemma wp_plift_Done [simp]: "wp (plift (Done x)) Q R = Q x"
  by (rule ext) (simp add: wp_def plift_def)

lemma wp_exit [simp]: "wp (\<lambda>s. (Exit e, s)) Q R s"
  by (simp add: wp_def)

lemma wp_longjmp [simp]: "wp (\<lambda>s. (Longjmp, s)) Q R = R"
  by (rule ext) (simp add: wp_def)

lemma wp_mono:
  "wp m Q R s \<Longrightarrow> (\<And>x s'. Q x s' \<Longrightarrow> Q' x s') \<Longrightarrow> (\<And>s'. R s' \<Longrightarrow> R' s') \<Longrightarrow> wp m Q' R' s"
  by (auto simp: wp_def split: prod.splits presult.splits)

lemma wp_if: "(c \<Longrightarrow> wp a Q R s) \<Longrightarrow> (\<not> c \<Longrightarrow> wp b Q R s) \<Longrightarrow> wp (if c then a else b) Q R s"
  by simp

section \<open>The invariant\<close>

definition tok_ok :: "string \<Rightarrow> token_t \<Rightarrow> bool" where
  "tok_ok s t \<longleftrightarrow>
     (tk_type t = IDENTIFIER \<longrightarrow> 0 < tk_len t) \<and> (tk_type t = LABEL_DECL \<longrightarrow> 1 < tk_len t)
     \<and> (\<forall>i. tk_start t = Some i \<longrightarrow> i < length s)"

text \<open>Between two statements.\<close>

definition line_inv :: "pstate \<Rightarrow> bool" where
  "line_inv s \<longleftrightarrow>
     scan_ok (p_scan s) \<and> short_words (ptext s)
     \<and> tok_ok (ptext s) (p_current s) \<and> tok_ok (ptext s) (p_next s)
     \<and> (token_start (scanner (p_scan s)) = None \<longrightarrow> tk_type (p_next s) \<in> {EOL, TOKEN_EOF})
     \<and> (tk_start (p_next s) = None \<longrightarrow> tk_type (p_next s) = TOKEN_EOF)
     \<and> (tk_type (p_next s) = COMMENT \<longrightarrow>
          Scanner.peek 0 (p_scan s) = CHR 0x0A \<and> token_start (scanner (p_scan s)) \<noteq> None)"

text \<open>What is left to parse.\<close>

definition left_over :: "pstate \<Rightarrow> nat" where
  "left_over s = (if tk_type (p_next s) = TOKEN_EOF then 0 else Suc (scan_left (p_scan s)))"

text \<open>What the functions below a line do not touch.\<close>

definition frame :: "pstate \<Rightarrow> u16 \<times> u16 \<times> str_table \<times> statement_t \<times> nat option" where
  "frame s = (p_text_nr s, p_code_nr s, p_labels s, p_local s, p_line_start s)"

text \<open>Within a statement; \<open>u\<close> bounds what is left.\<close>

definition mid ::
  "u16 \<times> u16 \<times> str_table \<times> statement_t \<times> nat option \<Rightarrow> nat \<Rightarrow> pstate \<Rightarrow> bool" where
  "mid F u s \<longleftrightarrow>
     line_inv s \<and> p_line_start s \<noteq> None \<and> tk_start (p_next s) \<noteq> None
     \<and> (tk_type (p_next s) = TOKEN_EOF \<longrightarrow> tk_start (p_current s) \<noteq> None)
     \<and> left_over s \<le> u \<and> 0 < u \<and> frame s = F"

text \<open>After \<open>error_at\<close>: the statement is an error line and the parser is at the next line.\<close>

definition failed ::
  "u16 \<times> u16 \<times> str_table \<times> statement_t \<times> nat option \<Rightarrow> nat \<Rightarrow> pstate \<Rightarrow> bool" where
  "failed F u s \<longleftrightarrow>
     line_inv s \<and> left_over s < u \<and> is_error (line (p_local s))
     \<and> (case F of (t, c, l, st, q) \<Rightarrow>
          p_text_nr s = t \<and> p_code_nr s = c \<and> p_labels s = l
          \<and> text_nr (p_local s) = text_nr st \<and> code_nr (p_local s) = code_nr st
          \<and> label_decl (p_local s) = label_decl st)"

lemma tok_ok_mono: "tok_ok s t \<Longrightarrow> length s \<le> length s' \<Longrightarrow> tok_ok s' t"
  by (auto simp: tok_ok_def)

lemma advance_ok:
  assumes inv: "line_inv s" and eof: "tk_type (p_next s) \<noteq> TOKEN_EOF"
  shows "\<exists>s'. advance s = (Ok (), s') \<and> line_inv s' \<and> left_over s' < left_over s
    \<and> p_current s' = p_next s \<and> p_previous s' = p_current s \<and> frame s' = frame s
    \<and> (tk_type (p_next s) \<noteq> EOL \<longrightarrow> tk_start (p_next s') \<noteq> None)
    \<and> (tk_type (p_next s) = COMMENT \<longrightarrow> tk_type (p_next s') = EOL)"
proof -
  obtain t sc where t: "scan_token (p_next s) (p_scan s) = Done (t, sc)"
    and sc: "scanned (p_scan s) t sc"
    using scan_token_ok [of "p_scan s" "p_next s"] inv by (auto simp: line_inv_def)
  let ?s = "s\<lparr>p_previous := p_current s, p_current := p_next s, p_next := t, p_scan := sc\<rparr>"
  have len: "length (ptext s) \<le> length (stext sc)" and sw: "short_words (stext sc)"
    using sc inv by (auto simp: scanned_def line_inv_def)
  have "tok_ok (stext sc) t"
    using sc inv by (auto simp: tok_ok_def word_ok_def scanned_def line_inv_def)
  moreover have "tok_ok (stext sc) (p_next s)"
    using inv tok_ok_mono [OF _ len] by (simp add: line_inv_def)
  moreover have "token_start (scanner sc) = None \<longrightarrow> tk_type t \<in> {EOL, TOKEN_EOF}"
    "tk_start t = None \<longrightarrow> tk_type t = TOKEN_EOF" "scan_ok sc"
    "tk_type t = COMMENT \<longrightarrow> Scanner.peek 0 sc = CHR 0x0A \<and> token_start (scanner sc) \<noteq> None"
    using sc by (auto simp: scanned_def split: if_splits)
  ultimately have "line_inv ?s" using sw by (simp add: line_inv_def)
  moreover have "left_over ?s < left_over s"
    using sc eof by (auto simp: left_over_def scanned_def split: if_splits)
  moreover have "tk_type (p_next s) \<noteq> EOL \<longrightarrow> tk_start t \<noteq> None"
    using sc inv eof by (auto simp: scanned_def line_inv_def split: if_splits)
  moreover have "tk_type (p_next s) = COMMENT \<longrightarrow> tk_type t = EOL"
    using sc inv by (auto simp: scanned_def line_inv_def)
  moreover have "advance s = (Ok (), ?s)" by (simp add: advance_def t)
  ultimately show ?thesis by (auto simp: frame_def)
qed

text \<open>\<open>cur ty s\<close>: the token just consumed is of type \<open>ty\<close>.\<close>

definition cur_tok :: "token_type \<Rightarrow> pstate \<Rightarrow> bool" where
  "cur_tok ty s \<longleftrightarrow> tk_type (p_current s) = ty \<and> tk_start (p_current s) \<noteq> None"

lemma mid_advance:
  assumes m: "mid F u s" and ty: "tk_type (p_next s) \<noteq> TOKEN_EOF" "tk_type (p_next s) \<noteq> EOL"
    and Q: "\<And>s'. mid F u s' \<Longrightarrow> p_current s' = p_next s \<Longrightarrow> p_previous s' = p_current s \<Longrightarrow>
      cur_tok (tk_type (p_next s)) s' \<Longrightarrow>
      (tk_type (p_next s) = COMMENT \<Longrightarrow> tk_type (p_next s') = EOL) \<Longrightarrow> Q () s'"
  shows "wp advance Q R s"
proof -
  from m ty(1) obtain s' where a: "advance s = (Ok (), s')" and inv: "line_inv s'"
    and lt: "left_over s' < left_over s"
    and cur: "p_current s' = p_next s" "p_previous s' = p_current s"
    and fr: "frame s' = frame s" and nx: "tk_start (p_next s') \<noteq> None"
    and cm: "tk_type (p_next s) = COMMENT \<longrightarrow> tk_type (p_next s') = EOL"
    using advance_ok [of s] ty(2) by (auto simp: mid_def)
  from cur m have st: "tk_start (p_current s') \<noteq> None" by (simp add: mid_def)
  have "p_line_start s' = p_line_start s" using fr by (simp add: frame_def)
  then have "mid F u s'" using m inv lt nx st fr by (auto simp: mid_def)
  moreover have "cur_tok (tk_type (p_next s)) s'" using cur st by (simp add: cur_tok_def)
  ultimately show ?thesis using Q cur cm by (simp add: wp_def a)
qed

lemma wp_match_if:
  assumes m: "mid F u s" and ty: "\<And>s. p s \<Longrightarrow> tk_type (p_next s) \<noteq> TOKEN_EOF \<and> tk_type (p_next s) \<noteq> EOL"
    and yes: "\<And>s'. mid F u s' \<Longrightarrow> p s \<Longrightarrow> p_previous s' = p_current s \<Longrightarrow>
      cur_tok (tk_type (p_next s)) s' \<Longrightarrow>
      (tk_type (p_next s) = COMMENT \<Longrightarrow> tk_type (p_next s') = EOL) \<Longrightarrow> Q True s'"
    and no: "\<not> p s \<Longrightarrow> Q False s"
  shows "wp (match_if p) Q R s"
proof -
  have eq: "wp (match_if p) Q R s =
    (if p s then wp (pbind advance (\<lambda>_. preturn True)) Q R s else wp (preturn False) Q R s)"
    by (cases "p s") (simp_all add: wp_def match_if_def del: wp_pbind wp_preturn)
  show ?thesis
    unfolding eq
    using mid_advance [OF m, of "\<lambda>_. Q True" R] ty [of s] yes no by auto
qed

lemma wp_match:
  assumes "mid F u s" "tk \<noteq> EOL" "tk \<noteq> TOKEN_EOF"
    and "\<And>s'. mid F u s' \<Longrightarrow> cur_tok tk s' \<Longrightarrow> p_previous s' = p_current s \<Longrightarrow>
      (tk = COMMENT \<Longrightarrow> tk_type (p_next s') = EOL) \<Longrightarrow> Q True s'"
    and "tk_type (p_next s) \<noteq> tk \<Longrightarrow> Q False s"
  shows "wp (match tk) Q R s"
  unfolding match_def
  by (rule wp_match_if [OF assms(1)]) (use assms(2-5) in \<open>auto simp: peek_def\<close>)

lemma wp_match_from_to:
  assumes "mid F u s" "\<And>t. tk_between from to t \<Longrightarrow> t \<noteq> EOL \<and> t \<noteq> TOKEN_EOF"
    and "\<And>s' t. mid F u s' \<Longrightarrow> tk_between from to t \<Longrightarrow> cur_tok t s' \<Longrightarrow> Q True s'"
    and "Q False s"
  shows "wp (match_from_to from to) Q R s"
  unfolding match_from_to_def
  by (rule wp_match_if [OF assms(1)]) (use assms(2-4) in \<open>auto simp: peek_from_to_def\<close>)

section \<open>Errors\<close>

text \<open>The loop to the end of the line ends, and its fuel is enough.\<close>

declare sync.simps(2) [simp del]

lemma sync_ok:
  assumes "line_inv s" and "left_over s < n"
    and "tk_type (p_next s) = TOKEN_EOF \<longrightarrow> tk_start (p_current s) \<noteq> None"
  shows "\<exists>s'. sync n s = (Ok (), s') \<and> line_inv s' \<and> frame s' = frame s
    \<and> tk_start (p_current s') \<noteq> None
    \<and> (if tk_type (p_next s) = TOKEN_EOF then s' = s else left_over s' < left_over s)"
  using assms
proof (induction n arbitrary: s)
  case (Suc n)
  show ?case
  proof (cases "tk_type (p_next s) = TOKEN_EOF")
    case True
    then show ?thesis
      using Suc.prems by (simp add: sync.simps match_def match_if_def peek_def pbind_def pget_def preturn_def)
  next
    case False
    from advance_ok [OF Suc.prems(1) False] obtain s1 where
      a: "advance s = (Ok (), s1)" and s1: "line_inv s1" "left_over s1 < left_over s"
      "p_current s1 = p_next s" "frame s1 = frame s" by blast
    have st: "tk_start (p_current s1) \<noteq> None"
      using s1(3) False Suc.prems(1) by (auto simp: line_inv_def)
    show ?thesis
    proof (cases "tk_type (p_next s) = EOL")
      case True
      then have "sync (Suc n) s = (Ok (), s1)"
        by (simp add: sync.simps match_def match_if_def peek_def pbind_def pget_def preturn_def a)
      with s1 st False show ?thesis by simp
    next
      case neol: False
      have "sync (Suc n) s = sync n s1"
        using False neol
        by (simp add: sync.simps match_def match_if_def peek_def pbind_def pget_def preturn_def a)
      moreover from Suc.IH [OF s1(1)] s1(2) Suc.prems(2) st obtain s2 where
        "sync n s1 = (Ok (), s2)" "line_inv s2" "frame s2 = frame s1"
        "tk_start (p_current s2) \<noteq> None"
        "if tk_type (p_next s1) = TOKEN_EOF then s2 = s1 else left_over s2 < left_over s1" by auto
      ultimately show ?thesis using s1 False by (auto split: if_splits)
    qed
  qed
qed simp

lemma wp_error_at:
  assumes m: "mid F u s" and t: "tk_start t \<noteq> None"
  shows "wp (error_at t msg) Q (failed F u) s"
proof -
  have "left_over s < scan_left (p_scan s) + 2" by (simp add: left_over_def)
  with m sync_ok [of s "scan_left (p_scan s) + 2"] obtain s1 where
    s1: "sync (scan_left (p_scan s) + 2) s = (Ok (), s1)" "line_inv s1"
    "frame s1 = frame s" "tk_start (p_current s1) \<noteq> None"
    "if tk_type (p_next s) = TOKEN_EOF then s1 = s else left_over s1 < left_over s"
    unfolding mid_def by blast
  from s1(5) m have lt: "left_over s1 < u"
    by (auto simp: mid_def left_over_def split: if_splits)
  have start: "p_line_start s1 = p_line_start s" "p_line_start s \<noteq> None"
    using s1(3) m by (auto simp: frame_def mid_def)
  have F: "F = frame s1" using m s1(3) by (simp add: mid_def)
  have inv: "line_inv (s1\<lparr>p_local := l\<rparr>) \<and> left_over (s1\<lparr>p_local := l\<rparr>) < u" for l
    using s1(2) lt by (auto simp: line_inv_def left_over_def)
  have sy: "wp (sync (scan_left (p_scan s) + 2)) Q' (failed F u) s = Q' () s1" for Q'
    by (simp only: wp_def s1(1) prod.case presult.case)
  show ?thesis
    unfolding error_at_def wp_pbind wp_pget sy
    using t s1(4) start inv
    by (auto simp: set_line_len_def ptr_diff_def failed_def F frame_def
        is_error_def)
qed

lemma wp_error_next: "mid F u s \<Longrightarrow> wp (error_next msg) Q (failed F u) s"
  unfolding error_next_def using wp_error_at [of F u s "p_next s"] by (simp add: mid_def)

lemma wp_expect:
  assumes "wp m (\<lambda>ok s'. mid F u s' \<and> (ok \<longrightarrow> Q () s')) (failed F u) s"
  shows "wp (expect m msg) Q (failed F u) s"
  unfolding expect_def wp_pbind
  by (rule wp_mono [OF assms]) (auto intro: wp_error_next)

section \<open>Parts of a line\<close>

text \<open>
  Each rule: the invariant is kept, and what is known of the value. The alternative outcome
  is always \<open>failed\<close>.
\<close>

lemma wp_expect_match:
  assumes "mid F u s" "tk \<noteq> EOL" "tk \<noteq> TOKEN_EOF"
    and "\<And>s'. mid F u s' \<Longrightarrow> cur_tok tk s' \<Longrightarrow> Q () s'"
  shows "wp (expect (match tk) msg) Q (failed F u) s"
  by (rule wp_expect, rule wp_match [OF assms(1-3)]) (use assms in auto)

lemma wp_match_number:
  assumes m: "mid F u s" and yes: "\<And>s'. mid F u s' \<Longrightarrow> cur_tok NUMBER s' \<Longrightarrow> Q True s'" and no: "Q False s"
  shows "wp match_number Q (failed F u) s"
  unfolding match_number_def wp_pbind
  by (rule wp_match [OF m]) (use m yes no in \<open>auto intro!: wp_error_next\<close>)

lemma wp_expect_number:
  assumes "mid F u s" "\<And>s'. mid F u s' \<Longrightarrow> Q () s'"
  shows "wp (expect match_number msg) Q (failed F u) s"
  by (rule wp_expect, rule wp_match_number [OF assms(1)]) (use assms in auto)

lemma wp_paren_num:
  assumes m: "mid F u s" and Q: "\<And>d s'. mid F u s' \<Longrightarrow> Q d s'"
  shows "wp paren_num Q (failed F u) s"
  unfolding paren_num_def wp_pbind
  by (rule wp_match [OF m]) (auto intro!: Q m wp_expect_number wp_expect_match)

lemma wp_bracket_num:
  assumes m: "mid F u s" and Q: "\<And>d s'. mid F u s' \<Longrightarrow> Q d s'"
  shows "wp bracket_num Q (failed F u) s"
  unfolding bracket_num_def wp_pbind
  by (rule wp_expect_match [OF m]) (auto intro!: Q wp_expect_number wp_expect_match)

lemma wp_with_literal:
  "mid F u s \<Longrightarrow> (\<And>r. obj_type r = ty \<Longrightarrow> obj_data r = d \<Longrightarrow> Q r s) \<Longrightarrow>
   wp (with_literal start ty d) Q R s"
  by (simp add: with_literal_def)

lemma wp_label:
  assumes m: "mid F u s" and Q: "\<And>l s'. mid F u s' \<Longrightarrow> wf_label l \<Longrightarrow> Q l s'"
  shows "wp label Q (failed F u) s"
  unfolding label_def wp_pbind
proof (rule wp_expect_match [OF m])
  fix s' assume s': "mid F u s'" "cur_tok IDENTIFIER s'"
  then obtain i where i: "tk_start (p_current s') = Some i" and ty: "tk_type (p_current s') = IDENTIFIER"
    by (auto simp: cur_tok_def)
  with s' have "i < length (ptext s')" "0 < tk_len (p_current s')"
    by (auto simp: mid_def line_inv_def tok_ok_def)
  then have "slice (ptext s') i (unat (tk_len (p_current s'))) \<noteq> []"
    by (simp add: slice_def unat_gt_0 word_neq_0_conv)
  then have "wf_label (zero_label\<lparr>key := text_span (ptext s') (tk_start (p_current s'))
      (unat (tk_len (p_current s')))\<rparr>)"
    using i by (simp add: wf_label_def text_span_def neq_Nil_conv)
  with s' Q show "wp (pget (\<lambda>s. zero_label\<lparr>key := text_span (ptext s) (tk_start (p_current s))
      (unat (tk_len (p_current s)))\<rparr>)) Q (failed F u) s'" by simp
qed simp_all

lemma wp_match_any:
  assumes "mid F u s" and "\<And>m s. m \<in> set ms \<Longrightarrow> mid F u s \<Longrightarrow>
      wp m (\<lambda>ok s'. mid F u s' \<and> (if ok then P s' else s' = s)) (failed F u) s"
    and "\<And>s'. mid F u s' \<Longrightarrow> P s' \<Longrightarrow> Q True s'" and "Q False s"
  shows "wp (match_any ms) Q (failed F u) s"
  using assms
proof (induction ms)
  case (Cons m ms)
  show ?case
    unfolding match_any.simps wp_pbind
    by (rule wp_mono [OF Cons.prems(2) [of m s]])
       (use Cons in \<open>auto split: if_splits\<close>)
qed simp

text \<open>The alternatives of the operands.\<close>

lemma wp_match_alt:
  "mid F u s \<Longrightarrow> tk \<noteq> EOL \<Longrightarrow> tk \<noteq> TOKEN_EOF \<Longrightarrow> (\<And>s'. cur_tok tk s' \<Longrightarrow> P s') \<Longrightarrow>
   wp (match tk) (\<lambda>ok s'. mid F u s' \<and> (if ok then P s' else s' = s)) (failed F u) s"
  by (rule wp_match) auto

lemma wp_match_range_alt:
  "mid F u s \<Longrightarrow> (\<And>t. tk_between from to t \<Longrightarrow> t \<noteq> EOL \<and> t \<noteq> TOKEN_EOF) \<Longrightarrow>
   (\<And>s' t. tk_between from to t \<Longrightarrow> cur_tok t s' \<Longrightarrow> P s') \<Longrightarrow>
   wp (match_from_to from to) (\<lambda>ok s'. mid F u s' \<and> (if ok then P s' else s' = s)) (failed F u) s"
  by (rule wp_match_from_to) auto

definition cur_var :: "pstate \<Rightarrow> bool" where
  "cur_var s \<longleftrightarrow> (\<exists>v. tk_type (p_current s) = Var_tk v)"

lemma cur_var_tok: "cur_tok (Var_tk v) s \<Longrightarrow> cur_var s"
  by (auto simp: cur_var_def cur_tok_def)

lemma wp_plain_right:
  assumes m: "mid F u s" and "\<And>s'. mid F u s' \<Longrightarrow> cur_var s' \<Longrightarrow> Q True s'" and "Q False s"
  shows "wp (match_any [match Tk_A, match Tk_X, match_from_to ATTR_LEN ATTR_HIGHPC]) Q (failed F u) s"
proof (rule wp_match_any [OF m, where P = cur_var])
  fix m' s assume "m' \<in> set [match Tk_A, match Tk_X, match_from_to ATTR_LEN ATTR_HIGHPC]"
    and s: "mid F u s"
  then show "wp m' (\<lambda>ok s'. mid F u s' \<and> (if ok then cur_var s' else s' = s)) (failed F u) s"
    by (auto simp: tok_simps split del: if_split intro: cur_var_tok
        intro!: wp_match_alt [OF s] wp_match_range_alt [OF s])
qed (use assms in auto)

lemma wp_index_right:
  assumes m: "mid F u s" and "\<And>s'. mid F u s' \<Longrightarrow> cur_var s' \<Longrightarrow> Q True s'" and "Q False s"
  shows "wp (match_any [match MEM, match ATTR_LOWARG, match ATTR_HIGHARG]) Q (failed F u) s"
proof (rule wp_match_any [OF m, where P = cur_var])
  fix m' s assume "m' \<in> set [match MEM, match ATTR_LOWARG, match ATTR_HIGHARG]"
    and s: "mid F u s"
  then show "wp m' (\<lambda>ok s'. mid F u s' \<and> (if ok then cur_var s' else s' = s)) (failed F u) s"
    by (auto split del: if_split intro: cur_var_tok intro!: wp_match_alt [OF s])
qed (use assms in auto)

lemma wp_right:
  assumes m: "mid F u s" and Q: "\<And>r s'. mid F u s' \<Longrightarrow> wf_right r \<Longrightarrow> Q r s'"
  shows "wp right Q (failed F u) s"
  unfolding right_def next_start_def wp_pbind wp_pget
  by (rule wp_plain_right [OF m])
     (auto simp: cur_var_def cur_tok_def current_type_def wf_right_def
       simp del: match_any.simps
       intro!: wp_index_right [OF m] wp_match_number [OF m] wp_error_next wp_bracket_num
         wp_with_literal Q m)

lemma wp_current_type: "(\<And>ty. cur_tok ty s \<or> tk_type (p_current s) = ty \<Longrightarrow> Q ty s) \<Longrightarrow> wp current_type Q R s"
  by (simp add: current_type_def)

lemma wp_return_line:
  assumes m: "mid F u s" and Q: "\<And>r s'. mid F u s' \<Longrightarrow> wf_line (RETURN_LINE r) \<Longrightarrow> Q (RETURN_LINE r) s'"
  shows "wp return_line Q (failed F u) s"
proof -
  have Q': "Q (RETURN_LINE (zero_return\<lparr>ret_obj := r\<rparr>)) s'"
    if "mid F u s'" "(\<exists>a. obj_type r = Action_tk a) \<or> obj_type r = Tk_A \<or> obj_type r = NUMBER"
      "dataless (obj_type r) \<longrightarrow> obj_data r = 0" for r s'
    by (rule Q [OF that(1)]) (use that in \<open>auto simp: wf_line_def wf_return_def wf_return_data_def\<close>)
  have data: "wp (pbind current_type (\<lambda>ty. pbind paren_num (\<lambda>d. with_literal st ty d)))
      (\<lambda>r. Q (RETURN_LINE (zero_return\<lparr>ret_obj := r\<rparr>))) (failed F u) s'"
    if "mid F u s'" "tk_between TRACE ERRNO t" "cur_tok t s'" for t s' st
    using that by (auto simp: current_type_def cur_tok_def tok_simps dataless_def
        intro!: wp_paren_num wp_with_literal Q')
  have plain: "wp (pbind current_type (\<lambda>ty. with_literal st ty 0))
      (\<lambda>r. Q (RETURN_LINE (zero_return\<lparr>ret_obj := r\<rparr>))) (failed F u) s'"
    if "mid F u s'" "cur_tok t s'" "tk_between KILL_PROC LOG t \<or> t = Tk_A" for t s' st
    using that by (auto simp: current_type_def cur_tok_def tok_simps
        intro!: wp_with_literal Q')
  have num: "wp (pbind (pget (\<lambda>s. tk_data (p_current s))) (\<lambda>d. with_literal st NUMBER d))
      (\<lambda>r. Q (RETURN_LINE (zero_return\<lparr>ret_obj := r\<rparr>))) (failed F u) s'"
    if "mid F u s'" for s' st
    using that by (auto simp: dataless_def intro!: wp_with_literal Q')
  show ?thesis
    unfolding return_line_def next_start_def wp_pbind wp_pget
    apply (rule wp_match_from_to [OF m])
      apply (auto simp: tok_simps)[1]
     apply (simp only: if_True wp_preturn)
     apply (erule (2) data)
    apply (simp only: if_False wp_pbind wp_preturn)
    apply (rule wp_match_number [OF m])
     apply (simp only: if_True)
     apply (erule num)
    apply (simp only: if_False wp_pbind)
    apply (rule wp_match_from_to [OF m])
      apply (auto simp: tok_simps)[1]
     apply (simp only: if_True wp_preturn)
     apply (erule plain, assumption, simp)
    apply (simp only: if_False)
    apply (rule wp_match [OF m])
       apply (simp_all only: if_True if_False)
       apply simp_all[2]
     apply (erule plain, assumption, simp)
    apply (rule wp_error_next [OF m])
    done
qed

lemma wp_left:
  assumes m: "mid F u s" and t: "cur_tok t s" "tk_between Tk_A MEM t"
    and Q: "\<And>r s'. mid F u s' \<Longrightarrow> obj_type r \<in> {Tk_A, Tk_X, MEM} \<Longrightarrow> Q r s'"
  shows "wp left Q (failed F u) s"
  using t by (auto simp: left_def cur_tok_def tok_simps intro!: wp_bracket_num [OF m] wp_with_literal Q m)

lemma wp_assign_line:
  assumes m: "mid F u s" and t: "cur_tok t s" "tk_between Tk_A MEM t"
    and Q: "\<And>a s'. mid F u s' \<Longrightarrow> wf_assign a \<Longrightarrow> Q (ASSIGN_LINE a) s'"
  shows "wp assign_line Q (failed F u) s"
proof -
  have Q': "wp right (\<lambda>r. Q (ASSIGN_LINE \<lparr>left_var = l, operator = op, right_var = r\<rparr>)) (failed F u) s'"
    if "mid F u s'" "obj_type l \<in> {Tk_A, Tk_X, MEM}"
      "(\<exists>p. op = Assign_tk p) \<or> op = EQUAL \<or> op = NEGATIVE" for l op s'
    by (rule wp_right [OF that(1)], rule Q) (use that in \<open>auto simp: wf_assign_def\<close>)
  show ?thesis
    unfolding assign_line_def wp_pbind wp_preturn
    apply (rule wp_left [OF m t])
    apply (rule wp_match_from_to, assumption)
      apply (auto simp: tok_simps)[1]
     apply (auto simp: tok_simps current_type_def cur_tok_def intro!: Q')[1]
    apply (simp only: if_False wp_pbind)
    apply (rule wp_match, assumption)
       apply simp_all[2]
     apply (simp only: if_True wp_pbind)
     apply (rule wp_match, assumption)
        apply simp_all[2]
      apply (auto simp: current_type_def cur_tok_def intro!: Q')[1]
     apply (auto simp: current_type_def cur_tok_def intro!: Q')[1]
    apply (simp add: wp_error_next)
    done
qed

lemma wp_compare_arch_syscall:
  assumes m: "mid F u s" and prev: "tk_start (p_previous s) \<noteq> None"
    and Q: "\<And>r c s'. mid F u s' \<Longrightarrow> obj_type r = NUMBER \<Longrightarrow> Q (r, c) s'"
  shows "wp (compare_arch_syscall lib start len) Q (failed F u) s"
  unfolding compare_arch_syscall_def Let_def
  using m prev
  by (auto simp: peek_def resolve_name_arch_def
      intro!: wp_error_next wp_error_at mid_advance [OF m] Q)

lemma wp_compare_obj:
  assumes m: "mid F u s"
    and Q: "\<And>r c s'. mid F u s' \<Longrightarrow> obj_type r \<in> {Tk_X, NUMBER} \<Longrightarrow> Q (r, c) s'"
  shows "wp (compare_obj lib arch) Q (failed F u) s"
  unfolding compare_obj_def Let_def wp_pbind wp_pget
  apply (rule wp_match [OF m])
     apply simp_all[2]
   apply (simp add: Q)
  apply (simp only: if_False wp_pbind)
  apply (rule wp_match_number [OF m])
   apply (simp add: Q)
  apply (simp only: if_False wp_pbind)
  apply (rule wp_match [OF m])
     apply simp_all[2]
   apply (auto simp: resolve_name_arch_def cur_tok_def intro!: wp_error_at Q)[1]
  apply (simp only: if_False wp_pbind)
  apply (rule wp_expect)
  apply (rule wp_match_from_to [OF m])
    apply (auto simp: tok_simps)[1]
   prefer 2
   apply (simp add: m)
  apply (simp only: simp_thms)
  apply (rule wp_match, assumption)
     apply simp_all[2]
   apply (auto simp: cur_tok_def intro!: wp_compare_arch_syscall Q)[1]
  apply (auto simp: cur_tok_def intro!: wp_error_at Q)[1]
  done

lemma wp_condition:
  assumes m: "mid F u s"
    and Q: "\<And>j s'. mid F u s' \<Longrightarrow> if_condition j \<Longrightarrow> \<exists>c. comparator j = Compare_tk c \<Longrightarrow>
      obj_type (cmpobj j) \<in> {Tk_X, NUMBER} \<Longrightarrow> Q j s'"
  shows "wp (condition lib arch) Q (failed F u) s"
proof -
  have rest: "wp (expect (match LEFT_PAREN) M_EXPECT_PAREN)
     (\<lambda>x. wp (expect (match Tk_A) M_EXPECT_A)
       (\<lambda>x. wp (expect (match_from_to EQUAL_EQUAL Tk_AND) M_EXPECT_COMPARTOR)
         (\<lambda>x. wp current_type (\<lambda>cmp. wp (compare_obj lib arch)
           (\<lambda>(obj, ty). wp (expect (match RIGHT_PAREN) M_EXPECT_PAREN) (\<lambda>_. Q (zero_jump\<lparr>if_bang := b,
             if_condition := True, cmptype := ty, comparator := cmp, cmpobj := obj\<rparr>)) (failed F u))
           (failed F u)) (failed F u)) (failed F u)) (failed F u)) (failed F u) s'"
    if s': "mid F u s'" for b s'
    apply (rule wp_expect_match [OF s'])
      apply simp_all[2]
    apply (rule wp_expect_match, assumption)
      apply simp_all[2]
    apply (rule wp_expect, rule wp_match_from_to, assumption)
      apply (auto simp: tok_simps)[1]
     apply (auto simp: current_type_def cur_tok_def tok_simps
        intro!: wp_compare_obj wp_expect_match Q)
    done
  show ?thesis
    unfolding condition_def wp_pbind
    by (rule wp_match [OF m])
       (use rest m in \<open>simp_all add: case_prod_beta'\<close>)
qed

lemma wp_ja_line:
  assumes "mid F u s" "\<And>j s'. mid F u s' \<Longrightarrow> wf_jump j \<Longrightarrow> Q (JUMP_LINE j) s'"
  shows "wp ja_line Q (failed F u) s"
  unfolding ja_line_def wp_pbind
  by (rule wp_label [OF assms(1)]) (auto simp: wf_jump_def intro!: assms(2))

lemma wp_jump_line:
  assumes m: "mid F u s" and Q: "\<And>j s'. mid F u s' \<Longrightarrow> wf_jump j \<Longrightarrow> Q (JUMP_LINE j) s'"
  shows "wp (jump_line lib arch) Q (failed F u) s"
  unfolding jump_line_def wp_pbind
  apply (rule wp_condition [OF m])
  apply (rule wp_expect_match, assumption)
    apply simp_all[2]
  apply (rule wp_label, assumption)
  apply (rule wp_match, assumption)
     apply simp_all[2]
   apply (simp only: if_True simp_thms if_False wp_pbind)
   apply (rule wp_expect_match, assumption)
     apply simp_all[2]
   apply (rule wp_expect_match, assumption)
     apply simp_all[2]
   apply (rule wp_label, assumption)
   apply (auto simp: wf_jump_def intro!: Q)[1]
  apply (auto simp: wf_jump_def zero_label_def intro!: Q)
  done

section \<open>Statements\<close>

text \<open>
  The line of a statement, with what it does to the counter of code lines: an empty line
  gives its number back.
\<close>

lemma wp_expression_line:
  assumes m: "mid F u s"
    and empty: "\<And>c. tk_type (p_next s) \<in> {EOL, COMMENT} \<Longrightarrow>
      Q EMPTY_LINE (s\<lparr>p_code_nr := p_code_nr s - 1\<rparr>)"
    and eof: "tk_type (p_next s) = TOKEN_EOF \<Longrightarrow> Q EOF_LINE s"
    and line: "\<And>l s'. mid F u s' \<Longrightarrow> wf_line l \<Longrightarrow> l \<noteq> EMPTY_LINE \<Longrightarrow> l \<noteq> EOF_LINE \<Longrightarrow>
      \<not> is_error l \<Longrightarrow> p_code_nr s \<le> of_nat BPF_MAXINSNS \<Longrightarrow> tk_type (p_next s) \<noteq> TOKEN_EOF \<Longrightarrow> Q l s'"
  shows "wp (expression_line lib arch) Q (failed F u) s"
proof -
  have l: "Q l s'" if "mid F u s'" "wf_line l" "l \<noteq> EMPTY_LINE" "l \<noteq> EOF_LINE" "\<not> is_error l"
    "\<not> of_nat BPF_MAXINSNS < p_code_nr s" "tk_type (p_next s) \<noteq> TOKEN_EOF" for l s'
    by (rule line) (use that in auto)
  have as: "wp assign_line Q (failed F u) s'"
    if "mid F u s'" "cur_tok t s'" "tk_between Tk_A MEM t" "\<not> of_nat BPF_MAXINSNS < p_code_nr s"
      "tk_type (p_next s) \<noteq> TOKEN_EOF" for s' t
    by (rule wp_assign_line [OF that(1-3)]) (use that in \<open>auto simp: wf_line_def is_error_def intro!: l\<close>)
  have ju: "wp (jump_line lib arch) Q (failed F u) s'" "wp ja_line Q (failed F u) s'"
    if "mid F u s'" "\<not> of_nat BPF_MAXINSNS < p_code_nr s" "tk_type (p_next s) \<noteq> TOKEN_EOF" for s'
    using that by (auto simp: wf_line_def is_error_def intro!: l wp_jump_line wp_ja_line)
  have re: "wp return_line Q (failed F u) s'"
    if "mid F u s'" "\<not> of_nat BPF_MAXINSNS < p_code_nr s" "tk_type (p_next s) \<noteq> TOKEN_EOF" for s'
    using that by (auto simp: is_error_def intro!: l wp_return_line)
  show ?thesis
    unfolding expression_line_def wp_pbind wp_pget
    apply (rule wp_if)
     apply (use empty in \<open>auto simp: empty_line_def peek_def\<close>)[1]
    apply (simp only: wp_pbind wp_pget)
    apply (rule wp_if)
     apply (use eof in \<open>simp add: eof_line_def peek_def\<close>)
    apply (simp only: wp_pbind wp_pget)
    apply (rule wp_if)
     apply simp
    apply (simp only: wp_pbind wp_pget)
    apply (rule wp_match [OF m])
       apply simp_all[2]
     apply (simp add: re peek_def)
    apply (simp only: if_False wp_pbind)
    apply (rule wp_match [OF m])
       apply simp_all[2]
     apply (simp add: ju peek_def)
    apply (simp only: if_False wp_pbind)
    apply (rule wp_match [OF m])
       apply simp_all[2]
     apply (simp add: ju peek_def)
    apply (simp only: if_False wp_pbind)
    apply (rule wp_match_from_to [OF m])
      apply (auto simp: tok_simps)[1]
     apply (simp only: if_True)
     apply (erule as, assumption, assumption)
      apply (simp_all add: peek_def wp_error_next [OF m])
    done
qed

text \<open>What the end of a statement keeps of it.\<close>

definition same_stmt :: "pstate \<Rightarrow> pstate \<Rightarrow> bool" where
  "same_stmt s s' \<longleftrightarrow>
     p_text_nr s' = p_text_nr s \<and> p_code_nr s' = p_code_nr s \<and> p_labels s' = p_labels s
     \<and> text_nr (p_local s') = text_nr (p_local s) \<and> code_nr (p_local s') = code_nr (p_local s)
     \<and> label_decl (p_local s') = label_decl (p_local s)"

definition failed_at :: "pstate \<Rightarrow> nat \<Rightarrow> pstate \<Rightarrow> bool" where
  "failed_at s u s' \<longleftrightarrow>
     line_inv s' \<and> left_over s' < u \<and> is_error (line (p_local s')) \<and> same_stmt s s'"

lemma failed_frame: "failed (frame s) u s' = failed_at s u s'"
  by (simp add: failed_def failed_at_def same_stmt_def frame_def)

lemma mid_frame: "mid F u s \<Longrightarrow> mid (frame s) u s"
  unfolding mid_def by blast

lemma line_inv_local [simp]: "line_inv (s\<lparr>p_local := l\<rparr>) = line_inv s"
  unfolding line_inv_def by simp

lemma left_over_local [simp]: "left_over (s\<lparr>p_local := l\<rparr>) = left_over s"
  unfolding left_over_def by simp

lemma mid_set_local: "mid F u s \<Longrightarrow> mid (frame (s\<lparr>p_local := l\<rparr>)) u (s\<lparr>p_local := l\<rparr>)"
  by (simp add: mid_def)

lemma same_stmt_frame: "frame s' = frame s \<Longrightarrow> same_stmt s s'"
  by (simp add: frame_def same_stmt_def)

lemma same_stmt_trans: "same_stmt s s' \<Longrightarrow> same_stmt s' s'' \<Longrightarrow> same_stmt s s''"
  by (simp add: same_stmt_def)

lemma failed_at_trans: "failed_at s' u s'' \<Longrightarrow> same_stmt s s' \<Longrightarrow> failed_at s u s''"
  by (auto simp: failed_at_def intro: same_stmt_trans)

definition stmt_done :: "pstate \<Rightarrow> nat \<Rightarrow> pstate \<Rightarrow> bool" where
  "stmt_done s u s' \<longleftrightarrow>
     line_inv s' \<and> left_over s' < u \<and> same_stmt s s' \<and> line (p_local s') = line (p_local s)"

lemma wp_set_line_len:
  assumes "p \<noteq> None" "p_line_start s \<noteq> None" "line_inv s" "left_over s < u"
  shows "wp (set_line_len p) (\<lambda>_. stmt_done s u) R s"
  using assms by (auto simp: set_line_len_def ptr_diff_def stmt_done_def same_stmt_def)

lemma stmt_done_frame: "stmt_done s' u s'' \<Longrightarrow> frame s' = frame s \<Longrightarrow> stmt_done s u s''"
  by (auto simp: stmt_done_def frame_def same_stmt_def)

lemma wp_end_of_line:
  assumes m: "mid F u s"
  shows "wp end_of_line (\<lambda>_. stmt_done s u)
    (\<lambda>s'. failed_at s u s' \<and> tk_type (p_next s) \<noteq> EOL) s"
proof (cases "tk_type (p_next s) = EOL")
  case True
  from advance_ok [of s] m True obtain s1 where
    a: "advance s = (Ok (), s1)" and s1: "line_inv s1" "left_over s1 < left_over s"
      "p_current s1 = p_next s" "frame s1 = frame s" by (auto simp: mid_def)
  have "wp (match EOL) Q R s = Q True s1" for Q R
    using True by (simp add: wp_def match_def match_if_def peek_def pbind_def preturn_def a)
  moreover have "wp (set_line_len (tk_start (p_current s1))) (\<lambda>_. stmt_done s1 u) R s1" for R
    by (rule wp_set_line_len) (use m s1 in \<open>auto simp: mid_def frame_def\<close>)
  ultimately show ?thesis
    using stmt_done_frame [OF _ s1(4)] unfolding end_of_line_def wp_pbind wp_pget
    by (auto intro: wp_mono [of _ "\<lambda>_. stmt_done s1 u" "\<lambda>_. False"])
next
  case False
  have no: "wp (match EOL) Q R s = Q False s" for Q R
    using False by (simp add: wp_def match_def match_if_def peek_def preturn_def)
  show ?thesis
  proof (cases "tk_type (p_next s) = TOKEN_EOF")
    case True
    then show ?thesis
      using m unfolding end_of_line_def wp_pbind wp_pget no
      by (auto simp: peek_def mid_def left_over_def intro!: wp_set_line_len)
  next
    case neof: False
    show ?thesis
      using neof False wp_mono [OF wp_error_next [OF mid_frame [OF m]]]
      unfolding end_of_line_def wp_pbind wp_pget no
      by (simp add: peek_def failed_frame)
  qed
qed

lemma wp_comment_pos:
  assumes m: "mid F u s" and Q: "\<And>c s'. mid F u s' \<Longrightarrow>
      (tk_type (p_next s) \<in> {EOL, COMMENT} \<Longrightarrow> tk_type (p_next s') = EOL) \<Longrightarrow> Q c s'"
  shows "wp comment_pos Q R s"
  unfolding comment_pos_def wp_pbind
proof (rule wp_match [OF m])
  fix s' assume s': "mid F u s'" "cur_tok COMMENT s'" "COMMENT = COMMENT \<Longrightarrow> tk_type (p_next s') = EOL"
  then obtain a b where "tk_start (p_current s') = Some a" "p_line_start s' = Some b"
    by (auto simp: mid_def cur_tok_def)
  with s' Q show "wp (if True then pbind (pget (\<lambda>s. (tk_start (p_current s), p_line_start s)))
      (\<lambda>(p, q). pbind (plift (ptr_diff p q)) (\<lambda>d. preturn (sint (of_int d :: 16 word))))
      else preturn (- 1)) Q R s'"
    by (simp add: ptr_diff_def)
qed (use m Q in simp_all)

text \<open>What is known of the line the statement gets.\<close>

definition line_post :: "pstate \<Rightarrow> line_t \<Rightarrow> u16 \<Rightarrow> bool" where
  "line_post s l c \<longleftrightarrow>
     wf_line l
     \<and> c = (if l = EMPTY_LINE then p_code_nr s - 1 else p_code_nr s)
     \<and> (l \<noteq> EMPTY_LINE \<longrightarrow> l \<noteq> EOF_LINE \<longrightarrow> \<not> is_error l \<longrightarrow> p_code_nr s \<le> of_nat BPF_MAXINSNS)"

definition expr_post :: "pstate \<Rightarrow> nat \<Rightarrow> pstate \<Rightarrow> bool" where
  "expr_post s u s' \<longleftrightarrow>
     line_inv s' \<and> left_over s' < u
     \<and> p_text_nr s' = p_text_nr s \<and> p_labels s' = p_labels s
     \<and> text_nr (p_local s') = text_nr (p_local s) \<and> code_nr (p_local s') = code_nr (p_local s)
     \<and> label_decl (p_local s') = label_decl (p_local s)
     \<and> line_post s (line (p_local s')) (p_code_nr s')"

lemma failed_at_expr: "failed_at s u s' \<Longrightarrow> expr_post s u s'"
  by (auto simp: failed_at_def expr_post_def same_stmt_def line_post_def is_error_def wf_line_def
      split: line_t.splits)

text \<open>The part of \<open>expression\<close> behind the line.\<close>

lemma wp_expr_tail:
  assumes m: "mid F u s1" and l: "line_post s l (p_code_nr s1)"
    and fr: "p_text_nr s1 = p_text_nr s" "p_labels s1 = p_labels s" "p_local s1 = p_local s"
    and err: "l = EMPTY_LINE \<Longrightarrow> tk_type (p_next s1) \<in> {EOL, COMMENT}"
  shows "wp (pbind (set_local (\<lambda>st. st\<lparr>line := l\<rparr>)) (\<lambda>_. pbind comment_pos (\<lambda>c.
      pbind (set_local (\<lambda>st. st\<lparr>comment := c\<rparr>)) (\<lambda>_. end_of_line))))
    (\<lambda>_. expr_post s u) (expr_post s u) s1"
  unfolding wp_pbind wp_set_local
proof (rule wp_comment_pos [OF mid_set_local [OF m]])
  let ?s2 = "s1\<lparr>p_local := (p_local s1)\<lparr>line := l\<rparr>\<rparr>"
  fix c s3 assume s3: "mid (frame ?s2) u s3"
    and nx: "tk_type (p_next ?s2) \<in> {EOL, COMMENT} \<Longrightarrow> tk_type (p_next s3) = EOL"
  let ?s4 = "s3\<lparr>p_local := (p_local s3)\<lparr>comment := c\<rparr>\<rparr>"
  have eq: "p_text_nr ?s4 = p_text_nr s" "p_labels ?s4 = p_labels s" "p_code_nr ?s4 = p_code_nr s1"
    "text_nr (p_local ?s4) = text_nr (p_local s)" "code_nr (p_local ?s4) = code_nr (p_local s)"
    "label_decl (p_local ?s4) = label_decl (p_local s)" "line (p_local ?s4) = l"
    using s3 fr by (simp_all add: mid_def frame_def)
  have ok: "expr_post s u s'" if "stmt_done ?s4 u s'" for s'
    using that eq l unfolding stmt_done_def same_stmt_def expr_post_def by simp
  have bad: "expr_post s u s'" if "failed_at ?s4 u s'" "l \<noteq> EMPTY_LINE" for s'
    using that eq l unfolding failed_at_def same_stmt_def expr_post_def
    by (auto simp: line_post_def is_error_def wf_line_def split: line_t.splits)
  have ne: "tk_type (p_next ?s4) \<noteq> EOL \<Longrightarrow> l \<noteq> EMPTY_LINE" using nx err by auto
  show "wp end_of_line (\<lambda>_. expr_post s u) (expr_post s u) ?s4"
    by (rule wp_mono [OF wp_end_of_line [OF mid_set_local [OF s3]]]) (use ok bad ne in auto)
qed

lemma line_inv_code [simp]: "line_inv (s\<lparr>p_code_nr := c\<rparr>) = line_inv s"
  unfolding line_inv_def by simp

lemma left_over_code [simp]: "left_over (s\<lparr>p_code_nr := c\<rparr>) = left_over s"
  unfolding left_over_def by simp

lemma wp_expression:
  assumes m: "mid F u s"
  shows "wp (expression lib arch) (\<lambda>_. expr_post s u) (expr_post s u) s"
proof -
  let ?tail = "\<lambda>l. pbind (set_local (\<lambda>st. st\<lparr>line := l\<rparr>)) (\<lambda>_. pbind comment_pos (\<lambda>c.
    pbind (set_local (\<lambda>st. st\<lparr>comment := c\<rparr>)) (\<lambda>_. end_of_line)))"
  have F: "F = frame s" using m by (simp add: mid_def)
  have "wp (expression_line lib arch) (\<lambda>l. wp (?tail l) (\<lambda>_. expr_post s u) (expr_post s u)) (failed F u) s"
  proof (rule wp_expression_line [OF m])
    let ?s = "s\<lparr>p_code_nr := p_code_nr s - 1\<rparr>"
    assume e: "tk_type (p_next s) \<in> {EOL, COMMENT}"
    have "mid (frame ?s) u ?s" using m by (simp add: mid_def)
    then show "wp (?tail EMPTY_LINE) (\<lambda>_. expr_post s u) (expr_post s u) ?s"
      by (rule wp_expr_tail) (use e in \<open>auto simp: line_post_def wf_line_def\<close>)
  next
    show "wp (?tail EOF_LINE) (\<lambda>_. expr_post s u) (expr_post s u) s"
      by (rule wp_expr_tail [OF m]) (auto simp: line_post_def wf_line_def)
  next
    fix l s'
    assume a: "mid F u s'" "wf_line l" "l \<noteq> EMPTY_LINE" "l \<noteq> EOF_LINE" "\<not> is_error l"
      "p_code_nr s \<le> of_nat BPF_MAXINSNS"
    have fr: "p_text_nr s' = p_text_nr s" "p_labels s' = p_labels s" "p_local s' = p_local s"
      "p_code_nr s' = p_code_nr s"
      using a(1) F by (simp_all add: mid_def frame_def)
    show "wp (?tail l) (\<lambda>_. expr_post s u) (expr_post s u) s'"
      by (rule wp_expr_tail [OF a(1) _ fr(1-3)]) (use a fr(4) in \<open>simp_all add: line_post_def\<close>)
  qed
  then show ?thesis
    unfolding expression_def wp_pbind
    by (rule wp_mono) (auto simp: F failed_frame intro: failed_at_expr)
qed

text \<open>The label table after a statement: the first declaration of a label stays.\<close>

definition label_step :: "str_table \<Rightarrow> statement_t \<Rightarrow> str_table \<Rightarrow> bool" where
  "label_step L st L' \<longleftrightarrow>
     (case label_decl st of
        None \<Rightarrow> L' = L
      | Some k \<Rightarrow> k \<noteq> []
          \<and> (if map_of L k = None then L' = (k, code_nr st) # L else L' = L \<and> is_error (line st)))"

definition label_post :: "pstate \<Rightarrow> pstate \<Rightarrow> bool" where
  "label_post s s' \<longleftrightarrow>
     p_text_nr s' = p_text_nr s \<and> p_code_nr s' = p_code_nr s
     \<and> text_nr (p_local s') = text_nr (p_local s) \<and> code_nr (p_local s') = code_nr (p_local s)
     \<and> label_step (p_labels s) (p_local s') (p_labels s')"

lemma wp_skip_numbers:
  "mid F u s \<Longrightarrow> (\<And>s'. mid F u s' \<Longrightarrow> Q () s') \<Longrightarrow> wp (skip_numbers n) Q (failed F u) s"
proof (induction n arbitrary: s)
  case 0
  then show ?case by (auto intro!: wp_match_number)
next
  case (Suc n)
  show ?case
    unfolding skip_numbers.simps wp_pbind
    by (rule wp_match_number [OF Suc.prems(1)]) (use Suc in auto)
qed

lemma insert_key_cases:
  "insert_key False k v t = (if map_of t k = None then (0, (k, v) # t) else (1, t))"
  by (auto simp: insert_key_def vt_get_or_insert_def Let_def split: option.split)

lemma line_inv_labels [simp]: "line_inv (s\<lparr>p_labels := c\<rparr>) = line_inv s"
  unfolding line_inv_def by simp

lemma left_over_labels [simp]: "left_over (s\<lparr>p_labels := c\<rparr>) = left_over s"
  unfolding left_over_def by simp

definition label_ok :: "pstate \<Rightarrow> nat \<Rightarrow> pstate \<Rightarrow> bool" where
  "label_ok s u s' \<longleftrightarrow>
     mid (frame s') u s' \<and> label_post s s' \<and> is_error (line (p_local s')) = is_error (line (p_local s))"

definition label_bad :: "pstate \<Rightarrow> nat \<Rightarrow> pstate \<Rightarrow> bool" where
  "label_bad s u s' \<longleftrightarrow>
     line_inv s' \<and> left_over s' < u \<and> label_post s s' \<and> is_error (line (p_local s'))"

lemma wp_declare_label:
  assumes m: "mid F u s1" and c: "cur_tok LABEL_DECL s1" and fr: "frame s1 = frame s"
    and none: "label_decl (p_local s) = None" "code_nr (p_local s) = p_code_nr s"
  shows "wp declare_label (\<lambda>_. label_ok s u) (label_bad s u) s1"
proof -
  let ?cur = "p_current s1"
  from m c obtain i where i: "tk_start ?cur = Some i" "i < length (ptext s1)" "1 < tk_len ?cur"
    by (auto simp: cur_tok_def mid_def line_inv_def tok_ok_def)
  define k where "k = slice (ptext s1) i (unat (tk_len ?cur) - Suc 0)"
  have "1 < unat (tk_len ?cur)" using i(3) by (simp add: word_less_nat_alt)
  with i(2) have kn: "k \<noteq> []" by (simp add: k_def slice_def)
  note fr = fr [unfolded frame_def prod.inject]
  define t where "t = (if map_of (p_labels s) k = None then (k, p_code_nr s) # p_labels s else p_labels s)"
  define s2 where "s2 = s1\<lparr>p_local := (p_local s1)\<lparr>label_decl := Some k\<rparr>, p_labels := t\<rparr>"
  have s2: "mid (frame s2) u s2" using m by (simp add: mid_def s2_def)
  have s2f: "p_text_nr s2 = p_text_nr s" "p_code_nr s2 = p_code_nr s" "p_labels s2 = t"
    "label_decl (p_local s2) = Some k" "text_nr (p_local s2) = text_nr (p_local s)"
    "code_nr (p_local s2) = code_nr (p_local s)" "line (p_local s2) = line (p_local s)"
    using fr by (simp_all add: s2_def)
  have bad: "label_bad s u s'" if "failed (frame s2) u s'" for s'
    using that kn none s2f
    by (auto simp: failed_frame failed_at_def same_stmt_def label_bad_def label_post_def
        label_step_def t_def)
  have ok: "label_ok s u s'" if "mid (frame s2) u s'" "map_of (p_labels s) k = None" for s'
    using that kn none s2f
    by (auto simp: mid_def frame_def label_ok_def label_post_def label_step_def t_def)
  have "wp (if map_of (p_labels s) k \<noteq> None then error_at ?cur M_DUPLICATED_LABEL else skip_numbers 4)
      (\<lambda>_. label_ok s u) (label_bad s u) s2"
  proof (rule wp_if)
    show "wp (error_at ?cur M_DUPLICATED_LABEL) (\<lambda>_. label_ok s u) (label_bad s u) s2"
      by (rule wp_mono [OF wp_error_at [OF s2, where Q = "\<lambda>_ _. False"]]) (use i bad in auto)
    assume "\<not> map_of (p_labels s) k \<noteq> None"
    then show "wp (skip_numbers 4) (\<lambda>_. label_ok s u) (label_bad s u) s2"
      by (intro wp_mono [OF wp_skip_numbers [OF s2, of "\<lambda>_. label_ok s u"]]) (use bad ok in auto)
  qed
  then show ?thesis
    using fr by (simp add: declare_label_def i(1) text_span_def k_def [symmetric] insert_key_cases
        s2_def t_def split: if_splits)
qed

lemma wp_parse_label_decl:
  assumes m: "mid F u s" and none: "label_decl (p_local s) = None" "code_nr (p_local s) = p_code_nr s"
  shows "wp parse_label_decl (\<lambda>_. label_ok s u) (label_bad s u) s"
  unfolding parse_label_decl_def wp_pbind
proof (rule wp_match [OF m])
  show "wp (if \<not> False then preturn () else declare_label) (\<lambda>_. label_ok s u) (label_bad s u) s"
    using m none by (simp add: label_ok_def label_post_def label_step_def mid_def)
  fix s1 assume "mid F u s1" "cur_tok LABEL_DECL s1"
  then show "wp (if \<not> True then preturn () else declare_label) (\<lambda>_. label_ok s u) (label_bad s u) s1"
    using m none by (simp add: wp_declare_label mid_def)
qed simp_all

text \<open>One statement.\<close>

definition stmt_post :: "pstate \<Rightarrow> statement_t \<Rightarrow> pstate \<Rightarrow> bool" where
  "stmt_post s st s' \<longleftrightarrow>
     line_inv s' \<and> p_text_nr s' = p_text_nr s + 1
     \<and> text_nr st = p_text_nr s + 1 \<and> code_nr st = p_code_nr s + 1
     \<and> wf_line (line st)
     \<and> p_code_nr s' = (if line st = EMPTY_LINE then p_code_nr s else p_code_nr s + 1)
     \<and> (line st \<noteq> EMPTY_LINE \<longrightarrow> line st \<noteq> EOF_LINE \<longrightarrow> \<not> is_error (line st) \<longrightarrow>
          p_code_nr s + 1 \<le> of_nat BPF_MAXINSNS)
     \<and> label_step (p_labels s) st (p_labels s')
     \<and> (line st \<noteq> EOF_LINE \<longrightarrow> left_over s' < left_over s)"

lemma wp_parse_line_mid:
  assumes m: "mid (frame s) (left_over s) s"
    and none: "label_decl (p_local s) = None" "code_nr (p_local s) = p_code_nr s"
    "text_nr (p_local s) = p_text_nr s" "\<not> is_error (line (p_local s))"
  shows "wp (pbind parse_label_decl (\<lambda>_. expression lib arch))
    (\<lambda>_ s'. stmt_post (s\<lparr>p_text_nr := p_text_nr s - 1, p_code_nr := p_code_nr s - 1\<rparr>) (p_local s') s')
    (\<lambda>s'. stmt_post (s\<lparr>p_text_nr := p_text_nr s - 1, p_code_nr := p_code_nr s - 1\<rparr>) (p_local s') s') s"
    (is "wp _ (\<lambda>_. ?P) _ s")
proof -
  let ?u = "left_over s"
  have lo: "left_over (s\<lparr>p_text_nr := a\<rparr>) = left_over s" for a
    unfolding left_over_def by simp
  have bad: "?P s'" if "label_bad s ?u s'" for s'
    using that none
    by (auto simp: label_bad_def stmt_post_def label_post_def is_error_def wf_line_def lo
        split: line_t.splits)
  have ok: "?P s'" if "label_ok s ?u s1" "expr_post s1 ?u s'" for s1 s'
    using that none unfolding label_ok_def expr_post_def label_post_def line_post_def stmt_post_def
    by (auto simp: label_step_def lo split: option.splits)
  show ?thesis
    unfolding wp_pbind
  proof (rule wp_mono [OF wp_parse_label_decl [OF m none(1,2)]])
    fix s1 assume s1: "label_ok s ?u s1"
    then have "mid (frame s1) ?u s1" by (simp add: label_ok_def)
    then show "wp (expression lib arch) (\<lambda>_. ?P) ?P s1"
      by (rule wp_mono [OF wp_expression]) (use ok [OF s1] in auto)
  qed (rule bad)
qed

end
