(* ===== verification/Parser_Layout.thy ===== *)
theory Parser_Layout
  imports Parser_Inv
begin

text \<open>
  What the parser returns: it never aborts (it does not run out of fuel, does not leave the
  source map, does not subtract \<open>NULL\<close>), and the statements, the code pointers and the
  label table fit together (\<open>well_laid\<close>): statement \<open>i\<close> carries the text number \<open>i\<close>, the
  code number counts the lines that are not empty, every line has the shape the grammar
  allows, and every label of the table is declared at a statement with that code number.
\<close>

section \<open>One statement\<close>

lemma wp_match_no: "tk_type (p_next s) \<noteq> tk \<Longrightarrow> wp (match tk) Q R s = Q False s"
  by (simp add: wp_def match_def match_if_def peek_def preturn_def)

lemma wp_parse_line_eof:
  assumes inv: "line_inv s" and eof: "tk_type (p_next s) = TOKEN_EOF"
    and ls: "p_line_start s = tk_start (p_next s)"
    and none: "label_decl (p_local s) = None"
  shows "wp (pbind parse_label_decl (\<lambda>_. expression lib arch))
     (\<lambda>_ s'. p_local s' = (p_local s)\<lparr>line := EOF_LINE, comment := - 1,
          line_text := text_span (ptext s) (p_line_start s) 0\<rparr>
        \<and> s' = s\<lparr>p_local := p_local s'\<rparr>) R s"
  using eof ls
  by (cases "tk_start (p_next s)")
     (simp_all add: parse_label_decl_def expression_def expression_line_def eof_line_def
       comment_pos_def end_of_line_def set_line_len_def peek_def ptr_diff_def wp_match_no)

lemma parse_line_ok:
  assumes inv: "line_inv s"
  shows "(\<exists>st s'. parse_line lib arch s = (Ok st, s') \<and> stmt_post s st s')
    \<or> (\<exists>e s'. parse_line lib arch s = (Exit e, s'))"
proof -
  define nr where "nr = p_text_nr s + 1"
  define code where "code = p_code_nr s + 1"
  define s0 where "s0 = s\<lparr>p_text_nr := nr, p_code_nr := code,
    p_local := zero_statement\<lparr>text_nr := nr, code_nr := code\<rparr>, p_line_start := tk_start (p_next s)\<rparr>"
  let ?m = "pbind parse_label_decl (\<lambda>_. expression lib arch)"
  have lo: "left_over s0 = left_over s" unfolding left_over_def s0_def by simp
  have inv0: "line_inv s0" using inv unfolding line_inv_def s0_def by simp
  have eq: "parse_line lib arch s = (case ?m s0 of
      (Ok _, s') \<Rightarrow> (Ok (p_local s'), s') | (Longjmp, s') \<Rightarrow> (Ok (p_local s'), s')
      | (Exit e, s') \<Rightarrow> (Exit e, s') | (Abort e, s') \<Rightarrow> (Abort e, s'))"
    by (simp add: parse_line_def Let_def s0_def nr_def code_def)
  have "wp ?m (\<lambda>_ s'. stmt_post s (p_local s') s') (\<lambda>s'. stmt_post s (p_local s') s') s0"
  proof (cases "tk_type (p_next s) = TOKEN_EOF")
    case True
    have "wp ?m (\<lambda>_ s'. p_local s' = (p_local s0)\<lparr>line := EOF_LINE, comment := - 1,
          line_text := text_span (ptext s0) (p_line_start s0) 0\<rparr>
        \<and> s' = s0\<lparr>p_local := p_local s'\<rparr>) (\<lambda>_. False) s0"
      by (rule wp_parse_line_eof) (use True inv0 in \<open>auto simp: s0_def zero_statement_def\<close>)
    then show ?thesis
    proof (rule wp_mono)
      fix x s'
      assume a: "p_local s' = (p_local s0)\<lparr>line := EOF_LINE, comment := - 1,
          line_text := text_span (ptext s0) (p_line_start s0) 0\<rparr> \<and> s' = s0\<lparr>p_local := p_local s'\<rparr>"
      then obtain l where l: "s' = s0\<lparr>p_local := l\<rparr>" by blast
      from a have pl: "line (p_local s') = EOF_LINE" "text_nr (p_local s') = text_nr (p_local s0)"
        "code_nr (p_local s') = code_nr (p_local s0)" "label_decl (p_local s') = label_decl (p_local s0)"
        by simp_all
      have "p_text_nr s' = nr" "p_code_nr s' = code" "p_labels s' = p_labels s"
        unfolding l by (simp_all add: s0_def)
      moreover have "line_inv s'" using inv0 by (simp add: l)
      ultimately show "stmt_post s (p_local s') s'"
        using pl by (simp add: stmt_post_def s0_def wf_line_def label_step_def zero_statement_def
            nr_def code_def)
    qed simp
  next
    case False
    have "mid (frame s0) (left_over s0) s0"
      using inv0 False by (auto simp: mid_def s0_def line_inv_def left_over_def)
    then have "wp ?m
      (\<lambda>_ s'. stmt_post (s0\<lparr>p_text_nr := p_text_nr s0 - 1, p_code_nr := p_code_nr s0 - 1\<rparr>) (p_local s') s')
      (\<lambda>s'. stmt_post (s0\<lparr>p_text_nr := p_text_nr s0 - 1, p_code_nr := p_code_nr s0 - 1\<rparr>) (p_local s') s') s0"
      by (rule wp_parse_line_mid) (simp_all add: s0_def zero_statement_def is_error_def)
    moreover have "stmt_post (s0\<lparr>p_text_nr := p_text_nr s0 - 1, p_code_nr := p_code_nr s0 - 1\<rparr>) st s'
        = stmt_post s st s'" for st s'
      by (simp add: stmt_post_def s0_def nr_def code_def left_over_def)
    ultimately show ?thesis by simp
  qed
  moreover obtain r s1 where rs: "?m s0 = (r, s1)" by (cases "?m s0")
  ultimately show ?thesis
    unfolding eq wp_def rs by (cases r) auto
qed

section \<open>All statements\<close>

text \<open>
  The statements from a state with counters \<open>t\<close> and \<open>c\<close> and labels \<open>L\<close>, up to the end of
  the file, where the labels are \<open>L'\<close>.
\<close>

inductive laid_out :: "u16 \<Rightarrow> u16 \<Rightarrow> str_table \<Rightarrow> statement_t list \<Rightarrow> str_table \<Rightarrow> bool" where
  laid_eof: "line st = EOF_LINE \<Longrightarrow> code_nr st = c + 1 \<Longrightarrow> label_step L st L' \<Longrightarrow> laid_out t c L [] L'"
| laid_line: "line st \<noteq> EOF_LINE \<Longrightarrow> text_nr st = t + 1 \<Longrightarrow> code_nr st = c + 1 \<Longrightarrow> wf_line (line st) \<Longrightarrow>
    (line st \<noteq> EMPTY_LINE \<Longrightarrow> \<not> is_error (line st) \<Longrightarrow> c + 1 \<le> of_nat BPF_MAXINSNS) \<Longrightarrow>
    label_step L st L1 \<Longrightarrow>
    laid_out (t + 1) (if line st = EMPTY_LINE then c else c + 1) L1 sts L' \<Longrightarrow>
    laid_out t c L (st # sts) L'"

lemma parse_lines_ok:
  assumes "line_inv s" "left_over s < n" "vec_ok v" "length (vec_elems v) + left_over s < 2 ^ 31"
  shows "(\<exists>v' s' sts. parse_lines lib arch n v s = (Ok v', s') \<and> vec_ok v'
      \<and> vec_elems v' = vec_elems v @ sts \<and> length sts \<le> left_over s
      \<and> laid_out (p_text_nr s) (p_code_nr s) (p_labels s) sts (p_labels s'))
    \<or> (\<exists>e s'. parse_lines lib arch n v s = (Exit e, s'))"
  using assms
proof (induction n arbitrary: s v)
  case (Suc n)
  from parse_line_ok [OF Suc.prems(1), of lib arch] show ?case
  proof (elim disjE exE conjE)
    fix e s' assume "parse_line lib arch s = (Exit e, s')"
    then show ?thesis by (simp add: pbind_def)
  next
    fix st s' assume pl: "parse_line lib arch s = (Ok st, s')" and post: "stmt_post s st s'"
    show ?thesis
    proof (cases "line st = EOF_LINE")
      case True
      then have "laid_out (p_text_nr s) (p_code_nr s) (p_labels s) [] (p_labels s')"
        using post by (intro laid_eof [of st]) (simp_all add: stmt_post_def)
      then show ?thesis
        using True pl Suc.prems(3) by (intro disjI1) (auto simp: pbind_def preturn_def)
    next
      case False
      have lt: "left_over s' < left_over s" using post False by (simp add: stmt_post_def)
      from vec_push [OF Suc.prems(3), of st] Suc.prems(4) obtain w where
        w: "push_vector v st = Done w" "vec_ok w" "vec_elems w = vec_elems v @ [st]" by auto
      have eq: "parse_lines lib arch (Suc n) v s = parse_lines lib arch n w s'"
        using pl False w(1) by (simp add: pbind_def plift_def)
      from post have "line_inv s'" by (simp add: stmt_post_def)
      from Suc.IH [OF this _ w(2)] lt Suc.prems(2,4) w(3)
      have "(\<exists>v' s'' sts. parse_lines lib arch n w s' = (Ok v', s'') \<and> vec_ok v'
            \<and> vec_elems v' = vec_elems w @ sts \<and> length sts \<le> left_over s'
            \<and> laid_out (p_text_nr s') (p_code_nr s') (p_labels s') sts (p_labels s''))
          \<or> (\<exists>e s''. parse_lines lib arch n w s' = (Exit e, s''))" by simp
      then show ?thesis
        unfolding eq
      proof (elim disjE exE conjE)
        fix v' s'' sts
        assume r: "parse_lines lib arch n w s' = (Ok v', s'')" "vec_ok v'"
          "vec_elems v' = vec_elems w @ sts" "length sts \<le> left_over s'"
          "laid_out (p_text_nr s') (p_code_nr s') (p_labels s') sts (p_labels s'')"
        have "laid_out (p_text_nr s) (p_code_nr s) (p_labels s) (st # sts) (p_labels s'')"
          by (rule laid_line [of st _ _ _ "p_labels s'"])
             (use False post r(5) in \<open>simp_all add: stmt_post_def split: if_splits\<close>)
        then show "(\<exists>v' s'' sts. parse_lines lib arch n w s' = (Ok v', s'') \<and> vec_ok v'
            \<and> vec_elems v' = vec_elems v @ sts \<and> length sts \<le> left_over s
            \<and> laid_out (p_text_nr s) (p_code_nr s) (p_labels s) sts (p_labels s''))
          \<or> (\<exists>e s''. parse_lines lib arch n w s' = (Exit e, s''))"
          using r w(3) lt by (intro disjI1 exI [of _ v'] exI [of _ s''] exI [of _ "st # sts"]) simp
      qed auto
    qed
  qed
qed simp

section \<open>The layout\<close>

definition is_code :: "statement_t \<Rightarrow> bool" where
  "is_code st \<longleftrightarrow> line st \<noteq> EMPTY_LINE"

text \<open>The indices of the code lines, the dummy statement 0 included, and their number before \<open>i\<close>.\<close>

definition code_lines :: "statement_t list \<Rightarrow> nat list" where
  "code_lines T = filter (\<lambda>i. is_code (T ! i)) [0..<length T]"

definition code_count :: "statement_t list \<Rightarrow> nat \<Rightarrow> nat" where
  "code_count T i = length (filter is_code (take i T))"

definition well_laid :: "statement_t list \<Rightarrow> u32 list \<Rightarrow> str_table \<Rightarrow> bool" where
  "well_laid T C L \<longleftrightarrow>
     T \<noteq> [] \<and> T ! 0 = zero_statement \<and> C = map of_nat (code_lines T)
     \<and> (\<forall>i < length T. text_nr (T ! i) = of_nat i \<and> code_nr (T ! i) = of_nat (code_count T i))
     \<and> (\<forall>i < length T. 0 < i \<longrightarrow> line (T ! i) \<noteq> EOF_LINE \<and> wf_line (line (T ! i))
          \<and> (is_code (T ! i) \<longrightarrow> \<not> is_error (line (T ! i)) \<longrightarrow>
               (of_nat (code_count T i) :: u16) \<le> of_nat BPF_MAXINSNS))
     \<and> (\<forall>i < length T. \<forall>k. label_decl (T ! i) = Some k \<longrightarrow>
          k \<noteq> [] \<and> (\<not> is_error (line (T ! i)) \<longrightarrow> map_of L k = Some (code_nr (T ! i))))
     \<and> (\<forall>k v. map_of L k = Some v \<longrightarrow>
          (\<exists>i < length T. label_decl (T ! i) = Some k \<and> v = code_nr (T ! i))
          \<or> v = of_nat (code_count T (length T)))
     \<and> (\<forall>i j k. i < j \<longrightarrow> j < length T \<longrightarrow> label_decl (T ! i) = Some k \<longrightarrow>
          label_decl (T ! j) = Some k \<longrightarrow> is_error (line (T ! j)))"

lemma laid_nth:
  "laid_out t c L sts L' \<Longrightarrow> i < length sts \<Longrightarrow>
   line (sts ! i) \<noteq> EOF_LINE \<and> wf_line (line (sts ! i))
   \<and> text_nr (sts ! i) = t + 1 + of_nat i
   \<and> code_nr (sts ! i) = c + 1 + of_nat (length (filter is_code (take i sts)))
   \<and> (is_code (sts ! i) \<longrightarrow> \<not> is_error (line (sts ! i)) \<longrightarrow> code_nr (sts ! i) \<le> of_nat BPF_MAXINSNS)"
proof (induction arbitrary: i rule: laid_out.induct)
  case (laid_line st t c L L1 sts L')
  show ?case
  proof (cases i)
    case 0
    then show ?thesis using laid_line by (auto simp: is_code_def)
  next
    case (Suc j)
    then have "j < length sts" using laid_line.prems by simp
    from laid_line.IH [OF this] show ?thesis using Suc by (auto simp: is_code_def algebra_simps)
  qed
qed simp

lemma label_step_map:
  "label_step L st L' \<Longrightarrow>
   map_of L' = (case label_decl st of None \<Rightarrow> map_of L
     | Some k \<Rightarrow> if map_of L k = None then (map_of L)(k \<mapsto> code_nr st) else map_of L)"
  by (auto simp: label_step_def split: option.splits if_splits)

lemma label_step_kept: "label_step L st L' \<Longrightarrow> map_of L k = Some v \<Longrightarrow> map_of L' k = Some v"
  by (auto simp: label_step_def split: option.splits if_splits)

lemma laid_labels_kept: "laid_out t c L sts L' \<Longrightarrow> map_of L k = Some v \<Longrightarrow> map_of L' k = Some v"
  by (induction rule: laid_out.induct) (auto dest: label_step_kept)

lemma label_step_decl:
  "label_step L st L' \<Longrightarrow> label_decl st = Some k \<Longrightarrow>
   k \<noteq> [] \<and> map_of L' k \<noteq> None
   \<and> (\<not> is_error (line st) \<longrightarrow> map_of L k = None \<and> map_of L' k = Some (code_nr st))"
  by (auto simp: label_step_def split: if_splits)

lemma laid_labels_decl:
  "laid_out t c L sts L' \<Longrightarrow> i < length sts \<Longrightarrow> label_decl (sts ! i) = Some k \<Longrightarrow>
   k \<noteq> [] \<and> (\<not> is_error (line (sts ! i)) \<longrightarrow> map_of L k = None \<and> map_of L' k = Some (code_nr (sts ! i)))"
proof (induction arbitrary: i rule: laid_out.induct)
  case (laid_line st t c L L1 sts L')
  show ?case
  proof (cases i)
    case 0
    then show ?thesis
      using laid_line.prems label_step_decl [OF laid_line.hyps(6)] laid_labels_kept [OF laid_line.hyps(7)]
      by auto
  next
    case (Suc j)
    then show ?thesis
      using laid_line.prems laid_line.IH [of j] label_step_kept [OF laid_line.hyps(6)]
      by (cases "map_of L k") auto
  qed
qed simp

lemma laid_labels_from:
  "laid_out t c L sts L' \<Longrightarrow> map_of L' k = Some v \<Longrightarrow>
   map_of L k = Some v
   \<or> (\<exists>i < length sts. label_decl (sts ! i) = Some k \<and> v = code_nr (sts ! i))
   \<or> v = c + 1 + of_nat (length (filter is_code sts))"
proof (induction rule: laid_out.induct)
  case (laid_eof st c L L' t)
  then show ?case by (auto simp: label_step_def split: option.splits if_splits)
next
  case (laid_line st t c L L1 sts L')
  from laid_line.IH [OF laid_line.prems] show ?case
  proof (elim disjE exE conjE)
    assume "map_of L1 k = Some v"
    then have "map_of L k = Some v \<or> (label_decl st = Some k \<and> v = code_nr st)"
      using label_step_map [OF laid_line.hyps(6)] by (auto split: option.splits if_splits)
    then show ?thesis by (auto intro!: exI [of _ 0])
  next
    fix i assume "i < length sts" "label_decl (sts ! i) = Some k" "v = code_nr (sts ! i)"
    then show ?thesis by (auto intro!: exI [of _ "Suc i"])
  qed (auto simp: is_code_def algebra_simps)
qed

lemma laid_labels_distinct:
  "laid_out t c L sts L' \<Longrightarrow> i < j \<Longrightarrow> j < length sts \<Longrightarrow> label_decl (sts ! i) = Some k \<Longrightarrow>
   label_decl (sts ! j) = Some k \<Longrightarrow> is_error (line (sts ! j))"
proof (induction arbitrary: i j rule: laid_out.induct)
  case (laid_line st t c L L1 sts L')
  obtain j' where j: "j = Suc j'" using laid_line.prems(1) by (cases j) auto
  show ?case
  proof (cases i)
    case 0
    then have "map_of L1 k \<noteq> None"
      using label_step_decl [OF laid_line.hyps(6)] laid_line.prems(3) by auto
    then show ?thesis
      using laid_labels_decl [OF laid_line.hyps(7), of j' k] laid_line.prems(2,4) j by auto
  next
    case (Suc i')
    then show ?thesis using laid_line.IH [of i' j'] laid_line.prems j by simp
  qed
qed simp

lemma well_laid_of:
  assumes l: "laid_out 0 0 [] sts L"
  shows "well_laid (zero_statement # sts) (map of_nat (code_lines (zero_statement # sts))) L"
proof -
  have z: "is_code zero_statement" "label_decl zero_statement = None" "text_nr zero_statement = 0"
    "code_nr zero_statement = 0"
    by (simp_all add: zero_statement_def is_code_def)
  have nth: "(\<forall>i < length (zero_statement # sts). P i ((zero_statement # sts) ! i))
      = (P 0 zero_statement \<and> (\<forall>i < length sts. P (Suc i) (sts ! i)))" for P
    by (auto simp: less_Suc_eq_0_disj)
  show ?thesis
    unfolding well_laid_def
  proof (intro conjI)
    show "\<forall>i < length (zero_statement # sts). text_nr ((zero_statement # sts) ! i) = of_nat i
      \<and> code_nr ((zero_statement # sts) ! i) = of_nat (code_count (zero_statement # sts) i)"
      using laid_nth [OF l] z by (intro nth [THEN iffD2]) (simp add: code_count_def)
    show "\<forall>i < length (zero_statement # sts). 0 < i \<longrightarrow> line ((zero_statement # sts) ! i) \<noteq> EOF_LINE
        \<and> wf_line (line ((zero_statement # sts) ! i))
        \<and> (is_code ((zero_statement # sts) ! i) \<longrightarrow> \<not> is_error (line ((zero_statement # sts) ! i)) \<longrightarrow>
             (of_nat (code_count (zero_statement # sts) i) :: u16) \<le> of_nat BPF_MAXINSNS)"
      using laid_nth [OF l] z by (intro nth [THEN iffD2]) (force simp: code_count_def)
    show "\<forall>i < length (zero_statement # sts). \<forall>k. label_decl ((zero_statement # sts) ! i) = Some k \<longrightarrow>
        k \<noteq> [] \<and> (\<not> is_error (line ((zero_statement # sts) ! i)) \<longrightarrow>
          map_of L k = Some (code_nr ((zero_statement # sts) ! i)))"
      using laid_labels_decl [OF l] z by (intro nth [THEN iffD2]) simp
    show "\<forall>k v. map_of L k = Some v \<longrightarrow>
        (\<exists>i < length (zero_statement # sts). label_decl ((zero_statement # sts) ! i) = Some k
           \<and> v = code_nr ((zero_statement # sts) ! i))
        \<or> v = of_nat (code_count (zero_statement # sts) (length (zero_statement # sts)))"
    proof (intro allI impI)
      fix k v assume "map_of L k = Some v"
      from laid_labels_from [OF l this] z
      show "(\<exists>i < length (zero_statement # sts). label_decl ((zero_statement # sts) ! i) = Some k
           \<and> v = code_nr ((zero_statement # sts) ! i))
        \<or> v = of_nat (code_count (zero_statement # sts) (length (zero_statement # sts)))"
        by (auto simp: code_count_def)
    qed
    show "\<forall>i j k. i < j \<longrightarrow> j < length (zero_statement # sts) \<longrightarrow>
        label_decl ((zero_statement # sts) ! i) = Some k \<longrightarrow>
        label_decl ((zero_statement # sts) ! j) = Some k \<longrightarrow> is_error (line ((zero_statement # sts) ! j))"
    proof (intro allI impI)
      fix i j k
      assume a: "i < j" "j < length (zero_statement # sts)"
        "label_decl ((zero_statement # sts) ! i) = Some k"
        "label_decl ((zero_statement # sts) ! j) = Some k"
      from a(1,3) z obtain i' j' where "i = Suc i'" "j = Suc j'" by (cases i; cases j) auto
      with a laid_labels_distinct [OF l, of i' j' k]
      show "is_error (line ((zero_statement # sts) ! j))" by simp
    qed
  qed simp_all
qed

section \<open>The parser\<close>

lemma code_ptrs_ok:
  assumes "vec_ok text_v" "vec_ok code_v" "i + n = length (vec_elems text_v)"
    "length (vec_elems text_v) < 2 ^ 31" "length (vec_elems code_v) + n < 2 ^ 31"
  shows "\<exists>w. code_ptrs n i text_v code_v = Done w \<and> vec_ok w
    \<and> vec_elems w = vec_elems code_v @ map of_nat (filter (\<lambda>j. is_code (vec_elems text_v ! j)) [i..<length (vec_elems text_v)])"
  using assms
proof (induction n arbitrary: i code_v)
  case (Suc n)
  have u: "unat (of_nat i :: u32) = i" using Suc.prems by (simp add: unat_of_nat)
  then have g: "get_vector text_v (of_nat i) = Done (vec_elems text_v ! i)"
    using vec_get [OF Suc.prems(1), of "of_nat i"] Suc.prems(3) by simp
  have upt: "[i..<length (vec_elems text_v)] = i # [Suc i..<length (vec_elems text_v)]"
    using Suc.prems(3) by (intro upt_conv_Cons) simp
  show ?case
  proof (cases "is_code (vec_elems text_v ! i)")
    case False
    then have "code_ptrs (Suc n) i text_v code_v = code_ptrs n (Suc i) text_v code_v"
      using g by (simp add: is_code_def)
    with Suc.IH [OF Suc.prems(1,2), of "Suc i"] Suc.prems(3-5) False upt show ?thesis
      by (simp del: code_ptrs.simps upt_Suc)
  next
    case True
    from vec_push [OF Suc.prems(2), of "of_nat i"] Suc.prems(5) obtain w where
      w: "push_vector code_v (of_nat i) = Done w" "vec_ok w" "vec_elems w = vec_elems code_v @ [of_nat i]"
      by auto
    then have "code_ptrs (Suc n) i text_v code_v = code_ptrs n (Suc i) text_v w"
      using g True by (simp add: is_code_def)
    with Suc.IH [OF Suc.prems(1) w(2), of "Suc i"] Suc.prems(3-5) True upt w(3) show ?thesis
      by (simp del: code_ptrs.simps upt_Suc)
  qed
qed simp

lemma parser_ok:
  fixes text_v :: "statement_t vector_t" and code_v :: "u32 vector_t"
  assumes inv: "line_inv s" and v: "vec_ok text_v" "vec_elems text_v = []" "vec_ok code_v" "vec_elems code_v = []"
    and s: "p_text_nr s = 0" "p_code_nr s = 0" "p_labels s = []" and b: "scan_left (p_scan s) < 2 ^ 30"
  shows "(\<exists>tv cv s'. parser lib arch text_v code_v s = (Ok (tv, cv), s') \<and> vec_ok tv \<and> vec_ok cv
      \<and> well_laid (vec_elems tv) (vec_elems cv) (p_labels s'))
    \<or> (\<exists>e s'. parser lib arch text_v code_v s = (Exit e, s'))"
proof -
  from vec_push [OF v(1), of zero_statement] v(2) obtain tv where
    tv: "push_vector text_v zero_statement = Done tv" "vec_ok tv" "vec_elems tv = [zero_statement]" by auto
  from vec_push [OF v(3), of 0] v(4) obtain cv where
    cv: "push_vector code_v 0 = Done cv" "vec_ok cv" "vec_elems cv = [0]" by auto
  let ?f = "scan_left (p_scan s) + 3"
  have lo: "left_over s < ?f" "left_over s \<le> Suc (scan_left (p_scan s))" by (simp_all add: left_over_def)
  have "length (vec_elems tv) + left_over s < 2 ^ 31" using lo(2) b tv(3) by simp
  have eq: "parser lib arch text_v code_v s = pbind (parse_lines lib arch ?f tv) (\<lambda>tv'.
      plift (cbind (code_ptrs (unat (v_count tv') - 1) 1 tv' cv) (\<lambda>cv'. Done (tv', cv')))) s"
    unfolding parser_def pbind_def [of "plift _"] pbind_def [of "pget _"] plift_def [of "push_vector _ _"]
      plift_def [of "Done _"] tv(1) cv(1) pget_def prod.case presult.case cres.case ..
  from parse_lines_ok [OF inv lo(1) tv(2) \<open>length (vec_elems tv) + left_over s < 2 ^ 31\<close>, of lib arch]
  show ?thesis
  proof (elim disjE exE conjE)
    fix e s' assume "parse_lines lib arch ?f tv s = (Exit e, s')"
    then show ?thesis unfolding eq pbind_def by simp
  next
    fix tv' s' sts
    assume r: "parse_lines lib arch ?f tv s = (Ok tv', s')" "vec_ok tv'"
      "vec_elems tv' = vec_elems tv @ sts" "length sts \<le> left_over s"
      "laid_out (p_text_nr s) (p_code_nr s) (p_labels s) sts (p_labels s')"
    have T: "vec_elems tv' = zero_statement # sts" using r(3) tv(3) by simp
    have len: "length (vec_elems tv') = unat (v_count tv')" by (rule length_vec_elems [OF r(2)])
    have "Suc (length sts) = unat (v_count tv')" using len T by simp
    then have n: "1 + (unat (v_count tv') - 1) = length (vec_elems tv')" using T by simp
    have b': "length (vec_elems tv') < 2 ^ 31" "length (vec_elems cv) + (unat (v_count tv') - 1) < 2 ^ 31"
      using T r(4) lo(2) b cv(3) n by simp_all
    from code_ptrs_ok [OF r(2) cv(2) n b'] obtain w where
      w: "code_ptrs (unat (v_count tv') - 1) 1 tv' cv = Done w" "vec_ok w"
      "vec_elems w = 0 # map of_nat (filter (\<lambda>j. is_code (vec_elems tv' ! j)) [1..<length (vec_elems tv')])"
      unfolding cv(3) by auto
    have "is_code zero_statement" by (simp add: is_code_def zero_statement_def)
    then have "vec_elems w = map of_nat (code_lines (vec_elems tv'))"
      using w(3) T by (simp add: code_lines_def upt_conv_Cons del: upt_Suc)
    then have "well_laid (vec_elems tv') (vec_elems w) (p_labels s')"
      using well_laid_of [of sts "p_labels s'"] r(5) s T by simp
    moreover have "parser lib arch text_v code_v s = (Ok (tv', w), s')"
      unfolding eq pbind_def r(1) by (simp add: w(1) [simplified] plift_def)
    ultimately show ?thesis using r(2) w(2) by blast
  qed
qed

end
