(* ===== verification/Source_Parse.thy ===== *)
theory Source_Parse
  imports Parser_Layout
begin

text \<open>
  From the file to the statements: the source that \<open>init_source\<close> prepares has no word longer
  than two lines and a line break ahead of the scanner, so the parser runs on it without
  leaving the source map, and returns a \<open>well_laid\<close> program or leaves with an error message.
\<close>

section \<open>Words are short\<close>

definition separator :: "string \<Rightarrow> nat \<Rightarrow> bool" where
  "separator s i \<longleftrightarrow> \<not> isidentifier (char_at s i)"

lemma nul_no_identifier [simp]: "\<not> isidentifier CHR 0x00"
  by (simp add: isidentifier_def ctype_defs)

lemma separator_out: "length s \<le> i \<Longrightarrow> separator s i"
  by (simp add: separator_def)

lemma char_at_poke: "char_at (poke s n c) j = (if j = n then c else char_at s j)"
  by (auto simp: poke_def char_at_def nth_append nth_list_update nth_Cons')

lemma separator_poke: "separator s i \<Longrightarrow> \<not> isidentifier c \<Longrightarrow> separator (poke s n c) i"
  by (simp add: separator_def char_at_poke)

lemma separator_fix_break:
  "separator s i \<Longrightarrow> separator (fix_break ft s lb) i" "separator (fix_break ft s lb) lb"
  by (auto simp: fix_break_def separator_poke) (auto simp: separator_def char_at_poke)

lemma clear_color_outside:
  assumes "i < start \<or> start + len \<le> i"
  shows "char_at (clear_color s start len) i = char_at s i"
proof (cases "memchr s CHR 0x1B start len")
  case (Some cursor)
  let ?s = "s @ replicate (start + len - length s) CHR 0x00"
  let ?k = "clear_loop False (slice ?s cursor (start + len - cursor))"
  let ?r = "?k @ replicate (start + len - cursor - length ?k) CHR 0x00"
  from memchr_Some [OF Some] have c: "start \<le> cursor" "cursor < start + len" by auto
  have lk: "length ?k \<le> start + len - cursor"
    using length_clear_loop [of False "slice ?s cursor (start + len - cursor)"] by simp
  then have lr: "length ?r = start + len - cursor" by simp
  have res: "clear_color s start len = take cursor ?s @ ?r @ drop (start + len) ?s"
    using Some by (simp add: clear_color_def Let_def)
  have lc: "length (take cursor ?s) = cursor" using c by simp
  show ?thesis
  proof (cases "i < start")
    case True
    with c have "i < cursor" by simp
    then have "char_at (clear_color s start len) i = char_at ?s i"
      unfolding res by (rule char_at_prefix [OF _ lc])
    then show ?thesis by simp
  next
    case False
    with assms have "start + len \<le> i" by simp
    then have "char_at (clear_color s start len) i = char_at (drop (start + len) ?s) (i - (start + len))"
      unfolding res char_at_append lc lr using c by auto
    also have "\<dots> = char_at ?s i" using \<open>start + len \<le> i\<close> by (simp add: char_at_drop)
    finally show ?thesis by simp
  qed
qed (simp add: clear_color_def)

lemma clear_loop_shorter: "s \<noteq> [] \<Longrightarrow> hd s = CHR 0x1B \<Longrightarrow> length (clear_loop False s) < length s"
  using length_clear_loop [of True "tl s"] by (cases s) (auto simp: less_Suc_eq_le)

lemma slice_nth_0: "0 < n \<Longrightarrow> i < length s \<Longrightarrow> slice s i n ! 0 = s ! i"
  by (simp add: slice_def)

lemma padded_last: "length k < n \<Longrightarrow> (k @ replicate (n - length k) x) ! (n - 1) = x"
  by (auto simp: nth_append)

text \<open>The last byte of a cleared line stays a separator: it is kept in place, or a NUL byte.\<close>

lemma clear_color_last:
  assumes "separator s (start + len - 1)" and "0 < len"
  shows "separator (clear_color s start len) (start + len - 1)"
proof (cases "memchr s CHR 0x1B start len")
  case None
  then show ?thesis using assms by (simp add: clear_color_def)
next
  case (Some cursor)
  let ?s = "s @ replicate (start + len - length s) CHR 0x00"
  let ?x = "slice ?s cursor (start + len - cursor)"
  let ?k = "clear_loop False ?x"
  let ?r = "?k @ replicate (start + len - cursor - length ?k) CHR 0x00"
  from memchr_Some [OF Some] have c: "start \<le> cursor" "cursor < start + len"
    "char_at s cursor = CHR 0x1B" by auto
  have lx: "length ?x = start + len - cursor" using c by simp
  have "?x ! 0 = ?s ! cursor"
    by (rule slice_nth_0) (use c in simp_all)
  moreover have "?s ! cursor = char_at ?s cursor" using c by (intro char_at_in [symmetric]) simp
  ultimately have "?x ! 0 = CHR 0x1B" using c by simp
  moreover have "0 < length ?x" unfolding lx using c by simp
  then have "?x \<noteq> []" by blast
  ultimately have hd: "?x \<noteq> []" "hd ?x = CHR 0x1B" by (simp_all add: hd_conv_nth)
  from clear_loop_shorter [OF this] have lk: "length ?k < start + len - cursor" using lx by simp
  then have lr: "length ?r = start + len - cursor" by simp
  have res: "clear_color s start len = take cursor ?s @ ?r @ drop (start + len) ?s"
    using Some by (simp add: clear_color_def Let_def)
  have lc: "length (take cursor ?s) = cursor" using c by simp
  let ?n = "start + len - 1"
  have "char_at (clear_color s start len) ?n = char_at (?r @ drop (start + len) ?s) (?n - cursor)"
    unfolding res char_at_append [of "take cursor ?s"] lc using c by auto
  also have "\<dots> = ?r ! (?n - cursor)"
    unfolding char_at_append lr using c by auto
  also have "\<dots> = CHR 0x00"
  proof -
    have "?n - cursor = start + len - cursor - 1" using c by simp
    then show ?thesis using padded_last [OF lk] by simp
  qed
  finally show ?thesis by (simp add: separator_def)
qed

text \<open>Every byte below \<open>m\<close> has a separator at most a line ahead and below \<open>m\<close>.\<close>

definition covered :: "string \<Rightarrow> nat \<Rightarrow> bool" where
  "covered s m \<longleftrightarrow> (\<forall>i < m. \<exists>j. i \<le> j \<and> j < m \<and> j \<le> i + MAX_LINE_LEN \<and> separator s j)"

lemma length_fix_break: "lb < length s \<Longrightarrow> length (fix_break ft s lb) = length s"
  by (auto simp: fix_break_def length_poke max_def)

lemma process_lines_words:
  assumes "process_lines ft lf text_top s ls nr = Done (s', ls', nr')"
    and "length s = text_top" "ls \<le> text_top" "covered s ls"
  shows "length s' = text_top \<and> ls' \<le> text_top \<and> covered s' ls' \<and> text_top < ls' + MAX_LINE_LEN"
  using assms
proof (induction ft lf text_top s ls nr rule: process_lines.induct)
  case (1 ft lf t s ls nr)
  let ?m = "if ls + MAX_LINE_LEN \<le> t then memchr s lf ls MAX_LINE_LEN
            else memchr s lf ls (t - ls)"
  have nodie: "\<not> (ls + MAX_LINE_LEN \<le> t \<and> memchr s lf ls MAX_LINE_LEN = None)"
  proof
    assume "ls + MAX_LINE_LEN \<le> t \<and> memchr s lf ls MAX_LINE_LEN = None"
    then have "process_lines ft lf t s ls nr = Die M_FOUND_SUS_LINE"
      by (subst process_lines.simps) simp
    with "1.prems"(1) show False by simp
  qed
  show ?case
  proof (cases ?m)
    case None
    then have no: "\<not> ls + MAX_LINE_LEN \<le> t" "memchr s lf ls (t - ls) = None"
      using nodie by (auto split: if_splits)
    then have "s' = s" "ls' = ls" using "1.prems"(1) by (auto simp: process_lines.simps [of ft lf t s ls nr])
    then show ?thesis using no "1.prems" by simp
  next
    case (Some lb)
    then have lb: "ls \<le> lb" "lb < t" "lb < ls + MAX_LINE_LEN"
      using "1.prems"(3) by (auto dest!: memchr_Some split: if_splits)
    let ?f = "fix_break ft s lb" and ?c = "clear_color (fix_break ft s lb) ls (lb - ls + 1)"
    have lf: "length ?f = t" using length_fix_break lb "1.prems"(2) by simp
    have lc: "length ?c = t" using lf lb by (simp add: clear_color_length)
    have rec: "process_lines ft lf t ?c (lb + 1) (nr + 1) = Done (s', ls', nr')"
      using "1.prems"(1) nodie Some
      by (simp add: process_lines.simps [of ft lf t s ls nr] split: if_splits)
    have last: "separator ?c lb"
      using clear_color_last [of ?f ls "lb - ls + 1"] separator_fix_break(2) lb by simp
    have low: "separator ?c j" if "j < ls" "separator s j" for j
      using clear_color_outside [of j ls "lb - ls + 1" ?f] that separator_fix_break(1) [of s j ft lb]
      by (simp add: separator_def)
    have cov: "covered ?c (lb + 1)"
      unfolding covered_def
    proof (intro allI impI)
      fix i assume i: "i < lb + 1"
      show "\<exists>j. i \<le> j \<and> j < lb + 1 \<and> j \<le> i + MAX_LINE_LEN \<and> separator ?c j"
      proof (cases "i < ls")
        case True
        with "1.prems"(4) obtain j where "i \<le> j" "j < ls" "j \<le> i + MAX_LINE_LEN" "separator s j"
          by (auto simp: covered_def)
        with low lb show ?thesis by (intro exI [of _ j]) auto
      next
        case False
        with i lb last show ?thesis by (intro exI [of _ lb]) auto
      qed
    qed
    show ?thesis using "1.IH" [OF nodie Some rec lc _ cov] lb by simp
  qed
qed

lemma process_source_words:
  assumes "process_source s (length s) = Done (n, s')"
  shows "short_words s'"
proof -
  from assms obtain ft lf t ls nr where
    p: "process_lines ft lf (length s) s 0 1 = Done (t, ls, nr)"
    and s': "s' = t \<or> s' = clear_color t ls (length s - ls + 1)"
    unfolding process_source_def
    by (auto split: if_splits prod.splits)
  from process_lines_words [OF p] have w: "length t = length s" "ls \<le> length s" "covered t ls"
    "length s < ls + MAX_LINE_LEN" by (auto simp: covered_def)
  have low: "separator s' j" if "j < ls" "separator t j" for j
    using s' clear_color_outside [of j ls "length s - ls + 1" t] that by (auto simp: separator_def)
  have high: "separator s' j" if "length s + 1 \<le> j" for j
    using s' clear_color_outside [of j ls "length s - ls + 1" t] that w
    by (auto simp: separator_def)
  show ?thesis
    unfolding short_words_def
  proof
    fix i
    show "\<exists>k \<le> 2 * MAX_LINE_LEN. \<not> isidentifier (char_at s' (i + k))"
    proof (cases "i < ls")
      case True
      with w(3) obtain j where "i \<le> j" "j < ls" "j \<le> i + MAX_LINE_LEN" "separator t j"
        by (auto simp: covered_def)
      with low show ?thesis by (intro exI [of _ "j - i"]) (auto simp: separator_def)
    next
      case False
      with w(4) have "length s + 1 \<le> i + MAX_LINE_LEN" by simp
      with high show ?thesis by (intro exI [of _ MAX_LINE_LEN]) (simp add: separator_def)
    qed
  qed
qed

section \<open>The parser on a file\<close>

lemma init_source_parts:
  assumes "\<And>c. Some c \<in> set reads \<Longrightarrow> length c \<le> GROW_LEN" and "init_source reads = Done (n, st)"
  shows "short_words (src_text st) \<and> src_current st \<le> MAX_FILE_LEN \<and> src_cursor st = 0
    \<and> n \<le> 4 * BPF_MAXINSNS"
proof -
  let ?st0 = "\<lparr>src_text = [], src_current = 0, src_cursor = 0, map_len = 0\<rparr>"
  from assms(2) obtain st1 where r: "read_chunks reads ?st0 = Done st1"
    and p: "process_source (src_text st1) (src_current st1) = Done (n, src_text st)"
    by (auto simp: init_source_def Let_def increase_map_def split: if_splits prod.splits)
  have "src_current st1 = length (src_text st1)"
    using read_chunks_room [of ?st0 reads] assms(1) r by auto
  with p process_source_words have "short_words (src_text st)" by metis
  moreover have "n \<le> 4 * BPF_MAXINSNS"
    using p by (auto simp: process_source_def split: if_splits prod.splits)
  ultimately show ?thesis using init_source_room [OF assms(1)] assms(2) by blast
qed

lemma init_parser_ok:
  assumes sw: "short_words (src_text src)"
  shows "\<exists>s. init_parser src = (Ok (), s) \<and> line_inv s \<and> p_text_nr s = 0 \<and> p_code_nr s = 0
    \<and> p_labels s = [] \<and> scan_left (p_scan s) \<le> Suc (src_current src)"
proof -
  obtain start src' where nl: "next_line src = (start, src')" by (cases "next_line src")
  define sc where "sc = \<lparr>source = src', scanner = init_scanner start, unknown_count = 0\<rparr>"
  from next_line_ok [OF nl] have cur: "src_current src' = src_current src" by simp
  have ok: "scan_ok sc"
  proof (cases start)
    case (Some i)
    from next_line_ok [OF nl [unfolded Some]] obtain e where
      "i \<le> e" "e < length (src_text src')" "src_text src' ! e = CHR 0x0A" "e \<le> src_current src'"
      "e < src_cursor src' \<or> src_current src' \<le> src_cursor src'" by blast
    then have "line_end e sc" by (simp add: line_end_def sc_def init_scanner_def Some)
    then show ?thesis by (auto simp: scan_ok_def)
  qed (simp add: scan_ok_def sc_def init_scanner_def)
  have sws: "short_words (stext sc)" using next_line_text [OF nl] sw by (simp add: sc_def)
  from scan_token_ok [OF ok, of zero_token] obtain t sc' where
    t: "scan_token zero_token sc = Done (t, sc')" "scanned sc t sc'" by blast
  define s where "s = (start_pstate src)\<lparr>p_previous := zero_token, p_current := zero_token,
    p_next := t, p_scan := sc'\<rparr>"
  have i: "init_parser src = (Ok (), s)"
    using t(1) by (simp add: init_parser_def advance_def start_pstate_def nl s_def sc_def)
  have "tok_ok (stext sc') t" "short_words (stext sc')"
    using t(2) sws by (auto simp: scanned_def tok_ok_def word_ok_def)
  then have "line_inv s"
    using t(2) by (auto simp: line_inv_def s_def scanned_def tok_ok_def zero_token_def split: if_splits)
  moreover have "scan_left sc' \<le> Suc (src_current src)"
    using t(2) cur by (auto simp: scanned_def scan_left_def sc_def split: if_splits)
  ultimately show ?thesis
    using i by (auto simp: s_def start_pstate_def nl init_table_def)
qed

theorem parse_source_total:
  assumes "\<And>c. Some c \<in> set reads \<Longrightarrow> length c \<le> GROW_LEN"
  shows "(\<forall>m. parse_source lib arch reads \<noteq> Crash m)
    \<and> (\<forall>tv cv L. parse_source lib arch reads = Done (tv, cv, L) \<longrightarrow>
         vec_ok tv \<and> vec_ok cv \<and> well_laid (vec_elems tv) (vec_elems cv) L)"
proof (cases "init_source reads")
  case (Done r)
  obtain n src where r: "r = (n, src)" by (cases r)
  from init_source_parts [OF assms, of reads n src] Done r
  have src: "short_words (src_text src)" "src_current src \<le> MAX_FILE_LEN" "n \<le> 4 * BPF_MAXINSNS"
    by auto
  from init_parser_ok [OF src(1)] obtain s where
    s: "init_parser src = (Ok (), s)" "line_inv s" "p_text_nr s = 0" "p_code_nr s = 0"
      "p_labels s = []" "scan_left (p_scan s) \<le> Suc (src_current src)" by blast
  have b: "scan_left (p_scan s) < 2 ^ 30" using s(6) src(2) by (simp add: MAX_FILE_LEN_def)
  let ?lines = "of_nat n + 1 :: u64"
  have l: "unat ?lines = n + 1" "?lines \<noteq> 0"
    using src(3) by (simp_all add: BPF_MAXINSNS_def unat_word_ariths unat_of_nat word_unat_eq_iff)
  have "min ?lines (of_nat (BPF_MAXINSNS + 1)) \<le> ?lines" by simp
  then have l2: "unat (min ?lines (of_nat (BPF_MAXINSNS + 1))) \<le> n + 1"
    unfolding word_le_nat_alt l(1) .
  have n: "unat ?lines < 2 ^ 32" "unat (min ?lines (of_nat (BPF_MAXINSNS + 1))) < 2 ^ 32"
    using l l2 src(3) by (simp_all add: BPF_MAXINSNS_def)
  let ?tv = "init_vector ?lines :: statement_t vector_t"
  let ?cv = "init_vector (min ?lines (of_nat (BPF_MAXINSNS + 1))) :: u32 vector_t"
  have tv: "vec_ok ?tv" "vec_elems ?tv = []" using vec_ok_init [OF n(1)] by auto
  have cv: "vec_ok ?cv" "vec_elems ?cv = []" using vec_ok_init [OF n(2)] by auto
  have eq: "parse_source lib arch reads = (case parser lib arch ?tv ?cv s of
      (Ok (text_v, code_v), s') \<Rightarrow> Done (text_v, code_v, p_labels s')
    | (Longjmp, _) \<Rightarrow> Crash ''longjmp without setjmp''
    | (Exit e, _) \<Rightarrow> Die e
    | (Abort e, _) \<Rightarrow> Crash e)"
    using Done r s(1) by (simp add: parse_source_def Let_def)
  from parser_ok [OF s(2) tv cv s(3-5) b, of lib arch] show ?thesis
    unfolding eq by auto
next
  case (Crash e)
  then show ?thesis using init_source_room [OF assms] by (auto simp: parse_source_def)
qed (simp add: parse_source_def)

end
