(* ===== verification/Scan_Lines.thy ===== *)
theory Scan_Lines
  imports Source_Parse
begin

text \<open>
  Where the lines end: no line of a source is longer than \<open>MAX_LINE_LEN\<close>, as long as the line breaks the
  reader counted are still there, so no token starts further behind the first one of its line.
\<close>

section \<open>Line breaks\<close>

text \<open>A line break, or the end of the text where \<open>next_line\<close> writes one, is at most a line ahead.\<close>

definition near :: "source_t \<Rightarrow> bool" where
  "near src \<longleftrightarrow>
     (\<forall>i < src_current src. \<exists>j \<ge> i. j \<le> i + MAX_LINE_LEN
        \<and> (char_at (src_text src) j = CHR 0x0A \<or> j = src_current src))"

text \<open>How many there are from \<open>i\<close> on.\<close>

definition breaks :: "source_t \<Rightarrow> nat \<Rightarrow> nat" where
  "breaks src i =
     length (filter (\<lambda>j. j = src_current src \<or> char_at (src_text src) j = CHR 0x0A) [i..<Suc (src_current src)])"

lemma breaks_mono: "breaks src j \<le> breaks src i" if "i \<le> j"
proof (rule lift_Suc_antimono_le [where f = "breaks src", OF _ that])
  fix n
  show "breaks src (Suc n) \<le> breaks src n"
    by (cases "n < Suc (src_current src)") (simp_all add: breaks_def upt_conv_Cons del: upt_Suc)
qed

lemma breaks_less:
  assumes "e < i" "e \<le> src_current src" "char_at (src_text src) e = CHR 0x0A" "c \<le> e"
  shows "breaks src i < breaks src c"
proof -
  have "breaks src e = Suc (breaks src (Suc e))"
    using assms(2,3) by (simp add: breaks_def upt_conv_Cons del: upt_Suc)
  moreover have "breaks src i \<le> breaks src (Suc e)" "breaks src e \<le> breaks src c"
    using assms by (simp_all add: breaks_mono)
  ultimately show ?thesis by simp
qed

lemma breaks_pos: "i \<le> src_current src \<Longrightarrow> 0 < breaks src i"
  by (auto simp: breaks_def filter_empty_conv)

lemma next_line_lines:
  assumes n: "near src" and r: "next_line src = (r, src')"
  shows "near src' \<and> breaks src' i = breaks src i
    \<and> (\<forall>i. r = Some i \<longrightarrow> i = src_cursor src \<and> i < src_current src
        \<and> (\<exists>e. i \<le> e \<and> e \<le> i + MAX_LINE_LEN \<and> e < length (src_text src') \<and> src_text src' ! e = CHR 0x0A
              \<and> (\<forall>j. i \<le> j \<longrightarrow> j < e \<longrightarrow> src_text src' ! j \<noteq> CHR 0x0A)
              \<and> e \<le> src_current src' \<and> (e < src_cursor src' \<or> src_current src' \<le> src_cursor src')))"
proof (cases "src_current src \<le> src_cursor src")
  case True
  with assms show ?thesis by (auto simp: next_line_def)
next
  case False
  let ?c = "src_cursor src" and ?n = "src_current src"
  from n False obtain j where j: "?c \<le> j" "j \<le> ?c + MAX_LINE_LEN"
    "char_at (src_text src) j = CHR 0x0A \<or> j = ?n" unfolding near_def by (metis not_le)
  show ?thesis
  proof (cases "memchr (src_text src) CHR 0x0A ?c (?n - ?c)")
    case None
    with False r have r': "r = Some ?c"
      "src' = src\<lparr>src_text := poke (src_text src) ?n CHR 0x0A, src_cursor := ?n\<rparr>"
      by (simp_all add: next_line_def Let_def)
    have same: "char_at (src_text src') k = (if k = ?n then CHR 0x0A else char_at (src_text src) k)" for k
      by (simp add: r'(2) char_at_poke)
    have cur: "src_current src' = ?n" by (simp add: r'(2))
    have no: "char_at (src_text src) k \<noteq> CHR 0x0A" if "?c \<le> k" "k < ?n" for k
      using memchr_None [OF None, of k] that False by simp
    have le: "?n \<le> ?c + MAX_LINE_LEN" using j no by (cases "j < ?n") auto
    have len: "?n < length (src_text src')" by (simp add: r' length_poke)
    have first: "src_text src' ! k \<noteq> CHR 0x0A" if "?c \<le> k" "k < ?n" for k
      using no [OF that] same [of k] that len by (metis char_at_in less_trans nat_neq_iff)
    have "near src'"
      unfolding near_def cur
    proof (intro allI impI)
      fix i assume "i < ?n"
      with n obtain k where "i \<le> k" "k \<le> i + MAX_LINE_LEN" "char_at (src_text src) k = CHR 0x0A \<or> k = ?n"
        by (auto simp: near_def)
      then show "\<exists>j\<ge>i. j \<le> i + MAX_LINE_LEN \<and> (char_at (src_text src') j = CHR 0x0A \<or> j = ?n)"
        by (intro exI [of _ k]) (auto simp: same)
    qed
    moreover have "breaks src' i = breaks src i"
      unfolding breaks_def cur by (intro arg_cong [where f = length] filter_cong) (auto simp: same)
    moreover have "?c \<le> ?n \<and> ?n \<le> ?c + MAX_LINE_LEN \<and> ?n < length (src_text src')
        \<and> src_text src' ! ?n = CHR 0x0A \<and> (\<forall>j. ?c \<le> j \<longrightarrow> j < ?n \<longrightarrow> src_text src' ! j \<noteq> CHR 0x0A)
        \<and> ?n \<le> src_current src' \<and> src_current src' \<le> src_cursor src'"
      using False le len first by (simp add: r' poke_nth_same)
    ultimately show ?thesis
      using False by (auto simp del: not_le simp: not_le [symmetric] r'(1) intro: exI [of _ ?n])
  next
    case (Some lb)
    from memchr_Some [OF Some] False have lb: "?c \<le> lb" "lb < ?n"
      "char_at (src_text src) lb = CHR 0x0A" "\<forall>l. ?c \<le> l \<and> l < lb \<longrightarrow> char_at (src_text src) l \<noteq> CHR 0x0A"
      by auto
    then have len: "lb < length (src_text src)" by (auto simp: char_at_def split: if_splits)
    have cur: "Suc lb \<le> skip_nuls (src_text src) ?n (Suc lb)"
      using skip_nuls_bounds [of "Suc lb" ?n "src_text src"] lb by simp
    have r': "r = Some ?c" "src' = src\<lparr>src_cursor := skip_nuls (src_text src) ?n (Suc lb)\<rparr>"
      using False Some r by (simp_all add: next_line_def Let_def)
    have "lb \<le> j" using j lb by (metis le_less_trans linorder_not_le nat_less_le)
    then have "lb \<le> ?c + MAX_LINE_LEN" using j(2) by simp
    moreover have "src_text src ! k \<noteq> CHR 0x0A" if "?c \<le> k" "k < lb" for k
      using lb(4) that len by (metis char_at_in less_trans)
    ultimately have "?c \<le> lb \<and> lb \<le> ?c + MAX_LINE_LEN \<and> lb < length (src_text src')
        \<and> src_text src' ! lb = CHR 0x0A \<and> (\<forall>j. ?c \<le> j \<longrightarrow> j < lb \<longrightarrow> src_text src' ! j \<noteq> CHR 0x0A)
        \<and> lb \<le> src_current src' \<and> lb < src_cursor src'"
      using lb len cur by (simp add: r')
    moreover have "near src'" "breaks src' i = breaks src i" using n by (simp_all add: r' near_def breaks_def)
    ultimately show ?thesis
      using False by (auto simp del: not_le simp: not_le [symmetric] r'(1) intro: exI [of _ lb])
  qed
qed

section \<open>Tokens\<close>

text \<open>The first line break from the scanner on is at \<open>e\<close>.\<close>

definition line_to :: "nat \<Rightarrow> scan_state \<Rightarrow> bool" where
  "line_to e st \<longleftrightarrow> line_end e st \<and> (\<forall>j. scur st \<le> j \<longrightarrow> j < e \<longrightarrow> stext st ! j \<noteq> CHR 0x0A)"

definition lines_ok :: "scan_state \<Rightarrow> bool" where
  "lines_ok st \<longleftrightarrow>
     near (source st)
     \<and> (token_start (scanner st) \<noteq> None \<longrightarrow> (\<exists>e \<le> scur st + MAX_LINE_LEN. line_to e st))"

definition scan_breaks :: "scan_state \<Rightarrow> nat" where
  "scan_breaks st = (if token_start (scanner st) = None then 0 else breaks (source st) (scur st))"

lemma line_to_unique: "line_to e st \<Longrightarrow> line_to e' st \<Longrightarrow> e = e'"
  unfolding line_to_def line_end_def by (metis linorder_neqE_nat)

lemma line_to_move:
  "line_to e st \<Longrightarrow> source st' = source st \<Longrightarrow> scur st \<le> scur st' \<Longrightarrow> scur st' \<le> e \<Longrightarrow> line_to e st'"
  by (auto simp: line_to_def line_end_def)

text \<open>Where a token starts: in the line, and the scanner stays in the line until the line break.\<close>

definition token_placed :: "nat \<Rightarrow> scan_state \<Rightarrow> token_t \<Rightarrow> scan_state \<Rightarrow> bool" where
  "token_placed e st t' st' \<longleftrightarrow>
     (\<exists>i. tk_start t' = Some i \<and> scur st \<le> i \<and> i \<le> e
        \<and> (tk_type t' \<noteq> EOL \<longrightarrow> token_start (scanner st') \<noteq> None \<and> i \<le> scur st' \<and> line_to e st'))"

lemma placed_in_line:
  assumes "line_to e st" "source st' = source st" "scur st \<le> i" "i \<le> scur st'" "scur st' \<le> e"
    and "token_start (scanner st') \<noteq> None" "tk_start t' = Some i" "tk_type t' \<noteq> EOL"
    and "lines_ok st" "token_start (scanner st) \<noteq> None"
  shows "token_placed e st t' st' \<and> lines_ok st' \<and> scan_breaks st' \<le> scan_breaks st"
proof -
  have l: "line_to e st'" using line_to_move [OF assms(1,2)] assms by simp
  have "e \<le> scur st + MAX_LINE_LEN"
    using assms(1,9,10) line_to_unique by (auto simp: lines_ok_def)
  then have "e \<le> scur st' + MAX_LINE_LEN" using assms(3,4) by simp
  with l assms show ?thesis
    by (auto simp: token_placed_def lines_ok_def scan_breaks_def intro!: breaks_mono)
qed

lemma scan_token_lines:
  assumes ok: "lines_ok st" and r: "scan_token t st = Done (t', st')"
  shows "lines_ok st' \<and> scan_breaks st' + (if tk_type t' = EOL then 1 else 0) \<le> scan_breaks st
    \<and> (token_start (scanner st) = None \<longrightarrow> tk_type t' = TOKEN_EOF \<and> tk_start t' = None)
    \<and> (\<forall>e. token_start (scanner st) \<noteq> None \<longrightarrow> line_to e st \<longrightarrow> token_placed e st t' st')"
proof (cases "token_start (scanner st)")
  case None
  with ok r show ?thesis by (auto simp: scan_token_def INIT_TOKEN_def init_token_def)
next
  case (Some ts)
  with ok obtain e where lt: "line_to e st" and near: "near (source st)" by (auto simp: lines_ok_def)
  then have e: "scur st \<le> e" "e < length (stext st)" "stext st ! e = CHR 0x0A" "e \<le> src_current (source st)"
    "e < src_cursor (source st) \<or> src_current (source st) \<le> src_cursor (source st)"
    by (auto simp: line_to_def line_end_def)
  have uniq: "e' = e" if "line_to e' st" for e' using lt that by (rule line_to_unique [symmetric])
  define cur where "cur = skip_spaces (stext st) (scur st)"
  have cur: "scur st \<le> cur" "cur \<le> e"
    using skip_spaces_stop [of "scur st" e "stext st"] e by (simp_all add: cur_def)
  define st1 where "st1 = st\<lparr>scanner := (scanner st)\<lparr>current_char := cur, token_start := Some cur\<rparr>\<rparr>"
  have st1: "source st1 = source st" "scur st1 = cur" "token_start (scanner st1) = Some cur"
    by (simp_all add: st1_def)
  have le1: "line_end e st1" using e cur st1 by (simp add: line_end_def)
  consider (comment) "Scanner.peek 0 st1 = CHR ''#''" | (eol) "Scanner.peek 0 st1 = CHR 0x0A"
    | (other) "Scanner.peek 0 st1 \<noteq> CHR ''#''" "Scanner.peek 0 st1 \<noteq> CHR 0x0A" by blast
  then show ?thesis
  proof cases
    case comment
    then have "cur \<noteq> e" using e st1 by (auto simp: Scanner.peek_def)
    with cur have ce: "Suc cur \<le> e" by simp
    obtain j where j: "comment_end (stext st) (Suc cur) = Some j" "Suc cur \<le> j" "j \<le> e"
      using comment_end_stop [OF ce e(2,3)] by blast
    have "scan_token t st = Done (init_token (scanner (goto_char j (Scanner.advance 1 st1))) COMMENT t,
        goto_char j (Scanner.advance 1 st1))"
      using Some comment j(1) st1
      by (simp add: scan_token_def Let_def cur_def [symmetric] st1_def [symmetric] match_offset_def
          INIT_TOKEN_def)
    with r have t': "t' = init_token (scanner (goto_char j (Scanner.advance 1 st1))) COMMENT t"
      "st' = goto_char j (Scanner.advance 1 st1)" by (metis cres.inject(1) prod.inject)+
    have "token_placed e st t' st' \<and> lines_ok st' \<and> scan_breaks st' \<le> scan_breaks st"
      by (rule placed_in_line [OF lt, where i = cur])
        (use Some ok cur j st1 in \<open>simp_all add: t' init_token_def\<close>)
    then show ?thesis using Some uniq by (auto simp: t' init_token_def)
  next
    case eol
    obtain nl src where nl: "next_line (source st) = (nl, src)" by (cases "next_line (source st)")
    define st2 where "st2 = (Scanner.advance 1 st1)\<lparr>source := src,
      scanner := \<lparr>token_start = nl, current_char = (case nl of None \<Rightarrow> 0 | Some i \<Rightarrow> i),
                 line_nr = line_nr (scanner (Scanner.advance 1 st1)) + 1\<rparr>\<rparr>"
    have "scan_token t st = Done (init_token (scanner (Scanner.advance 1 st1)) EOL t, st2)"
      using Some eol st1 nl
      by (simp add: scan_token_def Let_def cur_def [symmetric] st1_def [symmetric] match_offset_def
          reset_to_nextline_def st2_def)
    with r have t': "t' = init_token (scanner (Scanner.advance 1 st1)) EOL t" "st' = st2" by (metis cres.inject(1) prod.inject)+
    have tk: "tk_start t' = Some cur" "tk_type t' = EOL" using st1 by (simp_all add: t' init_token_def)
    have ec: "cur = e"
    proof (rule ccontr)
      assume "cur \<noteq> e"
      with cur lt e have "stext st ! cur \<noteq> CHR 0x0A" "cur < length (stext st)" by (auto simp: line_to_def)
      with eol st1 show False by (simp add: Scanner.peek_def)
    qed
    note n = next_line_lines [OF near nl]
    have "lines_ok st2 \<and> scan_breaks st2 + 1 \<le> scan_breaks st"
    proof (cases nl)
      case None
      then show ?thesis
        using n Some breaks_pos [of "scur st" "source st"] e
        by (auto simp: lines_ok_def st2_def scan_breaks_def Suc_le_eq)
    next
      case (Some i)
      with n have i: "i = src_cursor (source st)" "i < src_current (source st)" "near src"
        and ex: "\<exists>e. i \<le> e \<and> e \<le> i + MAX_LINE_LEN \<and> e < length (src_text src) \<and> src_text src ! e = CHR 0x0A
              \<and> (\<forall>j. i \<le> j \<longrightarrow> j < e \<longrightarrow> src_text src ! j \<noteq> CHR 0x0A)
              \<and> e \<le> src_current src \<and> (e < src_cursor src \<or> src_current src \<le> src_cursor src)"
        by blast+
      from ex obtain e' where "e' \<le> i + MAX_LINE_LEN" "line_to e' st2"
        using Some by (auto simp: st2_def line_to_def line_end_def)
      with i Some have l: "lines_ok st2" by (auto simp: lines_ok_def st2_def)
      have "e < i" using e(5) i by auto
      then have "breaks (source st) i < breaks (source st) (scur st)"
        by (rule breaks_less) (use e in simp_all)
      then show ?thesis using l n Some \<open>token_start (scanner st) = Some ts\<close>
        by (auto simp: scan_breaks_def st2_def)
    qed
    then show ?thesis using tk ec cur Some uniq by (auto simp: token_placed_def t'(2))
  next
    case other
    have a: "at_char e st1" using le1 other st1 by (simp add: at_char_def)
    define r' where "r' = (let c = Scanner.peek 0 st1 in
      if islower_l c then scan_lower t st1 else if isupper_l c then scan_upper t st1
      else if ispunct_l c then scan_punct c t st1 else scan_rest t st1)"
    have "in_line e st1 r'"
      using a by (simp add: r'_def Let_def in_line_lower in_line_upper in_line_punct in_line_rest)
    moreover have "scan_token t st = r'"
      using Some other
      by (simp add: scan_token_def Let_def cur_def [symmetric] st1_def [symmetric] match_offset_def
          r'_def)
    ultimately have i: "source st' = source st1" "token_start (scanner st') = Some cur"
      "tk_start t' = Some cur" "tk_type t' \<noteq> EOL"
      "if tk_type t' = TOKEN_EOF then st' = st1 else scur st1 < scur st' \<and> scur st' \<le> e"
      using r st1 by (auto simp: in_line_def)
    have "cur \<le> scur st'" "scur st' \<le> e" using i(5) st1 cur by (auto split: if_splits)
    then have "token_placed e st t' st' \<and> lines_ok st' \<and> scan_breaks st' \<le> scan_breaks st"
      by (intro placed_in_line [OF lt, where i = cur]) (use Some ok cur i st1 in simp_all)
    then show ?thesis using Some uniq i by auto
  qed
qed

end
