(* ===== verification/Parser_Lines.thy ===== *)
theory Parser_Lines
  imports Scan_Lines
begin

text \<open>
  The statements of the parser: their texts are no longer than a line, their errors point into them, and
  there are no more of them than line breaks. \<open>kp lib P n m\<close> says that the parser function \<open>m\<close> stays in its
  statement when it starts with \<open>n\<close> tokens of it consumed (only 0, 1 and 2 matter) in a state with \<open>P\<close>.
\<close>

section \<open>In a statement\<close>

definition MSG_LEN :: nat where "MSG_LEN = 128"

text \<open>What the reports of the resolver need of a statement.\<close>

text \<open>An architecture a line compares with is one of the table.\<close>

definition arch_known :: "scmp_lib \<Rightarrow> line_t \<Rightarrow> bool" where
  "arch_known lib l \<longleftrightarrow>
     (case l of
        JUMP_LINE j \<Rightarrow> cmptype j = CMP_ARCH \<longrightarrow>
          (\<exists>t. obj_data (cmpobj j) = internal_arch_to_scmp_arch lib t \<and> obj_type (cmpobj j) = NUMBER)
          \<and> obj_data (cmpobj j) \<noteq> - 1 \<and> if_condition j
      | _ \<Rightarrow> True)"

definition plain_line :: "scmp_lib \<Rightarrow> line_t \<Rightarrow> bool" where
  "plain_line lib l \<longleftrightarrow> \<not> is_error l \<and> arch_known lib l"

definition report_fits :: "scmp_lib \<Rightarrow> statement_t \<Rightarrow> bool" where
  "report_fits lib st \<longleftrightarrow>
     (case line_text st of None \<Rightarrow> True | Some t \<Rightarrow> length t \<le> MAX_LINE_LEN)
     \<and> (case line st of
          ERROR_LINE e \<Rightarrow> 0 \<le> error_start e \<and> error_start e \<le> int MAX_LINE_LEN \<and> length (error_msg e) \<le> MSG_LEN
        | l \<Rightarrow> arch_known lib l)"

definition lines_inv :: "pstate \<Rightarrow> bool" where
  "lines_inv s \<longleftrightarrow>
     lines_ok (p_scan s)
     \<and> (\<forall>i. tk_start (p_next s) = Some i \<longrightarrow> tk_type (p_next s) \<noteq> EOL \<longrightarrow>
          token_start (scanner (p_scan s)) \<noteq> None \<and> i \<le> scur (p_scan s)
          \<and> (\<exists>e \<le> i + MAX_LINE_LEN. line_to e (p_scan s)))
     \<and> (tk_start (p_next s) = None \<longrightarrow> tk_type (p_next s) = TOKEN_EOF)"

definition breaks_left :: "pstate \<Rightarrow> nat" where
  "breaks_left s = scan_breaks (p_scan s) + (if tk_type (p_next s) = EOL then 1 else 0)"

definition tok_in :: "nat \<Rightarrow> nat \<Rightarrow> token_t \<Rightarrow> bool" where
  "tok_in q e t \<longleftrightarrow> (\<exists>i. tk_start t = Some i \<and> q \<le> i \<and> i \<le> e)"

definition in_stmt :: "scmp_lib \<Rightarrow> nat \<Rightarrow> nat \<Rightarrow> nat \<Rightarrow> pstate \<Rightarrow> bool" where
  "in_stmt lib n q b s \<longleftrightarrow>
     lines_inv s \<and> p_line_start s = Some q \<and> breaks_left s < b \<and> plain_line lib (line (p_local s))
     \<and> (\<exists>e \<le> q + MAX_LINE_LEN.
          tok_in q e (p_next s)
          \<and> (tk_type (p_next s) \<noteq> EOL \<longrightarrow> line_to e (p_scan s))
          \<and> (tok_in q e (p_current s) \<or> n = 0 \<and> tk_type (p_next s) \<noteq> TOKEN_EOF)
          \<and> (2 \<le> n \<longrightarrow> tok_in q e (p_previous s)))"

text \<open>Behind the statement: \<open>b\<close> was what was left before it.\<close>

definition stmts_left :: "pstate \<Rightarrow> nat" where
  "stmts_left s = breaks_left s + (if tk_type (p_next s) = TOKEN_EOF then 0 else 1)"

definition stmt_left :: "scmp_lib \<Rightarrow> nat \<Rightarrow> pstate \<Rightarrow> bool" where
  "stmt_left lib b s \<longleftrightarrow> lines_inv s \<and> report_fits lib (p_local s) \<and> stmts_left s < b"

lemma advance_lines:
  assumes "lines_inv s" "advance s = (Ok (), s')"
  shows "lines_inv s' \<and> p_current s' = p_next s \<and> p_previous s' = p_current s \<and> frame s' = frame s
    \<and> breaks_left s' + (if tk_type (p_next s) = EOL then 1 else 0) \<le> breaks_left s
    \<and> (\<forall>e. token_start (scanner (p_scan s)) \<noteq> None \<longrightarrow> line_to e (p_scan s) \<longrightarrow>
         token_placed e (p_scan s) (p_next s') (p_scan s'))"
proof -
  from assms(2) obtain t sc where t: "scan_token (p_next s) (p_scan s) = Done (t, sc)"
    and s': "s' = s\<lparr>p_previous := p_current s, p_current := p_next s, p_next := t, p_scan := sc\<rparr>"
    by (auto simp: advance_def Let_def split: cres.splits)
  have ok: "lines_ok (p_scan s)" using assms(1) by (simp add: lines_inv_def)
  note sc = scan_token_lines [OF ok t]
  have "lines_inv s'"
  proof (cases "token_start (scanner (p_scan s))")
    case None
    then show ?thesis using sc by (auto simp: lines_inv_def s')
  next
    case (Some ts)
    then obtain e where "line_to e (p_scan s)" "e \<le> scur (p_scan s) + MAX_LINE_LEN"
      using ok by (auto simp: lines_ok_def)
    moreover from this Some sc have "token_placed e (p_scan s) t sc" by simp
    ultimately show ?thesis
      using sc by (auto simp: lines_inv_def s' token_placed_def intro: exI [of _ e])
  qed
  then show ?thesis using sc by (simp add: s' breaks_left_def frame_def)
qed

lemma in_stmt_advance:
  assumes "in_stmt lib n q b s" "advance s = (Ok (), s')" "tk_type (p_next s) \<noteq> EOL"
  shows "in_stmt lib (Suc n) q b s'"
proof -
  from assms(1) obtain e where e: "e \<le> q + MAX_LINE_LEN" "tok_in q e (p_next s)" "line_to e (p_scan s)"
      "tok_in q e (p_current s) \<or> n = 0" "2 \<le> n \<longrightarrow> tok_in q e (p_previous s)"
    and i: "lines_inv s" "p_line_start s = Some q" "breaks_left s < b" "plain_line lib (line (p_local s))"
    using assms(3) by (auto simp: in_stmt_def)
  from e(2) obtain k where k: "tk_start (p_next s) = Some k" "q \<le> k" by (auto simp: tok_in_def)
  with i(1) assms(3) have ts: "token_start (scanner (p_scan s)) \<noteq> None" "k \<le> scur (p_scan s)"
    by (auto simp: lines_inv_def)
  note a = advance_lines [OF i(1) assms(2)]
  then have "token_placed e (p_scan s) (p_next s') (p_scan s')" using ts e(3) by blast
  then have "tok_in q e (p_next s')" "tk_type (p_next s') \<noteq> EOL \<longrightarrow> line_to e (p_scan s')"
    using k ts(2) by (auto simp: token_placed_def tok_in_def)
  then show ?thesis
    unfolding in_stmt_def using a e i by (auto simp: frame_def intro!: exI [of _ e])
qed

section \<open>The functions\<close>

definition kp :: "scmp_lib \<Rightarrow> (pstate \<Rightarrow> bool) \<Rightarrow> nat \<Rightarrow> 'a pm \<Rightarrow> bool" where
  "kp lib P n m \<longleftrightarrow>
     (\<forall>q b s. in_stmt lib n q b s \<longrightarrow> P s \<longrightarrow>
        (case m s of (Ok x, s') \<Rightarrow> in_stmt lib n q b s' | (Longjmp, s') \<Rightarrow> stmt_left lib b s' | _ \<Rightarrow> True))"

lemma kpD:
  assumes "kp lib P n m" "in_stmt lib n q b s" "P s" "m s = (r, s')"
  shows "case r of Ok x \<Rightarrow> in_stmt lib n q b s' | Longjmp \<Rightarrow> stmt_left lib b s' | _ \<Rightarrow> True"
  using assms(1) [unfolded kp_def, rule_format, OF assms(2,3)] assms(4) by (cases r) auto

abbreviation any_state :: "pstate \<Rightarrow> bool" where "any_state \<equiv> \<lambda>_. True"

lemma in_stmt_less: "in_stmt lib n q b s \<Longrightarrow> k \<le> n \<Longrightarrow> in_stmt lib k q b s"
  by (auto simp: in_stmt_def)

lemma kp_imp: "kp lib P n m \<Longrightarrow> (\<And>s. P' s \<Longrightarrow> P s) \<Longrightarrow> kp lib P' n m"
  by (auto simp: kp_def)

lemma kp_return [intro!]: "kp lib P n (preturn x)"
  by (simp add: kp_def preturn_def)

lemma kp_pget [intro!]: "kp lib P n (pget f)"
  by (simp add: kp_def pget_def)

lemma kp_bind: "kp lib P n m \<Longrightarrow> (\<And>x. kp lib any_state n (f x)) \<Longrightarrow> kp lib P n (pbind m f)"
  unfolding kp_def
proof (intro allI impI)
  fix q b s
  assume m: "\<forall>q b s. in_stmt lib n q b s \<longrightarrow> P s \<longrightarrow>
      (case m s of (Ok x, s') \<Rightarrow> in_stmt lib n q b s' | (Longjmp, s') \<Rightarrow> stmt_left lib b s' | _ \<Rightarrow> True)"
    and f: "\<And>x. \<forall>q b s. in_stmt lib n q b s \<longrightarrow> True \<longrightarrow>
      (case f x s of (Ok y, s') \<Rightarrow> in_stmt lib n q b s' | (Longjmp, s') \<Rightarrow> stmt_left lib b s' | _ \<Rightarrow> True)"
    and s: "in_stmt lib n q b s" "P s"
  obtain r s1 where r: "m s = (r, s1)" by (cases "m s")
  show "case pbind m f s of (Ok x, s') \<Rightarrow> in_stmt lib n q b s' | (Longjmp, s') \<Rightarrow> stmt_left lib b s' | _ \<Rightarrow> True"
    using m [rule_format, OF s] r f
    by (cases r) (auto 0 3 simp: pbind_def)
qed

lemma kp_pget_bind: "(\<And>x. kp lib (\<lambda>s. P s \<and> g s = x) n (f x)) \<Longrightarrow> kp lib P n (pbind (pget g) f)"
  by (simp add: kp_def pbind_def pget_def)

lemma kp_return_bind: "kp lib P n (f x) \<Longrightarrow> kp lib P n (pbind (preturn x) f)"
  by (simp add: kp_def pbind_def preturn_def)

lemma kp_lift_bind: "(\<And>x. kp lib P n (f x)) \<Longrightarrow> kp lib P n (pbind (plift r) f)"
  by (cases r) (auto simp: kp_def pbind_def plift_def)

lemma in_stmt_local:
  "plain_line lib (line (p_local s)) \<longrightarrow> plain_line lib (line l) \<Longrightarrow> in_stmt lib n q b s \<Longrightarrow> in_stmt lib n q b (s\<lparr>p_local := l\<rparr>)"
  by (auto simp: in_stmt_def lines_inv_def breaks_left_def)

lemma in_stmt_labels [simp]: "in_stmt lib n q b (s\<lparr>p_labels := l\<rparr>) = in_stmt lib n q b s"
  by (simp add: in_stmt_def lines_inv_def breaks_left_def)

lemma in_stmt_code [simp]: "in_stmt lib n q b (s\<lparr>p_code_nr := l\<rparr>) = in_stmt lib n q b s"
  by (simp add: in_stmt_def lines_inv_def breaks_left_def)

lemma kp_set_local_bind:
  "(\<And>l. plain_line lib (line l) \<longrightarrow> plain_line lib (line (g l))) \<Longrightarrow> kp lib P' n (f ()) \<Longrightarrow>
   (\<And>s l. P s \<Longrightarrow> P' (s\<lparr>p_local := l\<rparr>)) \<Longrightarrow> kp lib P n (pbind (set_local g) f)"
  by (simp add: kp_def pbind_def set_local_def pmodify_def in_stmt_local)

lemma kp_if: "(c \<Longrightarrow> kp lib P n a) \<Longrightarrow> (\<not> c \<Longrightarrow> kp lib P n b) \<Longrightarrow> kp lib P n (if c then a else b)"
  by simp

lemma kp_match_if_bind:
  assumes "\<And>s. p s \<Longrightarrow> tk_type (p_next s) \<noteq> EOL"
    and "kp lib any_state (Suc n) (f True)" "kp lib P n (f False)"
  shows "kp lib P n (pbind (match_if p) f)"
  unfolding kp_def
proof (intro allI impI)
  fix q b s assume s: "in_stmt lib n q b s" "P s"
  show "case pbind (match_if p) f s of (Ok x, s') \<Rightarrow> in_stmt lib n q b s' | (Longjmp, s') \<Rightarrow> stmt_left lib b s' | _ \<Rightarrow> True"
  proof (cases "p s")
    case False
    with s assms(3) show ?thesis by (simp add: kp_def pbind_def match_if_def preturn_def)
  next
    case True
    obtain r s1 where a: "advance s = (r, s1)" by (cases "advance s")
    show ?thesis
    proof (cases r)
      case (Ok u)
      then have "in_stmt lib (Suc n) q b s1" using in_stmt_advance [OF s(1)] a assms(1) [OF True] by simp
      with assms(2) have "case f True s1 of (Ok x, s') \<Rightarrow> in_stmt lib (Suc n) q b s' | (Longjmp, s') \<Rightarrow> stmt_left lib b s' | _ \<Rightarrow> True"
        by (auto simp: kp_def)
      then show ?thesis
        using True a Ok in_stmt_less [where n = "Suc n" and q = q and b = b and k = n]
        by (auto simp: pbind_def match_if_def preturn_def split: prod.splits presult.splits)
    next
      case Longjmp
      then show ?thesis using a by (auto simp: advance_def Let_def split: cres.splits)
    qed (use True a in \<open>auto simp: pbind_def match_if_def\<close>)
  qed
qed

lemma kp_match_bind:
  "tk \<noteq> EOL \<Longrightarrow> kp lib any_state (Suc n) (f True) \<Longrightarrow> kp lib P n (f False) \<Longrightarrow> kp lib P n (pbind (match tk) f)"
  unfolding match_def by (rule kp_match_if_bind) (auto simp: peek_def)

lemma kp_range_bind:
  "\<not> tk_between from to EOL \<Longrightarrow> kp lib any_state (Suc n) (f True) \<Longrightarrow> kp lib P n (f False)
    \<Longrightarrow> kp lib P n (pbind (match_from_to from to) f)"
  unfolding match_from_to_def by (rule kp_match_if_bind) (auto simp: peek_from_to_def)

lemma pbind_return [simp]: "pbind m preturn = m"
  by (rule ext) (auto simp: pbind_def preturn_def split: prod.splits presult.splits)

lemma kp_match: "tk \<noteq> EOL \<Longrightarrow> kp lib P n (match tk)"
  using kp_match_bind [of tk lib n preturn P] by (auto simp: kp_return)

lemma kp_range: "\<not> tk_between from to EOL \<Longrightarrow> kp lib P n (match_from_to from to)"
  using kp_range_bind [of "from" to lib n preturn P] by (auto simp: kp_return)

lemma pbind_assoc: "pbind (pbind m f) g = pbind m (\<lambda>x. pbind (f x) g)"
  by (rule ext) (auto simp: pbind_def split: prod.splits presult.splits)

section \<open>Errors\<close>

lemma sync_lines:
  assumes "lines_inv s" "sync n s = (Ok (), s')"
    and "\<exists>e \<le> q + MAX_LINE_LEN. tok_in q e (p_next s) \<and> (tk_type (p_next s) \<noteq> EOL \<longrightarrow> line_to e (p_scan s))
      \<and> (tok_in q e (p_current s) \<or> tk_type (p_next s) \<noteq> TOKEN_EOF)"
    and "breaks_left s < b"
  shows "lines_inv s' \<and> (\<exists>e \<le> q + MAX_LINE_LEN. tok_in q e (p_current s')) \<and> frame s' = frame s \<and> stmts_left s' < b"
  using assms
proof (induction n arbitrary: s)
  case (Suc n)
  from Suc.prems(3) obtain e where e: "e \<le> q + MAX_LINE_LEN" "tok_in q e (p_next s)"
    "tk_type (p_next s) \<noteq> EOL \<Longrightarrow> line_to e (p_scan s)"
    "tok_in q e (p_current s) \<or> tk_type (p_next s) \<noteq> TOKEN_EOF" by blast
  show ?case
  proof (cases "tk_type (p_next s) = TOKEN_EOF")
    case True
    then have "s' = s"
      using Suc.prems(2) by (simp add: sync.simps match_def match_if_def peek_def pbind_def pget_def preturn_def)
    with True e Suc.prems show ?thesis by (auto simp: stmts_left_def)
  next
    case False
    obtain r s1 where a: "advance s = (r, s1)" by (cases "advance s")
    with Suc.prems(2) False have r: "r = Ok ()"
      by (cases r) (auto simp: sync.simps match_def match_if_def peek_def pbind_def pget_def preturn_def split: if_splits)
    note s1 = advance_lines [OF Suc.prems(1) a [unfolded r]]
    show ?thesis
    proof (cases "tk_type (p_next s) = EOL")
      case True
      with a r Suc.prems(2) have "s' = s1"
        by (simp add: sync.simps match_def match_if_def peek_def pbind_def pget_def preturn_def)
      with s1 True e Suc.prems(4) show ?thesis by (auto simp: stmts_left_def)
    next
      case neol: False
      with a r False Suc.prems(2) have sy: "sync n s1 = (Ok (), s')"
        by (simp add: sync.simps match_def match_if_def peek_def pbind_def pget_def preturn_def)
      from e(2) obtain k where k: "tk_start (p_next s) = Some k" "q \<le> k" by (auto simp: tok_in_def)
      with Suc.prems(1) neol have ts: "token_start (scanner (p_scan s)) \<noteq> None" "k \<le> scur (p_scan s)"
        by (auto simp: lines_inv_def)
      then have "token_placed e (p_scan s) (p_next s1) (p_scan s1)" using s1 e(3) neol by blast
      then have "tok_in q e (p_next s1)" "tk_type (p_next s1) \<noteq> EOL \<longrightarrow> line_to e (p_scan s1)"
        using k ts(2) by (auto simp: token_placed_def tok_in_def)
      with Suc.IH [OF _ sy] s1 e(1,2) Suc.prems(4) show ?thesis by force
    qed
  qed
qed simp

lemma advance_no_longjmp: "fst (advance s) \<noteq> Longjmp"
  by (auto simp: advance_def Let_def split: cres.splits)

lemma sync_no_longjmp: "fst (sync n s) \<noteq> Longjmp"
proof (induction n arbitrary: s)
  case (Suc n)
  have a: "r \<noteq> Longjmp" if "advance s = (r, s')" for r s s' using advance_no_longjmp [of s] that by simp
  show ?case
    using Suc by (auto simp: sync.simps match_def match_if_def pbind_def pget_def preturn_def
        split: prod.splits presult.splits dest!: a)
qed simp

lemma length_text_span:
  assumes "text_span s (Some q) n = Some t" shows "length t \<le> n"
  using assms by (auto simp: text_span_def)

lemma line_len_word: "q \<le> i \<Longrightarrow> i \<le> q + MAX_LINE_LEN \<Longrightarrow> unat (of_int (int i - int q) :: u16) \<le> MAX_LINE_LEN"
proof -
  assume "q \<le> i" "i \<le> q + MAX_LINE_LEN"
  then have "(of_int (int i - int q) :: u16) = of_nat (i - q)" by (simp add: of_nat_diff)
  moreover have "unat (of_nat (i - q) :: u16) = i - q"
    using \<open>i \<le> q + MAX_LINE_LEN\<close> by (simp add: unat_of_nat take_bit_nat_eq_self MAX_LINE_LEN_def)
  ultimately show ?thesis using \<open>i \<le> q + MAX_LINE_LEN\<close> by simp
qed

lemma set_line_len_fits:
  assumes "tok_in q e t" "e \<le> q + MAX_LINE_LEN" "p_line_start s = Some q"
  shows "\<exists>x. set_line_len (tk_start t) s = (Ok (), s\<lparr>p_local := (p_local s)\<lparr>line_text := x\<rparr>\<rparr>)
    \<and> (case x of None \<Rightarrow> True | Some t \<Rightarrow> length t \<le> MAX_LINE_LEN)"
proof -
  from assms obtain i where i: "tk_start t = Some i" "q \<le> i" "i \<le> q + MAX_LINE_LEN" by (auto simp: tok_in_def)
  let ?x = "text_span (ptext s) (Some q) (unat (of_int (int i - int q) :: u16))"
  have "set_line_len (tk_start t) s = (Ok (), s\<lparr>p_local := (p_local s)\<lparr>line_text := ?x\<rparr>\<rparr>)"
    using i assms(3)
    by (simp add: set_line_len_def pbind_def pget_def plift_def ptr_diff_def set_local_def pmodify_def)
  moreover have "case ?x of None \<Rightarrow> True | Some t \<Rightarrow> length t \<le> MAX_LINE_LEN"
    using line_len_word [OF i(2,3)] by (auto split: option.splits dest!: length_text_span)
  ultimately show ?thesis by blast
qed

lemma kp_error_at:
  assumes t: "\<And>s. P s \<Longrightarrow> t = p_next s \<or> 1 \<le> n \<and> t = p_current s \<or> 2 \<le> n \<and> t = p_previous s"
    and msg: "length msg \<le> MSG_LEN"
  shows "kp lib P n (error_at t msg :: 'a pm)"
  unfolding kp_def
proof (intro allI impI)
  fix q b s assume s: "in_stmt lib n q b s" and P: "P s"
  let ?post = "\<lambda>r. case r of (Ok x, s') \<Rightarrow> in_stmt lib n q b s' | (Longjmp, s') \<Rightarrow> stmt_left lib b s' | _ \<Rightarrow> True"
  from s obtain e where e: "e \<le> q + MAX_LINE_LEN" "tok_in q e (p_next s)"
      "tk_type (p_next s) \<noteq> EOL \<longrightarrow> line_to e (p_scan s)"
      "tok_in q e (p_current s) \<or> n = 0 \<and> tk_type (p_next s) \<noteq> TOKEN_EOF" "2 \<le> n \<longrightarrow> tok_in q e (p_previous s)"
    and i: "lines_inv s" "p_line_start s = Some q" "breaks_left s < b"
    by (auto simp: in_stmt_def)
  have "tok_in q e t" using t [OF P] e by auto
  then obtain k where k: "tk_start t = Some k" "q \<le> k" "k \<le> q + MAX_LINE_LEN" using e(1) by (auto simp: tok_in_def)
  obtain r s1 where r: "sync (scan_left (p_scan s) + 2) s = (r, s1)" by (cases "sync (scan_left (p_scan s) + 2) s")
  show "?post ((error_at t msg :: 'a pm) s)"
  proof (cases r)
    case (Ok u)
    have "\<exists>e \<le> q + MAX_LINE_LEN. tok_in q e (p_next s) \<and> (tk_type (p_next s) \<noteq> EOL \<longrightarrow> line_to e (p_scan s))
      \<and> (tok_in q e (p_current s) \<or> tk_type (p_next s) \<noteq> TOKEN_EOF)" using e by blast
    from sync_lines [OF i(1) r [unfolded Ok, simplified] this i(3)] obtain e' where
      s1: "lines_inv s1" "frame s1 = frame s" "stmts_left s1 < b" "e' \<le> q + MAX_LINE_LEN" "tok_in q e' (p_current s1)"
      by auto
    have ls: "p_line_start s1 = Some q" using s1(2) i(2) by (simp add: frame_def)
    from set_line_len_fits [OF s1(5,4) ls] obtain x where
      x: "set_line_len (tk_start (p_current s1)) s1 = (Ok (), s1\<lparr>p_local := (p_local s1)\<lparr>line_text := x\<rparr>\<rparr>)"
        "case x of None \<Rightarrow> True | Some t \<Rightarrow> length t \<le> MAX_LINE_LEN" by auto
    have "(error_at t msg :: 'a pm) s = (Longjmp, s1\<lparr>p_local := (p_local s1)\<lparr>line_text := x,
        line := ERROR_LINE \<lparr>error_start = int k - int q, error_msg = msg\<rparr>\<rparr>\<rparr>)"
      using r Ok x(1) k(1) ls
      by (simp add: error_at_def pbind_def pget_def plift_def ptr_diff_def set_local_def pmodify_def)
    then show ?thesis
      using s1 x(2) k msg
      by (simp add: stmt_left_def lines_inv_def report_fits_def stmts_left_def breaks_left_def)
  next
    case Longjmp
    then show ?thesis using sync_no_longjmp [of "scan_left (p_scan s) + 2" s] r by simp
  qed (use r in \<open>simp_all add: error_at_def pbind_def pget_def\<close>)
qed

lemma kp_error_next: "length msg \<le> MSG_LEN \<Longrightarrow> kp lib P n (error_next msg)"
  unfolding error_next_def by (rule kp_pget_bind, rule kp_error_at) auto

lemma longjmp_bind: "pbind (\<lambda>s. (Longjmp, s)) f = (\<lambda>s. (Longjmp, s))"
  by (rule ext) (simp add: pbind_def)

lemma error_next_bind: "pbind (error_next msg) f = error_next msg"
  by (simp add: error_next_def error_at_def pbind_assoc longjmp_bind)

lemma kp_expect: "kp lib P n m \<Longrightarrow> length msg \<le> MSG_LEN \<Longrightarrow> kp lib P n (expect m msg)"
  unfolding expect_def by (rule kp_bind) (auto intro: kp_if kp_error_next)

lemma kp_expect_match_bind:
  "tk \<noteq> EOL \<Longrightarrow> length msg \<le> MSG_LEN \<Longrightarrow> kp lib any_state (Suc n) (f ()) \<Longrightarrow> kp lib P n (pbind (expect (match tk) msg) f)"
  unfolding expect_def pbind_assoc
  by (rule kp_match_bind) (auto simp: error_next_bind intro: kp_return_bind kp_error_next)

lemma kp_expect_range_bind:
  "\<not> tk_between from to EOL \<Longrightarrow> length msg \<le> MSG_LEN \<Longrightarrow> kp lib any_state (Suc n) (f ()) \<Longrightarrow>
   kp lib P n (pbind (expect (match_from_to from to) msg) f)"
  unfolding expect_def pbind_assoc
  by (rule kp_range_bind) (auto simp: error_next_bind intro: kp_return_bind kp_error_next)

lemma kp_advance_bind:
  assumes "\<And>s. P s \<Longrightarrow> tk_type (p_next s) \<noteq> EOL" and "kp lib any_state (Suc n) (f ())"
  shows "kp lib P n (pbind advance f)"
proof -
  have "kp lib P n (pbind (match_if P) (\<lambda>m. if m then f () else (\<lambda>s. (Exit [], s))))"
    by (rule kp_match_if_bind) (use assms in \<open>auto simp: kp_def\<close>)
  then show ?thesis
    by (auto simp: kp_def pbind_def match_if_def preturn_def split: prod.splits presult.splits)
qed

section \<open>The parts of a line\<close>

lemma messages_short:
  "length M_NUMBER_OVERFLOW \<le> MSG_LEN" "length M_EXPECT_NUMBER \<le> MSG_LEN" "length M_EXPECT_PAREN \<le> MSG_LEN"
  "length M_EXPECT_BRACKET \<le> MSG_LEN" "length M_EXPECT_RETURN_VAL \<le> MSG_LEN" "length M_EXPECT_LABEL \<le> MSG_LEN"
  "length M_EXPECT_SYSCALL \<le> MSG_LEN" "length M_EXPECT_ARCH \<le> MSG_LEN" "length M_UNEXPECT_TOKEN \<le> MSG_LEN"
  "length M_EXPECT_A \<le> MSG_LEN" "length M_EXPECT_COMPARTOR \<le> MSG_LEN" "length M_EXPECT_GOTO \<le> MSG_LEN"
  "length M_EXPECT_ELSE \<le> MSG_LEN" "length M_EXPECT_RIGHT_VAR \<le> MSG_LEN" "length M_EXPECT_OPERATOR \<le> MSG_LEN"
  "length M_DUPLICATED_LABEL \<le> MSG_LEN"
  by (simp_all add: MSG_LEN_def M_NUMBER_OVERFLOW_def M_EXPECT_NUMBER_def M_EXPECT_PAREN_def M_EXPECT_BRACKET_def
      M_EXPECT_RETURN_VAL_def M_EXPECT_LABEL_def M_EXPECT_SYSCALL_def M_EXPECT_ARCH_def M_UNEXPECT_TOKEN_def
      M_EXPECT_A_def M_EXPECT_COMPARTOR_def M_EXPECT_GOTO_def M_EXPECT_ELSE_def M_EXPECT_RIGHT_VAR_def
      M_EXPECT_OPERATOR_def M_DUPLICATED_LABEL_def)

lemma kp_match_number_bind:
  "kp lib any_state (Suc n) (f True) \<Longrightarrow> kp lib any_state n (f False) \<Longrightarrow> kp lib P n (pbind match_number f)"
  unfolding match_number_def pbind_assoc
  by (rule kp_match_bind)
    (auto simp: error_next_bind pbind_assoc messages_short intro!: kp_return_bind kp_pget_bind kp_error_next elim: kp_imp)

lemma kp_match_number: "kp lib P n match_number"
  using kp_match_number_bind [of lib n preturn P] by (auto simp: kp_return)

lemma kp_with_literal [intro!]: "kp lib P n (with_literal start ty d)"
  by (simp add: with_literal_def kp_pget)

lemma kp_current_type [intro!]: "kp lib P n current_type"
  by (simp add: current_type_def kp_pget)

lemma kp_next_start [intro!]: "kp lib P n next_start"
  by (simp add: next_start_def kp_pget)

lemma kp_resolve_name_arch [intro!]: "kp lib P n (resolve_name_arch lib a t)"
  by (simp add: resolve_name_arch_def kp_pget)

lemmas kp_intros = kp_bind kp_match kp_range kp_match_number kp_expect kp_error_next kp_if kp_return kp_pget
  kp_with_literal kp_current_type kp_next_start kp_resolve_name_arch messages_short

lemma kp_paren_num: "kp lib P n paren_num"
  unfolding paren_num_def by (intro kp_intros) simp_all

lemma kp_bracket_num: "kp lib P n bracket_num"
  unfolding bracket_num_def by (intro kp_intros) simp_all

lemma kp_return_line: "kp lib P n return_line"
  unfolding return_line_def by (intro kp_intros kp_paren_num) (simp_all add: tok_simps)

lemma kp_label: "kp lib P n label"
  unfolding label_def by (intro kp_intros) simp_all

lemma kp_compare_arch_syscall: "2 \<le> n \<Longrightarrow> kp lib P n (compare_arch_syscall lib start len)"
  unfolding compare_arch_syscall_def Let_def resolve_name_arch_def
  by (intro kp_pget_bind kp_if kp_error_next kp_error_at kp_advance_bind kp_pget messages_short)
    (auto simp: peek_def)

lemma kp_compare_obj: "kp lib P n (compare_obj lib arch)"
  unfolding compare_obj_def Let_def resolve_name_arch_def
  by (intro kp_pget_bind kp_match_bind kp_match_number_bind kp_expect_range_bind kp_if kp_error_at kp_pget
      kp_compare_arch_syscall messages_short)
    (auto simp: tok_simps)

lemma kp_condition: "kp lib P n (condition lib arch)"
  unfolding condition_def case_prod_beta' by (intro kp_intros kp_compare_obj) (simp_all add: tok_simps)

lemma kp_ja_line: "kp lib P n ja_line"
  unfolding ja_line_def by (intro kp_intros kp_label)

lemma kp_jump_line: "kp lib P n (jump_line lib arch)"
  unfolding jump_line_def by (intro kp_intros kp_label kp_condition) simp_all

lemma kp_left: "kp lib P n left"
  unfolding left_def by (intro kp_intros kp_bracket_num)

lemma kp_match_any: "(\<And>m P. m \<in> set ms \<Longrightarrow> kp lib P n m) \<Longrightarrow> kp lib P n (match_any ms)"
  by (induction ms arbitrary: P) (auto intro!: kp_intros)

lemma kp_right: "kp lib P n right"
  unfolding right_def by (intro kp_intros kp_bracket_num kp_match_any) (auto simp: tok_simps intro: kp_match kp_range)

lemma kp_assign_line: "kp lib P n assign_line"
  unfolding assign_line_def by (intro kp_intros kp_left kp_right) (simp_all add: tok_simps)

section \<open>Statements\<close>

text \<open>No part of a line returns an error line: they are made by \<open>error_at\<close> only.\<close>

definition returns :: "('a \<Rightarrow> bool) \<Rightarrow> 'a pm \<Rightarrow> bool" where
  "returns Q m \<longleftrightarrow> (\<forall>s x s'. m s = (Ok x, s') \<longrightarrow> Q x)"

lemma returns_return: "Q x \<Longrightarrow> returns Q (preturn x)"
  by (simp add: returns_def preturn_def)

lemma returns_bind: "(\<And>x. returns Q (f x)) \<Longrightarrow> returns Q (pbind m f)"
  by (auto simp: returns_def pbind_def split: prod.splits presult.splits)

lemma returns_bind_value: "returns R m \<Longrightarrow> (\<And>x. R x \<Longrightarrow> returns Q (f x)) \<Longrightarrow> returns Q (pbind m f)"
  unfolding returns_def pbind_def by (auto split: prod.splits presult.splits) metis

lemma returns_pget: "(\<And>s. Q (f s)) \<Longrightarrow> returns Q (pget f)"
  by (auto simp: returns_def pget_def)

lemma returns_error_at: "returns Q (error_at t msg)"
  by (auto simp: returns_def error_at_def pbind_def split: prod.splits presult.splits)

lemma returns_error: "returns Q (error_next msg)"
  by (auto simp: returns_def error_next_def error_at_def pbind_def split: prod.splits presult.splits)

lemma returns_exit: "returns Q (\<lambda>s. (Exit e, s))"
  by (simp add: returns_def)

lemma returns_if: "(c \<Longrightarrow> returns Q a) \<Longrightarrow> (\<not> c \<Longrightarrow> returns Q b) \<Longrightarrow> returns Q (if c then a else b)"
  by simp

definition known_obj :: "scmp_lib \<Rightarrow> obj_t \<times> comparator_t \<Rightarrow> bool" where
  "known_obj lib r \<longleftrightarrow> arch_known lib (JUMP_LINE (zero_jump\<lparr>if_condition := True, cmptype := snd r, cmpobj := fst r\<rparr>))"

lemma compare_obj_returns: "returns (known_obj lib) (compare_obj lib arch)"
  unfolding compare_obj_def compare_arch_syscall_def Let_def
  by (intro returns_bind returns_if returns_pget returns_error returns_error_at)
    (auto simp: known_obj_def arch_known_def)

lemma condition_returns: "returns (\<lambda>j. arch_known lib (JUMP_LINE j)) (condition lib arch)"
proof -
  have "returns (\<lambda>j. arch_known lib (JUMP_LINE j)) (pbind (compare_obj lib arch) (\<lambda>(obj, ty).
     pbind (expect (match RIGHT_PAREN) M_EXPECT_PAREN) (\<lambda>_.
       preturn (zero_jump\<lparr>if_bang := bang, if_condition := True, cmptype := ty, comparator := cmp, cmpobj := obj\<rparr>))))"
    for bang cmp
    by (rule returns_bind_value [OF compare_obj_returns [of lib arch]])
      (auto simp: known_obj_def arch_known_def intro!: returns_bind returns_return)
  note rest = this
  show ?thesis
    unfolding condition_def
    by (rule returns_bind, rule returns_bind, rule returns_bind, rule returns_bind, rule returns_bind, rule rest)
qed

lemma jump_line_returns: "returns (plain_line lib) (jump_line lib arch)"
  unfolding jump_line_def
  by (rule returns_bind_value [OF condition_returns [of lib arch]], intro returns_bind returns_if returns_return)
    (auto simp: plain_line_def is_error_def arch_known_def)

lemma expression_line_returns: "returns (plain_line lib) (expression_line lib arch)"
  unfolding expression_line_def empty_line_def eof_line_def return_line_def ja_line_def assign_line_def
  by (intro returns_bind returns_if returns_return returns_error returns_exit jump_line_returns)
    (simp_all add: plain_line_def is_error_def arch_known_def zero_jump_def)

lemma kp_bind_returns:
  assumes "kp lib P n m" "returns Q m" "\<And>x. Q x \<Longrightarrow> kp lib any_state n (f x)"
  shows "kp lib P n (pbind m f)"
proof -
  have "pbind m f = pbind m (\<lambda>x. if Q x then f x else (\<lambda>s. (Exit [], s)))"
    using assms(2) by (intro ext) (auto simp: returns_def pbind_def split: prod.splits presult.splits)
  then show ?thesis
    using kp_bind [OF assms(1), where f = "\<lambda>x. if Q x then f x else (\<lambda>s. (Exit [], s))"] assms(3)
    by (simp add: kp_def [of lib any_state n "\<lambda>s. (Exit [], s)"])
qed

lemma kp_exit: "kp lib P n (\<lambda>s. (Exit e, s))"
  by (simp add: kp_def)

lemma kp_code_bind: "kp lib any_state n (f ()) \<Longrightarrow> kp lib P n (pbind (pmodify (\<lambda>s. s\<lparr>p_code_nr := g s\<rparr>)) f)"
  by (simp add: kp_def pbind_def pmodify_def)

lemma kp_expression_line: "kp lib P n (expression_line lib arch)"
  unfolding expression_line_def empty_line_def eof_line_def
  by (intro kp_intros kp_code_bind kp_return_line kp_jump_line kp_ja_line kp_assign_line kp_exit)
    (simp_all add: tok_simps)

lemma kp_comment_pos: "kp lib P n comment_pos"
  unfolding comment_pos_def case_prod_beta' by (intro kp_intros kp_lift_bind) simp

lemma end_of_line_lines:
  assumes s: "in_stmt lib n q b s"
  shows "case end_of_line s of (Ok _, s') \<Rightarrow> stmt_left lib b s' | (Longjmp, s') \<Rightarrow> stmt_left lib b s' | _ \<Rightarrow> True"
proof -
  from s obtain e where e: "e \<le> q + MAX_LINE_LEN" "tok_in q e (p_next s)"
    and i: "lines_inv s" "p_line_start s = Some q" "breaks_left s < b" "plain_line lib (line (p_local s))"
    by (auto simp: in_stmt_def)
  have fin: "case set_line_len (tk_start t) s1 of (Ok _, s') \<Rightarrow> stmt_left lib b s' | (Longjmp, s') \<Rightarrow> stmt_left lib b s' | _ \<Rightarrow> True"
    if t: "tok_in q e t" and s1: "lines_inv s1" "frame s1 = frame s" "stmts_left s1 < b" for t s1
  proof -
    have "p_line_start s1 = Some q" "plain_line lib (line (p_local s1))" using s1(2) i by (simp_all add: frame_def)
    with set_line_len_fits [OF t e(1), of s1] s1 show ?thesis
      by (auto simp: stmt_left_def lines_inv_def report_fits_def stmts_left_def breaks_left_def plain_line_def is_error_def
          split: line_t.splits)
  qed
  show ?thesis
  proof (cases "tk_type (p_next s) = EOL")
    case True
    obtain r s1 where a: "advance s = (r, s1)" by (cases "advance s")
    show ?thesis
    proof (cases r)
      case (Ok u)
      with a advance_lines [OF i(1), of s1] True i(3) fin [of "p_current s1" s1] e(2)
      show ?thesis by (simp add: end_of_line_def match_def match_if_def peek_def pbind_def pget_def preturn_def stmts_left_def)
    next
      case Longjmp
      then show ?thesis using advance_no_longjmp [of s] a by simp
    qed (use True a in \<open>simp_all add: end_of_line_def match_def match_if_def peek_def pbind_def pget_def preturn_def\<close>)
  next
    case False
    show ?thesis
    proof (cases "tk_type (p_next s) = TOKEN_EOF")
      case True
      with False fin [of "p_next s" s] e i show ?thesis
        by (simp add: end_of_line_def match_def match_if_def peek_def pbind_def pget_def preturn_def stmts_left_def)
    next
      case neof: False
      have "kp lib any_state n (error_next M_UNEXPECT_TOKEN :: unit pm)" by (rule kp_error_next) (rule messages_short)
      with s have "case (error_next M_UNEXPECT_TOKEN :: unit pm) s of (Ok _, s') \<Rightarrow> in_stmt lib n q b s'
          | (Longjmp, s') \<Rightarrow> stmt_left lib b s' | _ \<Rightarrow> True" by (auto simp: kp_def)
      moreover have "end_of_line s = error_next M_UNEXPECT_TOKEN s"
        using False neof by (simp add: end_of_line_def match_def match_if_def peek_def pbind_def pget_def preturn_def)
      moreover have "returns (\<lambda>_. False) (error_next M_UNEXPECT_TOKEN :: unit pm)" by (rule returns_error)
      ultimately show ?thesis by (auto simp: returns_def split: prod.splits presult.splits)
    qed
  qed
qed

lemma kp_skip_numbers: "kp lib P n (skip_numbers k)"
  by (induction k arbitrary: P) (auto intro!: kp_intros)

lemma kp_labels_bind:
  "kp lib P' n (f ()) \<Longrightarrow> (\<And>s. P s \<Longrightarrow> P' (s\<lparr>p_labels := l\<rparr>)) \<Longrightarrow> kp lib P n (pbind (pmodify (\<lambda>s. s\<lparr>p_labels := l\<rparr>)) f)"
  by (simp add: kp_def pbind_def pmodify_def)

lemma kp_parse_label_decl: "kp lib P n parse_label_decl"
proof -
  have "kp lib (\<lambda>s. p_current s = cur) (Suc n) (pbind (set_local (\<lambda>l. l\<lparr>label_decl := d\<rparr>)) (\<lambda>_.
     pbind (pget (\<lambda>s. insert_key False (the d) (p_code_nr s) (p_labels s))) (\<lambda>(rc, tab).
     pbind (pmodify (\<lambda>s. s\<lparr>p_labels := tab\<rparr>)) (\<lambda>_.
     if rc = 1 then error_at cur M_DUPLICATED_LABEL else skip_numbers 4))))" for cur d
    unfolding case_prod_beta'
    by (intro kp_set_local_bind [where P' = "\<lambda>s. p_current s = cur"] kp_pget_bind
        kp_labels_bind [where P' = "\<lambda>s. p_current s = cur"] kp_if kp_error_at kp_skip_numbers messages_short) auto
  note k = this
  have "kp lib any_state (Suc n) declare_label"
    unfolding declare_label_def
    by (intro kp_pget_bind) (rule kp_imp [OF k], simp)
  then show ?thesis
    unfolding parse_label_decl_def
    by (intro kp_match_bind) (auto intro: kp_return)
qed

lemma kp_expression:
  assumes "in_stmt lib n q b s"
  shows "case expression lib arch s of (Ok _, s') \<Rightarrow> stmt_left lib b s' | (Longjmp, s') \<Rightarrow> stmt_left lib b s' | _ \<Rightarrow> True"
proof -
  let ?m = "pbind (expression_line lib arch) (\<lambda>l. pbind (set_local (\<lambda>st. st\<lparr>line := l\<rparr>)) (\<lambda>_.
    pbind comment_pos (\<lambda>c. set_local (\<lambda>st. st\<lparr>comment := c\<rparr>))))"
  have fin: "kp lib any_state n (set_local g)" if "\<And>l. plain_line lib (line l) \<longrightarrow> plain_line lib (line (g l))" for g
    using kp_set_local_bind [of lib g any_state n preturn any_state] that by (simp add: kp_return)
  have "kp lib any_state n ?m"
    by (intro kp_bind_returns [where Q = "plain_line lib"] kp_expression_line expression_line_returns
        kp_set_local_bind [where P' = any_state] kp_bind kp_comment_pos fin) simp_all
  with assms have m: "case ?m s of (Ok _, s') \<Rightarrow> in_stmt lib n q b s' | (Longjmp, s') \<Rightarrow> stmt_left lib b s' | _ \<Rightarrow> True"
    by (auto simp: kp_def)
  have e: "expression lib arch = pbind ?m (\<lambda>_. end_of_line)"
    by (simp add: expression_def pbind_assoc)
  obtain r s1 where r: "?m s = (r, s1)" by (cases "?m s")
  show ?thesis
    unfolding e using m r end_of_line_lines [of lib n q b s1]
    by (cases r) (simp_all only: pbind_def [of ?m] prod.case presult.case)
qed

lemma parse_line_lines:
  assumes inv: "lines_inv s" and r: "parse_line lib arch s = (Ok st, s')" and st: "line st \<noteq> EOF_LINE"
    and eof: "tk_type (p_next s) = TOKEN_EOF \<Longrightarrow> line st = EOF_LINE"
  shows "lines_inv s' \<and> report_fits lib st \<and> stmts_left s' < stmts_left s"
proof -
  let ?m = "pbind parse_label_decl (\<lambda>_. expression lib arch)"
  define s0 where "s0 = s\<lparr>p_text_nr := p_text_nr s + 1, p_code_nr := p_code_nr s + 1,
    p_local := zero_statement\<lparr>text_nr := p_text_nr s + 1, code_nr := p_code_nr s + 1\<rparr>,
    p_line_start := tk_start (p_next s)\<rparr>"
  have neof: "tk_type (p_next s) \<noteq> TOKEN_EOF" using st eof by blast
  with inv obtain q where q: "tk_start (p_next s) = Some q" by (auto simp: lines_inv_def)
  have "\<exists>e \<le> q + MAX_LINE_LEN. tok_in q e (p_next s) \<and> (tk_type (p_next s) \<noteq> EOL \<longrightarrow> line_to e (p_scan s))"
  proof (cases "tk_type (p_next s) = EOL")
    case True
    then show ?thesis using q by (intro exI [of _ q]) (simp add: tok_in_def)
  next
    case False
    with inv q obtain e where "e \<le> q + MAX_LINE_LEN" "line_to e (p_scan s)" "q \<le> scur (p_scan s)"
      by (auto simp: lines_inv_def)
    then show ?thesis using q by (intro exI [of _ e]) (auto simp: tok_in_def line_to_def line_end_def)
  qed
  then have s0: "in_stmt lib 0 q (stmts_left s) s0"
    using inv q neof
    by (auto simp: in_stmt_def s0_def lines_inv_def breaks_left_def stmts_left_def zero_statement_def is_error_def
        plain_line_def arch_known_def)
  have m: "case ?m s0 of (Ok _, s') \<Rightarrow> stmt_left lib (stmts_left s) s' | (Longjmp, s') \<Rightarrow> stmt_left lib (stmts_left s) s' | _ \<Rightarrow> True"
  proof -
    obtain r s1 where r: "parse_label_decl s0 = (r, s1)" by (cases "parse_label_decl s0")
    have "kp lib any_state 0 parse_label_decl" by (rule kp_parse_label_decl)
    from kpD [OF this s0 _ r]
    have "case r of Ok _ \<Rightarrow> in_stmt lib 0 q (stmts_left s) s1 | Longjmp \<Rightarrow> stmt_left lib (stmts_left s) s1 | _ \<Rightarrow> True"
      by simp
    then show ?thesis using r kp_expression [of lib 0 q "stmts_left s" s1 arch] by (cases r) (simp_all add: pbind_def)
  qed
  have "parse_line lib arch s = (case ?m s0 of
      (Ok _, s') \<Rightarrow> (Ok (p_local s'), s') | (Longjmp, s') \<Rightarrow> (Ok (p_local s'), s')
      | (Exit e, s') \<Rightarrow> (Exit e, s') | (Abort e, s') \<Rightarrow> (Abort e, s'))"
    by (simp add: parse_line_def Let_def s0_def)
  with r m show ?thesis by (auto simp: stmt_left_def split: prod.splits presult.splits)
qed

text \<open>At the end of the file the statement is the end.\<close>

lemma parse_line_eof:
  assumes "tk_type (p_next s) = TOKEN_EOF" "parse_line lib arch s = (Ok st, s')"
  shows "line st = EOF_LINE"
  using assms
  by (cases "tk_start (p_next s)")
    (auto simp: parse_line_def Let_def parse_label_decl_def expression_def expression_line_def eof_line_def
      comment_pos_def end_of_line_def match_def match_if_def peek_def pbind_def pget_def preturn_def
      set_local_def pmodify_def set_line_len_def plift_def ptr_diff_def)

section \<open>All statements\<close>

lemma parse_lines_lines:
  assumes "lines_inv s" "parse_lines lib arch n v s = (Ok v', s')" "vec_ok v" "length (vec_elems v) + stmts_left s < 2 ^ 31"
  shows "\<exists>sts. vec_elems v' = vec_elems v @ sts \<and> vec_ok v' \<and> length sts \<le> stmts_left s \<and> (\<forall>st \<in> set sts. report_fits lib st)"
  using assms
proof (induction n arbitrary: s v)
  case (Suc n)
  obtain r s1 where pl: "parse_line lib arch s = (r, s1)" by (cases "parse_line lib arch s")
  show ?case
  proof (cases r)
    case (Ok st)
    show ?thesis
    proof (cases "line st = EOF_LINE")
      case True
      then show ?thesis using Suc.prems pl Ok by (simp add: pbind_def preturn_def)
    next
      case False
      with parse_line_lines [OF Suc.prems(1) _ False] pl Ok parse_line_eof [of s lib arch st s1] have
        i: "lines_inv s1" "report_fits lib st" "stmts_left s1 < stmts_left s" by auto
      from vec_push [OF Suc.prems(3), of st] Suc.prems(4) obtain w where
        w: "push_vector v st = Done w" "vec_ok w" "vec_elems w = vec_elems v @ [st]" by auto
      have "parse_lines lib arch n w s1 = (Ok v', s')"
        using Suc.prems(2) pl Ok False w(1) by (simp add: pbind_def plift_def)
      from Suc.IH [OF i(1) this w(2)] i(3) Suc.prems(4) w(3) obtain sts where
        "vec_elems v' = vec_elems w @ sts" "vec_ok v'" "length sts \<le> stmts_left s1" "\<forall>st \<in> set sts. report_fits lib st"
        by auto
      then show ?thesis using w(3) i by (intro exI [of _ "st # sts"]) auto
    qed
  qed (use Suc.prems(2) pl in \<open>simp_all add: pbind_def\<close>)
qed simp

lemma start_lines:
  assumes near: "near src" and i: "init_parser src = (Ok (), s)"
  shows "lines_inv s \<and> stmts_left s \<le> Suc (breaks src (src_cursor src))"
proof -
  obtain start src' where nl: "next_line src = (start, src')" by (cases "next_line src")
  define sc where "sc = \<lparr>source = src', scanner = init_scanner start, unknown_count = 0\<rparr>"
  note n = next_line_lines [OF near nl]
  have ok: "lines_ok sc"
  proof (cases start)
    case (Some k)
    with n have "\<exists>e. k \<le> e \<and> e \<le> k + MAX_LINE_LEN \<and> e < length (src_text src') \<and> src_text src' ! e = CHR 0x0A
        \<and> (\<forall>j. k \<le> j \<longrightarrow> j < e \<longrightarrow> src_text src' ! j \<noteq> CHR 0x0A)
        \<and> e \<le> src_current src' \<and> (e < src_cursor src' \<or> src_current src' \<le> src_cursor src')" by blast
    then obtain e where "e \<le> k + MAX_LINE_LEN" "line_to e sc"
      using Some by (auto simp: sc_def init_scanner_def line_to_def line_end_def)
    with Some n show ?thesis by (auto simp: lines_ok_def sc_def init_scanner_def)
  qed (use n in \<open>simp add: lines_ok_def sc_def init_scanner_def\<close>)
  from i obtain t sc' where t: "scan_token zero_token sc = Done (t, sc')"
    and s: "s = (start_pstate src)\<lparr>p_previous := zero_token, p_current := zero_token, p_next := t, p_scan := sc'\<rparr>"
    by (auto simp: init_parser_def advance_def start_pstate_def nl sc_def Let_def split: cres.splits)
  note l = scan_token_lines [OF ok t]
  have b: "scan_breaks sc \<le> breaks src (src_cursor src)"
    using n by (cases start) (auto simp: scan_breaks_def sc_def init_scanner_def)
  have "lines_inv s"
  proof (cases "token_start (scanner sc)")
    case None
    then show ?thesis using l by (auto simp: lines_inv_def s)
  next
    case (Some ts)
    then obtain e where "line_to e sc" "e \<le> scur sc + MAX_LINE_LEN" using ok by (auto simp: lines_ok_def)
    moreover from this Some l have "token_placed e sc t sc'" by simp
    ultimately show ?thesis using l by (auto simp: lines_inv_def s token_placed_def intro: exI [of _ e])
  qed
  then show ?thesis using l b by (auto simp: stmts_left_def breaks_left_def s)
qed

lemma parser_lines:
  assumes "lines_inv s" "parser lib arch text_v code_v s = (Ok (tv, cv), s')"
    and "vec_ok text_v" "vec_elems text_v = []" "stmts_left s < 2 ^ 30"
  shows "length (vec_elems tv) \<le> Suc (stmts_left s) \<and> (\<forall>st \<in> set (vec_elems tv). report_fits lib st)"
proof -
  from vec_push [OF assms(3), of zero_statement] assms(4) obtain w where
    w: "push_vector text_v zero_statement = Done w" "vec_ok w" "vec_elems w = [zero_statement]" by auto
  obtain cw where cw: "push_vector code_v 0 = Done cw"
    using assms(2) w(1) by (cases "push_vector code_v 0") (auto simp: parser_def pbind_def plift_def)
  let ?f = "scan_left (p_scan s) + 3"
  obtain r s1 where r: "parse_lines lib arch ?f w s = (r, s1)" by (cases "parse_lines lib arch ?f w s")
  with assms(2) w(1) cw obtain tv' where r': "r = Ok tv'"
    by (cases r) (auto simp: parser_def pbind_def plift_def pget_def)
  have "tv = tv'"
    using assms(2) w(1) cw r r'
    by (auto simp: parser_def pbind_def plift_def pget_def split: cres.splits)
  moreover from parse_lines_lines [OF assms(1) r [unfolded r'] w(2)] w(3) assms(5) obtain sts where
    "vec_elems tv' = zero_statement # sts" "length sts \<le> stmts_left s" "\<forall>st \<in> set sts. report_fits lib st" by auto
  moreover have "report_fits lib zero_statement" by (simp add: report_fits_def zero_statement_def arch_known_def)
  ultimately show ?thesis by simp
qed

end
