(* ===== verification/Source_Lines.thy ===== *)
theory Source_Lines
  imports Parser_Lines
begin

text \<open>
  A source without escape characters: the line breaks the reader counts stay where they are, so every line is
  shorter than \<open>MAX_LINE_LEN\<close>, and there are no more statements than lines.
\<close>

section \<open>No colours\<close>

definition no_escape :: "string \<Rightarrow> bool" where
  "no_escape s \<longleftrightarrow> CHR 0x1B \<notin> set s"

lemma clear_color_plain: "no_escape s \<Longrightarrow> clear_color s start len = s"
  by (simp add: no_escape_def clear_color_id)

lemma no_escape_poke: "no_escape s \<Longrightarrow> c \<noteq> CHR 0x1B \<Longrightarrow> no_escape (poke s i c)"
  by (auto simp: no_escape_def poke_def dest: set_update_subset_insert [THEN subsetD])

lemma no_escape_fix: "no_escape s \<Longrightarrow> no_escape (fix_break ft s lb)"
  by (simp add: fix_break_def no_escape_poke)

section \<open>The lines of the reader\<close>

definition break_set :: "string \<Rightarrow> nat \<Rightarrow> nat set" where
  "break_set s m = {j. j < m \<and> char_at s j = CHR 0x0A}"

lemma finite_break_set [simp]: "finite (break_set s m)"
  by (simp add: break_set_def)

lemma breaks_card: "breaks src 0 = card {j. j < Suc (src_current src) \<and> (j = src_current src \<or> char_at (src_text src) j = CHR 0x0A)}"
proof -
  have "{j. j < Suc (src_current src) \<and> (j = src_current src \<or> char_at (src_text src) j = CHR 0x0A)}
    = set (filter (\<lambda>j. j = src_current src \<or> char_at (src_text src) j = CHR 0x0A) [0..<Suc (src_current src)])" by auto
  then show ?thesis unfolding breaks_def by (simp only: distinct_card distinct_filter distinct_upt)
qed

text \<open>Up to \<open>m\<close> every byte but the last has a line break at most a line ahead.\<close>

definition broken :: "string \<Rightarrow> nat \<Rightarrow> bool" where
  "broken s m \<longleftrightarrow> (\<forall>i. Suc i < m \<longrightarrow> (\<exists>j. i \<le> j \<and> j < m \<and> j \<le> i + MAX_LINE_LEN \<and> char_at s j = CHR 0x0A))"

text \<open>The line break of a line, written at \<open>lb\<close> or in front of it.\<close>

lemma fix_break_char:
  "char_at (fix_break ft s lb) j =
     (if ft = WINDOWS then (if j = lb then CHR 0x00 else if j = lb - 1 then CHR 0x0A else char_at s j)
      else if j = lb then CHR 0x0A else char_at s j)"
  by (auto simp: fix_break_def char_at_poke)

lemma fixed_line:
  assumes lb: "ls \<le> lb" "lb < ls + MAX_LINE_LEN" and no: "\<And>j. ls \<le> j \<Longrightarrow> j < lb \<Longrightarrow> char_at s j \<noteq> CHR 0x0A"
    and b: "broken s ls"
  shows "broken (fix_break ft s lb) (Suc lb) \<and> card (break_set (fix_break ft s lb) (Suc lb)) \<le> Suc (card (break_set s ls))"
proof -
  let ?f = "fix_break ft s lb" and ?p = "if ft = WINDOWS then lb - 1 else lb"
  have "break_set ?f (Suc lb) \<subseteq> insert ?p (break_set s ls)"
    using no by (fastforce simp: break_set_def fix_break_char not_less split: if_splits)
  then have "card (break_set ?f (Suc lb)) \<le> card (insert ?p (break_set s ls))" by (intro card_mono) simp_all
  also have "\<dots> \<le> Suc (card (break_set s ls))" by (rule card_insert_le_m1) simp_all
  finally have c: "card (break_set ?f (Suc lb)) \<le> Suc (card (break_set s ls))" .
  have "broken ?f (Suc lb)"
    unfolding broken_def
  proof (intro allI impI)
    fix i assume i: "Suc i < Suc lb"
    show "\<exists>j. i \<le> j \<and> j < Suc lb \<and> j \<le> i + MAX_LINE_LEN \<and> char_at ?f j = CHR 0x0A"
    proof (cases "Suc i < ls")
      case True
      with b obtain j where "i \<le> j" "j < ls" "j \<le> i + MAX_LINE_LEN" "char_at s j = CHR 0x0A"
        by (auto simp: broken_def)
      with lb show ?thesis by (intro exI [of _ j]) (auto simp: fix_break_char)
    next
      case False
      with lb i show ?thesis by (intro exI [of _ ?p]) (auto simp: fix_break_char)
    qed
  qed
  with c show ?thesis by simp
qed

lemma process_lines_breaks:
  assumes "process_lines ft lf t s ls nr = Done (s', ls', nr')"
    and "length s = t" "ls \<le> t" "no_escape s" "broken s ls" "Suc (card (break_set s ls)) \<le> nr"
    and "lf = CHR 0x0A \<or> (\<forall>j. ls \<le> j \<longrightarrow> j < t \<longrightarrow> char_at s j \<noteq> CHR 0x0A)"
  shows "length s' = t \<and> ls' \<le> t \<and> t < ls' + MAX_LINE_LEN \<and> no_escape s' \<and> broken s' ls'
    \<and> Suc (card (break_set s' ls')) \<le> nr' \<and> (\<forall>j. ls' \<le> j \<longrightarrow> j < t \<longrightarrow> char_at s' j \<noteq> CHR 0x0A)"
  using assms
proof (induction ft lf t s ls nr rule: process_lines.induct)
  case (1 ft lf t s ls nr)
  let ?m = "if ls + MAX_LINE_LEN \<le> t then memchr s lf ls MAX_LINE_LEN
            else memchr s lf ls (t - ls)"
  have nodie: "\<not> (ls + MAX_LINE_LEN \<le> t \<and> memchr s lf ls MAX_LINE_LEN = None)"
  proof
    assume "ls + MAX_LINE_LEN \<le> t \<and> memchr s lf ls MAX_LINE_LEN = None"
    then have "process_lines ft lf t s ls nr = Die M_FOUND_SUS_LINE"
      by (subst process_lines.simps) simp
    with "1.prems"(1) show False by simp
  qed
  show ?case
  proof (cases ?m)
    case None
    then have no: "\<not> ls + MAX_LINE_LEN \<le> t" "memchr s lf ls (t - ls) = None"
      using nodie by (auto split: if_splits)
    then have r: "s' = s" "ls' = ls" "nr' = nr"
      using "1.prems"(1) by (auto simp: process_lines.simps [of ft lf t s ls nr])
    have "char_at s j \<noteq> CHR 0x0A" if "ls \<le> j" "j < t" for j
      using memchr_None [OF no(2), of j] that "1.prems"(7) by auto
    then show ?thesis using no r "1.prems" by simp
  next
    case (Some lb)
    then have lb: "ls \<le> lb" "lb < t" "lb < ls + MAX_LINE_LEN" "\<And>j. ls \<le> j \<Longrightarrow> j < lb \<Longrightarrow> char_at s j \<noteq> lf"
      using "1.prems"(3) by (auto dest!: memchr_Some split: if_splits)
    let ?f = "fix_break ft s lb"
    have clear: "clear_color ?f ls (lb - ls + 1) = ?f"
      by (rule clear_color_plain) (simp add: no_escape_fix "1.prems"(4))
    have rec: "process_lines ft lf t ?f (lb + 1) (nr + 1) = Done (s', ls', nr')"
      using "1.prems"(1) nodie Some clear
      by (simp add: process_lines.simps [of ft lf t s ls nr] split: if_splits)
    have no: "char_at s j \<noteq> CHR 0x0A" if "ls \<le> j" "j < lb" for j
      using lb that "1.prems"(7) by auto
    note f = fixed_line [OF lb(1,3) no "1.prems"(5), of ft]
    have rest: "lf = CHR 0x0A \<or> (\<forall>j. lb + 1 \<le> j \<longrightarrow> j < t \<longrightarrow> char_at ?f j \<noteq> CHR 0x0A)"
      using "1.prems"(7) lb(1) by (auto simp: fix_break_char)
    have len: "length ?f = t" "lb + 1 \<le> t" using "1.prems"(2) lb by (simp_all add: length_fix_break)
    show ?thesis
      by (rule "1.IH" [OF nodie Some, unfolded clear, OF rec len])
        (use f rest "1.prems"(4,6) in \<open>simp_all add: no_escape_fix\<close>)
  qed
qed

lemma process_source_breaks:
  assumes "process_source s (length s) = Done (n, s')" "no_escape s"
    and src: "src_text src = s'" "src_current src = length s"
  shows "near src \<and> breaks src 0 \<le> 4 * BPF_MAXINSNS"
proof -
  let ?t = "length s"
  from assms(1) obtain ft lf t ls nr where
    d: "detect_file_type s ?t = Done (ft, lf)"
    and p: "process_lines ft lf ?t s 0 1 = Done (t, ls, nr)" "nr < 4 * BPF_MAXINSNS"
    and s': "s' = t \<or> s' = clear_color t ls (?t - ls + 1)"
    unfolding process_source_def by (auto split: if_splits prod.splits)
  have lf: "lf = CHR 0x0A \<or> (\<forall>j. 0 \<le> j \<longrightarrow> j < ?t \<longrightarrow> char_at s j \<noteq> CHR 0x0A)"
    using d memchr_None [of s "CHR 0x0A" 0 ?t] by (auto simp: detect_file_type_def split: option.splits if_splits)
  have "broken s 0" "Suc (card (break_set s 0)) \<le> 1" by (simp_all add: broken_def break_set_def)
  from process_lines_breaks [OF p(1) refl _ assms(2) this lf]
  have t: "length t = ?t" "ls \<le> ?t" "?t < ls + MAX_LINE_LEN" "no_escape t" "broken t ls"
    "Suc (card (break_set t ls)) \<le> nr" "\<And>j. ls \<le> j \<Longrightarrow> j < ?t \<Longrightarrow> char_at t j \<noteq> CHR 0x0A" by auto
  have "s' = t" using s' clear_color_plain [OF t(4)] by auto
  then have tx: "src_text src = t" by (simp add: src)
  have "near src"
    unfolding near_def tx src(2)
  proof (intro allI impI)
    fix i assume i: "i < ?t"
    show "\<exists>j\<ge>i. j \<le> i + MAX_LINE_LEN \<and> (char_at t j = CHR 0x0A \<or> j = ?t)"
    proof (cases "Suc i < ls")
      case True
      with t(5) show ?thesis by (auto simp: broken_def)
    next
      case False
      with t(3) i show ?thesis by (intro exI [of _ ?t]) auto
    qed
  qed
  moreover have "breaks src 0 \<le> nr"
  proof -
    have "{j. j < Suc ?t \<and> (j = ?t \<or> char_at t j = CHR 0x0A)} \<subseteq> insert ?t (break_set t ls)"
      using t(7) by (force simp: break_set_def not_less)
    then have "breaks src 0 \<le> card (insert ?t (break_set t ls))"
      unfolding breaks_card tx src(2) by (intro card_mono) simp_all
    also have "\<dots> \<le> Suc (card (break_set t ls))" by (rule card_insert_le_m1) simp_all
    finally show ?thesis using t(6) by simp
  qed
  ultimately show ?thesis using p(2) by simp
qed

end
