(* ===== verification/Bpf.thy ===== *)
theory Bpf
  imports Prelude
begin

text \<open>
  Classic BPF filters: \<open>struct sock_filter\<close>, the opcode fields of \<open>linux/bpf_common.h\<close> and
  \<open>linux/filter.h\<close>, the return values of \<open>linux/seccomp.h\<close> (libseccomp's \<open>SCMP_ACT_*\<close> have
  the same values), the table of instructions seccomp accepts
  (\<open>include/x-macro/valid_codes.h\<close>, \<open>src/utils/valid_insns.c\<close>) and the byte order helpers
  of \<open>include/utils/reverse_endian.h\<close>. The constants are the kernel's ABI.
\<close>

section \<open>Constants\<close>

abbreviation (input) BPF_LD :: u16 where "BPF_LD \<equiv> 0x00"
abbreviation (input) BPF_LDX :: u16 where "BPF_LDX \<equiv> 0x01"
abbreviation (input) BPF_ST :: u16 where "BPF_ST \<equiv> 0x02"
abbreviation (input) BPF_STX :: u16 where "BPF_STX \<equiv> 0x03"
abbreviation (input) BPF_ALU :: u16 where "BPF_ALU \<equiv> 0x04"
abbreviation (input) BPF_JMP :: u16 where "BPF_JMP \<equiv> 0x05"
abbreviation (input) BPF_RET :: u16 where "BPF_RET \<equiv> 0x06"
abbreviation (input) BPF_MISC :: u16 where "BPF_MISC \<equiv> 0x07"

abbreviation (input) BPF_W :: u16 where "BPF_W \<equiv> 0x00"
abbreviation (input) BPF_IMM :: u16 where "BPF_IMM \<equiv> 0x00"
abbreviation (input) BPF_ABS :: u16 where "BPF_ABS \<equiv> 0x20"
abbreviation (input) BPF_MEM :: u16 where "BPF_MEM \<equiv> 0x60"
abbreviation (input) BPF_LEN :: u16 where "BPF_LEN \<equiv> 0x80"

abbreviation (input) BPF_ADD :: u16 where "BPF_ADD \<equiv> 0x00"
abbreviation (input) BPF_SUB :: u16 where "BPF_SUB \<equiv> 0x10"
abbreviation (input) BPF_MUL :: u16 where "BPF_MUL \<equiv> 0x20"
abbreviation (input) BPF_DIV :: u16 where "BPF_DIV \<equiv> 0x30"
abbreviation (input) BPF_OR :: u16 where "BPF_OR \<equiv> 0x40"
abbreviation (input) BPF_AND :: u16 where "BPF_AND \<equiv> 0x50"
abbreviation (input) BPF_LSH :: u16 where "BPF_LSH \<equiv> 0x60"
abbreviation (input) BPF_RSH :: u16 where "BPF_RSH \<equiv> 0x70"
abbreviation (input) BPF_NEG :: u16 where "BPF_NEG \<equiv> 0x80"
abbreviation (input) BPF_XOR :: u16 where "BPF_XOR \<equiv> 0xa0"

abbreviation (input) BPF_JA :: u16 where "BPF_JA \<equiv> 0x00"
abbreviation (input) BPF_JEQ :: u16 where "BPF_JEQ \<equiv> 0x10"
abbreviation (input) BPF_JGT :: u16 where "BPF_JGT \<equiv> 0x20"
abbreviation (input) BPF_JGE :: u16 where "BPF_JGE \<equiv> 0x30"
abbreviation (input) BPF_JSET :: u16 where "BPF_JSET \<equiv> 0x40"

abbreviation (input) BPF_K :: u16 where "BPF_K \<equiv> 0x00"
abbreviation (input) BPF_X :: u16 where "BPF_X \<equiv> 0x08"
abbreviation (input) BPF_A :: u16 where "BPF_A \<equiv> 0x10"
abbreviation (input) BPF_TAX :: u16 where "BPF_TAX \<equiv> 0x00"
abbreviation (input) BPF_TXA :: u16 where "BPF_TXA \<equiv> 0x80"

definition BPF_CLASS :: "u16 \<Rightarrow> u16" where "BPF_CLASS code = code AND 0x07"
definition BPF_MODE :: "u16 \<Rightarrow> u16" where "BPF_MODE code = code AND 0xe0"
definition BPF_OP :: "u16 \<Rightarrow> u16" where "BPF_OP code = code AND 0xf0"
definition BPF_SRC :: "u16 \<Rightarrow> u16" where "BPF_SRC code = code AND 0x08"
definition BPF_RVAL :: "u16 \<Rightarrow> u16" where "BPF_RVAL code = code AND 0x18"
definition BPF_MISCOP :: "u16 \<Rightarrow> u16" where "BPF_MISCOP code = code AND 0xf8"

lemmas bpf_fields = BPF_CLASS_def BPF_MODE_def BPF_OP_def BPF_SRC_def BPF_RVAL_def BPF_MISCOP_def

definition BPF_MEMWORDS :: nat where "BPF_MEMWORDS = 16"

abbreviation (input) RET_KILL_PROCESS :: u32 where "RET_KILL_PROCESS \<equiv> 0x80000000"
abbreviation (input) RET_KILL :: u32 where "RET_KILL \<equiv> 0x00000000"
abbreviation (input) RET_TRAP :: u32 where "RET_TRAP \<equiv> 0x00030000"
abbreviation (input) RET_ERRNO :: u32 where "RET_ERRNO \<equiv> 0x00050000"
abbreviation (input) RET_USER_NOTIF :: u32 where "RET_USER_NOTIF \<equiv> 0x7fc00000"
abbreviation (input) RET_TRACE :: u32 where "RET_TRACE \<equiv> 0x7ff00000"
abbreviation (input) RET_LOG :: u32 where "RET_LOG \<equiv> 0x7ffc0000"
abbreviation (input) RET_ALLOW :: u32 where "RET_ALLOW \<equiv> 0x7fff0000"
abbreviation (input) RET_ACTION_FULL :: u32 where "RET_ACTION_FULL \<equiv> 0xffff0000"
abbreviation (input) RET_ACTION :: u32 where "RET_ACTION \<equiv> 0x7fff0000"
abbreviation (input) RET_DATA :: u32 where "RET_DATA \<equiv> 0x0000ffff"

text \<open>\<open>sizeof (struct seccomp_data)\<close> and the offsets of its members.\<close>

abbreviation (input) SECCOMP_DATA_LEN :: u32 where "SECCOMP_DATA_LEN \<equiv> 64"

section \<open>Filters\<close>

record sock_filter =
  sf_code :: u16
  sf_jt :: u8
  sf_jf :: u8
  sf_k :: u32

definition zero_filter :: sock_filter where
  "zero_filter = \<lparr>sf_code = 0, sf_jt = 0, sf_jf = 0, sf_k = 0\<rparr>"

section \<open>The valid instructions\<close>

definition valid_codes :: "(u16 \<times> string) list" where
  "valid_codes =
    [(BPF_LD OR BPF_W OR BPF_ABS, ''BPF_LD | BPF_W | BPF_ABS''),
     (BPF_LD OR BPF_W OR BPF_LEN, ''BPF_LD | BPF_W | BPF_LEN''),
     (BPF_LDX OR BPF_W OR BPF_LEN, ''BPF_LDX | BPF_W | BPF_LEN''),
     (BPF_RET OR BPF_K, ''BPF_RET | BPF_K''),
     (BPF_RET OR BPF_A, ''BPF_RET | BPF_A''),
     (BPF_ALU OR BPF_ADD OR BPF_K, ''BPF_ALU | BPF_ADD | BPF_K''),
     (BPF_ALU OR BPF_ADD OR BPF_X, ''BPF_ALU | BPF_ADD | BPF_X''),
     (BPF_ALU OR BPF_SUB OR BPF_K, ''BPF_ALU | BPF_SUB | BPF_K''),
     (BPF_ALU OR BPF_SUB OR BPF_X, ''BPF_ALU | BPF_SUB | BPF_X''),
     (BPF_ALU OR BPF_MUL OR BPF_K, ''BPF_ALU | BPF_MUL | BPF_K''),
     (BPF_ALU OR BPF_MUL OR BPF_X, ''BPF_ALU | BPF_MUL | BPF_X''),
     (BPF_ALU OR BPF_DIV OR BPF_K, ''BPF_ALU | BPF_DIV | BPF_K''),
     (BPF_ALU OR BPF_DIV OR BPF_X, ''BPF_ALU | BPF_DIV | BPF_X''),
     (BPF_ALU OR BPF_AND OR BPF_K, ''BPF_ALU | BPF_AND | BPF_K''),
     (BPF_ALU OR BPF_AND OR BPF_X, ''BPF_ALU | BPF_AND | BPF_X''),
     (BPF_ALU OR BPF_OR OR BPF_K, ''BPF_ALU | BPF_OR | BPF_K''),
     (BPF_ALU OR BPF_OR OR BPF_X, ''BPF_ALU | BPF_OR | BPF_X''),
     (BPF_ALU OR BPF_XOR OR BPF_K, ''BPF_ALU | BPF_XOR | BPF_K''),
     (BPF_ALU OR BPF_XOR OR BPF_X, ''BPF_ALU | BPF_XOR | BPF_X''),
     (BPF_ALU OR BPF_LSH OR BPF_K, ''BPF_ALU | BPF_LSH | BPF_K''),
     (BPF_ALU OR BPF_LSH OR BPF_X, ''BPF_ALU | BPF_LSH | BPF_X''),
     (BPF_ALU OR BPF_RSH OR BPF_K, ''BPF_ALU | BPF_RSH | BPF_K''),
     (BPF_ALU OR BPF_RSH OR BPF_X, ''BPF_ALU | BPF_RSH | BPF_X''),
     (BPF_ALU OR BPF_NEG, ''BPF_ALU | BPF_NEG''),
     (BPF_LD OR BPF_IMM, ''BPF_LD | BPF_IMM''),
     (BPF_LDX OR BPF_IMM, ''BPF_LDX | BPF_IMM''),
     (BPF_MISC OR BPF_TAX, ''BPF_MISC | BPF_TAX''),
     (BPF_MISC OR BPF_TXA, ''BPF_MISC | BPF_TXA''),
     (BPF_LD OR BPF_MEM, ''BPF_LD | BPF_MEM''),
     (BPF_LDX OR BPF_MEM, ''BPF_LDX | BPF_MEM''),
     (BPF_ST, ''BPF_ST''),
     (BPF_STX, ''BPF_STX''),
     (BPF_JMP OR BPF_JA, ''BPF_JMP | BPF_JA''),
     (BPF_JMP OR BPF_JEQ OR BPF_K, ''BPF_JMP | BPF_JEQ | BPF_K''),
     (BPF_JMP OR BPF_JEQ OR BPF_X, ''BPF_JMP | BPF_JEQ | BPF_X''),
     (BPF_JMP OR BPF_JGE OR BPF_K, ''BPF_JMP | BPF_JGE | BPF_K''),
     (BPF_JMP OR BPF_JGE OR BPF_X, ''BPF_JMP | BPF_JGE | BPF_X''),
     (BPF_JMP OR BPF_JGT OR BPF_K, ''BPF_JMP | BPF_JGT | BPF_K''),
     (BPF_JMP OR BPF_JGT OR BPF_X, ''BPF_JMP | BPF_JGT | BPF_X''),
     (BPF_JMP OR BPF_JSET OR BPF_K, ''BPF_JMP | BPF_JSET | BPF_K''),
     (BPF_JMP OR BPF_JSET OR BPF_X, ''BPF_JMP | BPF_JSET | BPF_X'')]"

definition MAX_VALID_INSN :: u16 where "MAX_VALID_INSN = 172"

text \<open>\<open>insn_name_map [code]\<close>: the index in the table (from 1), 0 for no instruction.\<close>

fun index_of :: "u16 \<Rightarrow> (u16 \<times> string) list \<Rightarrow> nat \<Rightarrow> nat" where
  "index_of code [] n = 0"
| "index_of code (e # es) n = (if fst e = code then n else index_of code es (Suc n))"

definition insn_name_map :: "u16 \<Rightarrow> nat cres" where
  "insn_name_map code =
     (if MAX_VALID_INSN < code then Crash ''read outside insn_name_map''
      else Done (index_of code valid_codes 1))"

text \<open>Index 0 has offset 0 in \<open>insn_names\<close>, the first name.\<close>

definition get_insn_name :: "u16 \<Rightarrow> string cres" where
  "get_insn_name code =
     cbind (insn_name_map code) (\<lambda>i. Done (snd (valid_codes ! (if i = 0 then 0 else i - 1))))"

definition valid_insn :: "u16 \<Rightarrow> bool" where
  "valid_insn code \<longleftrightarrow> code \<in> fst ` set valid_codes"

section \<open>Byte order\<close>

text \<open>The bytes of a word, the lowest first.\<close>

definition bytes16 :: "u16 \<Rightarrow> u8 list" where
  "bytes16 w = [ucast w, ucast (drop_bit 8 w)]"

definition bytes32 :: "u32 \<Rightarrow> u8 list" where
  "bytes32 w = [ucast w, ucast (drop_bit 8 w), ucast (drop_bit 16 w), ucast (drop_bit 24 w)]"

definition of_bytes16 :: "u8 \<Rightarrow> u8 \<Rightarrow> u16" where
  "of_bytes16 a b = ucast a OR push_bit 8 (ucast b)"

definition of_bytes32 :: "u8 \<Rightarrow> u8 \<Rightarrow> u8 \<Rightarrow> u8 \<Rightarrow> u32" where
  "of_bytes32 a b c d = ucast a OR push_bit 8 (ucast b) OR push_bit 16 (ucast c) OR push_bit 24 (ucast d)"

definition bswap_16 :: "u16 \<Rightarrow> u16" where
  "bswap_16 w = (case bytes16 w of [a, b] \<Rightarrow> of_bytes16 b a | _ \<Rightarrow> 0)"

definition bswap_32 :: "u32 \<Rightarrow> u32" where
  "bswap_32 w = (case bytes32 w of [a, b, c, d] \<Rightarrow> of_bytes32 d c b a | _ \<Rightarrow> 0)"

definition AUDIT_ARCH_LE :: u32 where "AUDIT_ARCH_LE = 0x40000000"

text \<open>\<open>big\<close>: whether the host is big endian (\<open>__BYTE_ORDER__\<close>).\<close>

definition need_reverse_endian :: "bool \<Rightarrow> u32 \<Rightarrow> bool" where
  "need_reverse_endian big scmp_arch =
     (if big then scmp_arch AND AUDIT_ARCH_LE \<noteq> 0 else scmp_arch AND AUDIT_ARCH_LE = 0)"

definition reverse_endian :: "sock_filter \<Rightarrow> sock_filter" where
  "reverse_endian f = f\<lparr>sf_code := bswap_16 (sf_code f), sf_k := bswap_32 (sf_k f)\<rparr>"

text \<open>The eight bytes of a filter in memory.\<close>

definition filter_bytes :: "bool \<Rightarrow> sock_filter \<Rightarrow> u8 list" where
  "filter_bytes big f =
     (if big then rev (bytes16 (sf_code f)) else bytes16 (sf_code f))
     @ [sf_jt f, sf_jf f]
     @ (if big then rev (bytes32 (sf_k f)) else bytes32 (sf_k f))"

text \<open>Reading a filter from its bytes, as \<open>read\<close> into a \<open>struct sock_filter\<close> does.\<close>

definition filter_of_bytes :: "bool \<Rightarrow> u8 list \<Rightarrow> sock_filter" where
  "filter_of_bytes big bs =
     (case bs of
        [a, b, c, d, e, f, g, h] \<Rightarrow>
          \<lparr>sf_code = (if big then of_bytes16 b a else of_bytes16 a b), sf_jt = c, sf_jf = d,
           sf_k = (if big then of_bytes32 h g f e else of_bytes32 e f g h)\<rparr>
      | _ \<Rightarrow> zero_filter)"

section \<open>Lemmas\<close>

lemma of_bytes16_bytes16: "of_bytes16 (ucast w) (ucast (drop_bit 8 w)) = w"
  by (rule bit_word_eqI) (auto simp: of_bytes16_def bit_simps)

lemma of_bytes32_bytes32:
  "of_bytes32 (ucast w) (ucast (drop_bit 8 w)) (ucast (drop_bit 16 w)) (ucast (drop_bit 24 w)) = w"
proof (rule bit_word_eqI)
  fix n assume "n < LENGTH(32)"
  then consider "n < 8" | "8 \<le> n" "n < 16" | "16 \<le> n" "n < 24" | "24 \<le> n" "n < 32" by fastforce
  then show "bit (of_bytes32 (ucast w) (ucast (drop_bit 8 w)) (ucast (drop_bit 16 w))
      (ucast (drop_bit 24 w))) n = bit w n"
    by cases (auto simp: of_bytes32_def bit_simps)
qed

lemma bytes16_of_bytes16: "bytes16 (of_bytes16 a b) = [a, b]"
proof -
  have "ucast (of_bytes16 a b) = a"
    by (rule bit_word_eqI) (auto simp: of_bytes16_def bit_simps dest: bit_imp_le_length)
  moreover have "ucast (drop_bit 8 (of_bytes16 a b)) = b"
    by (rule bit_word_eqI) (auto simp: of_bytes16_def bit_simps dest: bit_imp_le_length)
  ultimately show ?thesis by (simp add: bytes16_def)
qed

lemma bytes32_of_bytes32: "bytes32 (of_bytes32 a b c d) = [a, b, c, d]"
proof -
  have "ucast (of_bytes32 a b c d) = a" "ucast (drop_bit 8 (of_bytes32 a b c d)) = b"
    "ucast (drop_bit 16 (of_bytes32 a b c d)) = c" "ucast (drop_bit 24 (of_bytes32 a b c d)) = d"
    by (rule bit_word_eqI, auto simp: of_bytes32_def bit_simps dest: bit_imp_le_length)+
  then show ?thesis by (simp add: bytes32_def)
qed

lemma filter_of_filter_bytes: "filter_of_bytes big (filter_bytes big f) = f"
  by (simp add: filter_of_bytes_def filter_bytes_def bytes16_def bytes32_def of_bytes16_bytes16
      of_bytes32_bytes32)

lemma valid_codes_distinct: "distinct (map fst valid_codes)"
  by (simp add: valid_codes_def)

lemma valid_codes_bound: "c \<in> fst ` set valid_codes \<Longrightarrow> c \<le> MAX_VALID_INSN"
  by (simp add: valid_codes_def MAX_VALID_INSN_def) (elim disjE; simp)

lemma index_of_0: "0 < n \<Longrightarrow> (index_of c es n = 0) = (c \<notin> fst ` set es)"
  by (induction es arbitrary: n) auto

lemma index_of_nth:
  "0 < n \<Longrightarrow> c \<in> fst ` set es \<Longrightarrow>
   n \<le> index_of c es n \<and> index_of c es n - n < length es \<and> fst (es ! (index_of c es n - n)) = c"
proof (induction es arbitrary: n)
  case (Cons e es)
  show ?case
  proof (cases "fst e = c")
    case False
    with Cons.prems Cons.IH [of "Suc n"]
    have "Suc n \<le> index_of c es (Suc n)" "index_of c es (Suc n) - Suc n < length es"
      "fst (es ! (index_of c es (Suc n) - Suc n)) = c" by auto
    moreover from this have "index_of c es (Suc n) - n = Suc (index_of c es (Suc n) - Suc n)" by simp
    ultimately show ?thesis using False by simp
  qed simp
qed simp

text \<open>\<open>code > MAX_VALID_INSN || !insn_name_map [code]\<close> singles out the valid codes.\<close>

lemma insn_name_map_valid:
  "MAX_VALID_INSN < code \<or> insn_name_map code = Done 0 \<longleftrightarrow> \<not> valid_insn code"
proof (cases "MAX_VALID_INSN < code")
  case True
  then have "code \<notin> fst ` set valid_codes" using valid_codes_bound [of code] by force
  then show ?thesis using True by (simp add: valid_insn_def)
next
  case False
  then show ?thesis by (simp add: valid_insn_def insn_name_map_def index_of_0)
qed

end
