(* ===== verification/Check_Prog.thy ===== *)
theory Check_Prog
  imports Bpf Numbers Messages
begin

text \<open>
  \<open>src/decoder/check_prog.c\<close>: the checks on a filter program that does not come from the
  kernel, adapted from the kernel's own. The static variables are \<open>cp_state\<close>; the two
  counters are never reset by the code, so they are part of the state passed in. A report is
  appended to \<open>cp_log\<close>.
\<close>

section \<open>State and reports\<close>

record cp_state =
  cp_masks :: "u16 list"
  cp_mem :: u16
  fatal_count :: u32
  error_count :: u32
  cp_log :: "string list"

datatype err_idx = CODE_ERR | JT_ERR | JF_ERR | K_ERR | NONE_ERR

definition err_len :: "err_idx \<Rightarrow> nat" where
  "err_len i =
     (case i of
        CODE_ERR \<Rightarrow> 0
      | JT_ERR \<Rightarrow> length ''CODE:0x1234 ''
      | JF_ERR \<Rightarrow> length ''CODE:0x1234 JT:0x56''
      | K_ERR \<Rightarrow> length ''CODE:0x1234 JF:0x56 JT:0x78 ''
      | NONE_ERR \<Rightarrow> length ''CODE:0x1234 JF:0x56 JF:0x78 K:0x9abcdef0'')"

definition report_text :: "sock_filter \<Rightarrow> u32 \<Rightarrow> err_idx \<Rightarrow> string \<Rightarrow> string" where
  "report_text f filter_idx idx msg =
     ''#'' @ dec_str (unat filter_idx) @ '': '' @ msg @ [CHR 0x0A]
     @ ''CODE:0x'' @ pad0 4 (hex_str (unat (sf_code f))) @ '' JT:0x'' @ pad0 2 (hex_str (unat (sf_jt f)))
     @ '' JF:0x'' @ pad0 2 (hex_str (unat (sf_jf f))) @ '' K:0x'' @ pad0 8 (hex_str (unat (sf_k f)))
     @ [CHR 0x0A]
     @ (if idx = NONE_ERR then replicate (err_len NONE_ERR) CHR ''~''
        else replicate (err_len idx) CHR '' '' @ ''^'')"

definition report_error :: "sock_filter \<Rightarrow> u32 \<Rightarrow> err_idx \<Rightarrow> bool \<Rightarrow> string \<Rightarrow> cp_state \<Rightarrow> cp_state" where
  "report_error f filter_idx idx fatal msg st =
     (let st = (if fatal then st\<lparr>fatal_count := fatal_count st + 1\<rparr>
                else st\<lparr>error_count := error_count st + 1\<rparr>)
      in st\<lparr>cp_log := cp_log st @ [report_text f filter_idx idx msg]\<rparr>)"

section \<open>One filter\<close>

definition cp_mask_and :: "nat \<Rightarrow> cp_state \<Rightarrow> cp_state cres" where
  "cp_mask_and i st =
     (if i < length (cp_masks st)
      then Done (st\<lparr>cp_masks := (cp_masks st)[i := cp_masks st ! i AND cp_mem st]\<rparr>)
      else Crash ''write outside masks'')"

definition is_jump_code :: "u16 \<Rightarrow> bool" where
  "is_jump_code code \<longleftrightarrow> code \<in> {BPF_JMP OR BPF_JEQ OR BPF_K, BPF_JMP OR BPF_JEQ OR BPF_X,
     BPF_JMP OR BPF_JGE OR BPF_K, BPF_JMP OR BPF_JGE OR BPF_X,
     BPF_JMP OR BPF_JGT OR BPF_K, BPF_JMP OR BPF_JGT OR BPF_X,
     BPF_JMP OR BPF_JSET OR BPF_K, BPF_JMP OR BPF_JSET OR BPF_X}"

definition check_ld_abs :: "sock_filter \<Rightarrow> u32 \<Rightarrow> cp_state \<Rightarrow> cp_state cres" where
  "check_ld_abs f pc st =
     (let f = f\<lparr>sf_code := BPF_LDX OR BPF_W OR BPF_ABS\<rparr> in
      if SECCOMP_DATA_LEN \<le> sf_k f then
        Done (report_error f (pc + 1) K_ERR True M_ATTR_OFFSET_OVERFLOW st)
      else if sf_k f AND 3 \<noteq> 0 then
        Done (report_error f (pc + 1) K_ERR True M_INVALID_ATTR_LOAD st)
      else Done st)"

definition check_mem :: "bool \<Rightarrow> sock_filter \<Rightarrow> u32 \<Rightarrow> cp_state \<Rightarrow> cp_state cres" where
  "check_mem store f pc st =
     (if BPF_MEMWORDS \<le> unat (sf_k f) then
        Done (report_error f (pc + 1) K_ERR False M_MEM_IDX_OUT_OF_RANGE st)
      else if store then Done (st\<lparr>cp_mem := set_bit (unat (sf_k f)) (cp_mem st)\<rparr>)
      else if \<not> bit (cp_mem st) (unat (sf_k f)) then
        Done (report_error f (pc + 1) K_ERR False M_UNINITIALIZED_MEM st)
      else Done st)"

definition check_ja :: "sock_filter \<Rightarrow> u32 \<Rightarrow> u32 \<Rightarrow> cp_state \<Rightarrow> cp_state cres" where
  "check_ja f pc flen st =
     (if flen - pc - 1 \<le> sf_k f then
        Done (report_error f (pc + 1) K_ERR False M_JA_OUT_OF_FILTERS st)
      else cbind (cp_mask_and (unat (pc + 1 + sf_k f)) st) (\<lambda>st. Done (st\<lparr>cp_mem := - 1\<rparr>)))"

definition check_jump :: "sock_filter \<Rightarrow> u32 \<Rightarrow> u32 \<Rightarrow> cp_state \<Rightarrow> cp_state cres" where
  "check_jump f pc flen st =
     (if flen \<le> pc + ucast (sf_jt f) + 1 then
        Done (report_error f (pc + 1) JT_ERR False M_JT_INVALID_TAG st)
      else if flen \<le> pc + ucast (sf_jf f) + 1 then
        Done (report_error f (pc + 1) JF_ERR False M_JF_INVALID_TAG st)
      else
        cbind (cp_mask_and (unat (pc + 1 + ucast (sf_jt f))) st) (\<lambda>st.
        cbind (cp_mask_and (unat (pc + 1 + ucast (sf_jf f))) st) (\<lambda>st.
        Done (st\<lparr>cp_mem := - 1\<rparr>))))"

definition check_filter :: "sock_filter \<Rightarrow> u32 \<Rightarrow> u32 \<Rightarrow> cp_state \<Rightarrow> cp_state cres" where
  "check_filter f pc flen st =
     (let code = sf_code f in
      if MAX_VALID_INSN < code \<or> insn_name_map code = Done 0 then
        Done (report_error f (pc + 1) NONE_ERR True M_INVALID_OPERATION st)
      else if code = BPF_LD OR BPF_W OR BPF_ABS then check_ld_abs f pc st
      else if code = BPF_ALU OR BPF_DIV OR BPF_K then
        Done (if sf_k f = 0 then report_error f (pc + 1) K_ERR False M_ALU_DIV_BY_ZERO st else st)
      else if code = BPF_ALU OR BPF_LSH OR BPF_K \<or> code = BPF_ALU OR BPF_RSH OR BPF_K then
        Done (if 32 \<le> sf_k f then report_error f (pc + 1) K_ERR False M_ALU_SH_OUT_OF_RANGE st else st)
      else if code = BPF_LD OR BPF_MEM \<or> code = BPF_LDX OR BPF_MEM then check_mem False f pc st
      else if code = BPF_ST \<or> code = BPF_STX then check_mem True f pc st
      else if code = BPF_JMP OR BPF_JA then check_ja f pc flen st
      else if is_jump_code code then check_jump f pc flen st
      else Done st)"

section \<open>The program\<close>

text \<open>The loop; it stops after more than five fatal errors.\<close>

fun check_loop :: "nat \<Rightarrow> u32 \<Rightarrow> sock_filter list \<Rightarrow> cp_state \<Rightarrow> (bool \<times> cp_state) cres" where
  "check_loop i flen [] st = Done (False, st)"
| "check_loop i flen (f # fs) st =
     cbind (check_filter f (of_nat i) flen st) (\<lambda>st.
     if 5 < fatal_count st then Done (True, st) else check_loop (Suc i) flen fs st)"

text \<open>\<open>complete:\<close>, after the warnings.\<close>

definition check_complete :: "cp_state \<Rightarrow> (bool \<times> cp_state) cres" where
  "check_complete st =
     (if fatal_count st \<noteq> 0 then Die M_DISASM_TERMINATED else Done (error_count st \<noteq> 0, st))"

definition check_prog :: "sock_filter list \<Rightarrow> cp_state \<Rightarrow> (bool \<times> cp_state) cres" where
  "check_prog prog st =
     (let flen = of_nat (length prog);
          st = st\<lparr>cp_masks := replicate (length prog) (- 1), cp_mem := 0\<rparr>
      in cbind (check_loop 0 flen prog st) (\<lambda>(stop, st).
         if stop then check_complete st
         else if prog = [] then Crash ''read of prog->filter[-1]''
         else
           let code = sf_code (last prog) in
           if code \<noteq> BPF_RET OR BPF_A \<and> code \<noteq> BPF_RET OR BPF_K then
             check_complete (report_error (last prog) flen NONE_ERR False M_MUST_END_WITH_RET st)
           else check_complete st))"

definition start_cp :: cp_state where
  "start_cp = \<lparr>cp_masks = [], cp_mem = 0, fatal_count = 0, error_count = 0, cp_log = []\<rparr>"

end
