(* ===== verification/Decoder.thy ===== *)
theory Decoder
  imports Statements Bpf Check_Prog
begin

text \<open>
  \<open>src/decoder/decoder.c\<close>: from filters to statements. An index outside a table, a table
  entry that is not initialised for any valid code, and the assertion on the load mode are
  \<open>Crash\<close>.
\<close>

section \<open>Assignments\<close>

definition abs_table :: "u32 \<Rightarrow> token_type cres" where
  "abs_table i =
     (if i = 0 then Done ATTR_SYSCALL
      else if i = 1 then Done ATTR_ARCH
      else if i = 2 then Done ATTR_LOWPC
      else if i = 3 then Done ATTR_HIGHPC
      else if i < 16 then Done (if i AND 1 = 0 then ATTR_LOWARG else ATTR_HIGHARG)
      else Crash ''read outside abs_table'')"

definition SCMP_DATA_LEN_STR :: string where
  "SCMP_DATA_LEN_STR = ''# 0x40''"

definition ld_ldx_line :: "sock_filter \<Rightarrow> statement_t \<Rightarrow> statement_t cres" where
  "ld_ldx_line f st =
     (let left = zero_obj\<lparr>obj_type := (if BPF_CLASS (sf_code f) = BPF_LD then Tk_A else Tk_X)\<rparr>;
          line_of = (\<lambda>right. st\<lparr>line :=
            ASSIGN_LINE \<lparr>left_var = left, operator = EQUAL, right_var = right\<rparr>\<rparr>);
          mode = BPF_MODE (sf_code f)
      in if mode = BPF_IMM then Done (line_of (zero_obj\<lparr>obj_type := NUMBER, obj_data := sf_k f\<rparr>))
         else if mode = BPF_MEM then Done (line_of (zero_obj\<lparr>obj_type := MEM, obj_data := sf_k f\<rparr>))
         else if mode = BPF_ABS then
           cbind (abs_table (drop_bit 2 (sf_k f))) (\<lambda>ty.
           Done (line_of (if ty = ATTR_LOWARG \<or> ty = ATTR_HIGHARG
                          then zero_obj\<lparr>obj_type := ty, obj_data := (sf_k f - 16) div 8\<rparr>
                          else zero_obj\<lparr>obj_type := ty\<rparr>)))
         else if mode = BPF_LEN then
           Done ((line_of (zero_obj\<lparr>obj_type := ATTR_LEN\<rparr>))
             \<lparr>line_text := Some SCMP_DATA_LEN_STR, comment := 0\<rparr>)
         else Crash ''Unknown BPF_MODE for ld or ldx'')"

definition st_stx_line :: "sock_filter \<Rightarrow> statement_t \<Rightarrow> statement_t" where
  "st_stx_line f st =
     st\<lparr>line := ASSIGN_LINE
       \<lparr>left_var = zero_obj\<lparr>obj_type := MEM, obj_data := sf_k f\<rparr>, operator = EQUAL,
        right_var = zero_obj\<lparr>obj_type := (if BPF_CLASS (sf_code f) = BPF_ST then Tk_A else Tk_X)\<rparr>\<rparr>\<rparr>"

definition operator_table :: "u16 \<Rightarrow> token_type cres" where
  "operator_table op =
     (if op = BPF_ADD then Done ADD_TO else if op = BPF_SUB then Done SUB_TO
      else if op = BPF_MUL then Done MULTI_TO else if op = BPF_DIV then Done DIVIDE_TO
      else if op = BPF_OR then Done OR_TO else if op = BPF_AND then Done AND_TO
      else if op = BPF_LSH then Done LSH_TO else if op = BPF_RSH then Done RSH_TO
      else if op = BPF_NEG then Done NEGATIVE else if op = BPF_XOR then Done XOR_TO
      else Crash ''no entry of operator_table'')"

definition alu_line :: "sock_filter \<Rightarrow> statement_t \<Rightarrow> statement_t cres" where
  "alu_line f st =
     cbind (operator_table (BPF_OP (sf_code f))) (\<lambda>op.
     Done (st\<lparr>line := ASSIGN_LINE
       \<lparr>left_var = zero_obj\<lparr>obj_type := Tk_A\<rparr>, operator = op,
        right_var =
          (if BPF_SRC (sf_code f) = BPF_X then zero_obj\<lparr>obj_type := Tk_X\<rparr>
           else if op = NEGATIVE then zero_obj\<lparr>obj_type := Tk_A\<rparr>
           else zero_obj\<lparr>obj_type := NUMBER, obj_data := sf_k f\<rparr>)\<rparr>\<rparr>))"

section \<open>Jumps\<close>

definition comparator_table :: "u16 \<Rightarrow> token_type cres" where
  "comparator_table op =
     (if op = BPF_JEQ then Done EQUAL_EQUAL
      else if op = BPF_JGT then Done GREATER_THAN
      else if op = BPF_JGE then Done GREATER_EQUAL
      else if op = BPF_JSET then Done Tk_AND
      else Crash ''no entry of comparator_table'')"

definition reverse_table :: "u16 \<Rightarrow> token_type cres" where
  "reverse_table op =
     (if op = BPF_JEQ then Done BANG_EQUAL
      else if op = BPF_JGT then Done LESS_EQUAL
      else if op = BPF_JGE then Done LESS_THAN
      else Crash ''no entry of reverse_table'')"

text \<open>The comparator, the object and \<open>if_bang\<close>.\<close>

definition condition :: "sock_filter \<Rightarrow> bool \<Rightarrow> (token_type \<times> obj_t \<times> bool) cres" where
  "condition f bang =
     (let op = BPF_OP (sf_code f);
          obj = (if BPF_SRC (sf_code f) = BPF_X then zero_obj\<lparr>obj_type := Tk_X\<rparr>
                 else zero_obj\<lparr>obj_type := NUMBER, obj_data := sf_k f\<rparr>)
      in if \<not> bang \<or> op = BPF_JSET
         then cbind (comparator_table op) (\<lambda>c. Done (c, obj, bang))
         else cbind (reverse_table op) (\<lambda>c. Done (c, obj, False)))"

definition jump_line :: "sock_filter \<Rightarrow> statement_t \<Rightarrow> statement_t cres" where
  "jump_line f st =
     (let lab = (\<lambda>n. zero_label\<lparr>label_nr := n\<rparr>) in
      if BPF_OP (sf_code f) = BPF_JA then
        Done (st\<lparr>line := JUMP_LINE (zero_jump\<lparr>if_bang := False, if_condition := False,
          jt := lab (ucast (sf_k f))\<rparr>)\<rparr>)
      else
        let bang = (sf_jt f = 0 \<and> sf_jf f \<noteq> 0);
            (t, e) = (if bang then (ucast (sf_jf f), ucast (sf_jt f))
                      else (ucast (sf_jt f), ucast (sf_jf f)))
        in cbind (condition f bang) (\<lambda>(c, obj, bang).
           Done (st\<lparr>line := JUMP_LINE (zero_jump\<lparr>if_bang := bang, if_condition := True,
             comparator := c, cmpobj := obj, jt := lab t, jf := lab e\<rparr>)\<rparr>)))"

section \<open>Returns\<close>

text \<open>\<open>decode_return_k\<close>: the object it fills and the type it returns.\<close>

definition decode_return_k :: "obj_t \<Rightarrow> u32 \<Rightarrow> obj_t \<times> token_type" where
  "decode_return_k obj k =
     (let act = k AND RET_ACTION_FULL; dat = k AND RET_DATA;
          (obj, tk) =
            (if act = RET_KILL_PROCESS then (obj, KILL_PROC)
             else if act = RET_KILL then (obj, KILL)
             else if act = RET_ALLOW then (obj, ALLOW)
             else if act = RET_LOG then (obj, LOG)
             else if act = RET_USER_NOTIF then (obj, NOTIFY)
             else if act = RET_TRACE then (obj\<lparr>obj_data := dat\<rparr>, TRACE)
             else if act = RET_TRAP then (obj\<lparr>obj_data := dat\<rparr>, TRAP)
             else if act = RET_ERRNO then (obj\<lparr>obj_data := dat\<rparr>, ERRNO)
             else (obj\<lparr>obj_data := k\<rparr>, NUMBER))
      in (obj\<lparr>obj_type := tk\<rparr>, if tk = NUMBER then KILL_PROC else tk))"

definition return_line :: "sock_filter \<Rightarrow> statement_t \<Rightarrow> statement_t" where
  "return_line f st =
     st\<lparr>line := RETURN_LINE (zero_return\<lparr>ret_obj :=
       (if BPF_RVAL (sf_code f) = BPF_A then zero_obj\<lparr>obj_type := Tk_A\<rparr>
        else fst (decode_return_k zero_obj (sf_k f)))\<rparr>)\<rparr>"

definition misc_line :: "sock_filter \<Rightarrow> statement_t \<Rightarrow> statement_t" where
  "misc_line f st =
     (let (l, r) = (if BPF_MISCOP (sf_code f) = BPF_TAX then (Tk_X, Tk_A) else (Tk_A, Tk_X)) in
      st\<lparr>line := ASSIGN_LINE \<lparr>left_var = zero_obj\<lparr>obj_type := l\<rparr>, operator = EQUAL,
        right_var = zero_obj\<lparr>obj_type := r\<rparr>\<rparr>\<rparr>)"

section \<open>Filters\<close>

definition decode_filter :: "sock_filter \<Rightarrow> statement_t \<Rightarrow> statement_t cres" where
  "decode_filter f st =
     (let c = BPF_CLASS (sf_code f) in
      if c = BPF_LD \<or> c = BPF_LDX then ld_ldx_line f st
      else if c = BPF_ST \<or> c = BPF_STX then Done (st_stx_line f st)
      else if c = BPF_ALU then alu_line f st
      else if c = BPF_JMP then jump_line f st
      else if c = BPF_RET then Done (return_line f st)
      else Done (misc_line f st))"

text \<open>The loop of \<open>decode_filters\<close>; \<open>i\<close> is the index of the first filter.\<close>

fun decode_loop :: "nat \<Rightarrow> sock_filter list \<Rightarrow> statement_t list cres" where
  "decode_loop i [] = Done []"
| "decode_loop i (f # fs) =
     cbind (decode_filter f (zero_statement\<lparr>text_nr := of_nat (i + 1), code_nr := of_nat (i + 1)\<rparr>)) (\<lambda>st.
     cbind (decode_loop (Suc i) fs) (\<lambda>sts. Done (st # sts)))"

text \<open>The statements, behind the skipped element 0, and whether there were errors.\<close>

definition decode_filters ::
  "sock_filter list \<Rightarrow> bool \<Rightarrow> cp_state \<Rightarrow> (bool \<times> statement_t list \<times> cp_state) cres" where
  "decode_filters prog trustful cp =
     cbind (if trustful then Done (False, cp) else check_prog prog cp) (\<lambda>(err, cp).
     cbind (decode_loop 0 prog) (\<lambda>sts. Done (err, zero_statement # sts, cp)))"

end
