(* ===== verification/Formatter.thy ===== *)
theory Formatter
  imports Statements Numbers
begin

text \<open>
  \<open>src/decoder/formatter.c\<close>: statements as text, with or without colours. The output file
  is a string. A \<open>printf\<close> of a label whose name is \<open>NULL\<close> is the default label. An object
  type without a printer (a \<open>NULL\<close> function pointer) is \<open>Crash\<close>.
\<close>

section \<open>Colours (\<open>include/utils/color.h\<close>, \<open>src/utils/color.c\<close>)\<close>

definition esc :: "string \<Rightarrow> string" where
  "esc code = CHR 0x1B # ''['' @ code @ ''m''"

definition CLR :: string where "CLR = esc ''0''"
definition REDCLR :: string where "REDCLR = esc ''31''"
definition GREENCLR :: string where "GREENCLR = esc ''32''"
definition YELLOWCLR :: string where "YELLOWCLR = esc ''33''"
definition LIGHTCLR :: string where "LIGHTCLR = esc ''90''"
definition BRIGHT_YELLOWCLR :: string where "BRIGHT_YELLOWCLR = esc ''93''"
definition BRIGHT_BLUECLR :: string where "BRIGHT_BLUECLR = esc ''94''"
definition BRIGHT_CYANCLR :: string where "BRIGHT_CYANCLR = esc ''96''"

lemmas color_defs = esc_def CLR_def REDCLR_def GREENCLR_def YELLOWCLR_def LIGHTCLR_def
  BRIGHT_YELLOWCLR_def BRIGHT_BLUECLR_def BRIGHT_CYANCLR_def

text \<open>\<open>color_enable\<close> and the stack of saved values, of 16 slots.\<close>

record color_t =
  color_enable :: bool
  enable_stack :: "bool list"

definition push_color :: "bool \<Rightarrow> color_t \<Rightarrow> color_t cres" where
  "push_color enable c =
     (if length (enable_stack c) < 0x10
      then Done (c\<lparr>enable_stack := color_enable c # enable_stack c, color_enable := enable\<rparr>)
      else Crash ''write outside enable_stack'')"

definition pop_color :: "color_t \<Rightarrow> color_t cres" where
  "pop_color c =
     (case enable_stack c of
        [] \<Rightarrow> Crash ''read outside enable_stack''
      | e # es \<Rightarrow> Done (c\<lparr>color_enable := e, enable_stack := es\<rparr>))"

section \<open>Objects\<close>

definition lit :: "string_t \<Rightarrow> string" where
  "lit s = (case s of None \<Rightarrow> [] | Some t \<Rightarrow> t)"

definition print_num :: "obj_t \<Rightarrow> string" where
  "print_num tk = (case literal tk of Some t \<Rightarrow> t | None \<Rightarrow> ''0x'' @ hex_str (unat (obj_data tk)))"

definition print_str :: "obj_t \<Rightarrow> string" where
  "print_str tk = token_pairs (obj_type tk)"

definition print_identifier :: "obj_t \<Rightarrow> string" where
  "print_identifier tk = lit (literal tk)"

definition print_dec_bracket :: "obj_t \<Rightarrow> string" where
  "print_dec_bracket tk = token_pairs (obj_type tk) @ ''['' @ dec_str (unat (obj_data tk)) @ '']''"

definition print_hex_bracket :: "obj_t \<Rightarrow> string" where
  "print_hex_bracket tk = token_pairs (obj_type tk) @ ''[0x'' @ hex_str (unat (obj_data tk)) @ '']''"

definition print_paren :: "obj_t \<Rightarrow> string" where
  "print_paren tk = token_pairs (obj_type tk) @ ''('' @ dec_str (unat (obj_data tk)) @ '')''"

text \<open>The table of printers and colours.\<close>

definition obj_print :: "token_type \<Rightarrow> ((obj_t \<Rightarrow> string) \<times> string) option" where
  "obj_print t =
     (case t of
        Var_tk v \<Rightarrow> Some (case v of
            Tk_A' \<Rightarrow> (print_str, BRIGHT_YELLOWCLR)
          | Tk_X' \<Rightarrow> (print_str, BRIGHT_YELLOWCLR)
          | MEM' \<Rightarrow> (print_hex_bracket, BRIGHT_YELLOWCLR)
          | ATTR_LOWARG' \<Rightarrow> (print_dec_bracket, BRIGHT_BLUECLR)
          | ATTR_HIGHARG' \<Rightarrow> (print_dec_bracket, BRIGHT_BLUECLR)
          | _ \<Rightarrow> (print_str, BRIGHT_BLUECLR))
      | Action_tk a \<Rightarrow> Some (case a of
            KILL_PROC' \<Rightarrow> (print_str, REDCLR)
          | KILL' \<Rightarrow> (print_str, REDCLR)
          | ALLOW' \<Rightarrow> (print_str, GREENCLR)
          | NOTIFY' \<Rightarrow> (print_str, YELLOWCLR)
          | LOG' \<Rightarrow> (print_str, YELLOWCLR)
          | TRACE' \<Rightarrow> (print_paren, YELLOWCLR)
          | TRAP' \<Rightarrow> (print_paren, YELLOWCLR)
          | ERRNO' \<Rightarrow> (print_paren, REDCLR))
      | _ \<Rightarrow>
          (if t = IDENTIFIER then Some (print_identifier, BRIGHT_CYANCLR)
           else if t = NUMBER then Some (print_num, BRIGHT_CYANCLR)
           else None))"

definition obj_printer :: "bool \<Rightarrow> obj_t \<Rightarrow> string cres" where
  "obj_printer color obj =
     (case obj_print (obj_type obj) of
        None \<Rightarrow> Crash ''call of a NULL printer''
      | Some (handler, clr) \<Rightarrow>
          Done ((if color then clr else []) @ handler obj @ (if color then CLR else [])))"

section \<open>Lines\<close>

definition print_assign :: "bool \<Rightarrow> assign_line_t \<Rightarrow> string cres" where
  "print_assign color al =
     cbind (obj_printer color (left_var al)) (\<lambda>l.
     cbind (obj_printer color (right_var al)) (\<lambda>r.
     Done (l @ '' '' @ (if operator al = NEGATIVE then ''= -'' else token_pairs (operator al) @ '' '') @ r)))"

text \<open>\<open>DEFAULT_LABEL\<close> is \<open>L%04d\<close>.\<close>

definition default_label :: "nat \<Rightarrow> string" where
  "default_label n = ''L'' @ pad0 4 (dec_str n)"

definition print_label :: "label_t \<Rightarrow> u16 \<Rightarrow> string" where
  "print_label l pc =
     (case key l of
        None \<Rightarrow> default_label (unat pc + unat (label_nr l) + 1)
      | Some k \<Rightarrow> k)"

definition print_ja :: "jump_line_t \<Rightarrow> u16 \<Rightarrow> string" where
  "print_ja j pc = token_pairs GOTO @ '' '' @ print_label (jt j) pc"

definition print_jump :: "bool \<Rightarrow> jump_line_t \<Rightarrow> u16 \<Rightarrow> string cres" where
  "print_jump color j pc =
     (if \<not> if_condition j then Done (print_ja j pc)
      else
        cbind (obj_printer color (zero_obj\<lparr>obj_type := Tk_A\<rparr>)) (\<lambda>a.
        cbind (obj_printer color (cmpobj j)) (\<lambda>obj.
        Done (token_pairs IF @ '' '' @ (if if_bang j then token_pairs BANG else [])
          @ token_pairs LEFT_PAREN @ a @ '' '' @ token_pairs (comparator j) @ '' '' @ obj
          @ token_pairs RIGHT_PAREN @ '' '' @ token_pairs GOTO @ '' '' @ print_label (jt j) pc
          @ (if label_nr (jf j) = 0 then []
             else token_pairs COMMA @ '' '' @ token_pairs ELSE @ '' '' @ token_pairs GOTO @ '' ''
               @ print_label (jf j) pc)))))"

definition print_return :: "bool \<Rightarrow> return_line_t \<Rightarrow> string cres" where
  "print_return color r =
     cbind (obj_printer color (ret_obj r)) (\<lambda>s. Done (token_pairs RETURN @ '' '' @ s))"

text \<open>
  The comment is the text of the line from \<open>comment\<close> on; its length is computed in 16 bits.
\<close>

definition print_comment :: "bool \<Rightarrow> statement_t \<Rightarrow> string" where
  "print_comment color st =
     (if comment st = - 1 then []
      else
        let t = lit (line_text st);
            len = unat (of_int (int (length t) - comment st) :: u16)
        in if len = 0 then []
           else (if line st \<noteq> EMPTY_LINE then '' '' else [])
             @ (if color then LIGHTCLR else []) @ take len (drop (nat (comment st)) t)
             @ (if color then CLR else []))"

text \<open>
  \<open>print_as_comment\<close> with the text already formatted; \<open>vsnprintf\<close> has 0x3ff bytes, and a longer
  text is read behind the buffer.
\<close>

definition print_as_comment :: "bool \<Rightarrow> string \<Rightarrow> string cres" where
  "print_as_comment color t =
     (if 0x3fe < length t then Crash ''read outside buf''
      else Done (print_comment color (zero_statement\<lparr>line := EMPTY_LINE, line_text := Some (CHR ''#'' # t),
        comment := 0\<rparr>) @ [CHR 0x0A]))"

definition print_stmt :: "bool \<Rightarrow> statement_t \<Rightarrow> string cres" where
  "print_stmt color st =
     cbind (case line st of
          ASSIGN_LINE al \<Rightarrow> print_assign color al
        | JUMP_LINE j \<Rightarrow> print_jump color j (code_nr st)
        | RETURN_LINE r \<Rightarrow> print_return color r
        | EMPTY_LINE \<Rightarrow> Done []
        | _ \<Rightarrow> Crash ''assert (0)'')
       (\<lambda>s. Done (s @ print_comment color st @ [CHR 0x0A]))"

end
