(* ===== verification/Emu.thy ===== *)
theory Emu
  imports Arch_Trans Decoder Formatter Messages
begin

text \<open>
  \<open>src/emu.c\<close>: the interpreter of resolved statements. The static variables are
  \<open>emu_state\<close>; \<open>vars\<close> is the table of their addresses, so a place is a variable of the table
  with an offset, or the number stored in the statement itself, and two places can be the
  same cell. The text \<open>T\<close> and the code pointers \<open>C\<close> are the elements of the two vectors; a
  shift writes the number of the statement, so the text is returned. What is written to
  standard output is returned as a string, as are the statements changed for printing. A
  failed \<open>assert\<close> or an access outside an array is \<open>Crash\<close>.
\<close>

section \<open>The machine\<close>

record emu_state =
  A_reg :: u32
  X_reg :: u32
  e_mem :: "u32 list"
  e_syscall_nr :: u32
  e_scmp_arch :: u32
  low_pc :: u32
  high_pc :: u32
  low_args :: "u32 list"
  high_args :: "u32 list"
  scmp_data_len :: u32

text \<open>The table \<open>vars\<close>: the cells behind each address, and a write to them.\<close>

definition var_cells :: "var_tk \<Rightarrow> emu_state \<Rightarrow> u32 list" where
  "var_cells v s =
     (case v of
        Tk_A' \<Rightarrow> [A_reg s]
      | Tk_X' \<Rightarrow> [X_reg s]
      | MEM' \<Rightarrow> e_mem s
      | ATTR_LEN' \<Rightarrow> [scmp_data_len s]
      | ATTR_SYSCALL' \<Rightarrow> [e_syscall_nr s]
      | ATTR_ARCH' \<Rightarrow> [e_scmp_arch s]
      | ATTR_LOWPC' \<Rightarrow> [low_pc s]
      | ATTR_HIGHPC' \<Rightarrow> [high_pc s]
      | ATTR_LOWARG' \<Rightarrow> low_args s
      | ATTR_HIGHARG' \<Rightarrow> high_args s)"

definition put_cell :: "var_tk \<Rightarrow> nat \<Rightarrow> u32 \<Rightarrow> emu_state \<Rightarrow> emu_state" where
  "put_cell v i w s =
     (case v of
        Tk_A' \<Rightarrow> s\<lparr>A_reg := w\<rparr>
      | Tk_X' \<Rightarrow> s\<lparr>X_reg := w\<rparr>
      | MEM' \<Rightarrow> s\<lparr>e_mem := (e_mem s)[i := w]\<rparr>
      | ATTR_LEN' \<Rightarrow> s\<lparr>scmp_data_len := w\<rparr>
      | ATTR_SYSCALL' \<Rightarrow> s\<lparr>e_syscall_nr := w\<rparr>
      | ATTR_ARCH' \<Rightarrow> s\<lparr>e_scmp_arch := w\<rparr>
      | ATTR_LOWPC' \<Rightarrow> s\<lparr>low_pc := w\<rparr>
      | ATTR_HIGHPC' \<Rightarrow> s\<lparr>high_pc := w\<rparr>
      | ATTR_LOWARG' \<Rightarrow> s\<lparr>low_args := (low_args s)[i := w]\<rparr>
      | ATTR_HIGHARG' \<Rightarrow> s\<lparr>high_args := (high_args s)[i := w]\<rparr>)"

text \<open>A place: a cell of \<open>vars\<close>, or \<open>line->right_var.data\<close>.\<close>

datatype place = Cell var_tk nat | Imm

type_synonym mach = "u32 \<times> emu_state"

definition load :: "place \<Rightarrow> mach \<Rightarrow> u32 cres" where
  "load p m =
     (case p of
        Imm \<Rightarrow> Done (fst m)
      | Cell v i \<Rightarrow>
          (if i < length (var_cells v (snd m)) then Done (var_cells v (snd m) ! i)
           else Crash ''read outside an array''))"

definition store :: "place \<Rightarrow> u32 \<Rightarrow> mach \<Rightarrow> mach cres" where
  "store p w m =
     (case p of
        Imm \<Rightarrow> Done (w, snd m)
      | Cell v i \<Rightarrow>
          (if i < length (var_cells v (snd m)) then Done (fst m, put_cell v i w (snd m))
           else Crash ''write outside an array''))"

text \<open>\<open>vars[BASE_vars (type)]\<close>.\<close>

definition var_of :: "token_type \<Rightarrow> var_tk cres" where
  "var_of t = (case t of Var_tk v \<Rightarrow> Done v | _ \<Rightarrow> Crash ''read outside vars'')"

text \<open>\<open>left\<close> and \<open>right\<close>: an index of the right variable hides that of the left one.\<close>

definition places :: "assign_line_t \<Rightarrow> (place \<times> place) cres" where
  "places al =
     (let lt = obj_type (left_var al); rt = obj_type (right_var al) in
      cbind (var_of lt) (\<lambda>lv.
      cbind (if rt = NUMBER then Done None else cbind (var_of rt) (\<lambda>v. Done (Some v))) (\<lambda>rv.
      let indexed = (rt = ATTR_LOWARG \<or> rt = ATTR_HIGHARG \<or> rt = MEM);
          right = (case rv of None \<Rightarrow> Imm
                   | Some v \<Rightarrow> Cell v (if indexed then unat (obj_data (right_var al)) else 0));
          left = Cell lv (if \<not> indexed \<and> lt = MEM then unat (obj_data (left_var al)) else 0)
      in Done (left, right))))"

text \<open>\<open>DO_OPERATE\<close>.\<close>

definition operate :: "(u32 \<Rightarrow> u32 \<Rightarrow> u32) \<Rightarrow> place \<Rightarrow> place \<Rightarrow> mach \<Rightarrow> mach cres" where
  "operate f left right m =
     cbind (load left m) (\<lambda>l. cbind (load right m) (\<lambda>r. store left (f l r) m))"

definition shift :: "(u32 \<Rightarrow> u32 \<Rightarrow> u32) \<Rightarrow> place \<Rightarrow> place \<Rightarrow> mach \<Rightarrow> mach cres" where
  "shift f left right m =
     cbind (load right m) (\<lambda>r. cbind (store right (r AND 0x1f) m) (operate f left right))"

text \<open>Whether the program is interrupted (\<open>$A / $X\<close> with \<open>$X == 0\<close>), and the new machine.\<close>

definition assign_op :: "token_type \<Rightarrow> place \<Rightarrow> place \<Rightarrow> mach \<Rightarrow> (bool \<times> mach) cres" where
  "assign_op op left right m =
     (let goes = (\<lambda>r. cbind r (\<lambda>m. Done (False, m))) in
      if op = ADD_TO then goes (operate (+) left right m)
      else if op = SUB_TO then goes (operate (-) left right m)
      else if op = MULTI_TO then goes (operate (*) left right m)
      else if op = DIVIDE_TO then
        cbind (load right m) (\<lambda>r.
        if r \<noteq> 0 then goes (operate (div) left right m) else Done (True, m))
      else if op = LSH_TO then goes (shift (\<lambda>l r. push_bit (unat r) l) left right m)
      else if op = RSH_TO then goes (shift (\<lambda>l r. drop_bit (unat r) l) left right m)
      else if op = AND_TO then goes (operate (AND) left right m)
      else if op = OR_TO then goes (operate (OR) left right m)
      else if op = XOR_TO then goes (operate (XOR) left right m)
      else if op = EQUAL then goes (operate (\<lambda>l r. r) left right m)
      else if op = NEGATIVE then goes (operate (\<lambda>l r. - r) left right m)
      else Crash ''Unknown alu operation'')"

definition assign_line ::
  "assign_line_t \<Rightarrow> emu_state \<Rightarrow> (bool \<times> assign_line_t \<times> emu_state) cres" where
  "assign_line al s =
     cbind (places al) (\<lambda>(left, right).
     cbind (assign_op (operator al) left right (obj_data (right_var al), s)) (\<lambda>(fpe, n, s).
     Done (fpe, al\<lparr>right_var := (right_var al)\<lparr>obj_data := n\<rparr>\<rparr>, s)))"

definition compare :: "token_type \<Rightarrow> u32 \<Rightarrow> u32 \<Rightarrow> bool cres" where
  "compare c a r =
     (if c = EQUAL_EQUAL then Done (a = r)
      else if c = BANG_EQUAL then Done (a \<noteq> r)
      else if c = GREATER_EQUAL then Done (r \<le> a)
      else if c = GREATER_THAN then Done (r < a)
      else if c = LESS_EQUAL then Done (a \<le> r)
      else if c = LESS_THAN then Done (a < r)
      else if c = Tk_AND then Done (a AND r \<noteq> 0)
      else Crash ''Unknown comparator'')"

definition jump_line :: "jump_line_t \<Rightarrow> emu_state \<Rightarrow> label_t cres" where
  "jump_line j s =
     (if \<not> if_condition j then Done (jt j)
      else
        cbind (compare (comparator j) (A_reg s)
                 (if obj_type (cmpobj j) = Tk_X then X_reg s else obj_data (cmpobj j))) (\<lambda>b.
        Done (if if_bang j \<noteq> b then jt j else jf j)))"

section \<open>Returning\<close>

definition data_suffix :: "obj_t \<Rightarrow> string" where
  "data_suffix real =
     (if obj_type real = TRACE \<or> obj_type real = TRAP \<or> obj_type real = ERRNO
      then ''('' @ dec_str (unat (obj_data real)) @ '')'' else [])"

text \<open>The comment is written into 0x28 bytes.\<close>

definition set_comment :: "bool \<Rightarrow> string \<Rightarrow> statement_t \<Rightarrow> statement_t cres" where
  "set_comment quiet t st =
     (if 0x28 \<le> length t then Crash ''formatted_val too small''
      else Done (if quiet then st else st\<lparr>line_text := Some t, comment := 0\<rparr>))"

definition return_line :: "return_line_t \<Rightarrow> emu_state \<Rightarrow> bool \<Rightarrow> statement_t \<Rightarrow> statement_t cres" where
  "return_line r s quiet st =
     (let ret = ret_obj r;
          with_real = (\<lambda>real. st\<lparr>line := RETURN_LINE (r\<lparr>real_obj := real\<rparr>)\<rparr>)
      in if obj_type ret = Tk_A then
           (let (real, ty) = decode_return_k (real_obj r) (A_reg s); real = real\<lparr>obj_type := ty\<rparr> in
            set_comment quiet (''# $A = '' @ alt_hex_str (unat (A_reg s)) @ '', '' @ token_pairs ty
              @ data_suffix real) (with_real real))
         else if obj_type ret = NUMBER then
           (let (real, ty) = decode_return_k (real_obj r) (obj_data ret); real = real\<lparr>obj_type := ty\<rparr> in
            set_comment quiet (''# '' @ token_pairs ty @ data_suffix real) (with_real real))
         else Done (with_real ((real_obj r)\<lparr>obj_type := obj_type ret, obj_data := obj_data ret\<rparr>)))"

section \<open>Where a jump goes\<close>

definition label_at :: "statement_t \<Rightarrow> label_t \<Rightarrow> bool" where
  "label_at st jmp =
     (case (label_decl st, key jmp) of
        (Some d, Some k) \<Rightarrow> length d = length k \<and> strncmp_eq d k (length k)
      | _ \<Rightarrow> False)"

text \<open>The search back from the target for the line that declares the label.\<close>

fun find_tag :: "statement_t list \<Rightarrow> label_t \<Rightarrow> nat \<Rightarrow> nat \<Rightarrow> nat cres" where
  "find_tag T jmp cur 0 = (if cur = 0 then Crash ''should find a tag to jump to'' else Done 0)"
| "find_tag T jmp cur (Suc n) =
     (if cur < Suc n then
        (if length T \<le> Suc n then Crash ''read outside the text''
         else if label_at (T ! Suc n) jmp then Done (Suc n) else find_tag T jmp cur n)
      else if cur = Suc n then Crash ''should find a tag to jump to''
      else Done (Suc n))"

definition code_nr_to_text_nr ::
  "statement_t list \<Rightarrow> u32 list \<Rightarrow> statement_t \<Rightarrow> label_t \<Rightarrow> nat cres" where
  "code_nr_to_text_nr T C cur jmp =
     (if (case key jmp of None \<Rightarrow> True | Some k \<Rightarrow> k = []) then Done (unat (text_nr cur) + 1)
      else
        let i = unat (code_nr cur) + unat (label_nr jmp) + 1 in
        if length C \<le> i \<or> length T \<le> unat (C ! i) then Crash ''read outside the code pointers''
        else find_tag T jmp (unat (text_nr cur)) (unat (text_nr (T ! unat (C ! i)))))"

section \<open>Printing\<close>

definition label_prefix :: "statement_t \<Rightarrow> string" where
  "label_prefix st = (case label_decl st of None \<Rightarrow> [] | Some l \<Rightarrow> l @ '': '')"

definition emulate_printer ::
  "color_t \<Rightarrow> statement_t \<Rightarrow> bool \<Rightarrow> bool \<Rightarrow> (string \<times> color_t) cres" where
  "emulate_printer c st is_skipped quiet =
     (if quiet then Done ([], c)
      else if is_skipped \<and> color_enable c then
        cbind (push_color False c) (\<lambda>c.
        cbind (print_stmt (color_enable c) st) (\<lambda>s.
        cbind (pop_color c) (\<lambda>c. Done (LIGHTCLR @ label_prefix st @ s @ CLR, c))))
      else cbind (print_stmt (color_enable c) st) (\<lambda>s. Done (label_prefix st @ s, c)))"

section \<open>The loop\<close>

text \<open>Everything \<open>emulator\<close> changes, and the text printed so far.\<close>

record emulation =
  m_text :: "statement_t list"
  m_vars :: emu_state
  m_color :: color_t
  m_out :: string

definition print_line :: "nat \<Rightarrow> bool \<Rightarrow> bool \<Rightarrow> emulation \<Rightarrow> emulation cres" where
  "print_line i is_skipped quiet m =
     cbind (emulate_printer (m_color m) (m_text m ! i) is_skipped quiet) (\<lambda>(s, c).
     Done (m\<lparr>m_color := c, m_out := m_out m @ s\<rparr>))"

text \<open>
  The body of the loop for a statement that is executed: the new \<open>exec_idx\<close>, \<open>None\<close> when
  the loop is left, and the new state.
\<close>

definition exec_statement ::
  "u32 list \<Rightarrow> bool \<Rightarrow> nat \<Rightarrow> nat \<Rightarrow> emulation \<Rightarrow> (nat option \<times> emulation) cres" where
  "exec_statement C quiet i exec_idx m =
     (let st = m_text m ! i;
          set_st = (\<lambda>st' m. m\<lparr>m_text := (m_text m)[i := st']\<rparr>)
      in case line st of
           ASSIGN_LINE al \<Rightarrow>
             cbind (assign_line al (m_vars m)) (\<lambda>(fpe, al, s).
             let m = (set_st (st\<lparr>line := ASSIGN_LINE al\<rparr>) m)\<lparr>m_vars := s\<rparr> in
             if fpe then Done (None, m)
             else cbind (print_line i False quiet m) (\<lambda>m. Done (Some exec_idx, m)))
         | JUMP_LINE j \<Rightarrow>
             cbind (jump_line j (m_vars m)) (\<lambda>jmp.
             cbind (code_nr_to_text_nr (m_text m) C st jmp) (\<lambda>e.
             cbind (print_line i False quiet m) (\<lambda>m. Done (Some e, m))))
         | RETURN_LINE r \<Rightarrow>
             cbind (return_line r (m_vars m) quiet st) (\<lambda>st. Done (None, set_st st m))
         | EMPTY_LINE \<Rightarrow> cbind (print_line i False quiet m) (\<lambda>m. Done (Some exec_idx, m))
         | _ \<Rightarrow> Crash ''Emulating EOF/ERROR line??'')"

text \<open>
  The loop from \<open>read_idx\<close> on, with \<open>n\<close> lines left to read. The result is the index of the
  last statement looked at, \<open>last\<close> when there is none left.
\<close>

fun emu_loop ::
  "u32 list \<Rightarrow> bool \<Rightarrow> nat \<Rightarrow> nat \<Rightarrow> nat \<Rightarrow> nat option \<Rightarrow> emulation \<Rightarrow> (nat option \<times> emulation) cres" where
  "emu_loop C quiet 0 read_idx exec_idx last_idx m = Done (last_idx, m)"
| "emu_loop C quiet (Suc n) read_idx exec_idx last_idx m =
     (if read_idx < exec_idx then
        cbind (print_line read_idx True quiet m) (\<lambda>m.
        emu_loop C quiet n (Suc read_idx) exec_idx (Some read_idx) m)
      else
        cbind (exec_statement C quiet read_idx (Suc exec_idx) m) (\<lambda>(e, m).
        case e of
          None \<Rightarrow> Done (Some read_idx, m)
        | Some exec_idx \<Rightarrow> emu_loop C quiet n (Suc read_idx) exec_idx (Some read_idx) m))"

definition emulator :: "u32 list \<Rightarrow> bool \<Rightarrow> emulation \<Rightarrow> (nat \<times> emulation) cres" where
  "emulator C quiet m =
     cbind (emu_loop C quiet (length (m_text m) - 1) 1 1 None m) (\<lambda>(last_idx, m).
     case last_idx of
       None \<Rightarrow> Crash ''assert (statement)''
     | Some i \<Rightarrow>
         (if is_return (line (m_text m ! i)) \<or> is_assign (line (m_text m ! i)) then Done (i, m)
          else Crash ''the last statement neither returns nor assigns''))"

section \<open>The arguments\<close>

record emu_arg_t =
  ea_scmp_arch :: u32
  ea_quiet :: bool
  ea_sys_name :: "string option"
  ea_args :: "u64 list"
  ea_ip :: u64

abbreviation NR_SCMP_ERROR :: u32 where "NR_SCMP_ERROR \<equiv> - 1"

definition resolve_sysnr :: "scmp_lib \<Rightarrow> u32 \<Rightarrow> string option \<Rightarrow> u32 cres" where
  "resolve_sysnr lib arch sys_name =
     (case sys_name of
        None \<Rightarrow> Die M_INPUT_SYS_NR
      | Some name \<Rightarrow>
          (let nr = syscall_resolve_name_arch lib arch name in
           if nr \<noteq> NR_SCMP_ERROR then Done nr
           else
             let (tmp, n, _) = strtoull 0 name in
             if char_at name n \<noteq> CHR 0x00 \<or> ucast (ucast tmp :: u32) \<noteq> tmp
             then Die M_INVALID_SYSNR else Done (ucast tmp)))"

text \<open>The words of the arguments; a name must be given. The memory keeps what it holds.\<close>

definition init_attr :: "scmp_lib \<Rightarrow> emu_arg_t \<Rightarrow> emu_state \<Rightarrow> emu_state cres" where
  "init_attr lib ea s =
     cbind (resolve_sysnr lib (ea_scmp_arch ea) (ea_sys_name ea)) (\<lambda>nr.
     if length (ea_args ea) < 6 then Crash ''read outside args''
     else Done (s\<lparr>A_reg := 0, X_reg := 0, e_syscall_nr := nr, e_scmp_arch := ea_scmp_arch ea,
       low_pc := ucast (ea_ip ea), high_pc := ucast (drop_bit 32 (ea_ip ea)),
       low_args := map ucast (take 6 (ea_args ea)),
       high_args := map (\<lambda>a. ucast (drop_bit 32 a)) (take 6 (ea_args ea))\<rparr>))"

section \<open>The command\<close>

definition FPE_ERR_STR :: string where
  "FPE_ERR_STR = ''# $X == 0, returning 0 (KILL) on FPE''"

definition skipped_text :: "nat \<Rightarrow> string" where
  "skipped_text n = ''... '' @ dec_str n @ '' line(s) skipped''"

text \<open>
  What goes to standard output, what goes to \<open>output_fp\<close>, and the state. On a division by
  zero the statement is printed with an explanation.
\<close>

definition emulate_v ::
  "scmp_lib \<Rightarrow> u32 list \<Rightarrow> emu_arg_t \<Rightarrow> emulation \<Rightarrow> (string \<times> string \<times> emulation) cres" where
  "emulate_v lib C ea m =
     cbind (init_attr lib ea (m_vars m)) (\<lambda>s.
     cbind (emulator C (ea_quiet ea) (m\<lparr>m_vars := s\<rparr>)) (\<lambda>(i, m).
     let last_st = m_text m ! i;
         fpe = is_assign (line last_st);
         line_left = length (m_text m) - 1 - unat (text_nr last_st);
         color = color_enable (m_color m)
     in if \<not> ea_quiet ea then
          let st = (if fpe then last_st\<lparr>line_text := Some FPE_ERR_STR, comment := 0\<rparr> else last_st) in
          cbind (emulate_printer (m_color m) st False False) (\<lambda>(s, c).
          cbind (if line_left \<noteq> 0 then print_as_comment color (skipped_text line_left) else Done []) (\<lambda>rest.
          Done (m_out m @ s, rest,
                m\<lparr>m_color := c,
                  m_text := (m_text m)[i := (if fpe then st\<lparr>comment := - 1\<rparr> else st)]\<rparr>)))
        else
          cbind (case line last_st of
              RETURN_LINE r \<Rightarrow> obj_printer color (real_obj r)
            | _ \<Rightarrow> obj_printer color (zero_obj\<lparr>obj_type := KILL\<rparr>)) (\<lambda>s.
          Done (m_out m, s @ [CHR 0x0A], m))))"

end
