(* ===== verification/Resolver.thy ===== *)
theory Resolver
  imports Statements Hash_Table Numbers Messages
begin

text \<open>
  \<open>src/resolver/resolver.c\<close>: the semantic checks on the parsed code lines and the
  resolution of labels to relative jumps.

  The static variables are the record \<open>rstate\<close>; the warnings are collected in \<open>r_log\<close>. The
  statements are reached through the code pointers, indices into the statement vector, and
  \<open>resolve_statement\<close> returns the statement with the jump distances written into it. The
  1024 byte buffer in which a report is printed is checked: a report that does not fit is
  \<open>Crash\<close>.
\<close>

section \<open>State\<close>

record rstate =
  r_error :: bool
  r_masks :: "u16 list"
  r_mem :: u16
  r_len :: u16
  r_log :: "string list"

definition REPORT_BUF :: nat where "REPORT_BUF = 0x400"

text \<open>\<open>%.*s\<close>: at most the given bytes, and none behind a NUL.\<close>

definition printed :: "string_t \<Rightarrow> string" where
  "printed s = (case s of None \<Rightarrow> [] | Some t \<Rightarrow> takeWhile (\<lambda>c. c \<noteq> CHR 0x00) t)"

definition text_len :: "string_t \<Rightarrow> nat" where
  "text_len s = (case s of None \<Rightarrow> 0 | Some t \<Rightarrow> length t)"

definition newline :: string where
  "newline = [CHR 0x0A]"

definition put_report :: "string \<Rightarrow> rstate \<Rightarrow> rstate cres" where
  "put_report out rs =
     (if REPORT_BUF \<le> length out then Crash ''stack buffer overflow''
      else Done (rs\<lparr>r_error := True, r_log := r_log rs @ [out]\<rparr>))"

definition report_error :: "statement_t \<Rightarrow> string \<Rightarrow> rstate \<Rightarrow> rstate cres" where
  "report_error st msg rs =
     put_report (dec_str (unat (text_nr st)) @ '':-: '' @ msg @ newline
       @ printed (line_text st) @ newline @ replicate (text_len (line_text st)) CHR ''~'') rs"

definition error_line :: "statement_t \<Rightarrow> error_line_t \<Rightarrow> rstate \<Rightarrow> rstate cres" where
  "error_line st e rs =
     (let err_len = unat (of_int (error_start e) :: u16) in
      put_report (dec_str (unat (text_nr st)) @ '':'' @ dec_str ((err_len + 1) mod 2 ^ 16) @ '': ''
        @ error_msg e @ newline @ printed (line_text st) @ newline
        @ replicate err_len CHR '' '' @ ''^'') rs)"

section \<open>Assignments\<close>

definition is_out_range :: "obj_t \<Rightarrow> u32 \<Rightarrow> bool" where
  "is_out_range obj max_idx = (max_idx < obj_data obj)"

abbreviation IS_ARG_OUT_RANGE :: "obj_t \<Rightarrow> bool" where "IS_ARG_OUT_RANGE obj \<equiv> is_out_range obj 5"
abbreviation IS_MEM_OUT_RANGE :: "obj_t \<Rightarrow> bool" where "IS_MEM_OUT_RANGE obj \<equiv> is_out_range obj 15"

text \<open>\<open>mem_valid & (1 << idx)\<close>; the index is below 16 where it is used.\<close>

definition mem_bit :: "u16 \<Rightarrow> u32 \<Rightarrow> bool" where
  "mem_bit m idx = bit m (unat idx)"

definition mem_set :: "u16 \<Rightarrow> u32 \<Rightarrow> u16" where
  "mem_set m idx = set_bit (unat idx) m"

definition attr_arg :: "token_type \<Rightarrow> bool" where
  "attr_arg t = (t = ATTR_LOWARG \<or> t = ATTR_HIGHARG)"

text \<open>A check returns the message of the error it finds.\<close>

definition check_mem_read :: "obj_t \<Rightarrow> u16 \<Rightarrow> string option" where
  "check_mem_read right mem =
     (if IS_MEM_OUT_RANGE right then Some M_MEM_IDX_OUT_OF_RANGE
      else if \<not> mem_bit mem (obj_data right) then Some M_UNINITIALIZED_MEM
      else None)"

definition assign_A :: "assign_line_t \<Rightarrow> u16 \<Rightarrow> string option cres" where
  "assign_A al mem =
     (let op = operator al; right = right_var al; rt = obj_type right in
      if op = NEGATIVE then
        Done (if rt \<noteq> Tk_A then Some M_RIGHT_SHOULD_BE_A else None)
      else if tk_between ADD_TO XOR_TO op then
        Done (if rt \<noteq> Tk_X \<and> rt \<noteq> NUMBER then Some M_RIGHT_SHOULD_BE_X_OR_NUM
              else if op = DIVIDE_TO \<and> rt = NUMBER \<and> obj_data right = 0 then Some M_ALU_DIV_BY_ZERO
              else if tk_between LSH_TO RSH_TO op \<and> rt = NUMBER \<and> 32 \<le> obj_data right
                then Some M_ALU_SH_OUT_OF_RANGE
              else None)
      else if op \<noteq> EQUAL then Crash ''assert (operator == EQUAL)''
      else
        Done (if rt = Tk_A then Some M_RIGHT_CAN_NOT_BE_A
              else if attr_arg rt \<and> IS_ARG_OUT_RANGE right then Some M_ARGS_IDX_OUT_OF_RANGE
              else if rt = MEM then check_mem_read right mem
              else None))"

definition assign_X :: "assign_line_t \<Rightarrow> u16 \<Rightarrow> string option" where
  "assign_X al mem =
     (let right = right_var al; rt = obj_type right in
      if operator al \<noteq> EQUAL then Some M_OPERATOR_SHOULD_BE_EQUAL
      else if tk_between ATTR_SYSCALL ATTR_HIGHARG rt then Some M_LEFT_SHOULD_BE_A
      else if rt = Tk_X then Some M_RIGHT_CAN_NOT_BE_X
      else if attr_arg rt \<and> IS_ARG_OUT_RANGE right then Some M_ARGS_IDX_OUT_OF_RANGE
      else if rt = MEM then check_mem_read right mem
      else None)"

definition assign_MEM :: "assign_line_t \<Rightarrow> u16 \<Rightarrow> string option \<times> u16" where
  "assign_MEM al mem =
     (let left = left_var al; rt = obj_type (right_var al) in
      if operator al \<noteq> EQUAL then (Some M_OPERATOR_SHOULD_BE_EQUAL, mem)
      else if IS_MEM_OUT_RANGE left then (Some M_MEM_IDX_OUT_OF_RANGE, mem)
      else if rt \<noteq> Tk_A \<and> rt \<noteq> Tk_X then (Some M_RIGHT_SHOULD_BE_A_OR_X, mem)
      else (None, mem_set mem (obj_data left)))"

definition report_if :: "statement_t \<Rightarrow> string option \<Rightarrow> rstate \<Rightarrow> rstate cres" where
  "report_if st e rs = (case e of None \<Rightarrow> Done rs | Some msg \<Rightarrow> report_error st msg rs)"

definition assign_line :: "statement_t \<Rightarrow> assign_line_t \<Rightarrow> rstate \<Rightarrow> rstate cres" where
  "assign_line st al rs =
     (let lt = obj_type (left_var al) in
      if lt = Tk_A then cbind (assign_A al (r_mem rs)) (\<lambda>e. report_if st e rs)
      else if lt = Tk_X then report_if st (assign_X al (r_mem rs)) rs
      else if lt = MEM then
        (let (e, mem) = assign_MEM al (r_mem rs) in report_if st e (rs\<lparr>r_mem := mem\<rparr>))
      else Done rs)"

section \<open>Jumps\<close>

definition set_jt_jf :: "statement_t \<Rightarrow> u32 \<Rightarrow> label_t \<Rightarrow> label_t" where
  "set_jt_jf st nr l = l\<lparr>label_nr := ucast (nr - ucast (code_nr st) - 1)\<rparr>"

text \<open>\<open>(int16_t) label.code_nr < 0\<close>.\<close>

definition negative_nr :: "label_t \<Rightarrow> bool" where
  "negative_nr l = (sint (label_nr l) < 0)"

definition find_label :: "str_table \<Rightarrow> label_t \<Rightarrow> u32" where
  "find_label L l = ucast (find_key (case key l of None \<Rightarrow> [] | Some k \<Rightarrow> k) L)"

text \<open>\<open>masks[i] &= mem_valid\<close>.\<close>

definition mask_and :: "u32 \<Rightarrow> rstate \<Rightarrow> rstate cres" where
  "mask_and i rs =
     (if unat i < length (r_masks rs)
      then Done (rs\<lparr>r_masks := (r_masks rs)[unat i := r_masks rs ! unat i AND r_mem rs]\<rparr>)
      else Crash ''write outside masks'')"

definition mem_valid_all :: "rstate \<Rightarrow> rstate" where
  "mem_valid_all rs = rs\<lparr>r_mem := - 1\<rparr>"

text \<open>The jump line is returned with the distances set up to the point of the error.\<close>

definition ja_line :: "str_table \<Rightarrow> statement_t \<Rightarrow> jump_line_t \<Rightarrow> rstate \<Rightarrow> (jump_line_t \<times> rstate) cres" where
  "ja_line L st j rs =
     (let t = find_label L (jt j) in
      if t = ucast (- 1 :: u16) then
        cbind (report_error st M_CANNOT_FIND_LABEL rs) (\<lambda>rs. Done (j, rs))
      else if ucast (r_len rs) < t then
        cbind (report_error st M_JA_OUT_OF_FILTERS rs) (\<lambda>rs. Done (j, rs))
      else
        let j = j\<lparr>jt := set_jt_jf st t (jt j)\<rparr> in
        if negative_nr (jt j) then
          cbind (report_error st M_JA_MUST_BE_POSITIVE rs) (\<lambda>rs. Done (j, rs))
        else cbind (mask_and t rs) (\<lambda>rs. Done (j, mem_valid_all rs)))"

definition jf_line ::
  "str_table \<Rightarrow> statement_t \<Rightarrow> u32 \<Rightarrow> jump_line_t \<Rightarrow> rstate \<Rightarrow> (jump_line_t \<times> rstate) cres" where
  "jf_line L st t j rs =
     (let f = (if key (jf j) = None then ucast (code_nr st) + 1 else find_label L (jf j)) in
      if key (jf j) \<noteq> None \<and> f = ucast (- 1 :: u16) then
        cbind (report_error st M_CANNOT_FIND_LABEL rs) (\<lambda>rs. Done (j, rs))
      else
        let j = j\<lparr>jf := set_jt_jf st f (jf j)\<rparr>;
            f = ucast (code_nr st) + ucast (label_nr (jf j)) + 1 in
        if negative_nr (jf j) then
          cbind (report_error st M_JF_MUST_BE_POSITIVE rs) (\<lambda>rs. Done (j, rs))
        else if 255 < label_nr (jf j) then
          cbind (report_error st M_JF_TOO_FAR rs) (\<lambda>rs. Done (j, rs))
        else if ucast (r_len rs) < f then
          cbind (report_error st M_JF_INVALID_TAG rs) (\<lambda>rs. Done (j, rs))
        else
          cbind (mask_and t rs) (\<lambda>rs. cbind (mask_and f rs) (\<lambda>rs. Done (j, mem_valid_all rs))))"

definition jump_line :: "str_table \<Rightarrow> statement_t \<Rightarrow> jump_line_t \<Rightarrow> rstate \<Rightarrow> (jump_line_t \<times> rstate) cres" where
  "jump_line L st j rs =
     (if \<not> if_condition j then ja_line L st j rs
      else
        let t = find_label L (jt j) in
        if t = ucast (- 1 :: u16) then
          cbind (report_error st M_CANNOT_FIND_LABEL rs) (\<lambda>rs. Done (j, rs))
        else
          let j = j\<lparr>jt := set_jt_jf st t (jt j)\<rparr> in
          if negative_nr (jt j) then
            cbind (report_error st M_JT_MUST_BE_POSITIVE rs) (\<lambda>rs. Done (j, rs))
          else if 255 < label_nr (jt j) then
            cbind (report_error st M_JT_TOO_FAR rs) (\<lambda>rs. Done (j, rs))
          else if ucast (r_len rs) < t then
            cbind (report_error st M_JT_INVALID_TAG rs) (\<lambda>rs. Done (j, rs))
          else jf_line L st t j rs)"

section \<open>Returns and statements\<close>

definition return_line :: "statement_t \<Rightarrow> return_line_t \<Rightarrow> rstate \<Rightarrow> rstate cres" where
  "return_line st r rs =
     (let ty = obj_type (ret_obj r) in
      if ty = Tk_A \<or> ty = NUMBER then Done rs
      else if (ty = TRACE \<or> ty = TRAP \<or> ty = ERRNO) \<and> 0xffff < obj_data (ret_obj r) then
        report_error st M_RET_DATA_OVERFLOW rs
      else Done rs)"

definition resolve_statement :: "str_table \<Rightarrow> statement_t \<Rightarrow> rstate \<Rightarrow> (statement_t \<times> rstate) cres" where
  "resolve_statement L st rs =
     (case line st of
        ERROR_LINE e \<Rightarrow> cbind (error_line st e rs) (\<lambda>rs. Done (st, rs))
      | ASSIGN_LINE al \<Rightarrow> cbind (assign_line st al rs) (\<lambda>rs. Done (st, rs))
      | JUMP_LINE j \<Rightarrow> cbind (jump_line L st j rs) (\<lambda>(j, rs). Done (st\<lparr>line := JUMP_LINE j\<rparr>, rs))
      | RETURN_LINE r \<Rightarrow> cbind (return_line st r rs) (\<lambda>rs. Done (st, rs))
      | _ \<Rightarrow> Crash ''Resolving EMPTY_LINE/EOF_LINE??'')"

text \<open>
  The loop over the code pointers from index \<open>i\<close>; \<open>T\<close> are the statements, \<open>cs\<close> the
  pointers left.
\<close>

fun resolve_loop ::
  "str_table \<Rightarrow> nat \<Rightarrow> u32 list \<Rightarrow> statement_t list \<Rightarrow> rstate \<Rightarrow> (statement_t list \<times> rstate) cres" where
  "resolve_loop L i [] T rs = Done (T, rs)"
| "resolve_loop L i (c # cs) T rs =
     (if \<not> (i < length (r_masks rs) \<and> unat c < length T) then Crash ''read outside masks or text''
      else
        cbind (resolve_statement L (T ! unat c) (rs\<lparr>r_mem := r_mem rs AND r_masks rs ! i\<rparr>))
          (\<lambda>(st, rs). resolve_loop L (Suc i) cs (T[unat c := st]) rs))"

definition start_rstate :: "u32 list \<Rightarrow> rstate" where
  "start_rstate C =
     \<lparr>r_error = False, r_masks = replicate (length C) (- 1), r_mem = 0,
      r_len = of_nat (length C - 1), r_log = []\<rparr>"

text \<open>The result: \<open>has_error\<close>, the resolved statements and the warnings.\<close>

definition resolver ::
  "str_table \<Rightarrow> statement_t list \<Rightarrow> u32 list \<Rightarrow> (bool \<times> statement_t list \<times> string list) cres" where
  "resolver L T C =
     (let rs = start_rstate C in
      if r_len rs = 0 then Die M_NO_VALID_CODE
      else
        cbind (resolve_loop L 1 (tl C) T rs) (\<lambda>(T, rs).
          let last = T ! unat (C ! (length C - 1)) in
          if \<not> is_return (line last) then
            cbind (report_error last M_MUST_END_WITH_RET rs) (\<lambda>rs. Done (r_error rs, T, r_log rs))
          else Done (r_error rs, T, r_log rs)))"

end
