(* ===== verification/Resolver_Ok.thy ===== *)
theory Resolver_Ok
  imports Resolver Parser_Layout
begin

text \<open>
  What the resolver promises of a program it accepts: every line fits an instruction, every
  jump goes forward and stays inside the program, and on every path a memory word is written
  before it is read. The last point is a certificate, one set of initialised words per line
  that every line hands on to its successors; the resolver's \<open>mem_valid\<close> and \<open>masks\<close> compute it.
\<close>

section \<open>The contract\<close>

definition mem_ready :: "u16 \<Rightarrow> obj_t \<Rightarrow> bool" where
  "mem_ready m r \<longleftrightarrow> obj_data r \<le> 15 \<and> bit m (unat (obj_data r))"

definition assign_A_ok :: "u16 \<Rightarrow> assign_line_t \<Rightarrow> bool" where
  "assign_A_ok m al \<longleftrightarrow>
     (let op = operator al; r = right_var al; rt = obj_type r in
      if op = NEGATIVE then rt = Tk_A
      else if op = EQUAL then
        rt \<noteq> Tk_A \<and> (attr_arg rt \<longrightarrow> obj_data r \<le> 5) \<and> (rt = MEM \<longrightarrow> mem_ready m r)
      else (rt = Tk_X \<or> rt = NUMBER) \<and> (op = DIVIDE_TO \<and> rt = NUMBER \<longrightarrow> obj_data r \<noteq> 0)
        \<and> ((op = LSH_TO \<or> op = RSH_TO) \<and> rt = NUMBER \<longrightarrow> obj_data r < 32))"

definition assign_X_ok :: "u16 \<Rightarrow> assign_line_t \<Rightarrow> bool" where
  "assign_X_ok m al \<longleftrightarrow>
     operator al = EQUAL \<and> obj_type (right_var al) \<in> {Tk_A, NUMBER, MEM, ATTR_LEN}
     \<and> (obj_type (right_var al) = MEM \<longrightarrow> mem_ready m (right_var al))"

definition assign_MEM_ok :: "assign_line_t \<Rightarrow> bool" where
  "assign_MEM_ok al \<longleftrightarrow>
     operator al = EQUAL \<and> obj_data (left_var al) \<le> 15 \<and> obj_type (right_var al) \<in> {Tk_A, Tk_X}"

definition assign_ok :: "u16 \<Rightarrow> assign_line_t \<Rightarrow> bool" where
  "assign_ok m al \<longleftrightarrow>
     wf_assign al
     \<and> (obj_type (left_var al) = Tk_A \<longrightarrow> assign_A_ok m al)
     \<and> (obj_type (left_var al) = Tk_X \<longrightarrow> assign_X_ok m al)
     \<and> (obj_type (left_var al) = MEM \<longrightarrow> assign_MEM_ok al)"

text \<open>
  The lines a line hands the words initialised behind it on to: those it can jump to, or the
  next one. As in the kernel's check, a return hands on to the next line as well.
\<close>

definition jump_targets :: "nat \<Rightarrow> jump_line_t \<Rightarrow> nat list" where
  "jump_targets n j =
     (n + 1 + unat (label_nr (jt j)))
     # (if if_condition j then [n + 1 + unat (label_nr (jf j))] else [])"

definition targets :: "nat \<Rightarrow> line_t \<Rightarrow> nat list" where
  "targets n l =
     (case l of
        ASSIGN_LINE al \<Rightarrow> [n + 1]
      | JUMP_LINE j \<Rightarrow> jump_targets n j
      | RETURN_LINE r \<Rightarrow> [n + 1]
      | _ \<Rightarrow> [])"

definition mem_out :: "u16 \<Rightarrow> line_t \<Rightarrow> u16" where
  "mem_out m l =
     (case l of
        ASSIGN_LINE al \<Rightarrow>
          (if obj_type (left_var al) = MEM then mem_set m (obj_data (left_var al)) else m)
      | _ \<Rightarrow> m)"

definition jump_ok :: "nat \<Rightarrow> nat \<Rightarrow> jump_line_t \<Rightarrow> bool" where
  "jump_ok len n j \<longleftrightarrow>
     wf_jump j \<and> (\<forall>t \<in> set (jump_targets n j). t \<le> len)
     \<and> (if_condition j \<longrightarrow> label_nr (jt j) \<le> 255 \<and> label_nr (jf j) \<le> 255)"

definition return_ok :: "return_line_t \<Rightarrow> bool" where
  "return_ok r \<longleftrightarrow>
     wf_return r \<and> wf_return_data r
     \<and> (obj_type (ret_obj r) \<in> {TRACE, TRAP, ERRNO} \<longrightarrow> obj_data (ret_obj r) \<le> 0xffff)"

definition line_ok :: "u16 \<Rightarrow> nat \<Rightarrow> nat \<Rightarrow> line_t \<Rightarrow> bool" where
  "line_ok m len n l =
     (case l of
        ASSIGN_LINE al \<Rightarrow> assign_ok m al
      | JUMP_LINE j \<Rightarrow> jump_ok len n j
      | RETURN_LINE r \<Rightarrow> return_ok r
      | _ \<Rightarrow> False)"

text \<open>\<open>words_in a b\<close>: every word of \<open>a\<close> is one of \<open>b\<close>.\<close>

definition words_in :: "u16 \<Rightarrow> u16 \<Rightarrow> bool" where
  "words_in a b \<longleftrightarrow> a AND b = a"

lemma words_in_bit: "words_in a b \<Longrightarrow> bit a i \<Longrightarrow> bit b i"
  unfolding words_in_def by (metis bit_and_iff)

lemma words_in_refl [simp]: "words_in a a"
  by (simp add: words_in_def)

lemma words_in_and: "words_in (a AND b) a" "words_in (a AND b) b"
  by (simp_all add: words_in_def bit_eq_iff bit_simps) blast+

lemma words_in_trans: "words_in a b \<Longrightarrow> words_in b c \<Longrightarrow> words_in a c"
  unfolding words_in_def by (metis and.assoc)

section \<open>One line\<close>

lemma put_report_error: "put_report out rs = Done rs' \<Longrightarrow> r_error rs'"
  by (auto simp: put_report_def split: if_splits)

lemma report_error_error: "report_error st msg rs = Done rs' \<Longrightarrow> r_error rs'"
  by (auto simp: report_error_def dest: put_report_error)

lemma error_line_error: "error_line st e rs = Done rs' \<Longrightarrow> r_error rs'"
  by (auto simp: error_line_def Let_def dest: put_report_error)

lemma report_if_none:
  "report_if st e rs = Done rs' \<Longrightarrow> \<not> r_error rs' \<Longrightarrow> e = None \<and> rs' = rs"
  by (auto simp: report_if_def split: option.splits dest: report_error_error)

lemma check_mem_read_none: "check_mem_read r m = None \<longleftrightarrow> mem_ready m r"
  by (auto simp: check_mem_read_def mem_ready_def is_out_range_def mem_bit_def not_less)

lemma assign_A_none:
  assumes "assign_A al m = Done None" "wf_assign al"
  shows "assign_A_ok m al"
  using assms
  by (auto simp: assign_A_def assign_A_ok_def Let_def tok_simps check_mem_read_none attr_arg_def
      is_out_range_def not_less wf_assign_def not_le split: if_splits)

lemma assign_X_none:
  assumes "assign_X al m = None" "wf_assign al"
  shows "assign_X_ok m al"
proof -
  from assms have "operator al = EQUAL" "\<not> tk_between ATTR_SYSCALL ATTR_HIGHARG (obj_type (right_var al))"
    "obj_type (right_var al) \<noteq> Tk_X" "obj_type (right_var al) = MEM \<longrightarrow> mem_ready m (right_var al)"
    by (auto simp: assign_X_def Let_def check_mem_read_none split: if_splits)
  moreover have "wf_right (right_var al)" using assms(2) by (simp add: wf_assign_def)
  moreover have "obj_type (right_var al) \<in> {Tk_A, NUMBER, MEM, ATTR_LEN}"
    if "obj_type (right_var al) = Var_tk v" for v
    using calculation(2,3) that by (cases v) (auto simp: tok_simps)
  ultimately show ?thesis by (auto simp: assign_X_ok_def wf_right_def)
qed

lemma assign_MEM_none:
  "assign_MEM al m = (None, m') \<Longrightarrow> assign_MEM_ok al \<and> m' = mem_set m (obj_data (left_var al))"
  by (auto simp: assign_MEM_def assign_MEM_ok_def Let_def is_out_range_def not_less split: if_splits)

lemma assign_line_ok:
  assumes "Resolver.assign_line st al rs = Done rs'" "\<not> r_error rs'" "wf_assign al"
  shows "assign_ok (r_mem rs) al \<and> rs' = rs\<lparr>r_mem := mem_out (r_mem rs) (ASSIGN_LINE al)\<rparr>"
proof -
  from assms(3) consider "obj_type (left_var al) = Tk_A" | "obj_type (left_var al) = Tk_X"
    | "obj_type (left_var al) = MEM"
    by (auto simp: wf_assign_def)
  then show ?thesis
  proof cases
    case 1
    with assms obtain e where "assign_A al (r_mem rs) = Done e" "report_if st e rs = Done rs'"
      by (auto simp: Resolver.assign_line_def)
    with report_if_none [of st e rs rs'] assms 1 assign_A_none [of al "r_mem rs"] show ?thesis
      by (auto simp: assign_ok_def mem_out_def)
  next
    case 2
    with assms have "report_if st (assign_X al (r_mem rs)) rs = Done rs'"
      by (auto simp: Resolver.assign_line_def)
    from report_if_none [OF this assms(2)] assms 2 assign_X_none [of al "r_mem rs"] show ?thesis
      by (auto simp: assign_ok_def mem_out_def)
  next
    case 3
    obtain e m where em: "assign_MEM al (r_mem rs) = (e, m)" by force
    with assms 3 have "report_if st e (rs\<lparr>r_mem := m\<rparr>) = Done rs'"
      by (auto simp: Resolver.assign_line_def)
    from report_if_none [OF this assms(2)] assms 3 em assign_MEM_none [of al "r_mem rs" m] show ?thesis
      by (auto simp: assign_ok_def mem_out_def)
  qed
qed

section \<open>Jumps\<close>

lemma ucast_of_int16: "(ucast (of_int i :: u32) :: u16) = of_int i"
  by (rule bit_word_eqI) (simp add: bit_simps bit_of_int_iff)

lemma sint_of_int16: "- 32768 \<le> i \<Longrightarrow> i < 32768 \<Longrightarrow> sint (of_int i :: u16) = i"
  by (simp add: int_word_sint)

lemma ucast_ucast16 [simp]: "(ucast (ucast w :: u32) :: u16) = w" for w :: u16
  by (rule bit_word_eqI) (simp add: bit_simps)

lemma ucast_inj16: "((ucast a :: u32) = ucast b) = (a = b)" for a b :: u16
  by (metis ucast_ucast16)

lemma unat_ucast16 [simp]: "unat (ucast w :: u32) = unat w" for w :: u16
  by (simp add: unsigned_ucast_eq take_bit_nat_eq_self order_less_trans [OF unsigned_less])

lemma unat_less16: "unat w < 65536" for w :: u16
  using unsigned_less [of w] by simp

lemma jump_distance:
  fixes n t :: nat
  assumes "n < 32768" "t < 32768" and l: "l = (ucast ((of_nat t :: u32) - of_nat n - 1) :: u16)"
    and pos: "\<not> sint l < 0"
  shows "n < t \<and> unat l = t - n - 1"
proof -
  have "(of_nat t :: u32) - of_nat n - 1 = of_int (int t - int n - 1)" by simp
  then have l: "l = of_int (int t - int n - 1)" unfolding l by (simp only: ucast_of_int16)
  then have "sint l = int t - int n - 1" using assms(1,2) by (simp only: sint_of_int16)
  with pos have n: "n < t" by simp
  then obtain d where d: "t = n + 1 + d" by (metis Suc_eq_plus1 less_iff_Suc_add add_Suc)
  then have "l = of_nat d" unfolding l by simp
  with d assms(2) show ?thesis by (simp add: unat_of_nat)
qed

lemma mask_and_done:
  "mask_and i rs = Done rs' \<longleftrightarrow>
   unat i < length (r_masks rs) \<and> rs' = rs\<lparr>r_masks := (r_masks rs)[unat i := r_masks rs ! unat i AND r_mem rs]\<rparr>"
  by (auto simp: mask_and_def)

text \<open>The label of a resolved jump names the line the jump goes to.\<close>

definition label_goes :: "str_table \<Rightarrow> nat \<Rightarrow> label_t \<Rightarrow> bool" where
  "label_goes L n l \<longleftrightarrow>
     (case key l of
        None \<Rightarrow> label_nr l = 0
      | Some k \<Rightarrow> map_of L k = Some (of_nat (n + 1 + unat (label_nr l))))"

definition jump_labels :: "str_table \<Rightarrow> nat \<Rightarrow> jump_line_t \<Rightarrow> bool" where
  "jump_labels L n j \<longleftrightarrow>
     label_goes L n (jt j) \<and> (if_condition j \<longrightarrow> label_goes L n (jf j))"

definition and_masks :: "u16 \<Rightarrow> nat list \<Rightarrow> u16 list \<Rightarrow> u16 list" where
  "and_masks m ts ms = fold (\<lambda>t ms. ms[t := ms ! t AND m]) ts ms"

lemma find_label_bound: "unat (find_label L l) < 65536"
  by (simp add: find_label_def unat_less16)

lemma find_label_none: "find_label L l = ucast (- 1 :: u16) \<longleftrightarrow>
    find_key (case key l of None \<Rightarrow> [] | Some k \<Rightarrow> k) L = - 1"
  unfolding find_label_def ucast_inj16 ..

text \<open>A label that is found and lies ahead.\<close>

lemma found_label:
  assumes f: "find_label L l \<noteq> ucast (- 1 :: u16)" and k: "wf_label l"
    and n: "code_nr st = of_nat n" "n < 32768" and t: "unat (find_label L l) < 32768"
    and pos: "\<not> negative_nr (set_jt_jf st (find_label L l) l)"
  defines "l' \<equiv> set_jt_jf st (find_label L l) l"
  shows "unat (find_label L l) = n + 1 + unat (label_nr l') \<and> label_goes L n l' \<and> wf_label l'"
proof -
  let ?t = "unat (find_label L l)"
  obtain k' where k': "key l = Some k'" using k by (auto simp: wf_label_def)
  have "(ucast (code_nr st) :: u32) = of_nat n" using n by (simp add: unsigned_of_nat take_bit_nat_eq_self)
  then have "label_nr l' = ucast ((of_nat ?t :: u32) - of_nat n - 1)"
    by (simp add: l'_def set_jt_jf_def)
  from jump_distance [OF n(2) t this] pos have d: "n < ?t" "unat (label_nr l') = ?t - n - 1"
    by (simp_all add: negative_nr_def l'_def)
  then have t': "?t = n + 1 + unat (label_nr l')" by simp
  have "map_of L k' = Some (find_key k' L)"
    using f k' by (intro find_key_found) (simp add: find_label_none)
  moreover have "of_nat ?t = find_key k' L" using k' by (simp add: find_label_def)
  ultimately have "map_of L k' = Some (of_nat (n + 1 + unat (label_nr l')))" unfolding t' by simp
  moreover have "key l' = key l" by (simp add: l'_def set_jt_jf_def)
  ultimately show ?thesis using k t' k' by (simp add: label_goes_def wf_label_def)
qed

text \<open>The two kinds of jump, when no error is reported.\<close>

lemma ja_line_ok:
  assumes r: "Resolver.ja_line L st j rs = Done (j', rs')" and e: "\<not> r_error rs'"
    and wf: "wf_jump j" "\<not> if_condition j" and n: "code_nr st = of_nat n" "n \<le> len"
    and len: "r_len rs = of_nat len" "len < 32768" "length (r_masks rs) = Suc len"
  shows "jump_ok len n j' \<and> jump_labels L n j'
    \<and> rs' = rs\<lparr>r_masks := and_masks (r_mem rs) (jump_targets n j') (r_masks rs), r_mem := - 1\<rparr>"
proof -
  let ?t = "find_label L (jt j)"
  have f: "?t \<noteq> ucast (- 1 :: u16)"
    using r e by (auto simp: Resolver.ja_line_def Let_def split: if_splits dest: report_error_error)
  have len': "\<not> ucast (r_len rs) < ?t"
    using r e f by (auto simp: Resolver.ja_line_def Let_def split: if_splits dest: report_error_error)
  then have t: "unat ?t \<le> len" using len by (simp add: word_less_nat_alt unat_of_nat not_less)
  let ?l = "set_jt_jf st ?t (jt j)"
  have pos: "\<not> negative_nr ?l"
    using r e f len' by (auto simp: Resolver.ja_line_def Let_def split: if_splits dest: report_error_error)
  have j': "j' = j\<lparr>jt := ?l\<rparr>" and rs': "rs' = rs\<lparr>r_masks := (r_masks rs)[unat ?t := r_masks rs ! unat ?t AND r_mem rs], r_mem := - 1\<rparr>"
    using r f len' pos by (auto simp: Resolver.ja_line_def Let_def mask_and_done mem_valid_all_def)
  have wl: "wf_label (jt j)" using wf by (simp add: wf_jump_def)
  have nn: "n < 32768" using n len by simp
  from found_label [OF f wl n(1) nn _ pos] t len(2)
  have fl: "unat ?t = n + 1 + unat (label_nr ?l)" "label_goes L n ?l" "wf_label ?l" by simp_all
  have "jump_targets n j' = [unat ?t]" using j' wf fl by (simp add: jump_targets_def)
  moreover have "jump_ok len n j'" using j' wf fl t calculation by (simp add: jump_ok_def wf_jump_def)
  moreover have "jump_labels L n j'" using j' wf fl by (simp add: jump_labels_def)
  ultimately show ?thesis using rs' by (simp add: and_masks_def)
qed

lemma jf_line_ok:
  assumes r: "Resolver.jf_line L st t j rs = Done (j', rs')" and e: "\<not> r_error rs'"
    and wf: "wf_jump j" "if_condition j" and n: "code_nr st = of_nat n" "n \<le> len"
    and len: "r_len rs = of_nat len" "len < 30000" "length (r_masks rs) = Suc len"
    and t: "unat t \<le> len" "unat t = n + 1 + unat (label_nr (jt j))" "label_nr (jt j) \<le> 255"
      "label_goes L n (jt j)"
  shows "jump_ok len n j' \<and> jump_labels L n j'
    \<and> rs' = rs\<lparr>r_masks := and_masks (r_mem rs) (jump_targets n j') (r_masks rs), r_mem := - 1\<rparr>"
proof -
  define f where "f = (if key (jf j) = None then ucast (code_nr st) + 1 else find_label L (jf j))"
  have fl: "key (jf j) = None \<or> f \<noteq> ucast (- 1 :: u16)"
    using r e by (auto simp: Resolver.jf_line_def Let_def f_def split: if_splits dest: report_error_error)
  let ?l = "set_jt_jf st f (jf j)"
  define g where "g = (ucast (code_nr st) + ucast (label_nr ?l) + 1 :: u32)"
  have r1: "(if negative_nr ?l then
          cbind (report_error st M_JF_MUST_BE_POSITIVE rs) (\<lambda>rs. Done (j\<lparr>jf := ?l\<rparr>, rs))
        else if 255 < label_nr ?l then
          cbind (report_error st M_JF_TOO_FAR rs) (\<lambda>rs. Done (j\<lparr>jf := ?l\<rparr>, rs))
        else if ucast (r_len rs) < g then
          cbind (report_error st M_JF_INVALID_TAG rs) (\<lambda>rs. Done (j\<lparr>jf := ?l\<rparr>, rs))
        else cbind (mask_and t rs) (\<lambda>rs. cbind (mask_and g rs) (\<lambda>rs. Done (j\<lparr>jf := ?l\<rparr>, mem_valid_all rs))))
      = Done (j', rs')"
    using fl r unfolding Resolver.jf_line_def Let_def f_def [symmetric] g_def
    by (elim disjE) (simp_all del: cbind_eq_Done split del: if_split cong: if_cong)
  have pos: "\<not> negative_nr ?l" and small: "\<not> 255 < label_nr ?l" and ing: "\<not> ucast (r_len rs) < g"
    using r1 e by (auto split: if_splits dest: report_error_error)
  have nn: "n < 32768" using n len by simp
  have cn: "unat (code_nr st) = n" using n nn by (simp add: unat_of_nat)
  have sm: "unat (label_nr ?l) \<le> 255" using small by (simp add: word_le_nat_alt not_less)
  have g: "unat g = n + 1 + unat (label_nr ?l)"
    using cn sm nn by (simp add: g_def unat_word_ariths)
  have gl: "unat g \<le> len" using ing len by (simp add: word_less_nat_alt unat_of_nat not_less)
  have goes: "label_goes L n ?l \<and> (key ?l = None \<or> wf_label ?l)"
  proof (cases "key (jf j) = None")
    case True
    then have "f = of_nat n + 1"
      using n nn by (simp add: f_def unsigned_of_nat take_bit_nat_eq_self)
    then have "label_nr ?l = 0" using n nn by (simp add: set_jt_jf_def unsigned_of_nat take_bit_nat_eq_self)
    then show ?thesis using True by (simp add: label_goes_def set_jt_jf_def)
  next
    case False
    then have f: "f = find_label L (jf j)" by (auto simp: f_def)
    have "wf_label (jf j)" using False wf by (auto simp: wf_jump_def)
    moreover have "unat (find_label L (jf j)) < 32768"
    proof (rule ccontr)
      assume big: "\<not> unat (find_label L (jf j)) < 32768"
      define d where "d = unat f - n - 1"
      have d: "unat f = n + 1 + d" "d < 65536" "1000 < d"
        using big n len find_label_bound [of L "jf j"] f by (simp_all add: d_def)
      have "f = of_nat (unat f)" by simp
      then have "f = of_nat (n + 1 + d)" by (simp only: d(1))
      moreover have "(ucast (code_nr st) :: u32) = of_nat n"
        using n nn by (simp add: unsigned_of_nat take_bit_nat_eq_self)
      ultimately have "label_nr ?l = ucast (of_nat d :: u32)" by (simp add: set_jt_jf_def)
      then have "unat (label_nr ?l) = d" using d by (simp add: unsigned_ucast_eq unsigned_of_nat take_bit_nat_eq_self)
      with sm d show False by simp
    qed
    ultimately show ?thesis using found_label [OF _ _ n(1) nn, of L "jf j"] fl False pos f by simp
  qed
  have j': "j' = j\<lparr>jf := ?l\<rparr>"
    and rs': "rs' = rs\<lparr>r_masks := and_masks (r_mem rs) [unat t, unat g] (r_masks rs), r_mem := - 1\<rparr>"
    using r1 pos small ing by (auto simp: mask_and_done mem_valid_all_def and_masks_def)
  have "jump_targets n j' = [unat t, unat g]" using j' wf t(2) g by (simp add: jump_targets_def)
  moreover have "jump_ok len n j'"
    using j' wf t gl small goes calculation by (auto simp: jump_ok_def wf_jump_def not_less)
  moreover have "jump_labels L n j'" using j' wf t goes by (simp add: jump_labels_def)
  ultimately show ?thesis using rs' by simp
qed

lemma jump_line_ok:
  assumes r: "Resolver.jump_line L st j rs = Done (j', rs')" and e: "\<not> r_error rs'"
    and wf: "wf_jump j" and n: "code_nr st = of_nat n" "n \<le> len"
    and len: "r_len rs = of_nat len" "len < 30000" "length (r_masks rs) = Suc len"
  shows "jump_ok len n j' \<and> jump_labels L n j'
    \<and> rs' = rs\<lparr>r_masks := and_masks (r_mem rs) (jump_targets n j') (r_masks rs), r_mem := - 1\<rparr>"
proof (cases "if_condition j")
  case False
  then show ?thesis using ja_line_ok [OF _ e wf _ n len(1) _ len(3)] r len(2) by (simp add: Resolver.jump_line_def)
next
  case True
  let ?t = "find_label L (jt j)"
  have f: "?t \<noteq> ucast (- 1 :: u16)"
    using r e True by (auto simp: Resolver.jump_line_def Let_def split: if_splits dest: report_error_error)
  let ?l = "set_jt_jf st ?t (jt j)"
  have pos: "\<not> negative_nr ?l"
    using r e f True by (auto simp: Resolver.jump_line_def Let_def split: if_splits dest: report_error_error)
  have small: "\<not> 255 < label_nr ?l"
    using r e f pos True by (auto simp: Resolver.jump_line_def Let_def split: if_splits dest: report_error_error)
  have ing: "\<not> ucast (r_len rs) < ?t"
    using r e f pos small True by (auto simp: Resolver.jump_line_def Let_def split: if_splits dest: report_error_error)
  have r1: "Resolver.jf_line L st ?t (j\<lparr>jt := ?l\<rparr>) rs = Done (j', rs')"
    using r f pos small ing True by (simp add: Resolver.jump_line_def Let_def)
  have t: "unat ?t \<le> len" using ing len by (simp add: word_less_nat_alt unat_of_nat not_less)
  have "wf_label (jt j)" using wf by (simp add: wf_jump_def)
  with found_label [OF f _ n(1) _ _ pos] n len t
  have fl: "unat ?t = n + 1 + unat (label_nr ?l)" "label_goes L n ?l" "wf_label ?l" by simp_all
  show ?thesis
    by (rule jf_line_ok [OF r1 e _ _ n len t]) (use wf True fl small in \<open>simp_all add: wf_jump_def not_less\<close>)
qed

section \<open>Statements\<close>

definition masks_out :: "u16 \<Rightarrow> nat \<Rightarrow> line_t \<Rightarrow> u16 list \<Rightarrow> u16 list" where
  "masks_out m n l ms = (case l of JUMP_LINE j \<Rightarrow> and_masks m (jump_targets n j) ms | _ \<Rightarrow> ms)"

definition next_mem :: "u16 \<Rightarrow> line_t \<Rightarrow> u16" where
  "next_mem m l = (case l of JUMP_LINE j \<Rightarrow> - 1 | _ \<Rightarrow> mem_out m l)"

definition line_labels :: "str_table \<Rightarrow> nat \<Rightarrow> line_t \<Rightarrow> bool" where
  "line_labels L n l = (case l of JUMP_LINE j \<Rightarrow> jump_labels L n j | _ \<Rightarrow> True)"

lemma r_error_mono:
  assumes "resolve_statement L st rs = Done (st', rs')" "r_error rs"
  shows "r_error rs'"
proof -
  have m: "mask_and i rs = Done rs' \<Longrightarrow> r_error rs' = r_error rs" for i rs rs'
    by (auto simp: mask_and_def split: if_splits)
  show ?thesis
    using assms
    by (auto simp: resolve_statement_def Resolver.assign_line_def Resolver.jump_line_def Resolver.ja_line_def jf_line_def
        Resolver.return_line_def Let_def report_if_def mem_valid_all_def
        dest!: m report_error_error error_line_error
        split: line_t.splits if_splits option.splits prod.splits)
qed

lemma resolve_statement_ok:
  assumes r: "resolve_statement L st rs = Done (st', rs')" and e: "\<not> r_error rs'"
    and wf: "wf_line (line st)" and n: "code_nr st = of_nat n" "n \<le> len"
    and len: "r_len rs = of_nat len" "len < 30000" "length (r_masks rs) = Suc len"
  shows "line_ok (r_mem rs) len n (line st') \<and> line_labels L n (line st') \<and> st' = st\<lparr>line := line st'\<rparr>
    \<and> rs' = rs\<lparr>r_masks := masks_out (r_mem rs) n (line st') (r_masks rs),
        r_mem := next_mem (r_mem rs) (line st')\<rparr>
    \<and> is_return (line st') = is_return (line st)"
proof (cases "line st")
  case (ASSIGN_LINE al)
  with r wf assign_line_ok [of st al rs rs'] e show ?thesis
    by (auto simp: resolve_statement_def line_ok_def line_labels_def masks_out_def next_mem_def wf_line_def is_return_def)
next
  case (JUMP_LINE j)
  with r obtain j' where "Resolver.jump_line L st j rs = Done (j', rs')" "st' = st\<lparr>line := JUMP_LINE j'\<rparr>"
    by (auto simp: resolve_statement_def)
  with jump_line_ok [OF this(1) e _ n len] wf JUMP_LINE show ?thesis
    by (auto simp: line_ok_def line_labels_def masks_out_def next_mem_def wf_line_def is_return_def)
next
  case (RETURN_LINE ret)
  with r have s: "st' = st" and q: "Resolver.return_line st ret rs = Done rs'"
    by (auto simp: resolve_statement_def)
  from q e have rs': "rs' = rs" and d: "obj_type (ret_obj ret) \<in> {TRACE, TRAP, ERRNO} \<longrightarrow> obj_data (ret_obj ret) \<le> 0xffff"
    by (auto simp: Resolver.return_line_def Let_def not_less split: if_splits dest: report_error_error)
  show ?thesis using RETURN_LINE s rs' d wf
    by (auto simp: line_ok_def line_labels_def masks_out_def next_mem_def wf_line_def return_ok_def mem_out_def)
next
  case (ERROR_LINE x)
  with r e show ?thesis by (auto simp: resolve_statement_def dest: error_line_error)
qed (use r in \<open>simp_all add: resolve_statement_def\<close>)

section \<open>The loop\<close>

lemma nth_and_masks:
  "length (and_masks m ts ms) = length ms"
  "i < length ms \<Longrightarrow> words_in (and_masks m ts ms ! i) (ms ! i)"
  "i < length ms \<Longrightarrow> i \<in> set ts \<Longrightarrow> words_in (and_masks m ts ms ! i) m"
proof -
  have "length (and_masks m ts ms) = length ms
    \<and> (i < length ms \<longrightarrow> words_in (and_masks m ts ms ! i) (ms ! i))
    \<and> (i < length ms \<longrightarrow> i \<in> set ts \<longrightarrow> words_in (and_masks m ts ms ! i) m)"
  proof (induction ts arbitrary: ms)
    case (Cons t ts)
    define ms' where "ms' = ms[t := ms ! t AND m]"
    have st: "and_masks m (t # ts) ms = and_masks m ts ms'" by (simp add: and_masks_def ms'_def)
    have l: "length ms' = length ms" by (simp add: ms'_def)
    have a: "i < length ms \<Longrightarrow> words_in (ms' ! i) (ms ! i)"
      by (cases "i = t") (auto simp: ms'_def words_in_and)
    have b: "i < length ms \<Longrightarrow> i = t \<Longrightarrow> words_in (ms' ! i) m"
      by (simp add: ms'_def words_in_and)
    show ?case using Cons.IH [of ms'] st l a b by (auto intro: words_in_trans)
  qed (simp add: and_masks_def)
  then show "length (and_masks m ts ms) = length ms"
    "i < length ms \<Longrightarrow> words_in (and_masks m ts ms ! i) (ms ! i)"
    "i < length ms \<Longrightarrow> i \<in> set ts \<Longrightarrow> words_in (and_masks m ts ms ! i) m"
    by auto
qed

text \<open>
  \<open>code T n\<close> is the code line number \<open>n\<close>. \<open>incoming V P n rs\<close>: the state before line \<open>n\<close>
  allows at most the words that the lines before it, resolved to \<open>P\<close>, hand on.
\<close>

definition code :: "statement_t list \<Rightarrow> nat \<Rightarrow> statement_t" where
  "code T n = T ! (code_lines T ! n)"

definition incoming :: "(nat \<Rightarrow> u16) \<Rightarrow> (nat \<Rightarrow> line_t) \<Rightarrow> nat \<Rightarrow> rstate \<Rightarrow> bool" where
  "incoming V P n rs \<longleftrightarrow>
     (\<forall>k m. 0 < k \<longrightarrow> k < n \<longrightarrow> m \<in> set (targets k (P k)) \<longrightarrow> n \<le> m \<longrightarrow> m < length (r_masks rs) \<longrightarrow>
        words_in (if m = n then r_mem rs AND r_masks rs ! m else r_masks rs ! m) (mem_out (V k) (P k)))"

lemma incomingD:
  "incoming V P n rs \<Longrightarrow> 0 < k \<Longrightarrow> k < n \<Longrightarrow> m \<in> set (targets k (P k)) \<Longrightarrow> n \<le> m \<Longrightarrow>
   m < length (r_masks rs) \<Longrightarrow>
   words_in (if m = n then r_mem rs AND r_masks rs ! m else r_masks rs ! m) (mem_out (V k) (P k))"
  by (simp add: incoming_def)

definition certified :: "(nat \<Rightarrow> u16) \<Rightarrow> (nat \<Rightarrow> line_t) \<Rightarrow> nat \<Rightarrow> nat \<Rightarrow> bool" where
  "certified V P len n \<longleftrightarrow>
     (\<forall>k m. 0 < k \<longrightarrow> k < n \<longrightarrow> m \<in> set (targets k (P k)) \<longrightarrow> m < n \<longrightarrow> m \<le> len \<longrightarrow>
        words_in (V m) (mem_out (V k) (P k)))
     \<and> (\<forall>k. 0 < k \<longrightarrow> k < n \<longrightarrow> line_ok (V k) len k (P k))"

text \<open>One more line: its entry set, and what it does to the masks behind it.\<close>

lemma incoming_step:
  assumes inc: "incoming V P n rs" and n: "0 < n" "n < length (r_masks rs)"
    and V: "V n = r_mem rs AND r_masks rs ! n"
    and rs': "r_masks rs' = masks_out (V n) n (P n) (r_masks rs)" "r_mem rs' = next_mem (V n) (P n)"
  shows "incoming V P (Suc n) rs'"
  unfolding incoming_def
proof (intro allI impI)
  fix k m assume k: "0 < k" "k < Suc n" "m \<in> set (targets k (P k))" "Suc n \<le> m" "m < length (r_masks rs')"
  have len: "length (r_masks rs') = length (r_masks rs)"
    using rs' by (auto simp: masks_out_def nth_and_masks split: line_t.splits)
  have sub: "words_in (r_masks rs' ! m) (r_masks rs ! m)"
    using rs' k len by (auto simp: masks_out_def nth_and_masks split: line_t.splits)
  let ?w = "if m = Suc n then r_mem rs' AND r_masks rs' ! m else r_masks rs' ! m"
  have w: "words_in ?w (r_masks rs' ! m)" by (simp add: words_in_and)
  show "words_in ?w (mem_out (V k) (P k))"
  proof (cases "k = n")
    case False
    with incomingD [OF inc, of k m] k n len have "words_in (r_masks rs ! m) (mem_out (V k) (P k))"
      by simp
    with w sub show ?thesis by (blast intro: words_in_trans)
  next
    case True
    show ?thesis
    proof (cases "P n")
      case (JUMP_LINE j)
      then have "words_in (r_masks rs' ! m) (V n)"
        using k True rs' len by (auto simp: masks_out_def targets_def nth_and_masks)
      with w JUMP_LINE True show ?thesis by (auto simp: mem_out_def intro: words_in_trans)
    next
      case (ASSIGN_LINE al)
      then have "m = Suc n" using k True by (simp add: targets_def)
      then show ?thesis using ASSIGN_LINE True rs' by (auto simp: next_mem_def words_in_and)
    next
      case (RETURN_LINE r)
      then have "m = Suc n" using k True by (simp add: targets_def)
      then show ?thesis using RETURN_LINE True rs' by (auto simp: next_mem_def words_in_and)
    qed (use k True in \<open>simp_all add: targets_def\<close>)
  qed
qed

lemma certified_step:
  assumes c: "certified V P len n" and inc: "incoming V P n rs" and n: "0 < n" "n < length (r_masks rs)"
    and V: "V n = r_mem rs AND r_masks rs ! n" and ok: "line_ok (V n) len n (P n)"
    and tgt: "\<And>m. m \<in> set (targets n (P n)) \<Longrightarrow> n < m"
  shows "certified V P len (Suc n)"
  unfolding certified_def
proof (intro conjI allI impI)
  fix k m assume k: "0 < k" "k < Suc n" "m \<in> set (targets k (P k))" "m < Suc n" "m \<le> len"
  show "words_in (V m) (mem_out (V k) (P k))"
  proof (cases "m = n")
    case False
    with k tgt have "k \<noteq> n" by fastforce
    with False k c show ?thesis by (auto simp: certified_def)
  next
    case True
    with k tgt have "k < n" by (cases "k = n") auto
    with True incomingD [OF inc, of k n] k n V show ?thesis by simp
  qed
qed (use c ok in \<open>auto simp: certified_def less_Suc_eq\<close>)

lemma targets_later: "m \<in> set (targets n l) \<Longrightarrow> n < m"
  by (auto simp: targets_def jump_targets_def split: line_t.splits if_splits)

lemma incoming_cong:
  "(\<And>k. k < n \<Longrightarrow> V k = V' k \<and> P k = P' k) \<Longrightarrow> incoming V P n rs = incoming V' P' n rs"
  by (simp add: incoming_def)

lemma certified_cong:
  "(\<And>k. k < n \<Longrightarrow> V k = V' k \<and> P k = P' k) \<Longrightarrow> certified V P len n = certified V' P' len n"
  by (simp add: certified_def)

text \<open>The result of the loop: only the lines change, and only those of the code lines passed.\<close>

definition lines_changed :: "nat list \<Rightarrow> statement_t list \<Rightarrow> statement_t list \<Rightarrow> bool" where
  "lines_changed xs T T' \<longleftrightarrow>
     length T' = length T \<and> (\<forall>x. x \<notin> set xs \<longrightarrow> T' ! x = T ! x)
     \<and> (\<forall>x. T' ! x = (T ! x)\<lparr>line := line (T' ! x)\<rparr>)
     \<and> (\<forall>x. is_return (line (T' ! x)) = is_return (line (T ! x)))"

lemma lines_changed_refl: "lines_changed xs T T"
  by (simp add: lines_changed_def)

lemma lines_changed_step:
  assumes c: "lines_changed xs (T[x := st]) T'" and st: "st = (T ! x)\<lparr>line := line st\<rparr>"
    "is_return (line st) = is_return (line (T ! x))" and x: "x < length T"
  shows "lines_changed (x # xs) T T'"
  unfolding lines_changed_def
proof (intro conjI allI impI)
  fix y
  have u: "T[x := st] ! y = (T ! y)\<lparr>line := line (T[x := st] ! y)\<rparr>"
    using st(1) x by (cases "y = x") simp_all
  have "T' ! y = (T[x := st] ! y)\<lparr>line := line (T' ! y)\<rparr>" using c by (simp add: lines_changed_def)
  then show "T' ! y = (T ! y)\<lparr>line := line (T' ! y)\<rparr>" by (subst (asm) u) simp
  show "is_return (line (T' ! y)) = is_return (line (T ! y))"
    using c st x by (cases "y = x") (simp_all add: lines_changed_def)
  show "T' ! y = T ! y" if "y \<notin> set (x # xs)"
    using c that by (simp add: lines_changed_def)
qed (use c in \<open>simp add: lines_changed_def\<close>)

text \<open>What a loop over the code lines \<open>CL\<close> has established in front of line \<open>n\<close>.\<close>

definition passed :: "str_table \<Rightarrow> nat list \<Rightarrow> (nat \<Rightarrow> u16) \<Rightarrow> statement_t list \<Rightarrow> nat \<Rightarrow> bool" where
  "passed L CL V T n \<longleftrightarrow>
     certified V (\<lambda>k. line (T ! (CL ! k))) (length CL - 1) n
     \<and> (\<forall>k. 0 < k \<longrightarrow> k < n \<longrightarrow> line_labels L k (line (T ! (CL ! k))))"

lemma resolve_loop_ok:
  assumes r: "resolve_loop L i cs T rs = Done (T', rs')" and e: "\<not> r_error rs'"
    and cs: "cs = map of_nat (drop i CL)" "0 < i" "distinct CL" "\<forall>x \<in> set CL. x < length T" "length T \<le> 65536"
    and todo: "\<And>n. i \<le> n \<Longrightarrow> n < length CL \<Longrightarrow>
        wf_line (line (T ! (CL ! n))) \<and> code_nr (T ! (CL ! n)) = of_nat n"
    and len: "length CL - 1 < 30000" "r_len rs = of_nat (length CL - 1)" "length (r_masks rs) = length CL"
    and inc: "incoming V (\<lambda>k. line (T ! (CL ! k))) i rs" and ps: "passed L CL V T i"
    and i: "i \<le> length CL"
  shows "(\<exists>V'. passed L CL V' T' (length CL) \<and> (\<forall>k < i. V' k = V k) \<and> (i < length CL \<longrightarrow> V' i = r_mem rs AND r_masks rs ! i))
    \<and> lines_changed (drop i CL) T T'"
  using assms
proof (induction cs arbitrary: i T rs V)
  case Nil
  then have "i = length CL" "T' = T" by auto
  with Nil show ?case by (auto simp: lines_changed_refl)
next
  case (Cons c cs)
  have i: "i < length CL" using Cons.prems(3) by (cases "i < length CL") simp_all
  let ?x = "CL ! i"
  have dr: "drop i CL = ?x # drop (Suc i) CL" using i by (simp add: Cons_nth_drop_Suc)
  have x: "?x < length T" using Cons.prems(6) i by simp
  have c: "c = of_nat ?x" "cs = map of_nat (drop (Suc i) CL)" using Cons.prems(3) dr by simp_all
  have ux: "unat c = ?x" using c(1) x Cons.prems(7) by (simp add: unat_of_nat)
  define rs0 where "rs0 = rs\<lparr>r_mem := r_mem rs AND r_masks rs ! i\<rparr>"
  from Cons.prems(1) ux x i Cons.prems(11) obtain st rs1 where
    st: "resolve_statement L (T ! ?x) rs0 = Done (st, rs1)" and
    rest: "resolve_loop L (Suc i) cs (T[?x := st]) rs1 = Done (T', rs')"
    by (auto simp: rs0_def)
  have e1: "\<not> r_error rs1"
  proof -
    have "r_error rs1 \<Longrightarrow> resolve_loop L j ds U rs1 = Done (T', rs') \<Longrightarrow> r_error rs'" for j ds U rs1
    proof (induction ds arbitrary: j U rs1)
      case (Cons d ds)
      from Cons.prems(2) obtain s2 rs2 where s2: "resolve_statement L (U ! unat d)
          (rs1\<lparr>r_mem := r_mem rs1 AND r_masks rs1 ! j\<rparr>) = Done (s2, rs2)"
        "resolve_loop L (Suc j) ds (U[unat d := s2]) rs2 = Done (T', rs')"
        by (auto split: if_splits)
      have "r_error rs2" by (rule r_error_mono [OF s2(1)]) (use Cons.prems(1) in simp)
      then show ?case using Cons.IH s2(2) by blast
    qed simp
    with rest Cons.prems(2) show ?thesis by blast
  qed
  have il: "i \<le> length CL - 1" using i by simp
  have wf: "wf_line (line (T ! ?x))" "code_nr (T ! ?x) = of_nat i" using Cons.prems(8) [of i] i by simp_all
  from resolve_statement_ok [OF st e1 wf il, simplified rs0_def] Cons.prems(9-11) i
  have R: "line_ok (r_mem rs AND r_masks rs ! i) (length CL - 1) i (line st)" "line_labels L i (line st)"
    "st = (T ! ?x)\<lparr>line := line st\<rparr>" "is_return (line st) = is_return (line (T ! ?x))"
    and rs1: "rs1 = rs0\<lparr>r_masks := masks_out (r_mem rs AND r_masks rs ! i) i (line st) (r_masks rs),
        r_mem := next_mem (r_mem rs AND r_masks rs ! i) (line st)\<rparr>"
    by (auto simp: rs0_def)
  define V1 where "V1 = V(i := r_mem rs AND r_masks rs ! i)"
  let ?T1 = "T[?x := st]"
  let ?P = "\<lambda>T k. line (T ! (CL ! k))"
  have Pi: "?P ?T1 i = line st" using x by simp
  have same: "k < i \<Longrightarrow> ?T1 ! (CL ! k) = T ! (CL ! k)" for k
    using Cons.prems(5) i by (simp add: nth_eq_iff_index_eq)
  have VP: "k < i \<Longrightarrow> V k = V1 k \<and> ?P T k = ?P ?T1 k" for k using same by (simp add: V1_def)
  have inc1: "incoming V1 (?P ?T1) i rs"
    using Cons.prems(12) incoming_cong [of i V V1 "?P T" "?P ?T1" rs] VP by simp
  have cert1: "certified V1 (?P ?T1) (length CL - 1) i"
    using Cons.prems(13) certified_cong [of i V V1 "?P T" "?P ?T1"] VP by (simp add: passed_def)
  have il2: "i < length (r_masks rs)" using i Cons.prems(11) by simp
  have V1i: "V1 i = r_mem rs AND r_masks rs ! i" by (simp add: V1_def)
  have inc2: "incoming V1 (?P ?T1) (Suc i) rs1"
    by (rule incoming_step [OF inc1 Cons.prems(4) il2 V1i]) (use rs1 Pi V1i in \<open>simp_all add: rs0_def\<close>)
  have cert2: "certified V1 (?P ?T1) (length CL - 1) (Suc i)"
    by (rule certified_step [OF cert1 inc1 Cons.prems(4) il2 V1i])
      (use R(1) Pi V1i in \<open>simp_all add: targets_later\<close>)
  have ps2: "passed L CL V1 ?T1 (Suc i)"
    using cert2 Cons.prems(13) R(2) Pi same by (auto simp: passed_def less_Suc_eq)
  have todo2: "wf_line (line (?T1 ! (CL ! n))) \<and> code_nr (?T1 ! (CL ! n)) = of_nat n"
    if "Suc i \<le> n" "n < length CL" for n
    using Cons.prems(5,8) that i by (simp add: nth_eq_iff_index_eq)
  have len2: "r_len rs1 = of_nat (length CL - 1)" "length (r_masks rs1) = length CL"
    using rs1 Cons.prems(10,11) by (auto simp: rs0_def masks_out_def nth_and_masks split: line_t.splits)
  from Cons.IH [OF rest Cons.prems(2) c(2) _ Cons.prems(5) _ _ todo2 Cons.prems(9) len2 inc2 ps2] Cons.prems(6,7) i
  obtain V' where V': "passed L CL V' T' (length CL)" "\<forall>k < Suc i. V' k = V1 k"
    and ch: "lines_changed (drop (Suc i) CL) ?T1 T'"
    by auto
  from lines_changed_step [OF ch R(3,4) x] have "lines_changed (drop i CL) T T'" using dr by simp
  moreover have "\<forall>k < i. V' k = V k" "V' i = r_mem rs AND r_masks rs ! i" using V'(2) by (simp_all add: V1_def)
  ultimately show ?case using V'(1) by auto
qed

section \<open>The code lines of a parsed program\<close>

lemma code_count_upt: "i \<le> length T \<Longrightarrow> code_count T i = length (filter (\<lambda>j. is_code (T ! j)) [0..<i])"
proof (induction i)
  case (Suc i)
  then have "code_count T (Suc i) = code_count T i + (if is_code (T ! i) then 1 else 0)"
    by (simp add: code_count_def take_Suc_conv_app_nth)
  with Suc show ?case by simp
qed (simp add: code_count_def)

lemma code_lines_simps:
  "distinct (code_lines T)" "sorted (code_lines T)"
  "x \<in> set (code_lines T) \<longleftrightarrow> x < length T \<and> is_code (T ! x)"
  by (auto simp: code_lines_def sorted_wrt_filter)

lemma code_lines_split:
  assumes "x \<in> set (code_lines T)"
  shows "code_lines T ! code_count T x = x" "code_count T x < length (code_lines T)"
proof -
  from assms have x: "x < length T" "is_code (T ! x)" by (auto simp: code_lines_simps)
  let ?P = "\<lambda>j. is_code (T ! j)"
  have "[0..<length T] = [0..<x] @ x # [Suc x..<length T]"
    using x upt_add_eq_append [of 0 x "length T - x"] by (simp add: upt_conv_Cons)
  then have "code_lines T = filter ?P [0..<x] @ x # filter ?P [Suc x..<length T]"
    using x by (simp add: code_lines_def)
  then show "code_lines T ! code_count T x = x" "code_count T x < length (code_lines T)"
    using x by (simp_all add: code_count_upt nth_append)
qed

lemma code_count_nth:
  assumes "n < length (code_lines T)"
  shows "code_count T (code_lines T ! n) = n"
proof -
  let ?x = "code_lines T ! n"
  have "?x \<in> set (code_lines T)" using assms by simp
  from code_lines_split [OF this] show ?thesis
    using nth_eq_iff_index_eq [OF code_lines_simps(1) _ assms] by blast
qed

lemma resolve_loop_no_error:
  assumes "resolve_loop L i cs T rs = Done (T', rs')" "\<not> r_error rs'"
    "cs = map of_nat xs" "distinct xs" "\<forall>x \<in> set xs. x < 2 ^ 32" "x \<in> set xs"
  shows "\<not> is_error (line (T ! x))"
  using assms
proof (induction cs arbitrary: i T rs xs)
  case (Cons c cs)
  then obtain y ys where xs: "xs = y # ys" "c = of_nat y" "cs = map of_nat ys" by auto
  have uy: "unat c = y" using xs Cons.prems(5) by (simp add: unat_of_nat)
  from Cons.prems(1) uy obtain st rs1 where
    st: "resolve_statement L (T ! y) (rs\<lparr>r_mem := r_mem rs AND r_masks rs ! i\<rparr>) = Done (st, rs1)" and
    rest: "resolve_loop L (Suc i) cs (T[y := st]) rs1 = Done (T', rs')"
    by (auto split: if_splits)
  have e1: "\<not> r_error rs1"
  proof
    assume "r_error rs1"
    with rest have "r_error rs'"
    proof (induction cs arbitrary: i T st y rs1)
      case (Cons d ds)
      from Cons.prems(1) obtain s2 rs2 where s2: "resolve_statement L (T[y := st] ! unat d)
          (rs1\<lparr>r_mem := r_mem rs1 AND r_masks rs1 ! Suc i\<rparr>) = Done (s2, rs2)"
        "resolve_loop L (Suc (Suc i)) ds (T[y := st, unat d := s2]) rs2 = Done (T', rs')"
        by (auto split: if_splits)
      have "r_error rs2" by (rule r_error_mono [OF s2(1)]) (use Cons.prems(2) in simp)
      then show ?case using Cons.IH s2(2) by blast
    qed simp
    with Cons.prems(2) show False ..
  qed
  show ?case
  proof (cases "x = y")
    case True
    with st e1 show ?thesis
      by (auto simp: resolve_statement_def is_error_def dest: error_line_error split: line_t.splits)
  next
    case False
    with Cons.IH [OF rest Cons.prems(2) xs(3)] Cons.prems(4-6) xs show ?thesis by auto
  qed
qed simp

lemma in_drop_1: "x \<in> set (drop 1 xs) \<longleftrightarrow> (\<exists>n. 0 < n \<and> n < length xs \<and> x = xs ! n)"
proof
  assume "x \<in> set (drop 1 xs)"
  then obtain m where "m < length (drop 1 xs)" "x = drop 1 xs ! m" by (metis in_set_conv_nth)
  then have "0 < Suc m" "Suc m < length xs" "x = xs ! Suc m" by simp_all
  then show "\<exists>n. 0 < n \<and> n < length xs \<and> x = xs ! n" by blast
next
  assume "\<exists>n. 0 < n \<and> n < length xs \<and> x = xs ! n"
  then obtain n where n: "0 < n" "n < length xs" "x = xs ! n" by blast
  then obtain m where "n = Suc m" by (cases n) simp_all
  with n have "m < length (drop 1 xs)" "x = drop 1 xs ! m" by simp_all
  then show "x \<in> set (drop 1 xs)" by (metis nth_mem)
qed

section \<open>The resolver\<close>

text \<open>What the later stages rely on, of the resolved text.\<close>

definition resolved :: "str_table \<Rightarrow> (nat \<Rightarrow> u16) \<Rightarrow> statement_t list \<Rightarrow> bool" where
  "resolved L V T \<longleftrightarrow>
     (let CL = code_lines T; len = length CL - 1 in
      V 1 = 0 \<and> 0 < len \<and> len \<le> BPF_MAXINSNS \<and> passed L CL V T (length CL)
      \<and> is_return (line (code T len)))"

lemma resolver_resolved:
  assumes r: "resolver L T C = Done (False, T', log)" and wl: "well_laid T C L" and lt: "length T \<le> 65536"
  shows "(\<exists>V. resolved L V T') \<and> code_lines T' = code_lines T \<and> lines_changed (drop 1 (code_lines T)) T T'"
proof -
  let ?CL = "code_lines T"
  have C: "C = map of_nat ?CL" using wl by (simp add: well_laid_def)
  have T0: "T \<noteq> []" "T ! 0 = zero_statement" using wl by (simp_all add: well_laid_def)
  then have z: "0 \<in> set ?CL" by (simp add: code_lines_simps is_code_def zero_statement_def)
  then have CL0: "?CL ! 0 = 0" "0 < length ?CL" using code_lines_split [OF z] by (simp_all add: code_count_def)
  have in_CL: "?CL ! n < length T" "is_code (T ! (?CL ! n))" if "n < length ?CL" for n
    using that nth_mem [of n ?CL] by (simp_all add: code_lines_simps)
  have pos: "0 < ?CL ! n" if "0 < n" "n < length ?CL" for n
    using that CL0 nth_eq_iff_index_eq [OF code_lines_simps(1), of n T 0] by (cases "?CL ! n") auto
  from r obtain rs' where loop: "resolve_loop L 1 (tl C) T (start_rstate C) = Done (T', rs')"
    and ne: "\<not> r_error rs'" and last: "is_return (line (T' ! unat (C ! (length C - 1))))"
    by (auto simp: resolver_def Let_def split: if_splits dest: report_error_error)
  have tlC: "tl C = map of_nat (drop 1 ?CL)" using C by (simp add: drop_Suc map_tl)
  have b32: "\<forall>x \<in> set ?CL. x < 2 ^ 32" using lt by (auto simp: code_lines_simps)
  have no_err: "\<not> is_error (line (T ! (?CL ! n)))" if "0 < n" "n < length ?CL" for n
  proof (rule resolve_loop_no_error [OF loop ne tlC])
    show "distinct (drop 1 ?CL)" by (simp add: code_lines_simps)
    show "\<forall>x \<in> set (drop 1 ?CL). x < 2 ^ 32" using b32 by (blast dest: in_set_dropD)
    show "?CL ! n \<in> set (drop 1 ?CL)" unfolding in_drop_1 using that by blast
  qed
  have nr: "code_nr (T ! (?CL ! n)) = of_nat n" if "n < length ?CL" for n
    using wl in_CL(1) [OF that] code_count_nth [OF that] by (simp add: well_laid_def)
  have len: "length ?CL - 1 \<le> BPF_MAXINSNS"
  proof (rule ccontr)
    assume "\<not> ?thesis"
    then have n: "4097 < length ?CL" by (simp add: BPF_MAXINSNS_def)
    then have "(of_nat 4097 :: u16) \<le> of_nat BPF_MAXINSNS"
      using wl in_CL [OF n] pos [OF _ n] no_err [OF _ n] code_count_nth [OF n] by (auto simp: well_laid_def)
    then show False by (simp add: BPF_MAXINSNS_def)
  qed
  then have len': "length ?CL - 1 < 30000" by (simp add: BPF_MAXINSNS_def)
  have todo: "wf_line (line (T ! (?CL ! n))) \<and> code_nr (T ! (?CL ! n)) = of_nat n"
    if "1 \<le> n" "n < length ?CL" for n
    using wl in_CL [OF that(2)] pos that nr by (auto simp: well_laid_def)
  have ms: "r_len (start_rstate C) = of_nat (length ?CL - 1)" "length (r_masks (start_rstate C)) = length ?CL"
    using C by (simp_all add: start_rstate_def)
  have inc: "incoming (\<lambda>_. 0) P 1 (start_rstate C)" and ps: "passed L ?CL (\<lambda>_. 0) T 1" for P
    by (simp_all add: incoming_def passed_def certified_def)
  have "r_len (start_rstate C) \<noteq> 0" using r by (auto simp: resolver_def Let_def)
  then have lpos: "1 < length ?CL" using ms(1) by (cases "length ?CL - 1 = 0") auto
  from resolve_loop_ok [OF loop ne tlC _ code_lines_simps(1) _ lt todo len' ms inc ps] lpos
  obtain V where V: "passed L ?CL V T' (length ?CL)" "V 1 = r_mem (start_rstate C) AND r_masks (start_rstate C) ! 1"
    and ch: "lines_changed (drop 1 ?CL) T T'"
    by (auto simp: code_lines_simps)
  have "V 1 = 0" using V(2) by (simp add: start_rstate_def)
  have ok: "line_ok (V n) (length ?CL - 1) n (line (T' ! (?CL ! n)))" if "0 < n" "n < length ?CL" for n
    using V(1) that by (simp add: passed_def certified_def)
  have "is_code (T' ! x) = is_code (T ! x)" if "x < length T" for x
  proof (cases "x \<in> set (drop 1 ?CL)")
    case False
    then show ?thesis using ch by (simp add: lines_changed_def)
  next
    case True
    then obtain n where n: "0 < n" "n < length ?CL" "x = ?CL ! n"
      unfolding in_drop_1 by blast
    have "is_code (T' ! x)" using ok [OF n(1,2)] n(3) by (auto simp: is_code_def line_ok_def)
    with in_CL(2) [OF n(2)] n(3) show ?thesis by simp
  qed
  then have CL: "code_lines T' = ?CL"
    using ch by (auto simp: code_lines_def lines_changed_def intro!: filter_cong)
  have "length ?CL - 1 < length ?CL" using lpos by simp
  from in_CL(1) [OF this] lt have "?CL ! (length ?CL - 1) < 2 ^ 32" by simp
  then have u: "unat (C ! (length C - 1)) = ?CL ! (length ?CL - 1)"
    using C lpos by (simp add: unat_of_nat)
  have "resolved L V T'"
    using V(1) \<open>V 1 = 0\<close> lpos len last unfolding u by (simp add: resolved_def CL code_def)
  with CL ch show ?thesis by auto
qed

end
