(* ===== verification/Asm.thy ===== *)
theory Asm
  imports Statements Arch_Trans Numbers Bpf
begin

text \<open>
  \<open>src/asm.c\<close>: from resolved statements to filters, and the four output formats. The
  \<open>fwrite\<close> and \<open>fprintf\<close> to standard output are the strings they write. The jump line the
  assembler swaps in place is read by nobody afterwards, so only the filter is returned.
\<close>

section \<open>Assembling a statement\<close>

definition retvals :: "token_type \<Rightarrow> u32 cres" where
  "retvals t =
     (if t = KILL_PROC then Done RET_KILL_PROCESS
      else if t = KILL then Done RET_KILL
      else if t = ALLOW then Done RET_ALLOW
      else if t = NOTIFY then Done RET_USER_NOTIF
      else if t = LOG then Done RET_LOG
      else if t = TRACE then Done RET_TRACE
      else if t = TRAP then Done RET_TRAP
      else if t = ERRNO then Done RET_ERRNO
      else Crash ''read outside retvals'')"

definition return_line :: "return_line_t \<Rightarrow> sock_filter cres" where
  "return_line r =
     (let f = zero_filter\<lparr>sf_code := BPF_RET\<rparr>; obj = ret_obj r in
      if obj_type obj = Tk_A then Done (f\<lparr>sf_code := sf_code f OR BPF_A\<rparr>)
      else
        let f = f\<lparr>sf_code := sf_code f OR BPF_K\<rparr> in
        if obj_type obj = NUMBER then Done (f\<lparr>sf_k := obj_data obj\<rparr>)
        else cbind (retvals (obj_type obj)) (\<lambda>v. Done (f\<lparr>sf_k := v OR obj_data obj\<rparr>)))"

definition operator_table :: "token_type \<Rightarrow> u16 cres" where
  "operator_table t =
     (case t of
        Assign_tk op \<Rightarrow> Done (case op of
            ADD_TO' \<Rightarrow> BPF_ADD | SUB_TO' \<Rightarrow> BPF_SUB | MULTI_TO' \<Rightarrow> BPF_MUL | DIVIDE_TO' \<Rightarrow> BPF_DIV
          | LSH_TO' \<Rightarrow> BPF_LSH | RSH_TO' \<Rightarrow> BPF_RSH | AND_TO' \<Rightarrow> BPF_AND | OR_TO' \<Rightarrow> BPF_OR
          | XOR_TO' \<Rightarrow> BPF_XOR)
      | _ \<Rightarrow> Crash ''read outside operator_table'')"

definition alu_line :: "assign_line_t \<Rightarrow> sock_filter cres" where
  "alu_line al =
     cbind (operator_table (operator al)) (\<lambda>op.
     let f = zero_filter\<lparr>sf_code := BPF_ALU OR op\<rparr>; right = right_var al in
     Done (if obj_type right = Tk_X then f\<lparr>sf_code := sf_code f OR BPF_X\<rparr>
           else if obj_type right = NUMBER
             then f\<lparr>sf_code := sf_code f OR BPF_K, sf_k := obj_data right\<rparr>
           else f))"

definition negative_line :: "sock_filter" where
  "negative_line = zero_filter\<lparr>sf_code := BPF_ALU OR BPF_NEG\<rparr>"

definition st_stx_line :: "assign_line_t \<Rightarrow> sock_filter" where
  "st_stx_line al =
     (let f = zero_filter\<lparr>sf_k := obj_data (left_var al)\<rparr>; rt = obj_type (right_var al) in
      if rt = Tk_A then f\<lparr>sf_code := BPF_ST\<rparr>
      else if rt = Tk_X then f\<lparr>sf_code := BPF_STX\<rparr>
      else f)"

definition ldx_line :: "assign_line_t \<Rightarrow> sock_filter cres" where
  "ldx_line al =
     (let right = right_var al; rt = obj_type right in
      if rt = Tk_A then Done (zero_filter\<lparr>sf_code := BPF_MISC OR BPF_TAX\<rparr>)
      else if rt = NUMBER then Done (zero_filter\<lparr>sf_code := BPF_LDX OR BPF_IMM, sf_k := obj_data right\<rparr>)
      else if rt = MEM then Done (zero_filter\<lparr>sf_code := BPF_LDX OR BPF_MEM, sf_k := obj_data right\<rparr>)
      else if rt = ATTR_LEN then Done (zero_filter\<lparr>sf_code := BPF_LDX OR BPF_LEN, sf_k := obj_data right\<rparr>)
      else Crash ''right_var is neither NUM, MEM nor ATTR_LEN'')"

definition offset_table :: "token_type \<Rightarrow> u32 cres" where
  "offset_table t =
     (if t = ATTR_SYSCALL then Done 0
      else if t = ATTR_ARCH then Done 4
      else if t = ATTR_LOWPC then Done 8
      else if t = ATTR_HIGHPC then Done 12
      else if t = ATTR_LOWARG then Done 16
      else if t = ATTR_HIGHARG then Done 20
      else Crash ''read outside offset_table'')"

definition offset_abs :: "obj_t \<Rightarrow> u32 cres" where
  "offset_abs obj =
     cbind (offset_table (obj_type obj)) (\<lambda>off.
     Done (if obj_type obj = ATTR_LOWARG \<or> obj_type obj = ATTR_HIGHARG
           then off + obj_data obj * 8 else off))"

definition ld_line :: "assign_line_t \<Rightarrow> sock_filter cres" where
  "ld_line al =
     (let right = right_var al; rt = obj_type right in
      if rt = Tk_X then Done (zero_filter\<lparr>sf_code := BPF_MISC OR BPF_TXA\<rparr>)
      else if rt = ATTR_LEN then Done (zero_filter\<lparr>sf_code := BPF_LD OR BPF_LEN\<rparr>)
      else if rt = NUMBER then Done (zero_filter\<lparr>sf_code := BPF_LD OR BPF_IMM, sf_k := obj_data right\<rparr>)
      else if rt = MEM then Done (zero_filter\<lparr>sf_code := BPF_LD OR BPF_MEM, sf_k := obj_data right\<rparr>)
      else cbind (offset_abs right) (\<lambda>k.
        Done (zero_filter\<lparr>sf_code := BPF_LD OR BPF_W OR BPF_ABS, sf_k := k\<rparr>)))"

definition assign_line :: "assign_line_t \<Rightarrow> sock_filter cres" where
  "assign_line al =
     (if tk_between ADD_TO XOR_TO (operator al) then alu_line al
      else if operator al = NEGATIVE then Done negative_line
      else if obj_type (left_var al) = MEM then Done (st_stx_line al)
      else if obj_type (left_var al) = Tk_X then ldx_line al
      else if obj_type (left_var al) \<noteq> Tk_A then Crash ''assert (left_var.type == A)''
      else ld_line al)"

definition reverse_jf_jt :: "jump_line_t \<Rightarrow> jump_line_t" where
  "reverse_jf_jt j = j\<lparr>jt := jf j, jf := jt j\<rparr>"

definition comparator_table :: "token_type \<Rightarrow> u16 cres" where
  "comparator_table t =
     (case t of
        Compare_tk c \<Rightarrow> Done (case c of
            EQUAL_EQUAL' \<Rightarrow> BPF_JEQ | BANG_EQUAL' \<Rightarrow> BPF_JEQ | GREATER_EQUAL' \<Rightarrow> BPF_JGE
          | LESS_THAN' \<Rightarrow> BPF_JGE | GREATER_THAN' \<Rightarrow> BPF_JGT | LESS_EQUAL' \<Rightarrow> BPF_JGT
          | Tk_AND' \<Rightarrow> BPF_JSET)
      | _ \<Rightarrow> Crash ''read outside comparator_table'')"

definition jump_line :: "jump_line_t \<Rightarrow> sock_filter cres" where
  "jump_line j =
     (if \<not> if_condition j then
        Done (zero_filter\<lparr>sf_code := BPF_JMP OR BPF_JA, sf_k := ucast (label_nr (jt j))\<rparr>)
      else
        let cmp = comparator j;
            sym_reverse = (cmp = BANG_EQUAL \<or> cmp = LESS_EQUAL \<or> cmp = LESS_THAN)
        in cbind (comparator_table cmp) (\<lambda>op.
           let f = zero_filter\<lparr>sf_code := BPF_JMP OR op\<rparr>;
               j = (if sym_reverse \<noteq> if_bang j then reverse_jf_jt j else j);
               f = f\<lparr>sf_jt := ucast (label_nr (jt j)), sf_jf := ucast (label_nr (jf j))\<rparr>;
               obj = cmpobj j
           in Done (if obj_type obj = Tk_X then f\<lparr>sf_code := sf_code f OR BPF_X\<rparr>
                    else if obj_type obj = NUMBER
                      then f\<lparr>sf_code := sf_code f OR BPF_K, sf_k := obj_data obj\<rparr>
                    else f)))"

definition asm_statement :: "statement_t \<Rightarrow> sock_filter cres" where
  "asm_statement st =
     (case line st of
        RETURN_LINE r \<Rightarrow> return_line r
      | ASSIGN_LINE al \<Rightarrow> assign_line al
      | JUMP_LINE j \<Rightarrow> jump_line j
      | _ \<Rightarrow> Crash ''assert (0)'')"

section \<open>Output formats\<close>

datatype print_mode_t = HEXLINE | HEXFMT | RAW | C_MACRO

definition hexify :: "u8 \<Rightarrow> string" where
  "hexify ch = [digit_char (unat (drop_bit 4 ch)), digit_char (unat (ch AND 0xf))]"

text \<open>\<open>\\x\<close> and two digits for every byte.\<close>

definition hex_escapes :: "u8 list \<Rightarrow> string" where
  "hex_escapes bs = concat (map (\<lambda>b. CHR 0x5C # CHR ''x'' # hexify b) bs)"

definition hexfmt_handle :: "bool \<Rightarrow> sock_filter \<Rightarrow> string" where
  "hexfmt_handle big f = [CHR 0x22] @ hex_escapes (filter_bytes big f) @ [CHR 0x22, CHR '','', CHR 0x0A]"

definition hexline_handle :: "bool \<Rightarrow> sock_filter \<Rightarrow> string" where
  "hexline_handle big f = hex_escapes (filter_bytes big f)"

definition raw_handle :: "bool \<Rightarrow> sock_filter \<Rightarrow> string" where
  "raw_handle big f = map (\<lambda>b. char_of (unat b)) (filter_bytes big f)"

definition bpf_jump_str :: "string \<Rightarrow> string \<Rightarrow> sock_filter \<Rightarrow> string" where
  "bpf_jump_str code k f =
     ''BPF_JUMP('' @ code @ '', '' @ k @ '', '' @ dec_str (unat (sf_jt f)) @ '', ''
       @ dec_str (unat (sf_jf f)) @ ''),'' @ [CHR 0x0A]"

definition bpf_stmt_str :: "string \<Rightarrow> string \<Rightarrow> string" where
  "bpf_stmt_str code k = ''BPF_STMT('' @ code @ '', '' @ k @ ''),'' @ [CHR 0x0A]"

definition abs_member :: "u32 \<Rightarrow> string cres" where
  "abs_member k =
     (let i = unat (drop_bit 2 k) in
      if i = 0 then Done ''nr''
      else if i = 1 then Done ''arch''
      else if i \<le> 3 then Done ''instruction_pointer''
      else if i \<le> 15 then Done (''args['' @ dec_str ((i - 4) div 2) @ '']'')
      else Crash ''Unexpected filter->k'')"

definition dataless_macro :: "u32 \<Rightarrow> string option" where
  "dataless_macro k =
     (if k = RET_KILL then Some ''SECCOMP_RET_KILL''
      else if k = RET_KILL_PROCESS then Some ''SECCOMP_RET_KILL_PROCESS''
      else if k = RET_ALLOW then Some ''SECCOMP_RET_ALLOW''
      else if k = RET_LOG then Some ''SECCOMP_RET_LOG''
      else if k = RET_USER_NOTIF then Some ''SECCOMP_RET_USER_NOTIF''
      else None)"

definition dataful_macro :: "u32 \<Rightarrow> string option" where
  "dataful_macro k =
     (let a = k AND RET_ACTION in
      if a = RET_TRACE then Some ''SECCOMP_RET_TRACE''
      else if a = RET_TRAP then Some ''SECCOMP_RET_TRAP''
      else if a = RET_ERRNO then Some ''SECCOMP_RET_ERRNO''
      else None)"

definition c_macro_handle :: "scmp_lib \<Rightarrow> statement_t \<Rightarrow> sock_filter \<Rightarrow> string cres" where
  "c_macro_handle lib st f =
     cbind (get_insn_name (sf_code f)) (\<lambda>code.
     let k = sf_k f in
     if BPF_CLASS (sf_code f) = BPF_JMP then
       (case line st of
          JUMP_LINE j \<Rightarrow>
            (case cmptype j of
               CMP_SYSCALL \<Rightarrow>
                 Done (bpf_jump_str code (''SYS_'' @ (case literal (cmpobj j) of None \<Rightarrow> [] | Some s \<Rightarrow> s)) f)
             | CMP_ARCH \<Rightarrow> cbind (scmp_arch_to_scmp_str lib k) (\<lambda>s. Done (bpf_jump_str code s f))
             | _ \<Rightarrow> Done (bpf_jump_str code (alt_hex_str (unat k)) f))
        | _ \<Rightarrow> Crash ''jump_line of another line'')
     else if sf_code f = BPF_LD OR BPF_W OR BPF_ABS then
       cbind (abs_member k) (\<lambda>m.
       Done (bpf_stmt_str code (''offsetof(struct seccomp_data, '' @ m @ '')''
         @ (if k AND 4 \<noteq> 0 \<and> k \<noteq> 4 then '' + 4'' else []))))
     else if sf_code f = BPF_RET OR BPF_K then
       (case dataless_macro k of
          Some m \<Rightarrow> Done (bpf_stmt_str code m)
        | None \<Rightarrow>
            (case dataful_macro k of
               Some m \<Rightarrow> Done (bpf_stmt_str code (m @ '' | '' @ alt_hex_str (unat (k AND RET_DATA))))
             | None \<Rightarrow> Done (bpf_stmt_str code (alt_hex_str (unat k)))))
     else Done (bpf_stmt_str code (alt_hex_str (unat k))))"

definition handle_filter ::
  "scmp_lib \<Rightarrow> bool \<Rightarrow> print_mode_t \<Rightarrow> statement_t \<Rightarrow> sock_filter \<Rightarrow> string cres" where
  "handle_filter lib big mode st f =
     (case mode of
        HEXFMT \<Rightarrow> Done (hexfmt_handle big f)
      | HEXLINE \<Rightarrow> Done (hexline_handle big f)
      | RAW \<Rightarrow> Done (raw_handle big f)
      | C_MACRO \<Rightarrow> c_macro_handle lib st f)"

end
