(* ===== verification/Bpf_Vm.thy ===== *)
theory Bpf_Vm
  imports Bpf
begin

text \<open>
  The abstract specification the assembler, the checker and the emulator are measured against:
  the classic BPF machine as the kernel runs it for seccomp (\<open>Documentation/networking/filter\<close>
  and \<open>kernel/seccomp.c\<close>), with an accumulator, an index register, sixteen words of scratch
  memory and the 64 bytes of \<open>struct seccomp_data\<close> on a little endian host. Nothing in this
  theory models code of the repository.
\<close>

section \<open>Machine\<close>

record seccomp_data =
  sd_nr :: u32
  sd_arch :: u32
  sd_ip :: u64
  sd_args :: "u64 list"

definition halves :: "u64 \<Rightarrow> u32 list" where
  "halves w = [ucast w, ucast (drop_bit 32 w)]"

definition data_words :: "seccomp_data \<Rightarrow> u32 list" where
  "data_words d = [sd_nr d, sd_arch d] @ halves (sd_ip d) @ concat (map halves (sd_args d))"

record vm =
  vm_A :: u32
  vm_X :: u32
  vm_mem :: "nat \<Rightarrow> u32"

text \<open>\<open>Stuck\<close>: an instruction the kernel refuses.\<close>

datatype vm_out = Next nat vm | Return u32 | Stuck

definition vm_load :: "seccomp_data \<Rightarrow> u32 \<Rightarrow> u32 option" where
  "vm_load d k =
     (if unat k mod 4 = 0 \<and> unat k div 4 < length (data_words d)
      then Some (data_words d ! (unat k div 4)) else None)"

text \<open>\<open>None\<close> is a division by zero; a shift uses the low five bits.\<close>

definition vm_alu :: "u16 \<Rightarrow> u32 \<Rightarrow> u32 \<Rightarrow> u32 option" where
  "vm_alu op a b =
     (if op = BPF_ADD then Some (a + b)
      else if op = BPF_SUB then Some (a - b)
      else if op = BPF_MUL then Some (a * b)
      else if op = BPF_DIV then (if b = 0 then None else Some (a div b))
      else if op = BPF_OR then Some (a OR b)
      else if op = BPF_AND then Some (a AND b)
      else if op = BPF_LSH then Some (push_bit (unat (b AND 0x1f)) a)
      else if op = BPF_RSH then Some (drop_bit (unat (b AND 0x1f)) a)
      else if op = BPF_NEG then Some (- a)
      else Some (a XOR b))"

definition vm_cond :: "u16 \<Rightarrow> u32 \<Rightarrow> u32 \<Rightarrow> bool" where
  "vm_cond op a b =
     (if op = BPF_JEQ then a = b
      else if op = BPF_JGT then b < a
      else if op = BPF_JGE then b \<le> a
      else a AND b \<noteq> 0)"

definition vm_source :: "sock_filter \<Rightarrow> vm \<Rightarrow> u32" where
  "vm_source f s = (if BPF_SRC (sf_code f) = BPF_X then vm_X s else sf_k f)"

definition vm_step :: "seccomp_data \<Rightarrow> sock_filter \<Rightarrow> vm \<Rightarrow> vm_out" where
  "vm_step d f s =
     (let c = sf_code f; k = sf_k f;
          set_A = (\<lambda>w. Next 0 (s\<lparr>vm_A := w\<rparr>));
          set_X = (\<lambda>w. Next 0 (s\<lparr>vm_X := w\<rparr>));
          in_mem = (unat k < BPF_MEMWORDS)
      in if \<not> valid_insn c then Stuck
         else if c = BPF_LD OR BPF_W OR BPF_ABS then
           (case vm_load d k of Some w \<Rightarrow> set_A w | None \<Rightarrow> Stuck)
         else if c = BPF_LD OR BPF_W OR BPF_LEN then set_A SECCOMP_DATA_LEN
         else if c = BPF_LDX OR BPF_W OR BPF_LEN then set_X SECCOMP_DATA_LEN
         else if c = BPF_LD OR BPF_IMM then set_A k
         else if c = BPF_LDX OR BPF_IMM then set_X k
         else if c = BPF_LD OR BPF_MEM then (if in_mem then set_A (vm_mem s (unat k)) else Stuck)
         else if c = BPF_LDX OR BPF_MEM then (if in_mem then set_X (vm_mem s (unat k)) else Stuck)
         else if c = BPF_ST then
           (if in_mem then Next 0 (s\<lparr>vm_mem := (vm_mem s)(unat k := vm_A s)\<rparr>) else Stuck)
         else if c = BPF_STX then
           (if in_mem then Next 0 (s\<lparr>vm_mem := (vm_mem s)(unat k := vm_X s)\<rparr>) else Stuck)
         else if BPF_CLASS c = BPF_ALU then
           (case vm_alu (BPF_OP c) (vm_A s) (vm_source f s) of
              Some w \<Rightarrow> set_A w
            | None \<Rightarrow> Return RET_KILL)
         else if c = BPF_JMP OR BPF_JA then Next (unat k) s
         else if BPF_CLASS c = BPF_JMP then
           Next (unat (if vm_cond (BPF_OP c) (vm_A s) (vm_source f s) then sf_jt f else sf_jf f)) s
         else if c = BPF_RET OR BPF_K then Return k
         else if c = BPF_RET OR BPF_A then Return (vm_A s)
         else if c = BPF_MISC OR BPF_TAX then set_X (vm_A s)
         else set_A (vm_X s))"

text \<open>A program runs forward, so a run ends; leaving the program is \<open>None\<close>.\<close>

function vm_run :: "seccomp_data \<Rightarrow> sock_filter list \<Rightarrow> nat \<Rightarrow> vm \<Rightarrow> u32 option" where
  "vm_run d prog pc s =
     (if pc < length prog then
        (case vm_step d (prog ! pc) s of
           Next j s' \<Rightarrow> vm_run d prog (pc + 1 + j) s'
         | Return w \<Rightarrow> Some w
         | Stuck \<Rightarrow> None)
      else None)"
  by pat_completeness auto
termination
  by (relation "measure (\<lambda>(d, prog, pc, s). length prog - pc)") auto

declare vm_run.simps [simp del]

definition vm_start :: "(nat \<Rightarrow> u32) \<Rightarrow> vm" where
  "vm_start m = \<lparr>vm_A = 0, vm_X = 0, vm_mem = m\<rparr>"

lemma length_data_words: "length (sd_args d) = 6 \<Longrightarrow> length (data_words d) = 16"
proof -
  have "length (concat (map halves xs)) = 2 * length xs" for xs
    by (induction xs) (auto simp: halves_def)
  then show "length (sd_args d) = 6 \<Longrightarrow> length (data_words d) = 16"
    by (simp add: data_words_def halves_def)
qed

end
