(* ===== verification/Filter_Safe.thy ===== *)
theory Filter_Safe
  imports Bpf_Vm Check_Prog
begin

text \<open>
  Which filter programs are safe to run, as the kernel's \<open>bpf_check_classic\<close> and
  \<open>seccomp_check_filter\<close> ask for: known instructions, offsets and indices in range, jumps
  inside the program, a return at the end, and no read of a memory word that some path leaves
  unwritten. A safe program returns whatever its input is (\<open>safe_prog_returns\<close>), and
  \<open>check_prog\<close>, the check ceccomp itself makes, has nothing to report on it
  (\<open>check_prog_safe\<close>); conversely a program it has nothing to report on never gets stuck.
\<close>

section \<open>Safe programs\<close>

definition filter_safe :: "u16 \<Rightarrow> nat \<Rightarrow> nat \<Rightarrow> sock_filter \<Rightarrow> bool" where
  "filter_safe m flen pc f \<longleftrightarrow>
     (let c = sf_code f; k = unat (sf_k f) in
      valid_insn c
      \<and> (c = BPF_LD OR BPF_W OR BPF_ABS \<longrightarrow> k < 64 \<and> sf_k f AND 3 = 0)
      \<and> (c = BPF_ALU OR BPF_DIV OR BPF_K \<longrightarrow> k \<noteq> 0)
      \<and> (c = BPF_ALU OR BPF_LSH OR BPF_K \<or> c = BPF_ALU OR BPF_RSH OR BPF_K \<longrightarrow> k < 32)
      \<and> (c = BPF_LD OR BPF_MEM \<or> c = BPF_LDX OR BPF_MEM \<longrightarrow> k < BPF_MEMWORDS \<and> bit m k)
      \<and> (c = BPF_ST \<or> c = BPF_STX \<longrightarrow> k < BPF_MEMWORDS)
      \<and> (c = BPF_JMP OR BPF_JA \<longrightarrow> pc + 1 + k < flen)
      \<and> (is_jump_code c \<longrightarrow> pc + 1 + unat (sf_jt f) < flen \<and> pc + 1 + unat (sf_jf f) < flen))"

definition filter_targets :: "nat \<Rightarrow> sock_filter \<Rightarrow> nat list" where
  "filter_targets pc f =
     (let c = sf_code f in
      if c = BPF_JMP OR BPF_JA then [pc + 1 + unat (sf_k f)]
      else if is_jump_code c then [pc + 1 + unat (sf_jt f), pc + 1 + unat (sf_jf f)]
      else [pc + 1])"

definition filter_out :: "u16 \<Rightarrow> sock_filter \<Rightarrow> u16" where
  "filter_out m f =
     (if sf_code f = BPF_ST \<or> sf_code f = BPF_STX then set_bit (unat (sf_k f)) m else m)"

text \<open>
  \<open>V pc\<close> are the memory words known to be written in front of \<open>pc\<close>. As in the kernel's check, a
  return hands its words on to the next instruction.
\<close>

definition safe_with :: "(nat \<Rightarrow> u16) \<Rightarrow> sock_filter list \<Rightarrow> bool" where
  "safe_with V prog \<longleftrightarrow>
     V 0 = 0
     \<and> (\<forall>pc < length prog. filter_safe (V pc) (length prog) pc (prog ! pc)
          \<and> (\<forall>t \<in> set (filter_targets pc (prog ! pc)).
               (BPF_CLASS (sf_code (prog ! pc)) \<noteq> BPF_RET \<longrightarrow> t < length prog)
               \<and> (t < length prog \<longrightarrow>
                   (\<forall>i. bit (V t) i \<longrightarrow> bit (filter_out (V pc) (prog ! pc)) i))))"

definition safe_prog :: "sock_filter list \<Rightarrow> bool" where
  "safe_prog prog \<longleftrightarrow>
     prog \<noteq> [] \<and> BPF_CLASS (sf_code (last prog)) = BPF_RET \<and> (\<exists>V. safe_with V prog)"

section \<open>Case analysis of the instruction set\<close>

definition alu_codes :: "u16 list" where
  "alu_codes = map (\<lambda>op. BPF_ALU OR op OR BPF_K)
       [BPF_ADD, BPF_SUB, BPF_MUL, BPF_DIV, BPF_OR, BPF_AND, BPF_LSH, BPF_RSH, BPF_XOR]
     @ map (\<lambda>op. BPF_ALU OR op OR BPF_X)
       [BPF_ADD, BPF_SUB, BPF_MUL, BPF_DIV, BPF_OR, BPF_AND, BPF_LSH, BPF_RSH, BPF_XOR]
     @ [BPF_ALU OR BPF_NEG]"

text \<open>The codes as numbers, evaluated once.\<close>

definition jump_codes :: "u16 list" where
  "jump_codes = map (\<lambda>op. BPF_JMP OR op OR BPF_K) [BPF_JEQ, BPF_JGE, BPF_JGT, BPF_JSET]
     @ map (\<lambda>op. BPF_JMP OR op OR BPF_X) [BPF_JEQ, BPF_JGE, BPF_JGT, BPF_JSET]"

lemma alu_nums: "alu_codes = [4, 20, 36, 52, 68, 84, 100, 116, 164, 12, 28, 44, 60, 76, 92, 108, 124, 172, 132]"
  by (simp add: alu_codes_def)

lemma jump_nums: "jump_codes = [21, 53, 37, 69, 29, 61, 45, 77]"
  by (simp add: jump_codes_def)

lemma is_jump_codes: "is_jump_code c \<longleftrightarrow> c \<in> set jump_codes"
  by (auto simp: is_jump_code_def jump_codes_def)

lemma valid_nums: "valid_insn c \<longleftrightarrow>
    c \<in> set ([32, 128, 129, 6, 22, 0, 1, 7, 135, 96, 97, 2, 3, 5] @ alu_codes @ jump_codes)"
proof -
  have "map fst valid_codes = [32, 128, 129, 6, 22, 4, 12, 20, 28, 36, 44, 52, 60, 84, 92, 68, 76, 164, 172,
      100, 108, 116, 124, 132, 0, 1, 7, 135, 96, 97, 2, 3, 5, 21, 29, 53, 61, 37, 45, 69, 77]"
    by (simp add: valid_codes_def)
  then have "fst ` set valid_codes = set [32, 128, 129, 6, 22, 4, 12, 20, 28, 36, 44, 52, 60, 84, 92, 68, 76, 164, 172,
      100, 108, 116, 124, 132, 0, 1, 7, 135, 96, 97, 2, 3, 5, 21, 29, 53, 61, 37, 45, 69, 77]"
    by (metis list.set_map)
  also have "\<dots> = set ([32, 128, 129, 6, 22, 0, 1, 7, 135, 96, 97, 2, 3, 5] @ alu_codes @ jump_codes)"
    unfolding alu_nums jump_nums by (simp add: insert_commute)
  finally show ?thesis by (simp add: valid_insn_def)
qed

lemma valid_insn_cases:
  assumes "valid_insn c"
  obtains "c = 0x20" | "c = 0x80" | "c = 0x81" | "c = 0x06" | "c = 0x16" | "c \<in> set alu_codes"
    | "c = 0x00" | "c = 0x01" | "c = 0x07" | "c = 0x87" | "c = 0x60" | "c = 0x61" | "c = 0x02"
    | "c = 0x03" | "c = 0x05" | "is_jump_code c"
  using assms unfolding valid_nums is_jump_codes set_append
  by (simp del: alu_nums) blast

lemma valid_insn_simps:
  "valid_insn 0x20" "valid_insn 0x80" "valid_insn 0x81" "valid_insn 0x06" "valid_insn 0x16"
  "valid_insn 0x00" "valid_insn 0x01" "valid_insn 0x07" "valid_insn 0x87" "valid_insn 0x60"
  "valid_insn 0x61" "valid_insn 0x02" "valid_insn 0x03" "valid_insn 0x05"
  by (simp_all add: valid_nums)

lemma alu_code:
  assumes "c \<in> set alu_codes"
  shows "valid_insn c" "BPF_CLASS c = BPF_ALU" "\<not> is_jump_code c" "c \<notin> {32, 128, 129, 6, 22, 0, 1, 7, 135, 96, 97, 2, 3, 5}"
proof -
  have "list_all (\<lambda>c. BPF_CLASS c = BPF_ALU \<and> c \<notin> set jump_codes \<and> c \<notin> {32, 128, 129, 6, 22, 0, 1, 7, 135, 96, 97, 2, 3, 5})
      alu_codes"
    by (simp add: alu_nums jump_nums bpf_fields)
  with assms show "valid_insn c" "BPF_CLASS c = BPF_ALU" "\<not> is_jump_code c"
    "c \<notin> {32, 128, 129, 6, 22, 0, 1, 7, 135, 96, 97, 2, 3, 5}"
    unfolding list_all_iff valid_nums is_jump_codes set_append by blast+
qed

lemma jump_code:
  assumes "is_jump_code c"
  shows "valid_insn c" "BPF_CLASS c = BPF_JMP" "c \<notin> {32, 128, 129, 6, 22, 0, 1, 7, 135, 96, 97, 2, 3, 5, 52, 100, 116}"
proof -
  have "list_all (\<lambda>c. BPF_CLASS c = BPF_JMP \<and> c \<notin> {32, 128, 129, 6, 22, 0, 1, 7, 135, 96, 97, 2, 3, 5, 52, 100, 116}) jump_codes"
    by (simp add: jump_nums bpf_fields)
  with assms show "valid_insn c" "BPF_CLASS c = BPF_JMP" "c \<notin> {32, 128, 129, 6, 22, 0, 1, 7, 135, 96, 97, 2, 3, 5, 52, 100, 116}"
    unfolding list_all_iff valid_nums is_jump_codes set_append by blast+
qed

lemma not_jump_code: "c \<in> {32, 128, 129, 6, 22, 0, 1, 7, 135, 96, 97, 2, 3, 5} \<Longrightarrow> \<not> is_jump_code c"
  using jump_code(3) by blast

text \<open>The step of an instruction of each kind.\<close>

lemma vm_step_alu:
  assumes "sf_code f \<in> set alu_codes"
  shows "vm_step d f s = (case vm_alu (BPF_OP (sf_code f)) (vm_A s) (vm_source f s) of
      Some w \<Rightarrow> Next 0 (s\<lparr>vm_A := w\<rparr>) | None \<Rightarrow> Return RET_KILL)"
  using alu_code [OF assms] by (auto simp: vm_step_def Let_def bpf_fields)

lemma vm_step_jump:
  assumes "is_jump_code (sf_code f)"
  shows "vm_step d f s =
    Next (unat (if vm_cond (BPF_OP (sf_code f)) (vm_A s) (vm_source f s) then sf_jt f else sf_jf f)) s"
  using jump_code [OF assms] by (auto simp: vm_step_def Let_def bpf_fields)

lemma vm_step_simps [vm_simps]:
  "sf_code f = 0x20 \<Longrightarrow> vm_step d f s =
     (case vm_load d (sf_k f) of Some w \<Rightarrow> Next 0 (s\<lparr>vm_A := w\<rparr>) | None \<Rightarrow> Stuck)"
  "sf_code f = 0x80 \<Longrightarrow> vm_step d f s = Next 0 (s\<lparr>vm_A := SECCOMP_DATA_LEN\<rparr>)"
  "sf_code f = 0x81 \<Longrightarrow> vm_step d f s = Next 0 (s\<lparr>vm_X := SECCOMP_DATA_LEN\<rparr>)"
  "sf_code f = 0x06 \<Longrightarrow> vm_step d f s = Return (sf_k f)"
  "sf_code f = 0x16 \<Longrightarrow> vm_step d f s = Return (vm_A s)"
  "sf_code f = 0x00 \<Longrightarrow> vm_step d f s = Next 0 (s\<lparr>vm_A := sf_k f\<rparr>)"
  "sf_code f = 0x01 \<Longrightarrow> vm_step d f s = Next 0 (s\<lparr>vm_X := sf_k f\<rparr>)"
  "sf_code f = 0x07 \<Longrightarrow> vm_step d f s = Next 0 (s\<lparr>vm_X := vm_A s\<rparr>)"
  "sf_code f = 0x87 \<Longrightarrow> vm_step d f s = Next 0 (s\<lparr>vm_A := vm_X s\<rparr>)"
  "sf_code f = 0x60 \<Longrightarrow> vm_step d f s =
     (if unat (sf_k f) < BPF_MEMWORDS then Next 0 (s\<lparr>vm_A := vm_mem s (unat (sf_k f))\<rparr>) else Stuck)"
  "sf_code f = 0x61 \<Longrightarrow> vm_step d f s =
     (if unat (sf_k f) < BPF_MEMWORDS then Next 0 (s\<lparr>vm_X := vm_mem s (unat (sf_k f))\<rparr>) else Stuck)"
  "sf_code f = 0x02 \<Longrightarrow> vm_step d f s =
     (if unat (sf_k f) < BPF_MEMWORDS
      then Next 0 (s\<lparr>vm_mem := (vm_mem s)(unat (sf_k f) := vm_A s)\<rparr>) else Stuck)"
  "sf_code f = 0x03 \<Longrightarrow> vm_step d f s =
     (if unat (sf_k f) < BPF_MEMWORDS
      then Next 0 (s\<lparr>vm_mem := (vm_mem s)(unat (sf_k f) := vm_X s)\<rparr>) else Stuck)"
  "sf_code f = 0x05 \<Longrightarrow> vm_step d f s = Next (unat (sf_k f)) s"
  by (simp_all add: vm_step_def Let_def valid_insn_simps bpf_fields)

lemma filter_targets_jump [vm_simps]:
  "is_jump_code (sf_code f) \<Longrightarrow> filter_targets pc f = [pc + 1 + unat (sf_jt f), pc + 1 + unat (sf_jf f)]"
  using jump_code [of "sf_code f"] by (simp add: filter_targets_def Let_def)

lemma filter_targets_alu [vm_simps]: "sf_code f \<in> set alu_codes \<Longrightarrow> filter_targets pc f = [pc + 1]"
  using alu_code [of "sf_code f"] by (simp add: filter_targets_def Let_def)

lemma filter_targets_ja [vm_simps]: "sf_code f = 0x05 \<Longrightarrow> filter_targets pc f = [pc + 1 + unat (sf_k f)]"
  by (simp add: filter_targets_def)

lemma filter_targets_plain [vm_simps]:
  "sf_code f \<in> {0x20, 0x80, 0x81, 0x06, 0x16, 0x00, 0x01, 0x07, 0x87, 0x60, 0x61, 0x02, 0x03} \<Longrightarrow> filter_targets pc f = [pc + 1]"
  by (auto simp: filter_targets_def Let_def not_jump_code bpf_fields)

section \<open>Safe programs return\<close>

lemma and3_mod4: "sf_k f AND 3 = 0 \<Longrightarrow> unat (sf_k f) mod 4 = 0"
proof -
  assume "sf_k f AND 3 = 0"
  then have "take_bit 2 (sf_k f) = 0" by (simp add: take_bit_eq_mask mask_eq_exp_minus_1)
  then have "take_bit 2 (unat (sf_k f)) = 0" by (metis take_bit_of_0 unsigned_0 unsigned_take_bit_eq)
  then show "unat (sf_k f) mod 4 = 0" by (simp add: take_bit_eq_mod)
qed

text \<open>A safe instruction is not stuck, and hands on to one of its targets.\<close>

lemma safe_step:
  assumes safe: "filter_safe m flen pc f" and args: "length (sd_args d) = 6"
  shows "(\<exists>w. vm_step d f s = Return w)
    \<or> (\<exists>j s'. vm_step d f s = Next j s' \<and> pc + 1 + j \<in> set (filter_targets pc f)
         \<and> BPF_CLASS (sf_code f) \<noteq> BPF_RET)"
proof -
  from safe have "valid_insn (sf_code f)" by (simp add: filter_safe_def Let_def)
  then show ?thesis
  proof (cases rule: valid_insn_cases)
    case 1
    with safe have k: "unat (sf_k f) < 64" "unat (sf_k f) mod 4 = 0"
      by (auto simp: filter_safe_def Let_def intro: and3_mod4)
    then have "unat (sf_k f) div 4 < 16" by simp
    with k args have "vm_load d (sf_k f) \<noteq> None" by (simp add: vm_load_def length_data_words)
    with 1 show ?thesis by (auto simp: vm_simps bpf_fields)
  next
    case 6
    then show ?thesis using alu_code(2) [of "sf_code f"] by (auto simp: vm_step_alu vm_simps split: option.split)
  next
    case 16
    then show ?thesis using jump_code(2) [of "sf_code f"] by (auto simp: vm_step_jump vm_simps)
  qed (use safe in \<open>auto simp: vm_simps bpf_fields filter_safe_def Let_def\<close>)
qed

text \<open>A program of which every instruction is fine by itself, whatever the memory holds.\<close>

definition runs_inside :: "sock_filter list \<Rightarrow> bool" where
  "runs_inside prog \<longleftrightarrow>
     (\<forall>pc < length prog. filter_safe (- 1) (length prog) pc (prog ! pc)
        \<and> (BPF_CLASS (sf_code (prog ! pc)) \<noteq> BPF_RET \<longrightarrow> (\<forall>t \<in> set (filter_targets pc (prog ! pc)). t < length prog)))"

lemma filter_safe_all: "filter_safe m flen pc f \<Longrightarrow> filter_safe (- 1) flen pc f"
  by (simp add: filter_safe_def Let_def BPF_MEMWORDS_def bit_simps)

lemma safe_with_inside: "safe_with V prog \<Longrightarrow> runs_inside prog"
  by (auto simp: safe_with_def runs_inside_def intro: filter_safe_all)

lemma runs_inside_returns:
  assumes "runs_inside prog" "length (sd_args d) = 6" "pc < length prog"
  shows "\<exists>w. vm_run d prog pc s = Some w"
  using assms(3)
proof (induction "length prog - pc" arbitrary: pc s rule: less_induct)
  case less
  from assms(1) less.prems have "filter_safe (- 1) (length prog) pc (prog ! pc)"
    and t: "\<And>t. t \<in> set (filter_targets pc (prog ! pc)) \<Longrightarrow> BPF_CLASS (sf_code (prog ! pc)) \<noteq> BPF_RET \<Longrightarrow>
      t < length prog"
    by (auto simp: runs_inside_def)
  from safe_step [OF this(1) assms(2), of s] show ?case
  proof (elim disjE exE conjE)
    fix w assume "vm_step d (prog ! pc) s = Return w"
    with less.prems show ?thesis by (simp add: vm_run.simps)
  next
    fix j s' assume n: "vm_step d (prog ! pc) s = Next j s'"
      "pc + 1 + j \<in> set (filter_targets pc (prog ! pc))" "BPF_CLASS (sf_code (prog ! pc)) \<noteq> BPF_RET"
    then have "pc + 1 + j < length prog" using t by blast
    moreover from this have "\<exists>w. vm_run d prog (pc + 1 + j) s' = Some w" by (intro less.hyps) simp_all
    ultimately show ?thesis using n less.prems by (simp add: vm_run.simps [of d prog pc])
  qed
qed

lemma safe_prog_returns:
  "safe_prog prog \<Longrightarrow> length (sd_args d) = 6 \<Longrightarrow> \<exists>w. vm_run d prog 0 s = Some w"
  by (auto simp: safe_prog_def intro!: runs_inside_returns [OF safe_with_inside])

section \<open>The checker accepts safe programs\<close>

definition words_sub :: "u16 \<Rightarrow> u16 \<Rightarrow> bool" where
  "words_sub a b \<longleftrightarrow> (\<forall>i. bit a i \<longrightarrow> bit b i)"

lemma words_sub_all [simp]: "words_sub a (- 1)"
  by (auto simp: words_sub_def bit_simps dest: bit_imp_le_length)

lemma words_sub_set_bit: "words_sub a b \<Longrightarrow> words_sub (set_bit i a) (set_bit i b)"
  by (auto simp: words_sub_def bit_simps)

text \<open>The state with the masks and the words changed, nothing reported.\<close>

definition quiet_from :: "cp_state \<Rightarrow> cp_state \<Rightarrow> bool" where
  "quiet_from st st' \<longleftrightarrow>
     length (cp_masks st') = length (cp_masks st) \<and> fatal_count st' = fatal_count st
     \<and> error_count st' = error_count st \<and> cp_log st' = cp_log st"

lemma quiet_from_refl [simp]: "quiet_from st st"
  by (simp add: quiet_from_def)

lemma cp_mask_and_ok:
  "i < length (cp_masks st) \<Longrightarrow> \<exists>st'. cp_mask_and i st = Done st' \<and> quiet_from st st' \<and> cp_mem st' = cp_mem st"
  by (simp add: cp_mask_and_def quiet_from_def)

lemma check_jump_ok:
  assumes "pc + 1 + unat (sf_jt f) < flen" "pc + 1 + unat (sf_jf f) < flen"
    "length (cp_masks st) = flen" "flen < 65536"
  shows "\<exists>st'. check_jump f (of_nat pc) (of_nat flen) st = Done st' \<and> quiet_from st st' \<and> cp_mem st' = - 1"
proof -
  have u: "unat (of_nat pc + 1 + (ucast w :: u32)) = pc + 1 + unat w" if "pc + 1 + unat w < flen" for w :: u8
    using that assms(4) by (simp add: unat_word_ariths unat_of_nat unsigned_ucast_eq take_bit_nat_eq_self
        order_less_trans [OF unsigned_less])
  have u': "unat (of_nat pc + (ucast w :: u32) + 1) = pc + 1 + unat w" if "pc + 1 + unat w < flen" for w :: u8
    using u [OF that] by (simp add: algebra_simps)
  have le: "\<not> of_nat flen \<le> of_nat pc + (ucast w :: u32) + 1" if "pc + 1 + unat w < flen" for w :: u8
    using u' [OF that] that assms(4) by (simp add: word_le_nat_alt unat_of_nat)
  from cp_mask_and_ok [of "pc + 1 + unat (sf_jt f)" st] assms obtain st1 where
    1: "cp_mask_and (pc + 1 + unat (sf_jt f)) st = Done st1" "quiet_from st st1" by auto
  from cp_mask_and_ok [of "pc + 1 + unat (sf_jf f)" st1] 1 assms obtain st2 where
    2: "cp_mask_and (pc + 1 + unat (sf_jf f)) st1 = Done st2" "quiet_from st1 st2" by (auto simp: quiet_from_def)
  from le assms 1 2 show ?thesis
    by (simp add: check_jump_def u quiet_from_def)
qed

lemma check_ja_ok:
  assumes "pc + 1 + unat (sf_k f) < flen" "length (cp_masks st) = flen" "flen < 65536"
  shows "\<exists>st'. check_ja f (of_nat pc) (of_nat flen) st = Done st' \<and> quiet_from st st' \<and> cp_mem st' = - 1"
proof -
  have u: "unat (of_nat pc + 1 + sf_k f) = pc + 1 + unat (sf_k f)"
    using assms by (simp add: unat_word_ariths unat_of_nat)
  obtain e where e: "flen = pc + 1 + e" using assms(1) by (metis add_lessD1 less_imp_add_positive)
  then have "(of_nat flen - of_nat pc - 1 :: u32) = of_nat e" by simp
  then have le: "\<not> (of_nat flen - of_nat pc - 1 :: u32) \<le> sf_k f"
    using assms e by (simp add: word_le_nat_alt unat_of_nat del: of_nat_add of_nat_Suc)
  from cp_mask_and_ok [of "pc + 1 + unat (sf_k f)" st] assms obtain st1 where
    1: "cp_mask_and (pc + 1 + unat (sf_k f)) st = Done st1" "quiet_from st st1" by auto
  with le show ?thesis by (simp add: check_ja_def u quiet_from_def)
qed

lemma check_filter_safe:
  assumes safe: "filter_safe m flen pc f" and m: "words_sub m (cp_mem st)"
    and len: "length (cp_masks st) = flen" "flen < 65536"
  shows "\<exists>st'. check_filter f (of_nat pc) (of_nat flen) st = Done st' \<and> quiet_from st st'
    \<and> words_sub (filter_out m f) (cp_mem st')"
proof -
  from safe have v: "valid_insn (sf_code f)" by (simp add: filter_safe_def Let_def)
  then have nv: "\<not> (MAX_VALID_INSN < sf_code f \<or> insn_name_map (sf_code f) = Done 0)"
    by (simp add: insn_name_map_valid)
  note cf = check_filter_def [of f, unfolded Let_def if_not_P [OF nv]]
  from v show ?thesis
  proof (cases rule: valid_insn_cases)
    case 1
    with safe have "\<not> 64 \<le> sf_k f" "sf_k f AND 3 = 0"
      by (simp_all add: filter_safe_def Let_def word_le_nat_alt)
    with 1 m show ?thesis by (simp add: cf check_ld_abs_def filter_out_def)
  next
    case 6
    with safe m show ?thesis
      using alu_code [of "sf_code f"]
      by (auto simp: cf filter_out_def filter_safe_def Let_def word_le_nat_alt)
  next
    case 11
    with safe m show ?thesis
      by (simp add: cf check_mem_def filter_out_def filter_safe_def Let_def words_sub_def not_le)
  next
    case 12
    with safe m show ?thesis
      by (simp add: cf check_mem_def filter_out_def filter_safe_def Let_def words_sub_def not_le)
  next
    case 13
    with safe m show ?thesis
      by (simp add: cf check_mem_def filter_out_def filter_safe_def Let_def not_le words_sub_set_bit quiet_from_def)
  next
    case 14
    with safe m show ?thesis
      by (simp add: cf check_mem_def filter_out_def filter_safe_def Let_def not_le words_sub_set_bit quiet_from_def)
  next
    case 15
    with safe have "pc + 1 + unat (sf_k f) < flen" by (simp add: filter_safe_def Let_def)
    from check_ja_ok [OF this len] 15 show ?thesis by (auto simp: cf)
  next
    case 16
    with safe have "pc + 1 + unat (sf_jt f) < flen" "pc + 1 + unat (sf_jf f) < flen"
      by (simp_all add: filter_safe_def Let_def)
    from check_jump_ok [OF this len] 16 jump_code(3) [OF 16] show ?thesis by (auto simp: cf)
  qed (use m in \<open>simp_all add: cf filter_out_def not_jump_code\<close>)
qed

lemma safe_out_next:
  assumes s: "safe_with V prog" and i: "i < length prog" "Suc i < length prog"
    and m: "words_sub (filter_out (V i) (prog ! i)) w"
    and j: "is_jump_code (sf_code (prog ! i)) \<or> sf_code (prog ! i) = 0x05 \<Longrightarrow> w = - 1"
  shows "words_sub (V (Suc i)) w"
proof (cases "is_jump_code (sf_code (prog ! i)) \<or> sf_code (prog ! i) = 0x05")
  case False
  then have "Suc i \<in> set (filter_targets i (prog ! i))" by (simp add: filter_targets_def Let_def)
  with s i have "\<forall>k. bit (V (Suc i)) k \<longrightarrow> bit (filter_out (V i) (prog ! i)) k"
    by (auto simp: safe_with_def)
  with m show ?thesis by (simp add: words_sub_def)
qed (use j in simp)

lemma check_loop_safe:
  assumes "safe_with V prog" "length prog < 65536" "length (cp_masks st) = length prog"
    "fatal_count st \<le> 5" "i \<le> length prog" "i < length prog \<Longrightarrow> words_sub (V i) (cp_mem st)"
  shows "\<exists>st'. check_loop i (of_nat (length prog)) (drop i prog) st = Done (False, st') \<and> quiet_from st st'"
  using assms(3-)
proof (induction "length prog - i" arbitrary: i st)
  case 0
  then show ?case by simp
next
  case (Suc n)
  let ?f = "prog ! i"
  from Suc.hyps have i: "i < length prog" by simp
  then have d: "drop i prog = ?f # drop (Suc i) prog" by (simp add: Cons_nth_drop_Suc)
  have safe: "filter_safe (V i) (length prog) i ?f" using assms(1) i by (simp add: safe_with_def)
  from check_filter_safe [OF safe Suc.prems(4) [OF i] Suc.prems(1) assms(2)] obtain st1 where
    1: "check_filter ?f (of_nat i) (of_nat (length prog)) st = Done st1" "quiet_from st st1"
       "words_sub (filter_out (V i) ?f) (cp_mem st1)" by blast
  have all: "cp_mem st1 = - 1" if "is_jump_code (sf_code ?f) \<or> sf_code ?f = 0x05"
  proof -
    have "valid_insn (sf_code ?f)" using safe by (simp add: filter_safe_def Let_def)
    then have nv: "\<not> (MAX_VALID_INSN < sf_code ?f \<or> insn_name_map (sf_code ?f) = Done 0)"
      by (simp add: insn_name_map_valid)
    note cf = check_filter_def [of ?f, unfolded Let_def if_not_P [OF nv]]
    from that show ?thesis
    proof
      assume c: "is_jump_code (sf_code ?f)"
      with safe have "i + 1 + unat (sf_jt ?f) < length prog" "i + 1 + unat (sf_jf ?f) < length prog"
        by (simp_all add: filter_safe_def Let_def)
      from check_jump_ok [OF this Suc.prems(1) assms(2)] 1(1) jump_code(3) [OF c] c show ?thesis
        by (simp add: cf)
    next
      assume c: "sf_code ?f = 0x05"
      with safe have "i + 1 + unat (sf_k ?f) < length prog" by (simp add: filter_safe_def Let_def)
      from check_ja_ok [OF this Suc.prems(1) assms(2)] 1(1) c show ?thesis
        by (simp add: cf)
    qed
  qed
  have "\<exists>st'. check_loop (Suc i) (of_nat (length prog)) (drop (Suc i) prog) st1 = Done (False, st') \<and> quiet_from st1 st'"
  proof (rule Suc.hyps(1))
    show "words_sub (V (Suc i)) (cp_mem st1)" if "Suc i < length prog"
      using safe_out_next [OF assms(1) i that 1(3)] all by blast
  qed (use Suc.hyps(2) Suc.prems 1(2) i in \<open>simp_all add: quiet_from_def\<close>)
  then obtain st' where "check_loop (Suc i) (of_nat (length prog)) (drop (Suc i) prog) st1 = Done (False, st')"
    "quiet_from st1 st'" by blast
  moreover have "\<not> 5 < fatal_count st1" using 1(2) Suc.prems(2) by (simp add: quiet_from_def not_less)
  ultimately show ?case using 1 d by (auto simp: quiet_from_def)
qed

text \<open>A safe program is reported on only for what happened before it.\<close>

lemma check_prog_safe:
  assumes "safe_prog prog" "length prog < 65536" "fatal_count cp = 0"
  shows "\<exists>cp'. check_prog prog cp = Done (error_count cp \<noteq> 0, cp') \<and> quiet_from (cp\<lparr>cp_masks := cp_masks cp'\<rparr>) cp'"
proof -
  from assms(1) obtain V where V: "safe_with V prog" and ne: "prog \<noteq> []"
    and last: "BPF_CLASS (sf_code (last prog)) = BPF_RET"
    by (auto simp: safe_prog_def)
  have "filter_safe (V (length prog - 1)) (length prog) (length prog - 1) (last prog)"
    using V ne by (simp add: safe_with_def last_conv_nth)
  then have "valid_insn (sf_code (last prog))" by (simp add: filter_safe_def Let_def)
  then have ret: "sf_code (last prog) = BPF_RET OR BPF_A \<or> sf_code (last prog) = BPF_RET OR BPF_K"
  proof (cases rule: valid_insn_cases)
    case 6
    with last alu_code(2) [OF 6] show ?thesis by simp
  next
    case 16
    with last jump_code(2) [OF 16] show ?thesis by simp
  qed (use last in \<open>simp_all add: bpf_fields\<close>)
  define st0 where "st0 = cp\<lparr>cp_masks := replicate (length prog) (- 1), cp_mem := 0\<rparr>"
  have "\<exists>st'. check_loop 0 (of_nat (length prog)) (drop 0 prog) st0 = Done (False, st') \<and> quiet_from st0 st'"
    by (rule check_loop_safe [OF V assms(2)]) (use assms(3) V in \<open>simp_all add: st0_def safe_with_def words_sub_def\<close>)
  then obtain st' where l: "check_loop 0 (of_nat (length prog)) prog st0 = Done (False, st')" and q: "quiet_from st0 st'"
    by auto
  have "check_prog prog cp = check_complete st'"
    using l ne ret by (auto simp: check_prog_def Let_def st0_def [symmetric])
  moreover have "fatal_count st' = 0" "error_count st' = error_count cp" "cp_log st' = cp_log cp"
    using q assms(3) by (simp_all add: quiet_from_def st0_def)
  ultimately show ?thesis using assms(3) by (simp add: check_complete_def quiet_from_def)
qed

end
