(* ===== verification/Asm_Ok.thy ===== *)
theory Asm_Ok
  imports Resolver_Ok Asm Filter_Safe
begin

text \<open>
  The assembler on accepted programs: every code line has an instruction, and the program of
  these instructions is safe to run and passes ceccomp's own check.
\<close>

section \<open>The instructions of a line\<close>

text \<open>The operators and the operations of the machine.\<close>

definition alu_op :: "assign_tk \<Rightarrow> u16" where
  "alu_op p =
     (case p of ADD_TO' \<Rightarrow> BPF_ADD | SUB_TO' \<Rightarrow> BPF_SUB | MULTI_TO' \<Rightarrow> BPF_MUL | DIVIDE_TO' \<Rightarrow> BPF_DIV
      | LSH_TO' \<Rightarrow> BPF_LSH | RSH_TO' \<Rightarrow> BPF_RSH | AND_TO' \<Rightarrow> BPF_AND | OR_TO' \<Rightarrow> BPF_OR | XOR_TO' \<Rightarrow> BPF_XOR)"

lemma asm_alu:
  assumes "operator al = Assign_tk p" "obj_type (right_var al) = Tk_X \<or> obj_type (right_var al) = NUMBER"
  shows "Asm.assign_line al = Done (zero_filter
     \<lparr>sf_code := BPF_ALU OR alu_op p OR (if obj_type (right_var al) = Tk_X then BPF_X else BPF_K),
      sf_k := (if obj_type (right_var al) = Tk_X then 0 else obj_data (right_var al))\<rparr>)"
  using assms
  by (auto simp: Asm.assign_line_def tok_simps Asm.alu_line_def Asm.operator_table_def alu_op_def zero_filter_def
      Let_def split: assign_tk.split)

lemma alu_op_codes: "BPF_ALU OR alu_op p OR BPF_X \<in> set alu_codes" "BPF_ALU OR alu_op p OR BPF_K \<in> set alu_codes"
  by (cases p; simp add: alu_op_def alu_nums)+

lemma alu_op_field:
  "BPF_OP (BPF_ALU OR alu_op p OR BPF_X) = alu_op p" "BPF_OP (BPF_ALU OR alu_op p OR BPF_K) = alu_op p"
  "BPF_SRC (BPF_ALU OR alu_op p OR BPF_X) = BPF_X" "BPF_SRC (BPF_ALU OR alu_op p OR BPF_K) = BPF_K"
  by (cases p; simp add: alu_op_def bpf_fields)+

lemma asm_neg: "operator al = NEGATIVE \<Longrightarrow> Asm.assign_line al = Done (zero_filter\<lparr>sf_code := 0x84\<rparr>)"
  by (simp add: Asm.assign_line_def tok_simps negative_line_def)

text \<open>Loads into \<open>A\<close>, loads into \<open>X\<close> and stores.\<close>

lemma asm_ld:
  assumes "operator al = EQUAL" "obj_type (left_var al) = Tk_A"
  shows "Asm.assign_line al = ld_line al"
  using assms by (simp add: Asm.assign_line_def tok_simps)

lemma asm_ldx:
  assumes "operator al = EQUAL" "obj_type (left_var al) = Tk_X" "obj_type (right_var al) \<in> {Tk_A, NUMBER, MEM, ATTR_LEN}"
  shows "Asm.assign_line al = Done (zero_filter
    \<lparr>sf_code := (if obj_type (right_var al) = Tk_A then 0x07 else if obj_type (right_var al) = NUMBER then 0x01
        else if obj_type (right_var al) = MEM then 0x61 else 0x81),
     sf_k := (if obj_type (right_var al) = Tk_A then 0 else obj_data (right_var al))\<rparr>)"
  using assms by (auto simp: Asm.assign_line_def tok_simps ldx_line_def Let_def zero_filter_def)

lemma asm_st:
  assumes "operator al = EQUAL" "obj_type (left_var al) = MEM" "obj_type (right_var al) \<in> {Tk_A, Tk_X}"
  shows "Asm.assign_line al = Done (zero_filter
    \<lparr>sf_code := (if obj_type (right_var al) = Tk_A then 0x02 else 0x03), sf_k := obj_data (left_var al)\<rparr>)"
  using assms by (auto simp: Asm.assign_line_def tok_simps Asm.st_stx_line_def Let_def zero_filter_def)

text \<open>Jumps: the operation of the machine and whether the two branches are swapped.\<close>

definition jump_op :: "compare_tk \<Rightarrow> u16" where
  "jump_op c =
     (case c of EQUAL_EQUAL' \<Rightarrow> BPF_JEQ | BANG_EQUAL' \<Rightarrow> BPF_JEQ | GREATER_EQUAL' \<Rightarrow> BPF_JGE
      | LESS_THAN' \<Rightarrow> BPF_JGE | GREATER_THAN' \<Rightarrow> BPF_JGT | LESS_EQUAL' \<Rightarrow> BPF_JGT | Tk_AND' \<Rightarrow> BPF_JSET)"

definition swaps :: "jump_line_t \<Rightarrow> bool" where
  "swaps j \<longleftrightarrow> (comparator j \<in> {BANG_EQUAL, LESS_EQUAL, LESS_THAN}) \<noteq> if_bang j"

lemma asm_jump:
  assumes "if_condition j" "comparator j = Compare_tk c" "obj_type (cmpobj j) \<in> {Tk_X, NUMBER}"
  shows "Asm.jump_line j = Done \<lparr>sf_code = BPF_JMP OR jump_op c OR (if obj_type (cmpobj j) = Tk_X then BPF_X else BPF_K),
      sf_jt = ucast (label_nr (if swaps j then jf j else jt j)),
      sf_jf = ucast (label_nr (if swaps j then jt j else jf j)),
      sf_k = (if obj_type (cmpobj j) = Tk_X then 0 else obj_data (cmpobj j))\<rparr>"
  using assms
  by (cases c) (auto simp: Asm.jump_line_def Asm.comparator_table_def jump_op_def swaps_def zero_filter_def Let_def
      reverse_jf_jt_def)

lemma jump_op_codes: "is_jump_code (BPF_JMP OR jump_op c OR BPF_X)" "is_jump_code (BPF_JMP OR jump_op c OR BPF_K)"
  by (cases c; simp add: jump_op_def is_jump_codes jump_nums)+

lemma jump_op_field:
  "BPF_OP (BPF_JMP OR jump_op c OR BPF_X) = jump_op c" "BPF_OP (BPF_JMP OR jump_op c OR BPF_K) = jump_op c"
  "BPF_SRC (BPF_JMP OR jump_op c OR BPF_X) = BPF_X" "BPF_SRC (BPF_JMP OR jump_op c OR BPF_K) = BPF_K"
  by (cases c; simp add: jump_op_def bpf_fields)+

lemma asm_ja: "\<not> if_condition j \<Longrightarrow>
  Asm.jump_line j = Done (zero_filter\<lparr>sf_code := 0x05, sf_k := ucast (label_nr (jt j))\<rparr>)"
  by (simp add: Asm.jump_line_def)

section \<open>Accepted lines give safe instructions\<close>

lemma arg_index:
  assumes "(d :: u32) \<le> 5"
  obtains "d = 0" | "d = 1" | "d = 2" | "d = 3" | "d = 4" | "d = 5"
proof -
  have "unat d \<le> 5" using assms by (simp add: word_le_nat_alt)
  then have "unat d \<in> {0, 1, 2, 3, 4, 5}" by auto
  moreover have "d = of_nat (unat d)" by simp
  ultimately have "d \<in> {0, 1, 2, 3, 4, 5}" by (elim insertE) simp_all
  then show ?thesis using that by blast
qed

text \<open>What an instruction must be for a line: safe, with the same successors and writes.\<close>

definition fits_line :: "u16 \<Rightarrow> nat \<Rightarrow> nat \<Rightarrow> line_t \<Rightarrow> sock_filter \<Rightarrow> bool" where
  "fits_line m len n l f \<longleftrightarrow>
     filter_safe m len (n - 1) f \<and> Suc ` set (filter_targets (n - 1) f) = set (targets n l)
     \<and> filter_out m f = mem_out m l \<and> (BPF_CLASS (sf_code f) = BPF_RET \<longleftrightarrow> is_return l)"

lemma mem_ready_index: "mem_ready m r \<Longrightarrow> unat (obj_data r) < BPF_MEMWORDS \<and> bit m (unat (obj_data r))"
  by (simp add: mem_ready_def word_le_nat_alt BPF_MEMWORDS_def)

lemmas fits_line_defs = fits_line_def filter_safe_def Let_def valid_insn_simps not_jump_code filter_out_def
  mem_out_def targets_def is_return_def vm_simps bpf_fields

lemma ld_fits:
  assumes ok: "assign_A_ok m al" "wf_assign al" "operator al = EQUAL" "obj_type (left_var al) = Tk_A" and n: "0 < n"
  shows "\<exists>f. ld_line al = Done f \<and> fits_line m len n (ASSIGN_LINE al) f"
proof -
  let ?r = "right_var al"
  note r = ok(1) [unfolded assign_A_ok_def Let_def]
  have at: "\<exists>f. Done (zero_filter\<lparr>sf_code := 0x20, sf_k := k\<rparr>) = Done f \<and> fits_line m len n (ASSIGN_LINE al) f"
    if "unat k < 64" "k AND 3 = 0" for k
    using that n ok(4) by (simp add: fits_line_defs)
  from ok(2) consider v where "obj_type ?r = Var_tk v" | "obj_type ?r = NUMBER"
    by (auto simp: wf_assign_def wf_right_def)
  then show ?thesis
  proof cases
    case 2
    then show ?thesis using n ok(4) by (simp add: ld_line_def fits_line_defs)
  next
    case 1
    show ?thesis
    proof (cases v)
      case MEM'
      with 1 r ok(3) have "unat (obj_data ?r) < BPF_MEMWORDS" "bit m (unat (obj_data ?r))"
        using mem_ready_index [of m ?r] by simp_all
      with MEM' 1 n ok(4) show ?thesis by (simp add: ld_line_def fits_line_defs)
    next
      case ATTR_LOWARG'
      with 1 r ok(3) have d: "obj_data ?r \<le> 5" by (simp add: attr_arg_def)
      have "unat (16 + obj_data ?r * 8) < 64 \<and> (16 + obj_data ?r * 8) AND 3 = 0"
        using d by (rule arg_index) simp_all
      with at show ?thesis using ATTR_LOWARG' 1 by (simp add: ld_line_def offset_abs_def offset_table_def)
    next
      case ATTR_HIGHARG'
      with 1 r ok(3) have d: "obj_data ?r \<le> 5" by (simp add: attr_arg_def)
      have "unat (20 + obj_data ?r * 8) < 64 \<and> (20 + obj_data ?r * 8) AND 3 = 0"
        using d by (rule arg_index) simp_all
      with at show ?thesis using ATTR_HIGHARG' 1 by (simp add: ld_line_def offset_abs_def offset_table_def)
    qed (use 1 n ok(3,4) r in \<open>simp_all add: ld_line_def offset_abs_def offset_table_def fits_line_defs\<close>)
  qed
qed

lemma alu_fits:
  assumes ok: "assign_A_ok m al" "operator al = Assign_tk p" "obj_type (left_var al) = Tk_A" and n: "0 < n"
  shows "\<exists>f. Asm.assign_line al = Done f \<and> fits_line m len n (ASSIGN_LINE al) f"
proof -
  let ?r = "right_var al"
  from ok have t: "obj_type ?r = Tk_X \<or> obj_type ?r = NUMBER" by (auto simp: assign_A_ok_def Let_def)
  let ?c = "BPF_ALU OR alu_op p OR (if obj_type ?r = Tk_X then BPF_X else BPF_K)"
  have c: "?c \<in> set alu_codes" using alu_op_codes [of p] by simp
  have d: "?c = BPF_ALU OR BPF_DIV OR BPF_K \<longrightarrow> p = DIVIDE_TO' \<and> obj_type ?r = NUMBER"
    "?c = BPF_ALU OR BPF_LSH OR BPF_K \<or> ?c = BPF_ALU OR BPF_RSH OR BPF_K \<longrightarrow>
       (p = LSH_TO' \<or> p = RSH_TO') \<and> obj_type ?r = NUMBER"
    using t by (cases p; auto simp: alu_op_def)+
  let ?f = "zero_filter\<lparr>sf_code := ?c, sf_k := (if obj_type ?r = Tk_X then 0 else obj_data ?r)\<rparr>"
  have "fits_line m len n (ASSIGN_LINE al) ?f"
    using alu_code [OF c] c d ok n
    by (auto simp: fits_line_def filter_safe_def Let_def filter_out_def mem_out_def targets_def is_return_def
        filter_targets_alu assign_A_ok_def word_less_nat_alt unat_gt_0)
  with asm_alu [OF ok(2) t] show ?thesis by simp
qed

lemma assign_fits:
  assumes ok: "assign_ok m al" and n: "0 < n"
  shows "\<exists>f. Asm.assign_line al = Done f \<and> fits_line m len n (ASSIGN_LINE al) f"
proof -
  from ok have wf: "wf_assign al" by (simp add: assign_ok_def)
  then consider "obj_type (left_var al) = Tk_A" | "obj_type (left_var al) = Tk_X" | "obj_type (left_var al) = MEM"
    by (auto simp: wf_assign_def)
  then show ?thesis
  proof cases
    case 1
    with ok have A: "assign_A_ok m al" by (simp add: assign_ok_def)
    from wf consider p where "operator al = Assign_tk p" | "operator al = EQUAL" | "operator al = NEGATIVE"
      by (auto simp: wf_assign_def)
    then show ?thesis
    proof cases
      case a: 1
      then show ?thesis using alu_fits [OF A _ 1 n] by blast
    next
      case 2
      then show ?thesis using ld_fits [OF A wf _ 1 n] 1 by (simp add: asm_ld)
    next
      case 3
      have "(0x84 :: u16) \<in> set alu_codes" by (simp add: alu_nums)
      then show ?thesis using 1 3 n alu_code [of "0x84"]
        by (simp add: asm_neg fits_line_def filter_safe_def Let_def filter_out_def mem_out_def targets_def
            is_return_def filter_targets_alu)
    qed
  next
    case 2
    with ok have X: "assign_X_ok m al" by (simp add: assign_ok_def)
    then have "operator al = EQUAL" "obj_type (right_var al) \<in> {Tk_A, NUMBER, MEM, ATTR_LEN}"
      "obj_type (right_var al) = MEM \<longrightarrow> unat (obj_data (right_var al)) < BPF_MEMWORDS \<and> bit m (unat (obj_data (right_var al)))"
      by (auto simp: assign_X_ok_def dest: mem_ready_index)
    with 2 n show ?thesis by (auto simp: asm_ldx fits_line_defs)
  next
    case 3
    with ok have M: "assign_MEM_ok al" by (simp add: assign_ok_def)
    then have "operator al = EQUAL" "obj_type (right_var al) \<in> {Tk_A, Tk_X}" "unat (obj_data (left_var al)) < BPF_MEMWORDS"
      by (auto simp: assign_MEM_ok_def word_le_nat_alt BPF_MEMWORDS_def)
    with 3 n show ?thesis by (auto simp: asm_st fits_line_defs mem_set_def)
  qed
qed

lemma unat_small: "(w :: u16) \<le> 255 \<Longrightarrow> unat (ucast w :: u8) = unat w"
  by (simp add: unsigned_ucast_eq take_bit_nat_eq_self word_le_nat_alt)

lemma jump_fits:
  assumes ok: "jump_ok len n j" and n: "0 < n"
  shows "\<exists>f. Asm.jump_line j = Done f \<and> fits_line m len n (JUMP_LINE j) f"
proof (cases "if_condition j")
  case False
  from ok False have "n + 1 + unat (label_nr (jt j)) \<le> len" by (simp add: jump_ok_def jump_targets_def)
  with False n show ?thesis by (simp add: asm_ja fits_line_defs jump_targets_def)
next
  case True
  from ok True obtain c where c: "comparator j = Compare_tk c" "obj_type (cmpobj j) \<in> {Tk_X, NUMBER}"
    by (auto simp: jump_ok_def wf_jump_def)
  let ?c = "BPF_JMP OR jump_op c OR (if obj_type (cmpobj j) = Tk_X then BPF_X else BPF_K)"
  have jc: "is_jump_code ?c" using jump_op_codes [of c] by simp
  let ?a = "if swaps j then jf j else jt j" and ?b = "if swaps j then jt j else jf j"
  let ?f = "\<lparr>sf_code = ?c, sf_jt = ucast (label_nr ?a), sf_jf = ucast (label_nr ?b),
      sf_k = (if obj_type (cmpobj j) = Tk_X then 0 else obj_data (cmpobj j))\<rparr>"
  have u: "unat (sf_jt ?f) = unat (label_nr ?a)" "unat (sf_jf ?f) = unat (label_nr ?b)"
    using ok True by (auto simp: jump_ok_def unat_small)
  have b: "n + 1 + unat (label_nr (jt j)) \<le> len" "n + 1 + unat (label_nr (jf j)) \<le> len"
    using ok True by (auto simp: jump_ok_def jump_targets_def)
  have "filter_targets (n - 1) ?f = [n + unat (label_nr ?a), n + unat (label_nr ?b)]"
    using filter_targets_jump [of ?f "n - 1"] jc u n by simp
  then have "Suc ` set (filter_targets (n - 1) ?f) = set (targets n (JUMP_LINE j))"
    using True by (auto simp: targets_def jump_targets_def)
  moreover have "filter_safe m len (n - 1) ?f"
    using jump_code [OF jc] jc b n u by (auto simp: filter_safe_def Let_def)
  ultimately have "fits_line m len n (JUMP_LINE j) ?f"
    using jump_code [OF jc] by (auto simp: fits_line_def filter_out_def mem_out_def is_return_def)
  with asm_jump [OF True c] show ?thesis by simp
qed

lemma retvals_action: "\<exists>v. retvals (Action_tk a) = Done v"
  by (cases a) (simp_all add: retvals_def)

lemma return_fits:
  assumes ok: "return_ok r" and n: "0 < n"
  shows "\<exists>f. Asm.return_line r = Done f \<and> fits_line m len n (RETURN_LINE r) f"
proof -
  let ?t = "obj_type (ret_obj r)"
  from ok consider a where "?t = Action_tk a" | "?t = Tk_A" | "?t = NUMBER"
    by (auto simp: return_ok_def wf_return_def)
  then show ?thesis
  proof cases
    case 1
    obtain v where v: "retvals (Action_tk a) = Done v" using retvals_action by blast
    have "fits_line m len n (RETURN_LINE r) (zero_filter\<lparr>sf_code := 0x06, sf_k := v OR obj_data (ret_obj r)\<rparr>)"
      using n by (simp add: fits_line_defs)
    with 1 v show ?thesis by (simp add: Asm.return_line_def)
  qed (use n in \<open>simp_all add: Asm.return_line_def fits_line_defs\<close>)
qed

lemma asm_fits:
  assumes "line_ok m len n (line st)" "0 < n"
  shows "\<exists>f. asm_statement st = Done f \<and> fits_line m len n (line st) f"
  using assms assign_fits [of m _ n len] jump_fits [of len n _ m] return_fits [of _ n m len]
  by (auto simp: line_ok_def asm_statement_def split: line_t.splits)

section \<open>Programs\<close>

text \<open>The filters of the code lines, as the loop of \<open>assemble\<close> makes them.\<close>

fun asm_lines :: "statement_t list \<Rightarrow> sock_filter list cres" where
  "asm_lines [] = Done []"
| "asm_lines (st # sts) =
     cbind (asm_statement st) (\<lambda>f. cbind (asm_lines sts) (\<lambda>fs. Done (f # fs)))"

definition code_statements :: "statement_t list \<Rightarrow> statement_t list" where
  "code_statements T = map (\<lambda>x. T ! x) (tl (code_lines T))"

lemma asm_lines_nth:
  "asm_lines sts = Done fs \<Longrightarrow>
   length fs = length sts \<and> (\<forall>i < length sts. asm_statement (sts ! i) = Done (fs ! i))"
proof (induction sts arbitrary: fs)
  case (Cons st sts)
  then obtain f gs where "asm_statement st = Done f" "asm_lines sts = Done gs" "fs = f # gs" by auto
  with Cons.IH [of gs] show ?case by (auto simp: nth_Cons split: nat.split)
qed simp

lemma asm_lines_done:
  "(\<And>st. st \<in> set sts \<Longrightarrow> \<exists>f. asm_statement st = Done f) \<Longrightarrow> \<exists>fs. asm_lines sts = Done fs"
  by (induction sts) fastforce+

lemma nth_code_statements:
  "i < length (code_statements T) \<Longrightarrow> code_statements T ! i = code T (Suc i)"
  by (simp add: code_statements_def code_def nth_tl)

lemma length_code_statements: "length (code_statements T) = length (code_lines T) - 1"
  by (simp add: code_statements_def)

lemma resolved_line_ok:
  assumes "resolved L V T" "0 < n" "n < length (code_lines T)"
  shows "line_ok (V n) (length (code_lines T) - 1) n (line (code T n))"
    "m \<in> set (targets n (line (code T n))) \<Longrightarrow> m < length (code_lines T) \<Longrightarrow>
       words_in (V m) (mem_out (V n) (line (code T n)))"
    "line_labels L n (line (code T n))"
  using assms targets_later [of m n "line (code T n)"]
  by (auto simp: resolved_def Let_def passed_def certified_def code_def)

text \<open>The filters of an accepted program, one by one.\<close>

lemma asm_program:
  assumes R: "resolved L V T"
  shows "\<exists>fs. asm_lines (code_statements T) = Done fs \<and> length fs = length (code_lines T) - 1
    \<and> (\<forall>i < length fs. asm_statement (code T (Suc i)) = Done (fs ! i)
         \<and> fits_line (V (Suc i)) (length fs) (Suc i) (line (code T (Suc i))) (fs ! i))"
proof -
  have fit: "\<exists>f. asm_statement (code T (Suc i)) = Done f
      \<and> fits_line (V (Suc i)) (length (code_lines T) - 1) (Suc i) (line (code T (Suc i))) f"
    if "i < length (code_statements T)" for i
    by (rule asm_fits [OF resolved_line_ok(1) [OF R]]) (use that in \<open>simp_all add: length_code_statements\<close>)
  have "\<exists>fs. asm_lines (code_statements T) = Done fs"
  proof (rule asm_lines_done)
    fix st assume "st \<in> set (code_statements T)"
    then obtain i where "i < length (code_statements T)" "st = code_statements T ! i" by (metis in_set_conv_nth)
    with fit [of i] show "\<exists>f. asm_statement st = Done f" by (auto simp: nth_code_statements)
  qed
  then obtain fs where fs: "asm_lines (code_statements T) = Done fs" by blast
  from asm_lines_nth [OF this] have l: "length fs = length (code_lines T) - 1"
    "\<forall>i < length fs. asm_statement (code_statements T ! i) = Done (fs ! i)"
    by (auto simp: length_code_statements)
  have "asm_statement (code T (Suc i)) = Done (fs ! i)
      \<and> fits_line (V (Suc i)) (length fs) (Suc i) (line (code T (Suc i))) (fs ! i)" if "i < length fs" for i
  proof -
    have i: "i < length (code_statements T)" using that l by (simp add: length_code_statements)
    with fit [OF i] l that show ?thesis by (auto simp: nth_code_statements)
  qed
  with fs l(1) show ?thesis by blast
qed

lemma asm_program_safe:
  assumes R: "resolved L V T" and fs: "asm_lines (code_statements T) = Done fs"
  shows "safe_prog fs \<and> length fs \<le> BPF_MAXINSNS"
proof -
  from asm_program [OF R] fs have len: "length fs = length (code_lines T) - 1"
    and fit: "\<And>i. i < length fs \<Longrightarrow> fits_line (V (Suc i)) (length fs) (Suc i) (line (code T (Suc i))) (fs ! i)"
    by auto
  have pos: "0 < length fs" "length fs \<le> BPF_MAXINSNS" using R len by (simp_all add: resolved_def Let_def)
  have "is_return (line (code T (length fs)))" using R len by (simp add: resolved_def Let_def)
  with fit [of "length fs - 1"] pos have last: "BPF_CLASS (sf_code (last fs)) = BPF_RET"
    by (auto simp: fits_line_def last_conv_nth)
  have tgt: "(BPF_CLASS (sf_code (fs ! i)) \<noteq> BPF_RET \<longrightarrow> t < length fs)
      \<and> (t < length fs \<longrightarrow> (\<forall>k. bit (V (Suc t)) k \<longrightarrow> bit (filter_out (V (Suc i)) (fs ! i)) k))"
    if i: "i < length fs" and t: "t \<in> set (filter_targets i (fs ! i))" for i t
  proof -
    let ?l = "line (code T (Suc i))"
    have i': "Suc i < length (code_lines T)" using i len by simp
    from fit [OF i] have f: "Suc ` set (filter_targets i (fs ! i)) = set (targets (Suc i) ?l)"
      "filter_out (V (Suc i)) (fs ! i) = mem_out (V (Suc i)) ?l" "BPF_CLASS (sf_code (fs ! i)) = BPF_RET \<longleftrightarrow> is_return ?l"
      by (simp_all add: fits_line_def)
    have st: "Suc t \<in> set (targets (Suc i) ?l)" using f(1) t by blast
    have words: "Suc t < length (code_lines T) \<Longrightarrow> words_in (V (Suc t)) (mem_out (V (Suc i)) ?l)"
      by (rule resolved_line_ok(2) [OF R _ i' st]) simp
    have ok: "line_ok (V (Suc i)) (length fs) (Suc i) ?l"
      using resolved_line_ok(1) [OF R _ i'] len by simp
    have "t < length fs" if "\<not> is_return ?l"
    proof (cases ?l)
      case (JUMP_LINE j)
      with ok st show ?thesis by (auto simp: line_ok_def jump_ok_def targets_def)
    next
      case (ASSIGN_LINE al)
      then have "t = Suc i" using st by (simp add: targets_def)
      moreover have "Suc i \<noteq> length fs" using \<open>is_return (line (code T (length fs)))\<close> that by metis
      ultimately show ?thesis using i by simp
    qed (use ok that in \<open>simp_all add: line_ok_def is_return_def\<close>)
    moreover have "t < length fs \<longrightarrow> (\<forall>k. bit (V (Suc t)) k \<longrightarrow> bit (filter_out (V (Suc i)) (fs ! i)) k)"
    proof (intro impI allI)
      fix k assume t: "t < length fs" "bit (V (Suc t)) k"
      from words t(1) len have "words_in (V (Suc t)) (mem_out (V (Suc i)) ?l)" by simp
      from words_in_bit [OF this t(2)] f(2) show "bit (filter_out (V (Suc i)) (fs ! i)) k" by simp
    qed
    ultimately show ?thesis using f(3) by blast
  qed
  have "safe_with (\<lambda>pc. V (Suc pc)) fs"
    unfolding safe_with_def
  proof (intro conjI allI impI ballI)
    show "V (Suc 0) = 0" using R by (simp add: resolved_def Let_def)
    fix pc assume pc: "pc < length fs"
    show "filter_safe (V (Suc pc)) (length fs) pc (fs ! pc)" using fit [OF pc] by (simp add: fits_line_def)
  qed (use tgt in blast)+
  with last pos show ?thesis by (auto simp: safe_prog_def)
qed

end
