(* ===== verification/Emu_Vm.thy ===== *)
theory Emu_Vm
  imports Emu Asm_Ok
begin

text \<open>
  The emulator implements the machine: running a resolved text, line by line and through its
  labels, gives what the machine gives for the assembled filters. The simulation relates the
  registers and the words of memory the resolver has certified as written, so it does not
  matter what the memory holds at the start. A shift by \<open>$X\<close> is excluded, since \<open>emu.c\<close>
  masks the register itself.
\<close>

section \<open>Related states\<close>

definition inputs :: "seccomp_data \<Rightarrow> emu_state \<Rightarrow> bool" where
  "inputs d s \<longleftrightarrow>
     e_syscall_nr s = sd_nr d \<and> e_scmp_arch s = sd_arch d \<and> low_pc s = ucast (sd_ip d)
     \<and> high_pc s = ucast (drop_bit 32 (sd_ip d)) \<and> length (sd_args d) = 6
     \<and> low_args s = map ucast (sd_args d) \<and> high_args s = map (\<lambda>a. ucast (drop_bit 32 a)) (sd_args d)
     \<and> scmp_data_len s = 64 \<and> length (e_mem s) = BPF_MEMWORDS"

definition sim :: "seccomp_data \<Rightarrow> u16 \<Rightarrow> emu_state \<Rightarrow> vm \<Rightarrow> bool" where
  "sim d m s v \<longleftrightarrow>
     inputs d s \<and> A_reg s = vm_A v \<and> X_reg s = vm_X v
     \<and> (\<forall>i < BPF_MEMWORDS. bit m i \<longrightarrow> e_mem s ! i = vm_mem v i)"

text \<open>No shift by \<open>$X\<close>.\<close>

definition plain_shift :: "line_t \<Rightarrow> bool" where
  "plain_shift l \<longleftrightarrow>
     (case l of
        ASSIGN_LINE al \<Rightarrow>
          \<not> ((operator al = LSH_TO \<or> operator al = RSH_TO) \<and> obj_type (right_var al) = Tk_X)
      | _ \<Rightarrow> True)"

lemma sim_words: "sim d m s v \<Longrightarrow> words_in m' m \<Longrightarrow> sim d m' s v"
  by (auto simp: sim_def dest: words_in_bit)

lemma args_6: "length xs = 6 \<Longrightarrow> \<exists>a b c d e f. xs = [a, b, c, d, e, f]"
  by (auto simp: numeral_eq_Suc length_Suc_conv)

text \<open>The words of the data behind the offsets the assembler uses.\<close>

lemma load_words:
  assumes "inputs d s"
  shows "vm_load d 0 = Some (e_syscall_nr s)" "vm_load d 4 = Some (e_scmp_arch s)"
    "vm_load d 8 = Some (low_pc s)" "vm_load d 12 = Some (high_pc s)"
    "i \<le> 5 \<Longrightarrow> vm_load d (16 + i * 8) = Some (low_args s ! unat i)"
    "i \<le> 5 \<Longrightarrow> vm_load d (20 + i * 8) = Some (high_args s ! unat i)"
proof -
  from assms obtain a0 a1 a2 a3 a4 a5 where a: "sd_args d = [a0, a1, a2, a3, a4, a5]"
    using args_6 [of "sd_args d"] by (auto simp: inputs_def)
  note defs = vm_load_def data_words_def halves_def a
  show "vm_load d 0 = Some (e_syscall_nr s)" "vm_load d 4 = Some (e_scmp_arch s)"
    "vm_load d 8 = Some (low_pc s)" "vm_load d 12 = Some (high_pc s)"
    using assms by (simp_all add: defs inputs_def)
  show "vm_load d (16 + i * 8) = Some (low_args s ! unat i)" if "i \<le> 5"
    using that by (rule arg_index) (use assms in \<open>simp_all add: defs inputs_def\<close>)
  show "vm_load d (20 + i * 8) = Some (high_args s ! unat i)" if "i \<le> 5"
    using that by (rule arg_index) (use assms in \<open>simp_all add: defs inputs_def\<close>)
qed

section \<open>Assignments\<close>

text \<open>Both machines make the same step, or both stop on a division by zero.\<close>

definition same_step ::
  "seccomp_data \<Rightarrow> u16 \<Rightarrow> assign_line_t \<Rightarrow> emu_state \<Rightarrow> sock_filter \<Rightarrow> vm \<Rightarrow> bool" where
  "same_step d m al s f v \<longleftrightarrow>
     (\<exists>s' v'. Emu.assign_line al s = Done (False, al, s') \<and> vm_step d f v = Next 0 v' \<and> sim d m s' v')
     \<or> (Emu.assign_line al s = Done (True, al, s) \<and> vm_step d f v = Return RET_KILL)"

lemmas emu_defs = Emu.assign_line_def places_def var_of_def assign_op_def operate_def shift_def load_def
  store_def var_cells_def put_cell_def

text \<open>The places of a line that works on \<open>A\<close>, and the operations on them.\<close>

lemma places_A:
  "obj_type (left_var al) = Tk_A \<Longrightarrow> obj_type (right_var al) = NUMBER \<Longrightarrow> places al = Done (Cell Tk_A' 0, Imm)"
  "obj_type (left_var al) = Tk_A \<Longrightarrow> obj_type (right_var al) = Tk_X \<Longrightarrow> places al = Done (Cell Tk_A' 0, Cell Tk_X' 0)"
  by (simp_all add: places_def var_of_def)

lemma operate_A:
  "operate f (Cell Tk_A' 0) Imm (n, s) = Done (n, s\<lparr>A_reg := f (A_reg s) n\<rparr>)"
  "operate f (Cell Tk_A' 0) (Cell Tk_X' 0) (n, s) = Done (n, s\<lparr>A_reg := f (A_reg s) (X_reg s)\<rparr>)"
  "load Imm (n, s) = Done n" "load (Cell Tk_X' 0) (n, s) = Done (X_reg s)"
  "shift f (Cell Tk_A' 0) Imm (n, s) = Done (n AND 0x1f, s\<lparr>A_reg := f (A_reg s) (n AND 0x1f)\<rparr>)"
  by (simp_all add: operate_def load_def store_def shift_def var_cells_def put_cell_def)

lemma same_stepI:
  "Emu.assign_line al s = Done (False, al, s') \<Longrightarrow> vm_step d f v = Next 0 v' \<Longrightarrow> sim d m s' v' \<Longrightarrow>
   same_step d m al s f v"
  by (auto simp: same_step_def)

lemma alu_same:
  assumes s: "sim d m s v" and ok: "assign_A_ok m al" "operator al = Assign_tk p" "obj_type (left_var al) = Tk_A"
    and sh: "plain_shift (ASSIGN_LINE al)" and f: "Asm.assign_line al = Done f"
  shows "same_step d m al s f v"
proof -
  let ?r = "right_var al"
  from ok have t: "obj_type ?r = Tk_X \<or> obj_type ?r = NUMBER" by (auto simp: assign_A_ok_def Let_def)
  let ?c = "BPF_ALU OR alu_op p OR (if obj_type ?r = Tk_X then BPF_X else BPF_K)"
  let ?b = "if obj_type ?r = Tk_X then X_reg s else obj_data ?r"
  from f asm_alu [OF ok(2) t] have f: "sf_code f = ?c" "sf_k f = (if obj_type ?r = Tk_X then 0 else obj_data ?r)"
    by auto
  have "sf_code f \<in> set alu_codes" using f alu_op_codes [of p] by simp
  from vm_step_alu [OF this, of d v] have step: "vm_step d f v =
      (case vm_alu (alu_op p) (A_reg s) ?b of Some w \<Rightarrow> Next 0 (v\<lparr>vm_A := w\<rparr>) | None \<Rightarrow> Return RET_KILL)"
    using s f t alu_op_field [of p] by (auto simp: sim_def vm_source_def)
  have sm: "sim d m (s\<lparr>A_reg := w\<rparr>) (v\<lparr>vm_A := w\<rparr>)" for w using s by (simp add: sim_def inputs_def)
  have upd: "al\<lparr>right_var := ?r\<lparr>obj_data := obj_data ?r\<rparr>\<rparr> = al" by simp
  have k: "obj_data ?r AND 0x1f = obj_data ?r" if "p = LSH_TO' \<or> p = RSH_TO'" "obj_type ?r = NUMBER"
  proof -
    have "unat (obj_data ?r) < 2 ^ 5" using ok that by (auto simp: assign_A_ok_def Let_def word_less_nat_alt)
    then have "take_bit 5 (obj_data ?r) = obj_data ?r"
      by (simp add: word_unat_eq_iff unsigned_take_bit_eq take_bit_nat_eq_self)
    then show ?thesis by (simp add: take_bit_eq_mask mask_eq_exp_minus_1)
  qed
  have nx: "obj_type ?r = NUMBER" if "p = LSH_TO' \<or> p = RSH_TO'"
    using t sh ok(2) that by (auto simp: plain_shift_def)
  show ?thesis
  proof (cases "p = DIVIDE_TO' \<and> ?b = 0")
    case True
    then have "Emu.assign_line al s = Done (True, al, s)"
      using t ok by (auto simp: Emu.assign_line_def places_A assign_op_def operate_A upd split: if_splits)
    moreover have "vm_step d f v = Return RET_KILL" using True by (simp add: step vm_alu_def alu_op_def)
    ultimately show ?thesis by (simp add: same_step_def)
  next
    case False
    define w where "w = (case p of ADD_TO' \<Rightarrow> A_reg s + ?b | SUB_TO' \<Rightarrow> A_reg s - ?b | MULTI_TO' \<Rightarrow> A_reg s * ?b
      | DIVIDE_TO' \<Rightarrow> A_reg s div ?b | LSH_TO' \<Rightarrow> push_bit (unat (?b AND 0x1f)) (A_reg s)
      | RSH_TO' \<Rightarrow> drop_bit (unat (?b AND 0x1f)) (A_reg s) | AND_TO' \<Rightarrow> A_reg s AND ?b
      | OR_TO' \<Rightarrow> A_reg s OR ?b | XOR_TO' \<Rightarrow> A_reg s XOR ?b)"
    have "vm_step d f v = Next 0 (v\<lparr>vm_A := w\<rparr>)"
      using False by (cases p) (auto simp: step vm_alu_def alu_op_def w_def)
    moreover have "Emu.assign_line al s = Done (False, al, s\<lparr>A_reg := w\<rparr>)"
    proof (cases "obj_type ?r = NUMBER")
      case True
      have r: "assign_op (operator al) (Cell Tk_A' 0) Imm (obj_data ?r, s) = Done (False, obj_data ?r, s\<lparr>A_reg := w\<rparr>)"
        using False True k by (cases p) (simp_all add: assign_op_def operate_A w_def ok(2))
      show ?thesis
        unfolding Emu.assign_line_def places_A(1) [OF ok(3) True] by (simp add: r upd)
    next
      case X: False
      then have t: "obj_type ?r = Tk_X" using t by simp
      have r: "assign_op (operator al) (Cell Tk_A' 0) (Cell Tk_X' 0) (obj_data ?r, s) = Done (False, obj_data ?r, s\<lparr>A_reg := w\<rparr>)"
        using False t nx X by (cases p) (simp_all add: assign_op_def operate_A w_def ok(2))
      show ?thesis
        unfolding Emu.assign_line_def places_A(2) [OF ok(3) t] by (simp add: r upd)
    qed
    ultimately show ?thesis using same_stepI [OF _ _ sm] by blast
  qed
qed

text \<open>Lines with \<open>=\<close>: a place is read and written to another.\<close>

lemma assign_equal:
  assumes "operator al = EQUAL" "places al = Done (lp, rp)" "load lp (obj_data (right_var al), s) = Done u"
    "load rp (obj_data (right_var al), s) = Done w"
    "store lp w (obj_data (right_var al), s) = Done (obj_data (right_var al), s')"
  shows "Emu.assign_line al s = Done (False, al, s')"
  using assms by (simp add: Emu.assign_line_def assign_op_def operate_def)

lemmas ready_simps = mem_ready_def word_le_nat_alt BPF_MEMWORDS_def

lemma ld_same:
  assumes s: "sim d m s v" and ok: "assign_A_ok m al" "wf_assign al" "operator al = EQUAL" "obj_type (left_var al) = Tk_A"
    and f: "ld_line al = Done f"
  shows "same_step d m al s f v"
proof -
  let ?r = "right_var al"
  note r = ok(1) [unfolded assign_A_ok_def Let_def]
  have sm: "sim d m (s\<lparr>A_reg := w\<rparr>) (v\<lparr>vm_A := w\<rparr>)" for w using s by (simp add: sim_def inputs_def)
  have i: "inputs d s" using s by (simp add: sim_def)
  note ld = load_words [OF i]
  have goal: "same_step d m al s f v"
    if "places al = Done (Cell Tk_A' 0, rp)" "load rp (obj_data ?r, s) = Done w"
       "vm_step d f v = Next 0 (v\<lparr>vm_A := w\<rparr>)" for rp w
    by (rule same_stepI [OF assign_equal [OF ok(3) that(1) _ that(2)] that(3) sm])
      (simp_all add: load_def store_def var_cells_def put_cell_def)
  from ok(2) consider x where "obj_type ?r = Var_tk x" | "obj_type ?r = NUMBER"
    by (auto simp: wf_assign_def wf_right_def)
  then show ?thesis
  proof cases
    case 2
    with f show ?thesis
      by (intro goal [of Imm]) (auto simp: places_def var_of_def ok load_def ld_line_def vm_simps)
  next
    case 1
    have abs: "sf_code f = 0x20 \<Longrightarrow> vm_load d (sf_k f) = Some w \<Longrightarrow> vm_step d f v = Next 0 (v\<lparr>vm_A := w\<rparr>)" for w
      by (simp add: vm_simps)
    show ?thesis
    proof (cases x)
      case MEM'
      with 1 r ok(3) have k: "unat (obj_data ?r) < BPF_MEMWORDS" "bit m (unat (obj_data ?r))"
        using mem_ready_index [of m ?r] by simp_all
      with s have "e_mem s ! unat (obj_data ?r) = vm_mem v (unat (obj_data ?r))" "length (e_mem s) = BPF_MEMWORDS"
        by (simp_all add: sim_def inputs_def)
      with MEM' 1 f k show ?thesis
        by (intro goal [of "Cell MEM' (unat (obj_data ?r))"])
           (auto simp: places_def var_of_def ok load_def var_cells_def ld_line_def vm_simps)
    next
      case ATTR_LOWARG'
      with 1 r ok(3) have d: "obj_data ?r \<le> 5" by (simp add: attr_arg_def)
      then have "unat (obj_data ?r) < 6" by (simp add: word_le_nat_alt)
      with ATTR_LOWARG' 1 f d ld(5) [OF d] i show ?thesis
        by (intro goal [of "Cell ATTR_LOWARG' (unat (obj_data ?r))"] abs)
           (auto simp: places_def var_of_def ok load_def var_cells_def ld_line_def offset_abs_def offset_table_def inputs_def)
    next
      case ATTR_HIGHARG'
      with 1 r ok(3) have d: "obj_data ?r \<le> 5" by (simp add: attr_arg_def)
      then have "unat (obj_data ?r) < 6" by (simp add: word_le_nat_alt)
      with ATTR_HIGHARG' 1 f d ld(6) [OF d] i show ?thesis
        by (intro goal [of "Cell ATTR_HIGHARG' (unat (obj_data ?r))"] abs)
           (auto simp: places_def var_of_def ok load_def var_cells_def ld_line_def offset_abs_def offset_table_def inputs_def)
    next
      case Tk_A'
      with 1 r ok(3) show ?thesis by simp
    next
      case Tk_X'
      with 1 f s show ?thesis
        by (intro goal [of "Cell Tk_X' 0"]) (auto simp: places_def var_of_def ok load_def var_cells_def ld_line_def vm_simps sim_def)
    next
      case ATTR_LEN'
      with 1 f i show ?thesis
        by (intro goal [of "Cell ATTR_LEN' 0"]) (auto simp: places_def var_of_def ok load_def var_cells_def ld_line_def vm_simps inputs_def)
    qed (use 1 f ld in \<open>intro goal [of "Cell x 0"] abs;
        auto simp: places_def var_of_def ok load_def var_cells_def ld_line_def offset_abs_def offset_table_def\<close>)+
  qed
qed

lemma neg_same:
  assumes s: "sim d m s v" and ok: "assign_A_ok m al" "operator al = NEGATIVE" "obj_type (left_var al) = Tk_A"
    and f: "Asm.assign_line al = Done f"
  shows "same_step d m al s f v"
proof -
  have r: "obj_type (right_var al) = Tk_A" using ok by (simp add: assign_A_ok_def)
  have f: "sf_code f = 0x84" "f = zero_filter\<lparr>sf_code := 0x84\<rparr>" using f asm_neg [OF ok(2)] by auto
  have "sf_code f \<in> set alu_codes" using f(1) by (simp add: alu_nums)
  from vm_step_alu [OF this] have step: "vm_step d f v = Next 0 (v\<lparr>vm_A := - A_reg s\<rparr>)"
    using f s by (simp add: vm_alu_def bpf_fields sim_def)
  have "Emu.assign_line al s = Done (False, al, s\<lparr>A_reg := - A_reg s\<rparr>)"
    using r by (simp add: Emu.assign_line_def places_def var_of_def ok assign_op_def operate_def load_def store_def
        var_cells_def put_cell_def)
  moreover have "sim d m (s\<lparr>A_reg := w\<rparr>) (v\<lparr>vm_A := w\<rparr>)" for w using s by (simp add: sim_def inputs_def)
  ultimately show ?thesis using step by (blast intro: same_stepI)
qed

lemma ldx_same:
  assumes s: "sim d m s v" and ok: "assign_X_ok m al" "obj_type (left_var al) = Tk_X"
    and f: "Asm.assign_line al = Done f"
  shows "same_step d m al s f v"
proof -
  let ?r = "right_var al"
  have eq: "operator al = EQUAL" and rt: "obj_type ?r \<in> {Tk_A, NUMBER, MEM, ATTR_LEN}"
    using ok by (simp_all add: assign_X_ok_def)
  have sm: "sim d m (s\<lparr>X_reg := w\<rparr>) (v\<lparr>vm_X := w\<rparr>)" for w using s by (simp add: sim_def inputs_def)
  have goal: "same_step d m al s f v"
    if "places al = Done (Cell Tk_X' 0, rp)" "load rp (obj_data ?r, s) = Done w"
       "vm_step d f v = Next 0 (v\<lparr>vm_X := w\<rparr>)" for rp w
    by (rule same_stepI [OF assign_equal [OF eq that(1) _ that(2)] that(3) sm])
      (simp_all add: load_def store_def var_cells_def put_cell_def)
  note f = f [unfolded asm_ldx [OF eq ok(2) rt]]
  from rt consider "obj_type ?r = Tk_A" | "obj_type ?r = NUMBER" | "obj_type ?r = MEM" | "obj_type ?r = ATTR_LEN"
    by blast
  then show ?thesis
  proof cases
    case 1
    with f s show ?thesis
      by (intro goal [of "Cell Tk_A' 0"]) (auto simp: places_def var_of_def ok load_def var_cells_def vm_simps sim_def)
  next
    case 2
    with f show ?thesis
      by (intro goal [of Imm]) (auto simp: places_def var_of_def ok load_def vm_simps)
  next
    case 3
    with ok have k: "unat (obj_data ?r) < BPF_MEMWORDS" "bit m (unat (obj_data ?r))"
      using mem_ready_index [of m ?r] by (simp_all add: assign_X_ok_def)
    with s have "e_mem s ! unat (obj_data ?r) = vm_mem v (unat (obj_data ?r))" "length (e_mem s) = BPF_MEMWORDS"
      by (simp_all add: sim_def inputs_def)
    with 3 f k show ?thesis
      by (intro goal [of "Cell MEM' (unat (obj_data ?r))"])
         (auto simp: places_def var_of_def ok load_def var_cells_def vm_simps)
  next
    case 4
    with f s show ?thesis
      by (intro goal [of "Cell ATTR_LEN' 0"]) (auto simp: places_def var_of_def ok load_def var_cells_def vm_simps sim_def inputs_def)
  qed
qed

lemma st_same:
  assumes s: "sim d m s v" and ok: "assign_MEM_ok al" "obj_type (left_var al) = MEM"
    and f: "Asm.assign_line al = Done f"
  shows "same_step d (mem_set m (obj_data (left_var al))) al s f v"
proof -
  let ?r = "right_var al" and ?i = "unat (obj_data (left_var al))"
  have eq: "operator al = EQUAL" and rt: "obj_type ?r \<in> {Tk_A, Tk_X}" and i: "?i < BPF_MEMWORDS"
    using ok by (simp_all add: assign_MEM_ok_def word_le_nat_alt BPF_MEMWORDS_def)
  have len: "length (e_mem s) = BPF_MEMWORDS" using s by (simp add: sim_def inputs_def)
  have sm: "sim d (mem_set m (obj_data (left_var al))) (s\<lparr>e_mem := (e_mem s)[?i := w]\<rparr>)
      (v\<lparr>vm_mem := (vm_mem v)(?i := w)\<rparr>)" for w
    using s i len by (auto simp: sim_def inputs_def mem_set_def bit_simps nth_list_update)
  have goal: "same_step d (mem_set m (obj_data (left_var al))) al s f v"
    if "places al = Done (Cell MEM' ?i, rp)" "load rp (obj_data ?r, s) = Done w"
       "vm_step d f v = Next 0 (v\<lparr>vm_mem := (vm_mem v)(?i := w)\<rparr>)" for rp w
    by (rule same_stepI [OF assign_equal [OF eq that(1) _ that(2)] that(3) sm])
      (use i len in \<open>simp_all add: load_def store_def var_cells_def put_cell_def\<close>)
  note f = f [unfolded asm_st [OF eq ok(2) rt]]
  from rt show ?thesis
  proof (elim insertE emptyE)
    assume "obj_type ?r = Tk_A"
    with f s i show ?thesis
      by (intro goal [of "Cell Tk_A' 0"]) (auto simp: places_def var_of_def ok load_def var_cells_def vm_simps sim_def)
  next
    assume "obj_type ?r = Tk_X"
    with f s i show ?thesis
      by (intro goal [of "Cell Tk_X' 0"]) (auto simp: places_def var_of_def ok load_def var_cells_def vm_simps sim_def)
  qed
qed

lemma assign_same:
  assumes s: "sim d m s v" and ok: "assign_ok m al" "plain_shift (ASSIGN_LINE al)" and f: "Asm.assign_line al = Done f"
  shows "same_step d (mem_out m (ASSIGN_LINE al)) al s f v"
proof -
  from ok(1) have wf: "wf_assign al" by (simp add: assign_ok_def)
  then consider "obj_type (left_var al) = Tk_A" | "obj_type (left_var al) = Tk_X" | "obj_type (left_var al) = MEM"
    by (auto simp: wf_assign_def)
  then show ?thesis
  proof cases
    case 1
    with ok(1) have A: "assign_A_ok m al" by (simp add: assign_ok_def)
    have m: "mem_out m (ASSIGN_LINE al) = m" using 1 by (simp add: mem_out_def)
    from wf consider p where "operator al = Assign_tk p" | "operator al = EQUAL" | "operator al = NEGATIVE"
      by (auto simp: wf_assign_def)
    then show ?thesis
      unfolding m
      by cases (use alu_same [OF s A _ 1 ok(2) f] ld_same [OF s A wf _ 1] neg_same [OF s A _ 1 f] f 1
          in \<open>auto simp: asm_ld\<close>)
  next
    case 2
    with ok(1) ldx_same [OF s _ 2 f] show ?thesis by (simp add: assign_ok_def mem_out_def)
  next
    case 3
    with ok(1) st_same [OF s _ 3 f] show ?thesis by (simp add: assign_ok_def mem_out_def)
  qed
qed

section \<open>Jumps\<close>

lemma compare_same:
  "compare (Compare_tk c) a b = Done (vm_cond (jump_op c) a b = (Compare_tk c \<notin> {BANG_EQUAL, LESS_EQUAL, LESS_THAN}))"
  by (cases c) (auto simp: compare_def vm_cond_def jump_op_def not_le not_less)

text \<open>Both go the distance of the same label.\<close>

lemma jump_same:
  assumes s: "sim d m s v" and ok: "jump_ok len n j" and f: "Asm.jump_line j = Done f"
  shows "\<exists>l. Emu.jump_line j s = Done l \<and> vm_step d f v = Next (unat (label_nr l)) v
    \<and> (l = jt j \<or> if_condition j \<and> l = jf j)"
proof (cases "if_condition j")
  case False
  with f show ?thesis by (auto simp: Emu.jump_line_def asm_ja vm_simps)
next
  case True
  from ok True obtain c where c: "comparator j = Compare_tk c" "obj_type (cmpobj j) \<in> {Tk_X, NUMBER}"
    by (auto simp: jump_ok_def wf_jump_def)
  let ?b = "if obj_type (cmpobj j) = Tk_X then X_reg s else obj_data (cmpobj j)"
  let ?cond = "vm_cond (jump_op c) (A_reg s) ?b"
  let ?l = "if ?cond = (\<not> swaps j) then jt j else jf j"
  note f = f [unfolded asm_jump [OF True c], simplified]
  have jc: "is_jump_code (sf_code f)" using f jump_op_codes [of c] by auto
  have "vm_source f v = ?b" "BPF_OP (sf_code f) = jump_op c"
    using f c s jump_op_field [of c] by (auto simp: vm_source_def sim_def)
  with vm_step_jump [OF jc, of d v] s have step: "vm_step d f v = Next (unat (if ?cond then sf_jt f else sf_jf f)) v"
    by (simp add: sim_def)
  have u: "unat (sf_jt f) = unat (label_nr (if swaps j then jf j else jt j))"
    "unat (sf_jf f) = unat (label_nr (if swaps j then jt j else jf j))"
    using f ok True by (auto simp: jump_ok_def unat_small)
  have "vm_step d f v = Next (unat (label_nr ?l)) v" by (simp add: step u)
  moreover have "Emu.jump_line j s = Done ?l"
    using True c(1) by (auto simp: Emu.jump_line_def compare_same swaps_def)
  ultimately show ?thesis using True by auto
qed

section \<open>Returns\<close>

text \<open>The action a return value stands for, and what the emulator leaves in \<open>real_obj\<close>.\<close>

definition action_of :: "u32 \<Rightarrow> token_type" where
  "action_of w = snd (decode_return_k zero_obj w)"

definition reports :: "u32 \<Rightarrow> obj_t \<Rightarrow> bool" where
  "reports w r \<longleftrightarrow>
     obj_type r = action_of w
     \<and> (action_of w \<in> {TRACE, TRAP, ERRNO} \<longrightarrow> obj_data r = w AND RET_DATA)"

lemma decode_return_type: "snd (decode_return_k r w) = action_of w"
  by (auto simp: action_of_def decode_return_k_def Let_def)

lemma decode_return_reports:
  "decode_return_k r w = (r', t) \<Longrightarrow> reports w (r'\<lparr>obj_type := t\<rparr>)"
  using decode_return_type [of r w]
  by (auto simp: reports_def decode_return_k_def Let_def split: if_splits)

lemma low_data:
  assumes "(x :: u32) \<le> 0xffff"
  shows "x AND 0xffff0000 = 0" "x AND 0xffff = x"
proof -
  have "unat x < 2 ^ 16" using assms by (simp add: word_le_nat_alt)
  then have t: "take_bit 16 x = x"
    by (simp add: word_unat_eq_iff unsigned_take_bit_eq take_bit_nat_eq_self)
  then show "x AND 0xffff = x" by (simp add: take_bit_eq_mask mask_eq_exp_minus_1)
  then have "x AND 0xffff0000 = x AND (0xffff AND 0xffff0000)" by (metis and.assoc)
  then show "x AND 0xffff0000 = 0" by simp
qed

lemma action_decode:
  assumes "retvals (Action_tk a) = Done k" "x \<le> 0xffff" "dataless (Action_tk a) \<longrightarrow> x = 0"
  shows "reports (k OR x) (r\<lparr>obj_type := Action_tk a, obj_data := x\<rparr>)"
proof -
  have "(k OR x) AND RET_ACTION_FULL = k AND RET_ACTION_FULL" "(k OR x) AND RET_DATA = (k AND RET_DATA) OR x"
    by (simp_all add: bit.conj_disj_distrib2 low_data [OF assms(2)])
  with assms show ?thesis
    by (cases a) (auto simp: retvals_def reports_def action_of_def decode_return_k_def Let_def dataless_def)
qed

text \<open>The comment fits its buffer.\<close>

lemma length_base_str: "n < b ^ k \<Longrightarrow> 0 < k \<Longrightarrow> 2 \<le> b \<Longrightarrow> length (base_str b n) \<le> k"
proof (induction b n arbitrary: k rule: base_str.induct)
  case (1 b n)
  show ?case
  proof (cases "n < b")
    case True
    then show ?thesis using "1.prems" by (simp add: base_str.simps [of b n])
  next
    case False
    obtain k' where k: "k = Suc k'" using "1.prems" by (cases k) auto
    have "0 < k'" using "1.prems" False k by (cases k') auto
    note k = k this
    have "n div b < b ^ k'" using "1.prems" k by (simp add: less_mult_imp_div_less mult.commute)
    with "1.IH" [of k'] False "1.prems" k show ?thesis by (simp add: base_str.simps [of b n])
  qed
qed

lemma alt_hex_length: "length (alt_hex_str (unat (w :: u32))) \<le> 10"
  using length_base_str [of "unat w" 16 8] unsigned_less [of w]
  by (auto simp: alt_hex_str_def hex_str_def)

lemma data_suffix_length:
  assumes "reports w r"
  shows "length (data_suffix r) \<le> 7"
proof (cases "obj_type r \<in> {TRACE, TRAP, ERRNO}")
  case True
  with assms have "obj_data r = w AND 0xffff" by (auto simp: reports_def)
  then have "unat (obj_data r) \<le> 65535"
    using word_and_le1 [of w "0xffff"] by (simp add: word_le_nat_alt and.commute)
  with length_base_str [of "unat (obj_data r)" 10 5] show ?thesis by (auto simp: data_suffix_def dec_str_def)
qed (auto simp: data_suffix_def)

lemma action_length: "length (token_pairs (action_of w)) \<le> 12"
  by (auto simp: action_of_def decode_return_k_def Let_def)

lemma set_comment_ok: "length t < 0x28 \<Longrightarrow> \<exists>st'. set_comment q t st = Done st' \<and> line st' = line st
    \<and> text_nr st' = text_nr st \<and> code_nr st' = code_nr st \<and> label_decl st' = label_decl st"
  by (simp add: set_comment_def)

text \<open>The emulator changes nothing of a statement but what is shown of a return.\<close>

definition same_code :: "statement_t \<Rightarrow> statement_t \<Rightarrow> bool" where
  "same_code st st' \<longleftrightarrow>
     text_nr st' = text_nr st \<and> code_nr st' = code_nr st \<and> label_decl st' = label_decl st
     \<and> (line st' = line st
        \<or> (\<exists>r x. line st = RETURN_LINE r \<and> line st' = RETURN_LINE (r\<lparr>real_obj := x\<rparr>)))"

lemma same_code_refl [simp]: "same_code st st"
  by (simp add: same_code_def)

lemma return_same:
  assumes s: "sim d m s v" and ok: "return_ok r" and f: "Asm.return_line r = Done f" and l: "line st = RETURN_LINE r"
  shows "\<exists>st' w. Emu.return_line r s q st = Done st' \<and> vm_step d f v = Return w
    \<and> (\<exists>r'. line st' = RETURN_LINE r' \<and> reports w (real_obj r')) \<and> same_code st st'"
proof -
  let ?t = "obj_type (ret_obj r)"
  from ok consider a where "?t = Action_tk a" | "?t = Tk_A" | "?t = NUMBER"
    by (auto simp: return_ok_def wf_return_def)
  then show ?thesis
  proof cases
    case 1
    obtain k where k: "retvals (Action_tk a) = Done k" using retvals_action by blast
    have d: "obj_data (ret_obj r) \<le> 0xffff" "dataless (Action_tk a) \<longrightarrow> obj_data (ret_obj r) = 0"
      using ok 1 by (cases a; simp add: return_ok_def wf_return_data_def dataless_def)+
    from f 1 k have "f = zero_filter\<lparr>sf_code := 0x06, sf_k := k OR obj_data (ret_obj r)\<rparr>"
      by (auto simp: Asm.return_line_def Let_def)
    then show ?thesis
      using 1 action_decode [OF k d, of "real_obj r"] by (auto simp: vm_simps Emu.return_line_def Let_def same_code_def l)
  next
    case 2
    with f have "f = zero_filter\<lparr>sf_code := 0x16\<rparr>" by (auto simp: Asm.return_line_def)
    then have step: "vm_step d f v = Return (A_reg s)" using s by (simp add: vm_simps sim_def)
    obtain o' t where o': "decode_return_k (real_obj r) (A_reg s) = (o', t)" by force
    let ?o = "o'\<lparr>obj_type := t\<rparr>"
    have rep: "reports (A_reg s) ?o" by (rule decode_return_reports [OF o'])
    then have t: "t = action_of (A_reg s)" by (simp add: reports_def)
    have "length (''# $A = '' @ alt_hex_str (unat (A_reg s)) @ '', '' @ token_pairs t @ data_suffix ?o) < 0x28"
      using alt_hex_length [of "A_reg s"] action_length [of "A_reg s"] data_suffix_length [OF rep] t by simp
    from set_comment_ok [OF this, of q "st\<lparr>line := RETURN_LINE (r\<lparr>real_obj := ?o\<rparr>)\<rparr>"] 2 o' step rep show ?thesis
      by (auto simp: Emu.return_line_def Let_def same_code_def l)
  next
    case 3
    with f have "f = zero_filter\<lparr>sf_code := 0x06, sf_k := obj_data (ret_obj r)\<rparr>" by (auto simp: Asm.return_line_def)
    then have step: "vm_step d f v = Return (obj_data (ret_obj r))" by (simp add: vm_simps)
    obtain o' t where o': "decode_return_k (real_obj r) (obj_data (ret_obj r)) = (o', t)" by force
    let ?o = "o'\<lparr>obj_type := t\<rparr>"
    have rep: "reports (obj_data (ret_obj r)) ?o" by (rule decode_return_reports [OF o'])
    then have t: "t = action_of (obj_data (ret_obj r))" by (simp add: reports_def)
    have "length (''# '' @ token_pairs t @ data_suffix ?o) < 0x28"
      using action_length [of "obj_data (ret_obj r)"] data_suffix_length [OF rep] t by simp
    from set_comment_ok [OF this, of q "st\<lparr>line := RETURN_LINE (r\<lparr>real_obj := ?o\<rparr>)\<rparr>"] 3 o' step rep show ?thesis
      by (auto simp: Emu.return_line_def Let_def same_code_def l)
  qed
qed

section \<open>The way through the text\<close>

definition laid :: "str_table \<Rightarrow> statement_t list \<Rightarrow> bool" where
  "laid L T \<longleftrightarrow>
     T \<noteq> [] \<and> T ! 0 = zero_statement \<and> length T \<le> 65536
     \<and> (\<forall>i < length T. text_nr (T ! i) = of_nat i \<and> code_nr (T ! i) = of_nat (code_count T i))
     \<and> (\<forall>k v. map_of L k = Some v \<longrightarrow>
          (\<exists>i < length T. label_decl (T ! i) = Some k \<and> v = code_nr (T ! i))
          \<or> v = of_nat (code_count T (length T)))"

lemma code_count_mono: "i \<le> j \<Longrightarrow> code_count T i \<le> code_count T j"
  unfolding code_count_def
  by (metis filter_append le_add1 length_append take_add ordered_cancel_comm_monoid_diff_class.add_diff_inverse)

lemma code_count_less: "i < j \<Longrightarrow> j \<le> length T \<Longrightarrow> is_code (T ! i) \<Longrightarrow> code_count T i < code_count T j"
proof -
  assume a: "i < j" "j \<le> length T" "is_code (T ! i)"
  then have "code_count T (Suc i) = Suc (code_count T i)"
    by (simp add: code_count_def take_Suc_conv_app_nth)
  with code_count_mono [of "Suc i" j T] a show ?thesis by simp
qed

lemma code_count_all: "code_count T (length T) = length (code_lines T)"
  by (simp add: code_count_upt code_lines_def)

lemma between_lines:
  assumes n: "n < length (code_lines T)" and z: "code_count T z = n" "z < length T"
  shows "z \<le> code_lines T ! n \<and> (\<forall>j. z \<le> j \<longrightarrow> j < code_lines T ! n \<longrightarrow> \<not> is_code (T ! j))"
proof -
  let ?y = "code_lines T ! n"
  have "?y \<in> set (code_lines T)" using n by simp
  then have y: "?y < length T" "is_code (T ! ?y)" by (simp_all add: code_lines_simps)
  have c: "code_count T ?y = n" by (rule code_count_nth [OF n])
  have "z \<le> ?y" using code_count_less [OF _ _ y(2), of z] z c by (metis less_imp_le_nat less_irrefl not_le)
  moreover have "\<not> is_code (T ! j)" if "z \<le> j" "j < ?y" for j
    using code_count_less [OF that(2) less_imp_le [OF y(1)]] code_count_mono [OF that(1), of T] z(1) c by auto
  ultimately show ?thesis by blast
qed

lemma strncmp_eq_refl: "strncmp_eq k k n"
  by (induction n arbitrary: k) auto

lemma find_tag_ok:
  assumes "label_at (T ! z) jmp" "cur < z" "z \<le> y" "y < length T"
  shows "\<exists>t. find_tag T jmp cur y = Done t \<and> z \<le> t \<and> t \<le> y"
  using assms(3,4)
proof (induction y)
  case 0
  then show ?case using assms by simp
next
  case (Suc y)
  show ?case
  proof (cases "label_at (T ! Suc y) jmp")
    case True
    then show ?thesis using Suc.prems assms(2) by auto
  next
    case False
    then have "z \<noteq> Suc y" using assms(1) by blast
    with Suc False assms(2) show ?thesis by auto
  qed
qed

text \<open>A jump finds a line in front of its target, with no code line in between.\<close>

lemma jump_lands:
  assumes l: "laid L T" and R: "resolved L V T" and C: "C = map of_nat (code_lines T)"
    and n: "0 < n" "n < length (code_lines T)" and jmp: "label_goes L n jmp" "key jmp \<noteq> Some []"
    and t: "t = n + 1 + unat (label_nr jmp)" "t < length (code_lines T)"
  shows "\<exists>e. code_nr_to_text_nr T C (code T n) jmp = Done e \<and> code_lines T ! n < e
    \<and> e \<le> code_lines T ! t \<and> (\<forall>j. e \<le> j \<longrightarrow> j < code_lines T ! t \<longrightarrow> \<not> is_code (T ! j))"
proof -
  let ?CL = "code_lines T"
  have inT: "?CL ! k < length T \<and> is_code (T ! (?CL ! k))" if "k < length ?CL" for k
    using that nth_mem [of k ?CL] by (simp_all add: code_lines_simps)
  let ?x = "?CL ! n" and ?y = "?CL ! t"
  have x: "?x < length T" "is_code (T ! ?x)" "code_count T ?x = n" and y: "?y < length T" "code_count T ?y = t"
    using inT [OF n(2)] inT [OF t(2)] code_count_nth n t by blast+
  have b: "length T \<le> 65536" "length ?CL \<le> 4097" using l R by (auto simp: laid_def resolved_def Let_def BPF_MAXINSNS_def)
  have tx: "unat (text_nr (code T n)) = ?x" "unat (code_nr (code T n)) = n"
    using l x b n by (simp_all add: laid_def code_def unat_of_nat)
  show ?thesis
  proof (cases "key jmp")
    case None
    then have t': "t = n + 1" using jmp t by (simp add: label_goes_def)
    have "code_count T (?x + 1) = t"
      using x t' by (simp add: code_count_def take_Suc_conv_app_nth)
    moreover have "?x + 1 < length T"
    proof -
      have "?x < ?y" using t' n t sorted_wrt_nth_less [of "(<)" ?CL n t]
        by (simp add: code_lines_def sorted_wrt_filter)
      with y show ?thesis by simp
    qed
    ultimately show ?thesis using between_lines [of t T "?x + 1"] t None tx
      by (auto simp: code_nr_to_text_nr_def)
  next
    case (Some k)
    with jmp have "map_of L k = Some (of_nat t)" "k \<noteq> []" using t by (auto simp: label_goes_def)
    with l have "(\<exists>i < length T. label_decl (T ! i) = Some k \<and> of_nat t = code_nr (T ! i))
        \<or> (of_nat t :: u16) = of_nat (code_count T (length T))" by (auto simp: laid_def)
    moreover have small: "unat (of_nat k :: u16) = k" if "k \<le> 4097" for k using that by (simp add: unat_of_nat)
    have t4: "t \<le> 4097" "t < length ?CL" using t b by simp_all
    have "(of_nat t :: u16) \<noteq> of_nat (code_count T (length T))"
    proof
      assume "(of_nat t :: u16) = of_nat (code_count T (length T))"
      then have "unat (of_nat t :: u16) = unat (of_nat (length ?CL) :: u16)" by (simp only: code_count_all)
      then show False using small [of t] small [of "length ?CL"] t4 b(2) by simp
    qed
    ultimately obtain z where z: "z < length T" "label_decl (T ! z) = Some k" "of_nat t = code_nr (T ! z)" by blast
    have "code_count T z \<le> 4097" using code_count_mono [of z "length T" T] z b by (simp add: code_count_all)
    then have "unat (of_nat (code_count T z) :: u16) = code_count T z" "unat (of_nat t :: u16) = t"
      using small t4 by blast+
    then have cz: "code_count T z = t" using z l by (metis laid_def)
    have zx: "?x < z" using code_count_mono [of z ?x T] cz x t by (metis add_leD1 less_add_one linorder_not_le not_add_less1)
    from between_lines [OF t(2) cz z(1)] have zy: "z \<le> ?y" "\<forall>j. z \<le> j \<longrightarrow> j < ?y \<longrightarrow> \<not> is_code (T ! j)" by auto
    have "label_at (T ! z) jmp" using Some z by (simp add: label_at_def strncmp_eq_refl)
    from find_tag_ok [OF this zx zy(1) y(1)] obtain e where
      e: "find_tag T jmp ?x ?y = Done e" "z \<le> e" "e \<le> ?y" by blast
    have "C ! t = of_nat ?y" "t < length C" using C t by simp_all
    then have "unat (C ! t) = ?y" using y b by (simp add: unat_of_nat)
    moreover have "unat (text_nr (T ! ?y)) = ?y" using l y b by (simp add: laid_def unat_of_nat)
    ultimately have "code_nr_to_text_nr T C (code T n) jmp = Done e"
      using Some \<open>k \<noteq> []\<close> tx t \<open>t < length C\<close> y e by (simp add: code_nr_to_text_nr_def)
    with e zx zy show ?thesis by (meson le_trans less_le_trans)
  qed
qed

section \<open>Printing does not fail\<close>

definition printable :: "statement_t \<Rightarrow> bool" where
  "printable st \<longleftrightarrow> wf_line (line st) \<and> line st \<noteq> EOF_LINE \<and> \<not> is_error (line st)"

lemma obj_printer_var: "obj_type r = Var_tk v \<or> obj_type r = NUMBER \<or> obj_type r = Action_tk a
    \<Longrightarrow> \<exists>s. obj_printer c r = Done s"
  by (auto simp: obj_printer_def obj_print_def split: var_tk.split action_tk.split)

lemma print_stmt_ok: "printable st \<Longrightarrow> \<exists>s. print_stmt c st = Done s"
proof (cases "line st")
  case (ASSIGN_LINE al)
  assume "printable st"
  with ASSIGN_LINE have wf: "wf_assign al" by (simp add: printable_def wf_line_def)
  have "\<exists>s. obj_printer c (left_var al) = Done s" using wf obj_printer_var
    by (auto simp: wf_assign_def)
  moreover have "\<exists>s. obj_printer c (right_var al) = Done s" using wf obj_printer_var
    by (auto simp: wf_assign_def wf_right_def)
  ultimately show ?thesis using ASSIGN_LINE by (auto simp: print_stmt_def print_assign_def)
next
  case (JUMP_LINE j)
  assume "printable st"
  with JUMP_LINE have wf: "wf_jump j" by (simp add: printable_def wf_line_def)
  have "\<exists>s. obj_printer c (zero_obj\<lparr>obj_type := Tk_A\<rparr>) = Done s"
    by (rule obj_printer_var) simp
  moreover have "if_condition j \<Longrightarrow> \<exists>s. obj_printer c (cmpobj j) = Done s" using wf obj_printer_var
    by (auto simp: wf_jump_def)
  ultimately show ?thesis using JUMP_LINE by (auto simp: print_stmt_def print_jump_def)
next
  case (RETURN_LINE r)
  assume "printable st"
  with RETURN_LINE have "wf_return r" by (simp add: printable_def wf_line_def)
  then have "\<exists>s. obj_printer c (ret_obj r) = Done s" using obj_printer_var
    by (auto simp: wf_return_def)
  then show ?thesis using RETURN_LINE by (auto simp: print_stmt_def print_return_def)
qed (auto simp: printable_def is_error_def print_stmt_def)

lemma emulate_printer_ok:
  assumes "printable st" "length (enable_stack c) < 0x10"
  shows "\<exists>s. emulate_printer c st sk q = Done (s, c)"
proof -
  from print_stmt_ok [OF assms(1)] obtain s1 s2 where
    "print_stmt False st = Done s1" "print_stmt (color_enable c) st = Done s2" by metis
  with assms(2) show ?thesis by (auto simp: emulate_printer_def push_color_def pop_color_def)
qed

text \<open>A machine in the middle of a text: only the printed text differs.\<close>

definition same_but_out :: "emulation \<Rightarrow> emulation \<Rightarrow> bool" where
  "same_but_out m m' \<longleftrightarrow> m_text m' = m_text m \<and> m_vars m' = m_vars m \<and> m_color m' = m_color m"

lemma same_but_out_refl [simp]: "same_but_out m m"
  by (simp add: same_but_out_def)

lemma print_line_ok:
  assumes "printable (m_text m ! i)" "length (enable_stack (m_color m)) < 0x10"
  shows "\<exists>m'. print_line i sk q m = Done m' \<and> same_but_out m m'"
  using emulate_printer_ok [OF assms, of sk q] by (auto simp: print_line_def same_but_out_def)

section \<open>The loop\<close>

text \<open>Lines that are skipped or empty are printed until the next code line is read.\<close>

lemma skip_lines:
  assumes "read_idx \<le> exec_idx" "exec_idx \<le> y" "y < length (m_text m)" "n = length (m_text m) - read_idx"
    and "\<forall>j. read_idx \<le> j \<longrightarrow> j < y \<longrightarrow> printable (m_text m ! j)"
    and "\<forall>j. exec_idx \<le> j \<longrightarrow> j < y \<longrightarrow> \<not> is_code (m_text m ! j)"
    and "length (enable_stack (m_color m)) < 0x10"
  shows "\<exists>m' l. same_but_out m m' \<and> emu_loop C q n read_idx exec_idx last_idx m
    = emu_loop C q (length (m_text m) - y) y y l m'"
  using assms
proof (induction n arbitrary: read_idx exec_idx last_idx m)
  case (Suc n)
  show ?case
  proof (cases "read_idx = y")
    case True
    then have "exec_idx = y" using Suc.prems by simp
    with True Suc.prems(4) show ?thesis using same_but_out_refl by metis
  next
    case False
    then have lt: "read_idx < y" using Suc.prems by simp
    from print_line_ok [of m read_idx "read_idx < exec_idx" q] Suc.prems lt obtain m1 where
      m1: "print_line read_idx (read_idx < exec_idx) q m = Done m1" "same_but_out m m1" by auto
    then have same: "m_text m1 = m_text m" "m_color m1 = m_color m" by (simp_all add: same_but_out_def)
    let ?e = "if read_idx < exec_idx then exec_idx else Suc exec_idx"
    have step: "emu_loop C q (Suc n) read_idx exec_idx last_idx m = emu_loop C q n (Suc read_idx) ?e (Some read_idx) m1"
    proof (cases "read_idx < exec_idx")
      case True
      then show ?thesis using m1 by simp
    next
      case False
      with Suc.prems lt have "line (m_text m ! read_idx) = EMPTY_LINE" by (simp add: is_code_def)
      with False m1 show ?thesis by (simp add: exec_statement_def)
    qed
    have "\<exists>m' l. same_but_out m1 m' \<and> emu_loop C q n (Suc read_idx) ?e (Some read_idx) m1
        = emu_loop C q (length (m_text m1) - y) y y l m'"
      by (rule Suc.IH) (use Suc.prems lt same in auto)
    then obtain m' l where "same_but_out m1 m'" "emu_loop C q n (Suc read_idx) ?e (Some read_idx) m1
        = emu_loop C q (length (m_text m1) - y) y y l m'" by blast
    moreover from this(1) m1(2) have "same_but_out m m'" by (simp add: same_but_out_def)
    ultimately show ?thesis using step same by metis
  qed
qed simp

text \<open>What the emulator ends with, against the value the machine returns.\<close>

definition ends_with :: "u32 \<Rightarrow> line_t \<Rightarrow> bool" where
  "ends_with w l \<longleftrightarrow>
     (case l of
        RETURN_LINE r \<Rightarrow> reports w (real_obj r)
      | ASSIGN_LINE al \<Rightarrow> w = RET_KILL
      | _ \<Rightarrow> False)"

text \<open>The statements the emulator may meet.\<close>

lemma resolved_printable:
  assumes R: "resolved L V T" and T: "T ! 0 = zero_statement" and i: "i < length T" "0 < i"
  shows "printable (T ! i)"
proof (cases "is_code (T ! i)")
  case False
  then show ?thesis by (simp add: is_code_def printable_def wf_line_def is_error_def)
next
  case True
  then have ic: "i \<in> set (code_lines T)" using i by (simp add: code_lines_simps)
  let ?n = "code_count T i"
  have n: "code_lines T ! ?n = i" "?n < length (code_lines T)" using code_lines_split [OF ic] by simp_all
  have "is_code (T ! 0)" using T by (simp add: is_code_def zero_statement_def)
  then have "0 < ?n" using code_count_less [of 0 i T] i by simp
  from resolved_line_ok(1) [OF R this n(2)] n(1) show ?thesis
    by (auto simp: code_def line_ok_def printable_def wf_line_def is_error_def assign_ok_def jump_ok_def return_ok_def
        split: line_t.splits)
qed

lemma code_line_order:
  assumes "n < t" "t < length (code_lines T)"
  shows "code_lines T ! n < code_lines T ! t"
  using assms sorted_wrt_nth_less [of "(<)" "code_lines T" n t]
  by (simp add: code_lines_def sorted_wrt_filter)

text \<open>
  What every step keeps: \<open>P n s\<close> before the code line \<open>n\<close> is executed, and \<open>E l s\<close> of the line the run ends with.
\<close>

definition emu_keeps ::
  "statement_t list \<Rightarrow> (nat \<Rightarrow> emu_state \<Rightarrow> bool) \<Rightarrow> (line_t \<Rightarrow> emu_state \<Rightarrow> bool) \<Rightarrow> bool" where
  "emu_keeps T P E \<longleftrightarrow> (\<forall>n s. 0 < n \<longrightarrow> n < length (code_lines T) \<longrightarrow> P n s \<longrightarrow>
     (case line (code T n) of
        ASSIGN_LINE al \<Rightarrow> \<exists>fpe s'. Emu.assign_line al s = Done (fpe, al, s')
          \<and> (if fpe then E (ASSIGN_LINE al) s' else P (Suc n) s')
      | JUMP_LINE j \<Rightarrow> \<exists>l. Emu.jump_line j s = Done l \<and> (l = jt j \<or> if_condition j \<and> l = jf j)
          \<and> P (n + 1 + unat (label_nr l)) s
      | RETURN_LINE r \<Rightarrow> \<forall>q. \<exists>st' r'. Emu.return_line r s q (code T n) = Done st' \<and> line st' = RETURN_LINE r'
          \<and> same_code (code T n) st' \<and> E (RETURN_LINE r') s
      | _ \<Rightarrow> True))"

lemma emu_loop_keeps:
  assumes R: "resolved L V T" and l: "laid L T" and C: "C = map of_nat (code_lines T)" and K: "emu_keeps T P E"
    and n: "0 < n" "n < length (code_lines T)" and y: "y = code_lines T ! n"
    and m: "m_text m = T" "length (enable_stack (m_color m)) < 0x10" and s: "P n (m_vars m)"
  shows "\<exists>i m'. emu_loop C q (length T - y) y y last_idx m = Done (Some i, m') \<and> 0 < i \<and> i < length T
    \<and> m_text m' = T[i := m_text m' ! i] \<and> m_color m' = m_color m
    \<and> E (line (m_text m' ! i)) (m_vars m') \<and> same_code (T ! i) (m_text m' ! i)"
  using n y m s
proof (induction "length (code_lines T) - n" arbitrary: n y m last_idx rule: less_induct)
  case less
  let ?CL = "code_lines T"
  have T0: "T ! 0 = zero_statement" using l by (simp add: laid_def)
  have inT: "?CL ! k < length T" if "k < length ?CL" for k
    using that nth_mem [of k ?CL] by (simp add: code_lines_simps)
  have yT: "y < length T" using inT less.prems by simp
  have y0: "0 < y" using code_line_order [of 0 n T] less.prems by simp
  have st: "m_text m ! y = code T n" and Ty: "T ! y = code T n" using less.prems by (simp_all add: code_def)
  have ok: "line_ok (V n) (length ?CL - 1) n (line (code T n))"
    by (rule resolved_line_ok(1) [OF R less.prems(1,2)])
  note keep = K [unfolded emu_keeps_def, rule_format, OF less.prems(1,2,6)]
  have n0: "length T - y = Suc (length T - Suc y)" using yT by simp
  have loop: "emu_loop C q (length T - y) y y last_idx m =
      cbind (exec_statement C q y (Suc y) m) (\<lambda>(e, m).
        case e of None \<Rightarrow> Done (Some y, m)
        | Some e \<Rightarrow> emu_loop C q (length T - Suc y) (Suc y) e (Some y) m)"
    unfolding n0 by simp
  have pr: "printable (m_text m ! y)" using resolved_printable [OF R T0 yT y0] less.prems by simp
  have go: ?case
    if t: "n < t" "t < length ?CL" and e: "y < e" "e \<le> ?CL ! t" "\<forall>j. e \<le> j \<longrightarrow> j < ?CL ! t \<longrightarrow> \<not> is_code (T ! j)"
      and ex: "exec_statement C q y (Suc y) m = Done (Some e, m1)" and m1: "m_text m1 = T" "m_color m1 = m_color m"
      and s1: "P t (m_vars m1)" for t e m1
  proof -
    let ?z = "?CL ! t"
    have z: "?z < length (m_text m1)" using inT [OF t(2)] m1 by simp
    have pr1: "\<forall>j. Suc y \<le> j \<longrightarrow> j < ?z \<longrightarrow> printable (m_text m1 ! j)"
      using resolved_printable [OF R T0] z m1 by simp
    from skip_lines [of "Suc y" e ?z m1 "length (m_text m1) - Suc y" C q "Some y"] e z pr1 m1 less.prems
    obtain m2 la where m2: "same_but_out m1 m2" "emu_loop C q (length T - Suc y) (Suc y) e (Some y) m1
        = emu_loop C q (length T - ?z) ?z ?z la m2" by auto
    have sz: "length ?CL - t < length ?CL - n" using t by simp
    have t0: "0 < t" using t by simp
    have c2: "m_text m2 = T" "length (enable_stack (m_color m2)) < 0x10" "P t (m_vars m2)"
      "m_color m2 = m_color m"
      using m2(1) m1 s1 less.prems by (simp_all add: same_but_out_def)
    from less.hyps [OF sz t0 t(2) refl c2(1-3), of la] obtain i m' where
      "emu_loop C q (length T - ?z) ?z ?z la m2 = Done (Some i, m')" "0 < i" "i < length T"
      "m_text m' = T[i := m_text m' ! i]" "m_color m' = m_color m"
      "E (line (m_text m' ! i)) (m_vars m')" "same_code (T ! i) (m_text m' ! i)"
      unfolding c2(4) by blast
    then show ?thesis using loop ex m2(2) by auto
  qed
  show ?case
  proof (cases "line (code T n)")
    case (ASSIGN_LINE al)
    with keep obtain fpe s' where a: "Emu.assign_line al (m_vars m) = Done (fpe, al, s')"
      "if fpe then E (ASSIGN_LINE al) s' else P (Suc n) s'" by auto
    have "(m_text m)[y := (m_text m ! y)\<lparr>line := ASSIGN_LINE al\<rparr>] = m_text m"
      using st ASSIGN_LINE by (metis list_update_id statement_t.surjective statement_t.update_convs(1) statement_t.select_convs(1))
    then have m': "m\<lparr>m_text := (m_text m)[y := (m_text m ! y)\<lparr>line := ASSIGN_LINE al\<rparr>], m_vars := s'\<rparr> = m\<lparr>m_vars := s'\<rparr>"
      by simp
    show ?thesis
    proof (cases fpe)
      case False
      let ?m = "m\<lparr>m_vars := s'\<rparr>"
      from print_line_ok [of ?m y False q] pr less.prems obtain m1 where
        m1: "print_line y False q ?m = Done m1" "same_but_out ?m m1" by auto
      have ex: "exec_statement C q y (Suc y) m = Done (Some (Suc y), m1)"
        using st ASSIGN_LINE a(1) False m1(1) m' by (simp add: exec_statement_def Let_def)
      have nl: "n \<noteq> length ?CL - 1" using R ASSIGN_LINE by (auto simp: resolved_def Let_def is_return_def)
      then have t: "n < Suc n" "Suc n < length ?CL" using less.prems by simp_all
      have "code_count T (Suc y) = Suc n"
        using code_count_nth [OF less.prems(2)] yT ASSIGN_LINE less.prems(3)
        by (simp add: code_count_def take_Suc_conv_app_nth code_def is_code_def)
      moreover have "Suc y < length T" using code_line_order [OF t] inT [OF t(2)] less.prems(3) by simp
      ultimately have b: "Suc y \<le> ?CL ! Suc n" "\<forall>j. Suc y \<le> j \<longrightarrow> j < ?CL ! Suc n \<longrightarrow> \<not> is_code (T ! j)"
        using between_lines [OF t(2)] by auto
      show ?thesis
        by (rule go [OF t _ b ex]) (use m1(2) less.prems a(2) False in \<open>simp_all add: same_but_out_def\<close>)
    next
      case True
      then have "exec_statement C q y (Suc y) m = Done (None, m\<lparr>m_vars := s'\<rparr>)"
        using st ASSIGN_LINE a(1) m' by (simp add: exec_statement_def Let_def)
      then show ?thesis using loop less.prems yT y0 st ASSIGN_LINE a(2) True by auto
    qed
  next
    case (JUMP_LINE j)
    with keep obtain jmp where jmp: "Emu.jump_line j (m_vars m) = Done jmp" "jmp = jt j \<or> if_condition j \<and> jmp = jf j"
      "P (n + 1 + unat (label_nr jmp)) (m_vars m)" by auto
    from ok JUMP_LINE have jok: "jump_ok (length ?CL - 1) n j" by (simp add: line_ok_def)
    let ?t = "n + 1 + unat (label_nr jmp)"
    have t: "n < ?t" "?t < length ?CL"
      using jmp(2) jok less.prems by (auto simp: jump_ok_def jump_targets_def)
    have lab: "label_goes L n jmp" using resolved_line_ok(3) [OF R less.prems(1,2)] JUMP_LINE jmp(2)
      by (auto simp: line_labels_def jump_labels_def)
    have ne: "key jmp \<noteq> Some []" using jmp(2) jok by (auto simp: jump_ok_def wf_jump_def wf_label_def)
    from jump_lands [OF l R C less.prems(1,2) lab ne refl t(2)] obtain e where
      e: "code_nr_to_text_nr T C (code T n) jmp = Done e" "y < e" "e \<le> ?CL ! ?t"
        "\<forall>j. e \<le> j \<longrightarrow> j < ?CL ! ?t \<longrightarrow> \<not> is_code (T ! j)"
      using less.prems(3) by auto
    from print_line_ok [of m y False q] pr less.prems obtain m1 where
      m1: "print_line y False q m = Done m1" "same_but_out m m1" by auto
    have ex: "exec_statement C q y (Suc y) m = Done (Some e, m1)"
      using st JUMP_LINE jmp(1) e(1) m1(1) less.prems by (simp add: exec_statement_def)
    show ?thesis
      by (rule go [OF t e(2-4) ex]) (use m1(2) less.prems jmp(3) in \<open>simp_all add: same_but_out_def\<close>)
  next
    case (RETURN_LINE r)
    with keep obtain st' r' where r': "Emu.return_line r (m_vars m) q (code T n) = Done st'" "line st' = RETURN_LINE r'"
      "same_code (code T n) st'" "E (RETURN_LINE r') (m_vars m)" by simp blast
    have "exec_statement C q y (Suc y) m = Done (None, m\<lparr>m_text := T[y := st']\<rparr>)"
      using st RETURN_LINE r'(1) less.prems by (simp add: exec_statement_def)
    then show ?thesis using loop r' less.prems yT y0 Ty by auto
  qed (use ok in \<open>simp_all add: line_ok_def\<close>)
qed

section \<open>The emulator\<close>

lemma laid_resolved:
  assumes w: "well_laid T C L" and ch: "lines_changed xs T T'" and CL: "code_lines T' = code_lines T"
    and z: "0 \<notin> set xs" and lt: "length T \<le> 65536"
  shows "laid L T' \<and> C = map of_nat (code_lines T')"
proof -
  have len: "length T' = length T" and same: "\<And>i. T' ! i = (T ! i)\<lparr>line := line (T' ! i)\<rparr>"
    using ch by (auto simp: lines_changed_def)
  have f: "text_nr (T' ! i) = text_nr (T ! i)" "code_nr (T' ! i) = code_nr (T ! i)"
    "label_decl (T' ! i) = label_decl (T ! i)" for i
    by (subst same, simp)+
  have "is_code (T' ! i) = is_code (T ! i)" if "i < length T" for i
    using CL code_lines_simps(3) [of i T] code_lines_simps(3) [of i T'] that len by simp
  then have "code_count T' i = code_count T i" if "i \<le> length T" for i
    using that len by (auto simp: code_count_upt intro!: arg_cong [where f = length] filter_cong)
  with w len f z ch lt show ?thesis
    unfolding well_laid_def laid_def CL by (auto simp: lines_changed_def)
qed

text \<open>The whole run.\<close>

lemma emulator_keeps:
  assumes R: "resolved L V T" and l: "laid L T" and C: "C = map of_nat (code_lines T)" and K: "emu_keeps T P E"
    and E: "\<And>l s. E l s \<Longrightarrow> is_return l \<or> is_assign l"
    and m: "m_text m = T" "length (enable_stack (m_color m)) < 0x10" and s: "P 1 (m_vars m)"
  shows "\<exists>i m'. emulator C q m = Done (i, m') \<and> 0 < i \<and> i < length T \<and> m_text m' = T[i := m_text m' ! i]
    \<and> m_color m' = m_color m \<and> E (line (m_text m' ! i)) (m_vars m') \<and> same_code (T ! i) (m_text m' ! i)"
proof -
  have T0: "T \<noteq> []" "T ! 0 = zero_statement" using l by (simp_all add: laid_def)
  have z: "0 \<in> set (code_lines T)" using T0 by (simp add: code_lines_simps is_code_def zero_statement_def)
  have c0: "code_lines T ! 0 = 0" using code_lines_split [OF z] by (simp add: code_count_def)
  have n1: "(0::nat) < 1" "1 < length (code_lines T)" using R by (auto simp: resolved_def Let_def)
  let ?y = "code_lines T ! 1"
  have yT: "?y < length T" using n1(2) nth_mem [of 1 "code_lines T"] by (simp add: code_lines_simps)
  have y1: "1 \<le> ?y" using code_line_order [of 0 1 T] n1 c0 by simp
  have one: "1 < length T" using y1 yT by simp
  have "code_count T 1 = 1" using T0 by (simp add: code_count_def take_Suc_conv_app_nth is_code_def zero_statement_def)
  from between_lines [OF n1(2) this one] have e: "\<forall>j. 1 \<le> j \<longrightarrow> j < ?y \<longrightarrow> \<not> is_code (T ! j)" by simp
  have pr: "\<forall>j. 1 \<le> j \<longrightarrow> j < ?y \<longrightarrow> printable (m_text m ! j)"
    using resolved_printable [OF R T0(2)] yT m by simp
  from skip_lines [of 1 1 ?y m "length T - 1" C q None] y1 yT m e pr obtain m1 la where
    m1: "same_but_out m m1" "emu_loop C q (length T - 1) 1 1 None m = emu_loop C q (length T - ?y) ?y ?y la m1"
    by auto
  have mm: "m_text m1 = T" "length (enable_stack (m_color m1)) < 0x10" "P 1 (m_vars m1)" "m_color m1 = m_color m"
    using m1(1) m s by (simp_all add: same_but_out_def)
  from emu_loop_keeps [OF R l C K n1 refl mm(1-3), of q la] obtain i m' where
    r: "emu_loop C q (length T - ?y) ?y ?y la m1 = Done (Some i, m')" "0 < i" "i < length T"
      "m_text m' = T[i := m_text m' ! i]" "m_color m' = m_color m1" "E (line (m_text m' ! i)) (m_vars m')"
      "same_code (T ! i) (m_text m' ! i)" by blast
  have "emulator C q m = Done (i, m')" using m1(2) r(1) E [OF r(6)] m(1) by (simp add: emulator_def)
  with r mm(4) show ?thesis by auto
qed

text \<open>Every line makes the step of the machine: what the machine returns stays the same along the run.\<close>

lemma emu_keeps_vm:
  assumes R: "resolved L V T" and fs: "asm_lines (code_statements T) = Done fs" and sh: "\<forall>st \<in> set T. plain_shift (line st)"
  shows "emu_keeps T (\<lambda>n s. \<exists>v. sim d (V n) s v \<and> vm_run d fs (n - 1) v = Some w) (\<lambda>l s. ends_with w l \<and> inputs d s)"
  unfolding emu_keeps_def
proof (intro allI impI, elim exE conjE)
  fix n s v
  assume n: "0 < n" "n < length (code_lines T)" and s: "sim d (V n) s v" and run: "vm_run d fs (n - 1) v = Some w"
  from asm_program [OF R] fs have lf: "length fs = length (code_lines T) - 1"
    and fit: "\<And>i. i < length fs \<Longrightarrow> asm_statement (code T (Suc i)) = Done (fs ! i)" by auto
  have pc: "n - 1 < length fs" "Suc (n - 1) = n" using n lf by simp_all
  from fit [OF pc(1)] pc have f: "asm_statement (code T n) = Done (fs ! (n - 1))" by simp
  have n1: "n - 1 + 1 = n" using n by simp
  have step: "(case vm_step d (fs ! (n - 1)) v of
      Next j s' \<Rightarrow> vm_run d fs (n + j) s' | Return w \<Rightarrow> Some w | Stuck \<Rightarrow> None) = Some w"
    using pc(1) vm_run.simps [of d fs "n - 1" v, unfolded n1] run by simp
  have ok: "line_ok (V n) (length (code_lines T) - 1) n (line (code T n))"
    by (rule resolved_line_ok(1) [OF R n])
  have "code_lines T ! n < length T" using n nth_mem [of n "code_lines T"] by (simp add: code_lines_simps)
  then have shn: "plain_shift (line (code T n))" using sh by (simp add: code_def)
  have inp: "inputs d s" using s by (simp add: sim_def)
  have words: "words_in (V t) (mem_out (V n) (line (code T n)))" if "t \<in> set (targets n (line (code T n)))" "t < length (code_lines T)" for t
    by (rule resolved_line_ok(2) [OF R n that])
  show "case line (code T n) of
        ASSIGN_LINE al \<Rightarrow> \<exists>fpe s'. Emu.assign_line al s = Done (fpe, al, s')
          \<and> (if fpe then ends_with w (ASSIGN_LINE al) \<and> inputs d s'
             else \<exists>v. sim d (V (Suc n)) s' v \<and> vm_run d fs (Suc n - 1) v = Some w)
      | JUMP_LINE j \<Rightarrow> \<exists>l. Emu.jump_line j s = Done l \<and> (l = jt j \<or> if_condition j \<and> l = jf j)
          \<and> (\<exists>v. sim d (V (n + 1 + unat (label_nr l))) s v \<and> vm_run d fs (n + 1 + unat (label_nr l) - 1) v = Some w)
      | RETURN_LINE r \<Rightarrow> \<forall>q. \<exists>st' r'. Emu.return_line r s q (code T n) = Done st' \<and> line st' = RETURN_LINE r'
          \<and> same_code (code T n) st' \<and> ends_with w (RETURN_LINE r') \<and> inputs d s
      | _ \<Rightarrow> True"
  proof (cases "line (code T n)")
    case (ASSIGN_LINE al)
    from ok ASSIGN_LINE have aok: "assign_ok (V n) al" by (simp add: line_ok_def)
    from f ASSIGN_LINE have fa: "Asm.assign_line al = Done (fs ! (n - 1))" by (simp add: asm_statement_def)
    from assign_same [OF s aok _ fa] shn ASSIGN_LINE
    have "same_step d (mem_out (V n) (ASSIGN_LINE al)) al s (fs ! (n - 1)) v" by simp
    moreover have "words_in (V (Suc n)) (mem_out (V n) (ASSIGN_LINE al))"
    proof -
      have "n \<noteq> length (code_lines T) - 1" using R ASSIGN_LINE by (auto simp: resolved_def Let_def is_return_def)
      then show ?thesis using words [of "Suc n"] n ASSIGN_LINE by (simp add: targets_def)
    qed
    ultimately show ?thesis
      using step ASSIGN_LINE inp by (fastforce simp: same_step_def ends_with_def intro: sim_words)
  next
    case (JUMP_LINE j)
    from ok JUMP_LINE have jok: "jump_ok (length (code_lines T) - 1) n j" by (simp add: line_ok_def)
    from f JUMP_LINE have fj: "Asm.jump_line j = Done (fs ! (n - 1))" by (simp add: asm_statement_def)
    from jump_same [OF s jok fj] obtain jmp where
      jmp: "Emu.jump_line j s = Done jmp" "vm_step d (fs ! (n - 1)) v = Next (unat (label_nr jmp)) v"
        "jmp = jt j \<or> if_condition j \<and> jmp = jf j" by blast
    let ?t = "n + 1 + unat (label_nr jmp)"
    have "?t \<in> set (targets n (line (code T n)))"
      using jmp(3) JUMP_LINE by (auto simp: targets_def jump_targets_def)
    moreover have "?t < length (code_lines T)"
      using jmp(3) jok n by (auto simp: jump_ok_def jump_targets_def)
    ultimately have "sim d (V ?t) s v"
      using words s JUMP_LINE by (auto simp: mem_out_def intro: sim_words)
    then show ?thesis using jmp step JUMP_LINE by auto
  next
    case (RETURN_LINE r)
    from ok RETURN_LINE have rok: "return_ok r" by (simp add: line_ok_def)
    from f RETURN_LINE have fr: "Asm.return_line r = Done (fs ! (n - 1))" by (simp add: asm_statement_def)
    show ?thesis
      using return_same [OF s rok fr RETURN_LINE] step RETURN_LINE inp by (fastforce simp: ends_with_def)
  qed simp_all
qed

lemma emulator_vm:
  assumes R: "resolved L V T" and l: "laid L T" and C: "C = map of_nat (code_lines T)"
    and sh: "\<forall>st \<in> set T. plain_shift (line st)"
    and m: "m_text m = T" "length (enable_stack (m_color m)) < 0x10"
    and s: "inputs d (m_vars m)" "A_reg (m_vars m) = 0" "X_reg (m_vars m) = 0"
  shows "\<exists>fs i m' w. asm_lines (code_statements T) = Done fs \<and> emulator C q m = Done (i, m')
    \<and> vm_run d fs 0 (vm_start k) = Some w \<and> ends_with w (line (m_text m' ! i))
    \<and> i < length T \<and> m_text m' = T[i := m_text m' ! i] \<and> m_color m' = m_color m
    \<and> 0 < i \<and> same_code (T ! i) (m_text m' ! i) \<and> inputs d (m_vars m')"
proof -
  from asm_program [OF R] obtain fs where fs: "asm_lines (code_statements T) = Done fs" by blast
  have "length (sd_args d) = 6" using s(1) by (simp add: inputs_def)
  with asm_program_safe [OF R fs] obtain w where w: "vm_run d fs 0 (vm_start k) = Some w"
    using safe_prog_returns by blast
  have "V 1 = 0" using R by (simp add: resolved_def Let_def)
  then have "sim d (V 1) (m_vars m) (vm_start k)" using s by (simp add: sim_def vm_start_def)
  with w have p: "\<exists>v. sim d (V 1) (m_vars m) v \<and> vm_run d fs (1 - 1) v = Some w" by auto
  have e: "ends_with w l \<and> inputs d s \<Longrightarrow> is_return l \<or> is_assign l" for l s
    by (auto simp: ends_with_def is_return_def is_assign_def split: line_t.splits)
  have "\<exists>i m'. emulator C q m = Done (i, m') \<and> 0 < i \<and> i < length T \<and> m_text m' = T[i := m_text m' ! i]
    \<and> m_color m' = m_color m \<and> (ends_with w (line (m_text m' ! i)) \<and> inputs d (m_vars m'))
    \<and> same_code (T ! i) (m_text m' ! i)"
    by (rule emulator_keeps [where E = "\<lambda>l s. ends_with w l \<and> inputs d s", OF R l C emu_keeps_vm [OF R fs sh] _ m p]) (rule e)
  with fs w show ?thesis by blast
qed

end
