(* ===== verification/Commands.thy ===== *)
theory Commands
  imports Source_Parse Emu_Vm
begin

text \<open>
  The subcommands that start from a text: \<open>assemble\<close> of \<open>src/asm.c\<close> and \<open>emulate\<close> of
  \<open>src/emu.c\<close>, from the bytes of the input to the text written. \<open>reads\<close> are the results of
  the \<open>read\<close> calls (\<open>None\<close> for a failure).
\<close>

section \<open>Assembling\<close>

text \<open>The loop over the code pointers; \<open>reverse\<close> swaps the byte order first.\<close>

fun assemble_loop ::
  "scmp_lib \<Rightarrow> bool \<Rightarrow> bool \<Rightarrow> print_mode_t \<Rightarrow> statement_t list \<Rightarrow> string cres" where
  "assemble_loop lib big reverse mode [] = Done []"
| "assemble_loop lib big reverse mode (st # sts) =
     cbind (asm_statement st) (\<lambda>f.
     cbind (handle_filter lib big mode st (if reverse then reverse_endian f else f)) (\<lambda>s.
     cbind (assemble_loop lib big reverse mode sts) (\<lambda>t. Done (s @ t))))"

text \<open>The statements behind the code pointers, the first one skipped.\<close>

definition pointed :: "statement_t list \<Rightarrow> u32 list \<Rightarrow> statement_t list" where
  "pointed T C = map (\<lambda>c. T ! unat c) (tl C)"

definition assemble ::
  "scmp_lib \<Rightarrow> bool \<Rightarrow> u32 \<Rightarrow> print_mode_t \<Rightarrow> string option list \<Rightarrow> string cres" where
  "assemble lib big scmp_arch mode reads =
     cbind (parse_source lib scmp_arch reads) (\<lambda>(text_v, code_v, L).
     cbind (resolver L (vec_elems text_v) (vec_elems code_v)) (\<lambda>(err, T, log).
     if err then Die M_ASM_TERMINATED
     else
       let reverse = (need_reverse_endian big scmp_arch \<and> mode \<noteq> C_MACRO) in
       cbind (assemble_loop lib big reverse mode (pointed T (vec_elems code_v))) (\<lambda>s.
       Done (s @ (if mode = HEXLINE then [CHR 0x0A] else [])))))"

section \<open>Emulating\<close>

text \<open>The static variables before \<open>main\<close>.\<close>

definition start_vars :: emu_state where
  "start_vars = \<lparr>A_reg = 0, X_reg = 0, e_mem = replicate BPF_MEMWORDS 0, e_syscall_nr = 0, e_scmp_arch = 0,
     low_pc = 0, high_pc = 0, low_args = replicate 6 0, high_args = replicate 6 0, scmp_data_len = 64\<rparr>"

definition emulate ::
  "scmp_lib \<Rightarrow> color_t \<Rightarrow> emu_arg_t \<Rightarrow> string option list \<Rightarrow> (string \<times> string) cres" where
  "emulate lib color ea reads =
     cbind (parse_source lib (ea_scmp_arch ea) reads) (\<lambda>(text_v, code_v, L).
     cbind (resolver L (vec_elems text_v) (vec_elems code_v)) (\<lambda>(err, T, log).
     if err then Die M_EMU_TERMINATED
     else
       cbind (emulate_v lib (vec_elems code_v) ea
                \<lparr>m_text = T, m_vars = start_vars, m_color = color, m_out = []\<rparr>) (\<lambda>(out, rest, m).
       Done (out, rest))))"

end
