(* ===== verification/Pipeline.thy ===== *)
theory Pipeline
  imports Commands Filter_Safe
begin

text \<open>
  The components put together: from the bytes read to the filters and to the emulation. A source
  that the parser and the resolver accept is \<open>accepted\<close>; everything the two commands do with it
  is determined by the filters \<open>asm_lines\<close> gives for its code statements.
\<close>

section \<open>Accepted sources\<close>

text \<open>
  What \<open>parse_source\<close> and \<open>resolver\<close> return for a source without errors. The chunks are what
  \<open>read\<close> can give for a buffer of \<open>GROW_LEN\<close> bytes; the bound on the lines is the one of the 16
  bit line numbers.
\<close>

definition accepted ::
  "scmp_lib \<Rightarrow> u32 \<Rightarrow> string option list \<Rightarrow> str_table \<Rightarrow> u32 list \<Rightarrow> statement_t list \<Rightarrow> bool" where
  "accepted lib scmp_arch reads L C T \<longleftrightarrow>
     (\<forall>c \<in> set reads. case c of Some t \<Rightarrow> length t \<le> GROW_LEN | None \<Rightarrow> True)
     \<and> length T \<le> 65536
     \<and> (case parse_source lib scmp_arch reads of
          Done (text_v, code_v, L') \<Rightarrow>
            L' = L \<and> vec_elems code_v = C
            \<and> (case resolver L (vec_elems text_v) C of
                 Done (err, T', log) \<Rightarrow> \<not> err \<and> T' = T
               | _ \<Rightarrow> False)
        | _ \<Rightarrow> False)"

lemma resolve_loop_length: "resolve_loop L i cs T rs = Done (T', rs') \<Longrightarrow> length T' = length T"
  by (induction L i cs T rs rule: resolve_loop.induct) (auto split: if_splits)

lemma resolver_length: "resolver L T C = Done (e, T', log) \<Longrightarrow> length T' = length T"
  by (auto simp: resolver_def Let_def dest: resolve_loop_length split: if_splits)

lemma acceptedD:
  assumes "accepted lib a reads L C T"
  obtains tv cv log where "parse_source lib a reads = Done (tv, cv, L)" "vec_elems cv = C"
    "resolver L (vec_elems tv) C = Done (False, T, log)" "well_laid (vec_elems tv) C L"
    "length (vec_elems tv) \<le> 65536"
proof -
  from assms obtain tv cv log where p: "parse_source lib a reads = Done (tv, cv, L)" "vec_elems cv = C"
    "resolver L (vec_elems tv) C = Done (False, T, log)"
    by (auto simp: accepted_def split: cres.splits prod.splits)
  have "\<And>c. Some c \<in> set reads \<Longrightarrow> length c \<le> GROW_LEN"
    using assms by (fastforce simp: accepted_def split: option.splits)
  from parse_source_total [OF this, where lib = lib and arch = a] p have w: "well_laid (vec_elems tv) C L" by blast
  moreover have "length (vec_elems tv) = length T" using resolver_length [OF p(3)] by simp
  ultimately show thesis using that [OF p] assms by (auto simp: accepted_def)
qed

lemma accepted_pipeline:
  assumes "accepted lib a reads L C T"
  obtains V fs where "resolved L V T" "laid L T" "C = map of_nat (code_lines T)" "pointed T C = code_statements T"
    "asm_lines (code_statements T) = Done fs" "safe_prog fs" "length fs \<le> BPF_MAXINSNS" "T ! 0 = zero_statement"
proof -
  from acceptedD [OF assms] obtain tv cv log where p: "parse_source lib a reads = Done (tv, cv, L)"
    "vec_elems cv = C" "resolver L (vec_elems tv) C = Done (False, T, log)" "well_laid (vec_elems tv) C L"
    "length (vec_elems tv) \<le> 65536" .
  from resolver_resolved [OF p(3-5)] obtain V where R: "resolved L V T"
    and CL: "code_lines T = code_lines (vec_elems tv)"
    and ch: "lines_changed (drop 1 (code_lines (vec_elems tv))) (vec_elems tv) T" by blast
  have z: "0 \<notin> set (drop 1 (code_lines (vec_elems tv)))"
  proof
    assume "0 \<in> set (drop 1 (code_lines (vec_elems tv)))"
    then obtain n where "0 < n" "n < length (code_lines (vec_elems tv))" "code_lines (vec_elems tv) ! n = 0"
      unfolding in_drop_1 by metis
    with code_line_order [of 0 n "vec_elems tv"] show False by simp
  qed
  from laid_resolved [OF p(4) ch CL z p(5)] have l: "laid L T" "C = map of_nat (code_lines T)" by auto
  from asm_program [OF R] obtain fs where fs: "asm_lines (code_statements T) = Done fs" by blast
  have "unat (of_nat x :: u32) = x" if "x \<in> set (code_lines T)" for x
  proof -
    have "x < length T" using that by (simp add: code_lines_simps)
    then show ?thesis using assms by (simp add: accepted_def unat_of_nat)
  qed
  then have "pointed T C = code_statements T"
    by (cases "code_lines T") (simp_all add: pointed_def code_statements_def l(2))
  moreover have "T ! 0 = zero_statement" using l(1) by (simp add: laid_def)
  ultimately show thesis using that R l fs asm_program_safe [OF R fs] by blast
qed

section \<open>What \<open>assemble\<close> writes\<close>

text \<open>The three formats that show the bytes of a filter.\<close>

definition filter_text :: "print_mode_t \<Rightarrow> u8 list \<Rightarrow> string" where
  "filter_text mode bs =
     (case mode of
        HEXFMT \<Rightarrow> [CHR 0x22] @ hex_escapes bs @ [CHR 0x22, CHR '','', CHR 0x0A]
      | HEXLINE \<Rightarrow> hex_escapes bs
      | _ \<Rightarrow> map (\<lambda>b. char_of (unat b)) bs)"

lemma rev_bytes16: "of_bytes16 (ucast (drop_bit 8 w)) (ucast w) = bswap_16 w"
  by (simp add: bswap_16_def bytes16_def)

lemma bytes_bswap [simp]: "bytes16 (bswap_16 w) = rev (bytes16 w)" "bytes32 (bswap_32 v) = rev (bytes32 v)"
  by (simp_all add: bswap_16_def bswap_32_def bytes16_of_bytes16 bytes32_of_bytes32 bytes16_def [of w]
      bytes32_def [of v])

lemma filter_bytes_reverse: "filter_bytes big (reverse_endian f) = filter_bytes (\<not> big) f"
  by (simp add: filter_bytes_def reverse_endian_def)

lemma bswap_bswap [simp]: "bswap_16 (bswap_16 w) = w" "bswap_32 (bswap_32 v) = v"
  by (simp_all add: bswap_16_def [of "bswap_16 w"] bswap_32_def [of "bswap_32 v"])
    (simp_all add: bytes16_def bytes32_def of_bytes16_bytes16 of_bytes32_bytes32)

lemma handle_filter_bytes: "mode \<noteq> C_MACRO \<Longrightarrow>
  handle_filter lib big mode st f = Done (filter_text mode (filter_bytes big f))"
  by (cases mode) (simp_all add: handle_filter_def filter_text_def hexfmt_handle_def hexline_handle_def raw_handle_def)

lemma assemble_loop_bytes:
  "mode \<noteq> C_MACRO \<Longrightarrow> asm_lines sts = Done fs \<Longrightarrow>
   assemble_loop lib big rv mode sts = Done (concat (map (\<lambda>f. filter_text mode (filter_bytes (big \<noteq> rv) f)) fs))"
  by (induction sts arbitrary: fs) (auto simp: handle_filter_bytes filter_bytes_reverse)

lemma assemble_accepted:
  assumes "accepted lib a reads L C T"
  shows "assemble lib big a mode reads =
    cbind (assemble_loop lib big (need_reverse_endian big a \<and> mode \<noteq> C_MACRO) mode (code_statements T))
      (\<lambda>s. Done (s @ (if mode = HEXLINE then [CHR 0x0A] else [])))"
proof -
  from acceptedD [OF assms] obtain tv cv log where p: "parse_source lib a reads = Done (tv, cv, L)"
    "vec_elems cv = C" "resolver L (vec_elems tv) C = Done (False, T, log)" .
  from accepted_pipeline [OF assms] have "pointed T C = code_statements T" .
  with p show ?thesis by (simp add: assemble_def Let_def)
qed

lemma assemble_filters:
  assumes "accepted lib a reads L C T" "mode \<noteq> C_MACRO"
  shows "\<exists>fs. asm_lines (code_statements T) = Done fs \<and> safe_prog fs \<and> length fs \<le> BPF_MAXINSNS
    \<and> assemble lib big a mode reads =
        Done (concat (map (\<lambda>f. filter_text mode (filter_bytes (big \<noteq> need_reverse_endian big a) f)) fs)
          @ (if mode = HEXLINE then [CHR 0x0A] else []))"
proof -
  from accepted_pipeline [OF assms(1)] obtain fs where
    fs: "asm_lines (code_statements T) = Done fs" "safe_prog fs" "length fs \<le> BPF_MAXINSNS" .
  then show ?thesis using assemble_accepted [OF assms(1)] assms(2) by (simp add: assemble_loop_bytes)
qed

section \<open>What \<open>emulate\<close> writes\<close>

text \<open>The data the emulated program sees.\<close>

definition emu_data :: "emu_arg_t \<Rightarrow> u32 \<Rightarrow> seccomp_data" where
  "emu_data ea nr = \<lparr>sd_nr = nr, sd_arch = ea_scmp_arch ea, sd_ip = ea_ip ea, sd_args = ea_args ea\<rparr>"

lemma init_attr_inputs:
  assumes "resolve_sysnr lib (ea_scmp_arch ea) (ea_sys_name ea) = Done nr" "length (ea_args ea) = 6"
    "length (e_mem s) = BPF_MEMWORDS" "scmp_data_len s = 64"
  shows "\<exists>s'. init_attr lib ea s = Done s' \<and> inputs (emu_data ea nr) s' \<and> A_reg s' = 0 \<and> X_reg s' = 0"
  using assms by (simp add: init_attr_def inputs_def emu_data_def)

lemma kill_reports: "reports RET_KILL (zero_obj\<lparr>obj_type := KILL\<rparr>)"
  by (simp add: reports_def action_of_def decode_return_k_def zero_obj_def)

lemma obj_printer_action: "obj_type r = Action_tk a \<Longrightarrow> \<exists>s. obj_printer c r = Done s"
  by (simp add: obj_printer_def obj_print_def split: action_tk.splits)

lemma action_of_tk: "\<exists>a. action_of w = Action_tk a"
  by (auto simp: action_of_def decode_return_k_def Let_def)

text \<open>The run inside \<open>emulate\<close>: it ends with what the machine returns.\<close>

lemma emulate_run:
  assumes acc: "accepted lib (ea_scmp_arch ea) reads L C T"
    and nr: "resolve_sysnr lib (ea_scmp_arch ea) (ea_sys_name ea) = Done nr" "length (ea_args ea) = 6"
    and sh: "\<forall>st \<in> set T. plain_shift (line st)" and col: "length (enable_stack color) < 0x10"
  obtains fs w s i m where "asm_lines (code_statements T) = Done fs"
    "vm_run (emu_data ea nr) fs 0 (vm_start mem) = Some w" "init_attr lib ea start_vars = Done s"
    "emulator C (ea_quiet ea) \<lparr>m_text = T, m_vars = s, m_color = color, m_out = []\<rparr> = Done (i, m)"
    "ends_with w (line (m_text m ! i))" "m_color m = color" "i < length T" "m_text m = T[i := m_text m ! i]"
    "emulate lib color ea reads = cbind (emulate_v lib C ea
       \<lparr>m_text = T, m_vars = start_vars, m_color = color, m_out = []\<rparr>) (\<lambda>(out, rest, m). Done (out, rest))"
proof -
  from acceptedD [OF acc] obtain tv cv log where p: "parse_source lib (ea_scmp_arch ea) reads = Done (tv, cv, L)"
    "vec_elems cv = C" "resolver L (vec_elems tv) C = Done (False, T, log)" .
  from accepted_pipeline [OF acc] obtain V fs where R: "resolved L V T" "laid L T" "C = map of_nat (code_lines T)" .
  have "length (e_mem start_vars) = BPF_MEMWORDS" "scmp_data_len start_vars = 64"
    by (simp_all add: start_vars_def)
  from init_attr_inputs [OF nr this] obtain s where
    s: "init_attr lib ea start_vars = Done s" "inputs (emu_data ea nr) s" "A_reg s = 0" "X_reg s = 0" by blast
  let ?m = "\<lparr>m_text = T, m_vars = s, m_color = color, m_out = []\<rparr>"
  have m: "m_text ?m = T" "length (enable_stack (m_color ?m)) < 0x10" "inputs (emu_data ea nr) (m_vars ?m)"
    "A_reg (m_vars ?m) = 0" "X_reg (m_vars ?m) = 0"
    using s col by simp_all
  have e: "emulate lib color ea reads = cbind (emulate_v lib C ea
       \<lparr>m_text = T, m_vars = start_vars, m_color = color, m_out = []\<rparr>) (\<lambda>(out, rest, m). Done (out, rest))"
    using p by (simp add: emulate_def)
  from emulator_vm [OF R sh m, of "ea_quiet ea" mem] obtain gs i m' w where
    "asm_lines (code_statements T) = Done gs" "emulator C (ea_quiet ea) ?m = Done (i, m')"
    "vm_run (emu_data ea nr) gs 0 (vm_start mem) = Some w" "ends_with w (line (m_text m' ! i))"
    "i < length T" "m_text m' = T[i := m_text m' ! i]" "m_color m' = m_color ?m" by blast
  with s(1) e that [of gs w s i m'] show thesis by simp
qed

lemma print_line_quiet [simp]: "print_line i sk True m = Done m"
  by (simp add: print_line_def emulate_printer_def)

lemma exec_statement_quiet: "exec_statement C True i e m = Done (r, m') \<Longrightarrow> m_out m' = m_out m"
  by (auto simp: exec_statement_def Let_def split: line_t.splits if_splits)

lemma emu_loop_quiet: "emu_loop C True n r e l m = Done (x, m') \<Longrightarrow> m_out m' = m_out m"
  by (induction C "True" n r e l m rule: emu_loop.induct)
    (auto split: if_splits option.splits dest!: exec_statement_quiet)

lemma emulator_quiet: "emulator C True m = Done (i, m') \<Longrightarrow> m_out m' = m_out m"
  by (auto simp: emulator_def split: option.splits if_splits dest: emu_loop_quiet)

lemma reports_printer: "reports w r \<Longrightarrow> \<exists>s. obj_printer c r = Done s"
  using action_of_tk [of w] by (auto simp: reports_def intro: obj_printer_action)

text \<open>The quiet mode prints the action the machine returns, whatever the memory held.\<close>

lemma emulate_quiet_action:
  assumes acc: "accepted lib (ea_scmp_arch ea) reads L C T" and q: "ea_quiet ea"
    and nr: "resolve_sysnr lib (ea_scmp_arch ea) (ea_sys_name ea) = Done nr" "length (ea_args ea) = 6"
    and sh: "\<forall>st \<in> set T. plain_shift (line st)" and col: "length (enable_stack color) < 0x10"
  shows "\<exists>fs w r s. asm_lines (code_statements T) = Done fs
    \<and> vm_run (emu_data ea nr) fs 0 (vm_start mem) = Some w \<and> reports w r
    \<and> obj_printer (color_enable color) r = Done s
    \<and> emulate lib color ea reads = Done ([], s @ [CHR 0x0A])"
proof -
  from emulate_run [OF acc nr sh col, of mem] obtain fs w s i m where r: "asm_lines (code_statements T) = Done fs"
    "vm_run (emu_data ea nr) fs 0 (vm_start mem) = Some w" "init_attr lib ea start_vars = Done s"
    "emulator C (ea_quiet ea) \<lparr>m_text = T, m_vars = s, m_color = color, m_out = []\<rparr> = Done (i, m)"
    "ends_with w (line (m_text m ! i))" "m_color m = color"
    "emulate lib color ea reads = cbind (emulate_v lib C ea
       \<lparr>m_text = T, m_vars = start_vars, m_color = color, m_out = []\<rparr>) (\<lambda>(out, rest, m). Done (out, rest))" .
  have o: "m_out m = []" using r(4) q by (auto dest: emulator_quiet)
  define obj where "obj = (case line (m_text m ! i) of RETURN_LINE r \<Rightarrow> real_obj r | _ \<Rightarrow> zero_obj\<lparr>obj_type := KILL\<rparr>)"
  have obj: "reports w obj"
    using r(5) kill_reports by (auto simp: ends_with_def obj_def split: line_t.splits)
  then obtain t where t: "obj_printer (color_enable color) obj = Done t" using reports_printer by blast
  have "emulate lib color ea reads = Done ([], t @ [CHR 0x0A])"
    using r(3,4,6,7) q o t by (simp add: emulate_v_def Let_def obj_def split: line_t.splits)
  with r(1,2) obj t show ?thesis by blast
qed

end
