(* ===== verification/Asm_Total.thy ===== *)
theory Asm_Total
  imports Source_Lines Pipeline
begin

text \<open>
  \<open>ceccomp asm\<close> on any source without escape characters: every report of the resolver fits into its buffer, no access
  leaves an array, and every architecture it prints is one of the table.
\<close>

section \<open>What the parser hands on\<close>

lemma read_chunks_escape:
  "read_chunks reads st = Done st' \<Longrightarrow> no_escape (src_text st) \<Longrightarrow> (\<And>c. Some c \<in> set reads \<Longrightarrow> no_escape c)
    \<Longrightarrow> no_escape (src_text st')"
proof (induction reads st rule: read_chunks.induct)
  case (2 r rs st)
  then show ?case
    by (cases r) (auto simp: Let_def increase_map_def no_escape_def split: if_splits)
qed (auto simp: increase_map_def split: if_splits)

lemma init_source_lines:
  assumes "\<And>c. Some c \<in> set reads \<Longrightarrow> length c \<le> GROW_LEN \<and> no_escape c" and i: "init_source reads = Done (n, src)"
  shows "near src \<and> breaks src 0 \<le> 4 * BPF_MAXINSNS \<and> src_cursor src = 0"
proof -
  let ?st0 = "\<lparr>src_text = [], src_current = 0, src_cursor = 0, map_len = 0\<rparr>"
  from i obtain st1 where r: "read_chunks reads ?st0 = Done st1"
    and p: "process_source (src_text st1) (src_current st1) = Done (n, src_text src)" "src_current src = src_current st1"
    by (auto simp: init_source_def Let_def increase_map_def split: if_splits prod.splits)
  have len: "src_current st1 = length (src_text st1)"
    using read_chunks_room [of ?st0 reads] assms(1) r by auto
  have "no_escape (src_text st1)"
    by (rule read_chunks_escape [OF r]) (use assms(1) in \<open>auto simp: no_escape_def\<close>)
  from process_source_breaks [OF _ this] p len have "near src \<and> breaks src 0 \<le> 4 * BPF_MAXINSNS" by auto
  moreover have "src_cursor src = 0" using init_source_room [of reads] assms(1) i by auto
  ultimately show ?thesis by simp
qed

lemma parse_source_lines:
  assumes r: "\<And>c. Some c \<in> set reads \<Longrightarrow> length c \<le> GROW_LEN \<and> no_escape c"
    and p: "parse_source lib a reads = Done (tv, cv, L)"
  shows "length (vec_elems tv) \<le> 4 * BPF_MAXINSNS + 2 \<and> (\<forall>st \<in> set (vec_elems tv). report_fits lib st)"
proof -
  from p obtain n src where i: "init_source reads = Done (n, src)" by (auto simp: parse_source_def)
  note l = init_source_lines [OF r i]
  let ?lines = "of_nat n + 1 :: u64"
  let ?tv = "init_vector ?lines :: statement_t vector_t"
  let ?cv = "init_vector (min ?lines (of_nat (BPF_MAXINSNS + 1))) :: u32 vector_t"
  from p i obtain s s' where s: "init_parser src = (Ok (), s)" and ps: "parser lib a ?tv ?cv s = (Ok (tv, cv), s')"
    by (auto simp: parse_source_def Let_def split: prod.splits presult.splits)
  from start_lines [OF _ s] l have st: "lines_inv s" "stmts_left s \<le> Suc (4 * BPF_MAXINSNS)" by auto
  have "n \<le> 4 * BPF_MAXINSNS" using init_source_parts [OF _ i] r by blast
  then have "unat ?lines = n + 1"
    by (simp add: BPF_MAXINSNS_def unat_word_ariths unat_of_nat)
  then have tv: "vec_ok ?tv" "vec_elems ?tv = []"
    using vec_ok_init [of ?lines] \<open>n \<le> 4 * BPF_MAXINSNS\<close> by (auto simp: BPF_MAXINSNS_def)
  from parser_lines [OF st(1) ps tv] st(2) show ?thesis by (auto simp: BPF_MAXINSNS_def)
qed

section \<open>The reports of the resolver\<close>

lemma length_dec16: "n < 65536 \<Longrightarrow> length (dec_str n) \<le> 5"
  using length_base_str [of n 10 5] by (simp add: dec_str_def)

definition same_sizes :: "rstate \<Rightarrow> rstate \<Rightarrow> bool" where
  "same_sizes rs rs' \<longleftrightarrow> r_len rs' = r_len rs \<and> length (r_masks rs') = length (r_masks rs)"

lemma put_report_done: "length out < REPORT_BUF \<Longrightarrow> \<exists>rs'. put_report out rs = Done rs' \<and> same_sizes rs rs'"
  by (simp add: put_report_def same_sizes_def)

lemma printed_length: "length (printed s) \<le> text_len s"
  by (auto simp: printed_def text_len_def takeWhile_length_le split: option.split)

lemma fits_text: "report_fits lib st \<Longrightarrow> text_len (line_text st) \<le> MAX_LINE_LEN"
  by (auto simp: report_fits_def text_len_def split: option.splits)

lemma report_error_done:
  assumes "report_fits lib st" "length msg \<le> MSG_LEN"
  shows "\<exists>rs'. report_error st msg rs = Done rs' \<and> same_sizes rs rs'"
  unfolding report_error_def
proof (rule put_report_done)
  have "length (dec_str (unat (text_nr st))) \<le> 5" by (rule length_dec16) (rule unat_less16)
  then show "length (dec_str (unat (text_nr st)) @ '':-: '' @ msg @ newline
       @ printed (line_text st) @ newline @ replicate (text_len (line_text st)) CHR ''~'') < REPORT_BUF"
    using fits_text [OF assms(1)] printed_length [of "line_text st"] assms(2)
    by (simp add: newline_def REPORT_BUF_def MAX_LINE_LEN_def MSG_LEN_def)
qed

lemma error_line_done:
  assumes "report_fits lib st" "line st = ERROR_LINE e"
  shows "\<exists>rs'. error_line st e rs = Done rs' \<and> same_sizes rs rs'"
  unfolding error_line_def Let_def
proof (rule put_report_done)
  let ?n = "unat (of_int (error_start e) :: u16)"
  have e: "0 \<le> error_start e" "error_start e \<le> int MAX_LINE_LEN" "length (error_msg e) \<le> MSG_LEN"
    using assms by (auto simp: report_fits_def)
  then obtain k where k: "error_start e = int k" "k \<le> MAX_LINE_LEN" by (metis nonneg_int_cases of_nat_le_iff)
  then have "?n \<le> MAX_LINE_LEN" by (simp add: unat_of_nat MAX_LINE_LEN_def)
  moreover have "length (dec_str (unat (text_nr st))) \<le> 5" by (rule length_dec16) (rule unat_less16)
  moreover have "length (dec_str ((?n + 1) mod 2 ^ 16)) \<le> 5" by (rule length_dec16) simp
  ultimately show "length (dec_str (unat (text_nr st)) @ '':'' @ dec_str ((?n + 1) mod 2 ^ 16) @ '': ''
        @ error_msg e @ newline @ printed (line_text st) @ newline
        @ replicate ?n CHR '' '' @ ''^'') < REPORT_BUF"
    using fits_text [OF assms(1)] printed_length [of "line_text st"] e(3)
    by (simp add: newline_def REPORT_BUF_def MAX_LINE_LEN_def MSG_LEN_def)
qed

lemma resolver_messages:
  "length M_MEM_IDX_OUT_OF_RANGE \<le> MSG_LEN" "length M_UNINITIALIZED_MEM \<le> MSG_LEN" "length M_RIGHT_SHOULD_BE_A \<le> MSG_LEN"
  "length M_RIGHT_SHOULD_BE_X_OR_NUM \<le> MSG_LEN" "length M_ALU_DIV_BY_ZERO \<le> MSG_LEN"
  "length M_ALU_SH_OUT_OF_RANGE \<le> MSG_LEN" "length M_RIGHT_CAN_NOT_BE_A \<le> MSG_LEN"
  "length M_ARGS_IDX_OUT_OF_RANGE \<le> MSG_LEN" "length M_OPERATOR_SHOULD_BE_EQUAL \<le> MSG_LEN"
  "length M_LEFT_SHOULD_BE_A \<le> MSG_LEN" "length M_RIGHT_CAN_NOT_BE_X \<le> MSG_LEN"
  "length M_RIGHT_SHOULD_BE_A_OR_X \<le> MSG_LEN" "length M_CANNOT_FIND_LABEL \<le> MSG_LEN"
  "length M_JA_OUT_OF_FILTERS \<le> MSG_LEN" "length M_JA_MUST_BE_POSITIVE \<le> MSG_LEN"
  "length M_JF_MUST_BE_POSITIVE \<le> MSG_LEN" "length M_JF_TOO_FAR \<le> MSG_LEN" "length M_JF_INVALID_TAG \<le> MSG_LEN"
  "length M_JT_MUST_BE_POSITIVE \<le> MSG_LEN" "length M_JT_TOO_FAR \<le> MSG_LEN" "length M_JT_INVALID_TAG \<le> MSG_LEN"
  "length M_RET_DATA_OVERFLOW \<le> MSG_LEN" "length M_MUST_END_WITH_RET \<le> MSG_LEN"
  by (simp_all add: MSG_LEN_def M_MEM_IDX_OUT_OF_RANGE_def M_UNINITIALIZED_MEM_def M_RIGHT_SHOULD_BE_A_def
      M_RIGHT_SHOULD_BE_X_OR_NUM_def M_ALU_DIV_BY_ZERO_def M_ALU_SH_OUT_OF_RANGE_def M_RIGHT_CAN_NOT_BE_A_def
      M_ARGS_IDX_OUT_OF_RANGE_def M_OPERATOR_SHOULD_BE_EQUAL_def M_LEFT_SHOULD_BE_A_def M_RIGHT_CAN_NOT_BE_X_def
      M_RIGHT_SHOULD_BE_A_OR_X_def M_CANNOT_FIND_LABEL_def M_JA_OUT_OF_FILTERS_def M_JA_MUST_BE_POSITIVE_def
      M_JF_MUST_BE_POSITIVE_def M_JF_TOO_FAR_def M_JF_INVALID_TAG_def M_JT_MUST_BE_POSITIVE_def M_JT_TOO_FAR_def
      M_JT_INVALID_TAG_def M_RET_DATA_OVERFLOW_def M_MUST_END_WITH_RET_def)

section \<open>The resolver ends\<close>

text \<open>A function ends with a value and a state of the same sizes.\<close>

definition ends :: "rstate \<Rightarrow> ('a \<times> rstate) cres \<Rightarrow> ('a \<Rightarrow> bool) \<Rightarrow> bool" where
  "ends rs r Q \<longleftrightarrow> (\<exists>x rs'. r = Done (x, rs') \<and> same_sizes rs rs' \<and> Q x)"

definition ends_state :: "rstate \<Rightarrow> rstate cres \<Rightarrow> bool" where
  "ends_state rs r \<longleftrightarrow> (\<exists>rs'. r = Done rs' \<and> same_sizes rs rs')"

lemma same_sizes_refl [simp]: "same_sizes rs rs"
  by (simp add: same_sizes_def)

lemma same_sizes_trans: "same_sizes rs rs1 \<Longrightarrow> same_sizes rs1 rs2 \<Longrightarrow> same_sizes rs rs2"
  by (simp add: same_sizes_def)

lemma ends_report_if:
  "report_fits lib st \<Longrightarrow> (\<And>m. e = Some m \<Longrightarrow> length m \<le> MSG_LEN) \<Longrightarrow> ends_state rs (report_if st e rs)"
  using report_error_done [of lib st] by (auto simp: report_if_def ends_state_def split: option.split)

lemma check_mem_read_message: "check_mem_read r m = Some e \<Longrightarrow> length e \<le> MSG_LEN"
  by (auto simp: check_mem_read_def resolver_messages split: if_splits)

lemma assign_A_message:
  "wf_assign al \<Longrightarrow> \<exists>e. assign_A al m = Done e \<and> (\<forall>t. e = Some t \<longrightarrow> length t \<le> MSG_LEN)"
  by (auto simp: assign_A_def Let_def wf_assign_def resolver_messages tok_simps dest: check_mem_read_message
      split: if_splits)

lemma assign_X_message: "assign_X al m = Some e \<Longrightarrow> length e \<le> MSG_LEN"
  by (auto simp: assign_X_def Let_def resolver_messages dest: check_mem_read_message split: if_splits)

lemma assign_MEM_message: "assign_MEM al m = (Some e, m') \<Longrightarrow> length e \<le> MSG_LEN"
  by (auto simp: assign_MEM_def Let_def resolver_messages split: if_splits)

lemma assign_line_ends:
  assumes fit: "report_fits lib st" and wf: "wf_assign al"
  shows "ends_state rs (Resolver.assign_line st al rs)"
proof -
  from assign_A_message [OF wf, of "r_mem rs"] obtain e where
    e: "assign_A al (r_mem rs) = Done e" "\<forall>t. e = Some t \<longrightarrow> length t \<le> MSG_LEN" by blast
  obtain f mem where f: "assign_MEM al (r_mem rs) = (f, mem)" by (cases "assign_MEM al (r_mem rs)")
  have "ends_state (rs\<lparr>r_mem := mem\<rparr>) (report_if st f (rs\<lparr>r_mem := mem\<rparr>))"
    by (rule ends_report_if [OF fit]) (use f assign_MEM_message in blast)
  then have "ends_state rs (report_if st f (rs\<lparr>r_mem := mem\<rparr>))" by (simp add: ends_state_def same_sizes_def)
  moreover have "ends_state rs (report_if st e rs)" "ends_state rs (report_if st (assign_X al (r_mem rs)) rs)"
    using e assign_X_message by (auto intro!: ends_report_if [OF fit])
  ultimately show ?thesis
    using e f by (simp add: Resolver.assign_line_def Let_def) (simp add: ends_state_def)
qed

lemma ends_report:
  "report_fits lib st \<Longrightarrow> length msg \<le> MSG_LEN \<Longrightarrow> Q x \<Longrightarrow> ends rs (cbind (report_error st msg rs) (\<lambda>rs. Done (x, rs))) Q"
  using report_error_done [of lib st msg rs] by (auto simp: ends_def)

text \<open>A jump keeps everything but its distances.\<close>

definition same_jump :: "jump_line_t \<Rightarrow> jump_line_t \<Rightarrow> bool" where
  "same_jump j j' \<longleftrightarrow> if_condition j' = if_condition j \<and> cmptype j' = cmptype j \<and> cmpobj j' = cmpobj j"

lemma mask_and_total: "unat i < length (r_masks rs) \<Longrightarrow> \<exists>rs'. mask_and i rs = Done rs' \<and> same_sizes rs rs'"
  by (simp add: mask_and_def same_sizes_def)

lemma not_far:
  assumes "\<not> ucast (r_len rs) < t" "unat (r_len rs) < length (r_masks rs)"
  shows "unat (t :: u32) < length (r_masks rs)"
  using assms by (simp add: not_less word_le_nat_alt)

lemma ends_mask:
  assumes "\<not> ucast (r_len rs) < t" "unat (r_len rs) < length (r_masks rs)" "Q x"
  shows "ends rs (cbind (mask_and t rs) (\<lambda>rs. Done (x, mem_valid_all rs))) Q"
  using mask_and_total [OF not_far [OF assms(1,2)]] assms(3) by (auto simp: ends_def mem_valid_all_def same_sizes_def)

lemma ends_masks:
  assumes "\<not> ucast (r_len rs) < t" "\<not> ucast (r_len rs) < f" "unat (r_len rs) < length (r_masks rs)" "Q x"
  shows "ends rs (cbind (mask_and t rs) (\<lambda>rs. cbind (mask_and f rs) (\<lambda>rs. Done (x, mem_valid_all rs)))) Q"
proof -
  from mask_and_total [OF not_far [OF assms(1,3)]] obtain rs1 where
    rs1: "mask_and t rs = Done rs1" "same_sizes rs rs1" by blast
  from rs1(2) assms have "\<not> ucast (r_len rs1) < f" "unat (r_len rs1) < length (r_masks rs1)"
    by (simp_all add: same_sizes_def)
  from ends_mask [OF this, of Q x] assms(4) rs1 show ?thesis by (auto simp: ends_def intro: same_sizes_trans)
qed

lemma jf_line_ends:
  assumes "report_fits lib st" "unat (r_len rs) < length (r_masks rs)" "\<not> ucast (r_len rs) < t" "same_jump j0 j"
  shows "ends rs (jf_line L st t j rs) (same_jump j0)"
  unfolding jf_line_def Let_def
  using assms by (auto simp: same_jump_def intro!: ends_report [OF assms(1)] ends_masks resolver_messages)

lemma jump_line_ends:
  assumes "report_fits lib st" "unat (r_len rs) < length (r_masks rs)"
  shows "ends rs (Resolver.jump_line L st j rs) (same_jump j)"
  unfolding Resolver.jump_line_def Resolver.ja_line_def Let_def
  using assms
  by (auto simp: same_jump_def intro!: ends_report [OF assms(1)] ends_mask resolver_messages
      jf_line_ends)

lemma return_line_ends: "report_fits lib st \<Longrightarrow> ends_state rs (Resolver.return_line st r rs)"
  using report_error_done [of lib st M_RET_DATA_OVERFLOW rs]
  by (auto simp: Resolver.return_line_def Let_def ends_state_def resolver_messages)

text \<open>What the resolver is given, and keeps, of a code line.\<close>

definition resolvable :: "scmp_lib \<Rightarrow> statement_t \<Rightarrow> bool" where
  "resolvable lib st \<longleftrightarrow>
     report_fits lib st \<and> line st \<noteq> EMPTY_LINE \<and> line st \<noteq> EOF_LINE
     \<and> (\<forall>al. line st = ASSIGN_LINE al \<longrightarrow> wf_assign al)"

lemma resolvable_jump:
  "resolvable lib st \<Longrightarrow> line st = JUMP_LINE j \<Longrightarrow> same_jump j j' \<Longrightarrow> resolvable lib (st\<lparr>line := JUMP_LINE j'\<rparr>)"
  by (auto simp: resolvable_def report_fits_def same_jump_def arch_known_def)

lemma resolve_statement_ends:
  assumes st: "resolvable lib st" and rs: "unat (r_len rs) < length (r_masks rs)"
  shows "ends rs (resolve_statement L st rs) (resolvable lib)"
proof -
  have fit: "report_fits lib st" using st by (simp add: resolvable_def)
  have state: "ends_state rs r \<Longrightarrow> ends rs (cbind r (\<lambda>rs. Done (st, rs))) (resolvable lib)" for r
    using st by (auto simp: ends_state_def ends_def)
  show ?thesis
  proof (cases "line st")
    case (ERROR_LINE e)
    have "ends_state rs (error_line st e rs)" using error_line_done [OF fit ERROR_LINE] by (simp add: ends_state_def)
    from state [OF this] show ?thesis using ERROR_LINE by (simp add: resolve_statement_def)
  next
    case (ASSIGN_LINE al)
    then have "ends_state rs (Resolver.assign_line st al rs)" using assign_line_ends [OF fit] st by (simp add: resolvable_def)
    from state [OF this] show ?thesis using ASSIGN_LINE by (simp add: resolve_statement_def)
  next
    case (JUMP_LINE j)
    then show ?thesis
      using jump_line_ends [OF fit rs, of L j] resolvable_jump [OF st JUMP_LINE] by (auto simp: resolve_statement_def ends_def)
  next
    case (RETURN_LINE r)
    from state [OF return_line_ends [OF fit]] show ?thesis using RETURN_LINE by (simp add: resolve_statement_def)
  qed (use st in \<open>simp_all add: resolvable_def\<close>)
qed

lemma resolve_loop_ends:
  assumes "\<forall>c \<in> set cs. unat c < length T \<and> resolvable lib (T ! unat c)"
    and "\<forall>st \<in> set T. report_fits lib st"
    and "i + length cs \<le> length (r_masks rs)" "unat (r_len rs) < length (r_masks rs)"
  shows "\<exists>T' rs'. resolve_loop L i cs T rs = Done (T', rs') \<and> length T' = length T
    \<and> (\<forall>st \<in> set T'. report_fits lib st)"
  using assms
proof (induction cs arbitrary: i T rs)
  case (Cons c cs)
  let ?rs = "rs\<lparr>r_mem := r_mem rs AND r_masks rs ! i\<rparr>"
  have c: "unat c < length T" "resolvable lib (T ! unat c)" using Cons.prems(1) by auto
  have "unat (r_len ?rs) < length (r_masks ?rs)" using Cons.prems(4) by simp
  from resolve_statement_ends [OF c(2) this, of L] obtain st rs' where
    r: "resolve_statement L (T ! unat c) ?rs = Done (st, rs')" "same_sizes ?rs rs'" "resolvable lib st"
    by (auto simp: ends_def)
  let ?T = "T[unat c := st]"
  have "\<forall>d \<in> set cs. unat d < length ?T \<and> resolvable lib (?T ! unat d)"
    using Cons.prems(1) r(3) by (auto simp: nth_list_update)
  moreover have "\<forall>st \<in> set ?T. report_fits lib st"
    using Cons.prems(2) r(3) by (auto simp: resolvable_def dest: set_update_subset_insert [THEN subsetD])
  moreover have "Suc i + length cs \<le> length (r_masks rs')" "unat (r_len rs') < length (r_masks rs')"
    using Cons.prems(3,4) r(2) by (simp_all add: same_sizes_def)
  ultimately obtain T' rs'' where "resolve_loop L (Suc i) cs ?T rs' = Done (T', rs'')" "length T' = length ?T"
    "\<forall>st \<in> set T'. report_fits lib st"
    using Cons.IH by blast
  then show ?case using c r(1) Cons.prems(3) by simp
qed simp

lemma resolver_total:
  assumes w: "well_laid T C L" and len: "length T \<le> 65536" and fit: "\<forall>st \<in> set T. report_fits lib st"
  shows "resolver L T C = Die M_NO_VALID_CODE
    \<or> (\<exists>err T' log. resolver L T C = Done (err, T', log) \<and> length T' = length T \<and> (\<forall>st \<in> set T'. report_fits lib st))"
proof (cases "r_len (start_rstate C) = 0")
  case True
  then show ?thesis by (simp add: resolver_def)
next
  case False
  have C: "C = map of_nat (code_lines T)" using w by (simp add: well_laid_def)
  have in_T: "x < length T" "is_code (T ! x)" "unat (of_nat x :: u32) = x" if "x \<in> set (code_lines T)" for x
    using that len by (auto simp: code_lines_def unat_of_nat take_bit_nat_eq_self)
  have ne: "C \<noteq> []" using False by (auto simp: start_rstate_def)
  have z: "x \<noteq> 0" if "x \<in> set (tl (code_lines T))" for x
  proof -
    have "sorted_wrt (<) (code_lines T)" unfolding code_lines_def by (intro sorted_wrt_filter) simp
    then show ?thesis using that by (cases "code_lines T") auto
  qed
  have tl: "unat c < length T \<and> resolvable lib (T ! unat c)" if "c \<in> set (tl C)" for c
  proof -
    from that obtain x where x: "x \<in> set (tl (code_lines T))" "c = of_nat x" by (auto simp: C map_tl [symmetric])
    then have m: "x \<in> set (code_lines T)" by (cases "code_lines T") auto
    from in_T [OF m] z [OF x(1)] w have "line (T ! x) \<noteq> EOF_LINE" "wf_line (line (T ! x))" "line (T ! x) \<noteq> EMPTY_LINE"
      by (auto simp: well_laid_def is_code_def)
    moreover have "report_fits lib (T ! x)" using fit in_T [OF m] by simp
    ultimately have "resolvable lib (T ! x)" by (auto simp: resolvable_def wf_line_def)
    then show ?thesis using in_T [OF m] x(2) by simp
  qed
  have b: "1 + length (tl C) \<le> length (r_masks (start_rstate C))"
    "unat (r_len (start_rstate C)) < length (r_masks (start_rstate C))"
  proof -
    have "unat (of_nat (length C - 1) :: u16) \<le> length C - 1" by (simp add: unat_of_nat)
    then show "1 + length (tl C) \<le> length (r_masks (start_rstate C))"
      "unat (r_len (start_rstate C)) < length (r_masks (start_rstate C))"
      using ne by (cases C; simp add: start_rstate_def)+
  qed
  from resolve_loop_ends [of "tl C" T lib 1 "start_rstate C" L] tl fit b obtain T' rs' where
    l: "resolve_loop L 1 (tl C) T (start_rstate C) = Done (T', rs')" "length T' = length T"
      "\<forall>st \<in> set T'. report_fits lib st" by auto
  have "C ! (length C - 1) \<in> set C" using ne by simp
  then have "unat (C ! (length C - 1)) < length T" using in_T by (auto simp: C)
  then have "report_fits lib (T' ! unat (C ! (length C - 1)))" using l by simp
  from report_error_done [OF this resolver_messages(23), of rs'] l False
  show ?thesis by (auto simp: resolver_def Let_def)
qed

section \<open>The output in C\<close>

lemma arch_in_table:
  assumes "internal_arch_to_scmp_arch lib t \<noteq> - 1"
  shows "\<exists>s. scmp_arch_to_scmp_str lib (internal_arch_to_scmp_arch lib t) = Done s"
proof -
  from assms obtain a where a: "t = Arch_tk a" "arch_pairs lib a \<noteq> - 1"
    by (cases t) (auto simp: internal_arch_to_scmp_arch_def)
  have old: "(b, scmp_arch_macro lib b) \<in> set (arch_table lib)" if "b = ARCH_X86' \<or> b = ARCH_ARM'" for b
    using that by (auto simp: arch_table_def arch_table_all_def arch_since_2_6_def)
  have new: "(ARCH_SH', scmp_arch_macro lib ARCH_SH') \<in> set (arch_table lib)" if "scmp_ver_2_6 lib"
    using that by (simp add: arch_table_def arch_table_all_def)
  have "\<exists>b. (b, arch_pairs lib a) \<in> set (arch_table lib)"
    using a(2) old new by (auto simp: arch_pairs_def split: arch_tk.splits option.splits if_splits dest: map_of_SomeD)
  then have "find (\<lambda>e. snd e = arch_pairs lib a) (arch_table lib) \<noteq> None" by (auto simp: find_None_iff)
  then show ?thesis using a(1) by (auto simp: scmp_arch_to_scmp_str_def internal_arch_to_scmp_arch_def)
qed

lemma get_insn_name_done: "valid_insn c \<Longrightarrow> \<exists>s. get_insn_name c = Done s"
  using insn_name_map_valid [of c] by (auto simp: get_insn_name_def insn_name_map_def)

lemma assign_class:
  assumes "Asm.assign_line al = Done f" shows "BPF_CLASS (sf_code f) \<noteq> BPF_JMP"
proof -
  have "op \<in> {BPF_ADD, BPF_SUB, BPF_MUL, BPF_DIV, BPF_LSH, BPF_RSH, BPF_AND, BPF_OR, BPF_XOR}"
    if "operator_table t = Done op" for t op
    using that by (auto simp: operator_table_def split: token_type.splits assign_tk.splits)
  then show ?thesis
    using assms
    by (fastforce simp: Asm.assign_line_def Asm.alu_line_def negative_line_def Asm.st_stx_line_def ldx_line_def ld_line_def
        zero_filter_def bpf_fields Let_def split: if_splits)
qed

lemma c_macro_done:
  assumes fit: "report_fits lib st" and f: "asm_statement st = Done f" and line: "fits_line m len n (line st) f"
  shows "\<exists>s. c_macro_handle lib st f = Done s"
proof -
  from line have safe: "filter_safe m len (n - 1) f" and ret: "BPF_CLASS (sf_code f) = BPF_RET \<longleftrightarrow> is_return (line st)"
    by (simp_all add: fits_line_def)
  from safe have "valid_insn (sf_code f)" by (simp add: filter_safe_def Let_def)
  then obtain code where code: "get_insn_name (sf_code f) = Done code" using get_insn_name_done by blast
  show ?thesis
  proof (cases "BPF_CLASS (sf_code f) = BPF_JMP")
    case True
    then have "\<not> is_return (line st)" using ret by auto
    with f True obtain j where j: "line st = JUMP_LINE j" "Asm.jump_line j = Done f"
      using assign_class by (cases "line st") (auto simp: asm_statement_def is_return_def)
    have "\<exists>s. scmp_arch_to_scmp_str lib (sf_k f) = Done s" if c: "cmptype j = CMP_ARCH"
    proof -
      from fit j(1) c obtain t where t: "obj_data (cmpobj j) = internal_arch_to_scmp_arch lib t"
        "obj_type (cmpobj j) = NUMBER" "obj_data (cmpobj j) \<noteq> - 1" "if_condition j"
        by (auto simp: report_fits_def arch_known_def)
      moreover have "cmpobj (if b then reverse_jf_jt j else j) = cmpobj j" for b by (simp add: reverse_jf_jt_def)
      ultimately have "sf_k f = internal_arch_to_scmp_arch lib t" "sf_k f \<noteq> - 1"
        using j(2) by (auto simp: Asm.jump_line_def Let_def)
      then show ?thesis using arch_in_table [of lib t] by simp
    qed
    then show ?thesis using code True j(1) by (cases "cmptype j") (auto simp: c_macro_handle_def Let_def)
  next
    case False
    have "\<exists>s. abs_member (sf_k f) = Done s" if "sf_code f = BPF_LD OR BPF_W OR BPF_ABS"
    proof -
      from safe that have "unat (sf_k f) < 64" by (simp add: filter_safe_def Let_def)
      then have "unat (drop_bit 2 (sf_k f)) \<le> 15" by (simp add: drop_bit_eq_div unat_div_distrib)
      then show ?thesis by (auto simp: abs_member_def Let_def)
    qed
    then show ?thesis
      using code False by (auto simp: c_macro_handle_def Let_def split: option.splits)
  qed
qed

lemma assemble_loop_done:
  assumes "\<And>st. st \<in> set sts \<Longrightarrow> \<exists>f s. asm_statement st = Done f \<and> c_macro_handle lib st f = Done s"
  shows "\<exists>s. assemble_loop lib big False C_MACRO sts = Done s"
  using assms
proof (induction sts)
  case (Cons st sts)
  from Cons.prems [of st] obtain f s where f: "asm_statement st = Done f" "c_macro_handle lib st f = Done s" by auto
  from Cons.IH Cons.prems obtain t where "assemble_loop lib big False C_MACRO sts = Done t" by auto
  with f show ?case by (simp add: handle_filter_def)
qed simp

lemma assemble_macros:
  assumes acc: "accepted lib a reads L C T" and fit: "\<forall>st \<in> set T. report_fits lib st"
  shows "\<exists>s. assemble lib big a C_MACRO reads = Done s"
proof -
  from accepted_pipeline [OF acc] obtain V fs where R: "resolved L V T" and fs: "asm_lines (code_statements T) = Done fs" .
  from asm_program [OF R] fs have p: "\<forall>i < length fs. asm_statement (code T (Suc i)) = Done (fs ! i)
         \<and> fits_line (V (Suc i)) (length fs) (Suc i) (line (code T (Suc i))) (fs ! i)" by auto
  have "\<exists>f s. asm_statement st = Done f \<and> c_macro_handle lib st f = Done s" if st: "st \<in> set (code_statements T)" for st
  proof -
    from st obtain i where i: "i < length (code_statements T)" "st = code T (Suc i)"
      by (metis in_set_conv_nth nth_code_statements)
    then have "asm_statement st = Done (fs ! i)" "fits_line (V (Suc i)) (length fs) (Suc i) (line st) (fs ! i)"
      using p asm_lines_nth [OF fs] by simp_all
    moreover have "set (tl xs) \<subseteq> set xs" for xs :: "nat list" by (cases xs) auto
    then have "st \<in> set T" using st by (fastforce simp: code_statements_def code_lines_def)
    ultimately show ?thesis using c_macro_done fit by blast
  qed
  from assemble_loop_done [OF this, where big = big] show ?thesis by (auto simp: assemble_accepted [OF acc])
qed

section \<open>The whole command\<close>

text \<open>Behind the parser there is a resolved program, a program with reported errors, or a message.\<close>

lemma resolver_ends:
  assumes c: "\<forall>c. Some c \<in> set reads \<longrightarrow> length c \<le> GROW_LEN \<and> no_escape c"
    and ps: "parse_source lib a reads = Done (tv, cv, L)"
  shows "(\<exists>err T log. resolver L (vec_elems tv) (vec_elems cv) = Done (err, T, log) \<and> (\<forall>st \<in> set T. report_fits lib st)
      \<and> (\<not> err \<longrightarrow> accepted lib a reads L (vec_elems cv) T))
    \<or> (\<exists>e. resolver L (vec_elems tv) (vec_elems cv) = Die e)"
proof -
  have chunks: "length c \<le> GROW_LEN \<and> no_escape c" if "Some c \<in> set reads" for c using c that by blast
  have len: "length c \<le> GROW_LEN" if "Some c \<in> set reads" for c using chunks [OF that] by blast
  from parse_source_total [OF len] ps have w: "well_laid (vec_elems tv) (vec_elems cv) L" by blast
  from parse_source_lines [OF chunks ps] have n: "length (vec_elems tv) \<le> 65536"
    and fit: "\<forall>st \<in> set (vec_elems tv). report_fits lib st" by (auto simp: BPF_MAXINSNS_def)
  from resolver_total [OF w n fit] show ?thesis
  proof (elim disjE exE conjE)
    fix err T log
    assume rs: "resolver L (vec_elems tv) (vec_elems cv) = Done (err, T, log)" "length T = length (vec_elems tv)"
      "\<forall>st \<in> set T. report_fits lib st"
    then have "\<not> err \<longrightarrow> accepted lib a reads L (vec_elems cv) T"
      using ps n len by (auto simp: accepted_def split: option.split)
    with rs show ?thesis by blast
  qed blast
qed

lemma assemble_never_crashes:
  assumes r: "\<And>c. Some c \<in> set reads \<Longrightarrow> length c \<le> GROW_LEN \<and> no_escape c"
  shows "assemble lib big a mode reads \<noteq> Crash m"
proof (cases "parse_source lib a reads")
  case (Done p)
  obtain tv cv L where p: "p = (tv, cv, L)" by (cases p)
  note ps = Done [unfolded p]
  have "\<forall>c. Some c \<in> set reads \<longrightarrow> length c \<le> GROW_LEN \<and> no_escape c" using r by blast
  from resolver_ends [OF this ps] show ?thesis
  proof (elim disjE exE conjE)
    fix err T log
    assume rs: "resolver L (vec_elems tv) (vec_elems cv) = Done (err, T, log)" "\<forall>st \<in> set T. report_fits lib st"
      and acc: "\<not> err \<longrightarrow> accepted lib a reads L (vec_elems cv) T"
    show ?thesis
    proof (cases err)
      case False
      with acc rs(2) show ?thesis
        using assemble_macros [of lib a reads L "vec_elems cv" T big] assemble_filters [of lib a reads L "vec_elems cv" T mode big]
        by (cases "mode = C_MACRO") auto
    qed (use ps rs in \<open>simp add: assemble_def\<close>)
  qed (use ps in \<open>simp add: assemble_def\<close>)
next
  case (Crash e)
  have "\<And>c. Some c \<in> set reads \<Longrightarrow> length c \<le> GROW_LEN" using r by blast
  from parse_source_total [OF this] Crash show ?thesis by blast
qed (simp add: assemble_def)

end
