(* ===== verification/Emu_Total.thy ===== *)
theory Emu_Total
  imports Asm_Total
begin

text \<open>
  \<open>ceccomp emu\<close> on any source without escape characters, with its listing or quiet, and with shifts by \<open>$X\<close> as well:
  no access leaves an array, no assertion fails and every line can be printed.
\<close>

section \<open>Every line can be executed\<close>

text \<open>The machine in the state of the emulator.\<close>

definition vm_of :: "emu_state \<Rightarrow> vm" where
  "vm_of s = \<lparr>vm_A = A_reg s, vm_X = X_reg s, vm_mem = (\<lambda>i. e_mem s ! i)\<rparr>"

lemma sim_vm_of: "inputs d s \<Longrightarrow> sim d m s (vm_of s)"
  by (simp add: sim_def vm_of_def)

text \<open>A shift by \<open>$X\<close>, the only line on which the emulator and the machine differ.\<close>

lemma shift_X_done:
  assumes ok: "assign_ok m al" and sh: "\<not> plain_shift (ASSIGN_LINE al)" and s: "inputs d s"
  shows "\<exists>s'. Emu.assign_line al s = Done (False, al, s') \<and> inputs d s'"
proof -
  have op: "operator al = LSH_TO \<or> operator al = RSH_TO" and r: "obj_type (right_var al) = Tk_X"
    using sh by (auto simp: plain_shift_def)
  then have l: "obj_type (left_var al) = Tk_A"
    using ok by (auto simp: assign_ok_def wf_assign_def assign_X_ok_def assign_MEM_ok_def)
  have upd: "al\<lparr>right_var := right_var al\<lparr>obj_data := obj_data (right_var al)\<rparr>\<rparr> = al" by simp
  show ?thesis
    using op s unfolding Emu.assign_line_def places_A(2) [OF l r]
    by (elim disjE) (simp_all add: assign_op_def shift_def operate_def load_def store_def var_cells_def put_cell_def upd inputs_def)
qed

lemma emu_keeps_inputs:
  assumes R: "resolved L V T"
  shows "emu_keeps T (\<lambda>n. inputs d) (\<lambda>l s. (\<exists>w. ends_with w l) \<and> inputs d s)"
  unfolding emu_keeps_def
proof (intro allI impI)
  fix n s
  assume n: "0 < n" "n < length (code_lines T)" and inp: "inputs d s"
  from asm_program [OF R] obtain fs where lf: "length fs = length (code_lines T) - 1"
    and fit: "\<And>i. i < length fs \<Longrightarrow> asm_statement (code T (Suc i)) = Done (fs ! i)" by auto
  have pc: "n - 1 < length fs" "Suc (n - 1) = n" using n lf by simp_all
  from fit [OF pc(1)] pc obtain f where f: "asm_statement (code T n) = Done f" by simp
  have ok: "line_ok (V n) (length (code_lines T) - 1) n (line (code T n))"
    by (rule resolved_line_ok(1) [OF R n])
  note s = sim_vm_of [OF inp]
  show "case line (code T n) of
        ASSIGN_LINE al \<Rightarrow> \<exists>fpe s'. Emu.assign_line al s = Done (fpe, al, s')
          \<and> (if fpe then (\<exists>w. ends_with w (ASSIGN_LINE al)) \<and> inputs d s' else inputs d s')
      | JUMP_LINE j \<Rightarrow> \<exists>l. Emu.jump_line j s = Done l \<and> (l = jt j \<or> if_condition j \<and> l = jf j) \<and> inputs d s
      | RETURN_LINE r \<Rightarrow> \<forall>q. \<exists>st' r'. Emu.return_line r s q (code T n) = Done st' \<and> line st' = RETURN_LINE r'
          \<and> same_code (code T n) st' \<and> (\<exists>w. ends_with w (RETURN_LINE r')) \<and> inputs d s
      | _ \<Rightarrow> True"
  proof (cases "line (code T n)")
    case (ASSIGN_LINE al)
    from ok ASSIGN_LINE have aok: "assign_ok (V n) al" by (simp add: line_ok_def)
    from f ASSIGN_LINE have fa: "Asm.assign_line al = Done f" by (simp add: asm_statement_def)
    show ?thesis
    proof (cases "plain_shift (ASSIGN_LINE al)")
      case True
      from assign_same [OF s aok True fa] ASSIGN_LINE inp show ?thesis
        by (fastforce simp: same_step_def sim_def ends_with_def)
    next
      case False
      from shift_X_done [OF aok False inp] ASSIGN_LINE show ?thesis by auto
    qed
  next
    case (JUMP_LINE j)
    from ok JUMP_LINE have jok: "jump_ok (length (code_lines T) - 1) n j" by (simp add: line_ok_def)
    from f JUMP_LINE have fj: "Asm.jump_line j = Done f" by (simp add: asm_statement_def)
    from jump_same [OF s jok fj] JUMP_LINE inp show ?thesis by auto
  next
    case (RETURN_LINE r)
    from ok RETURN_LINE have rok: "return_ok r" by (simp add: line_ok_def)
    from f RETURN_LINE have fr: "Asm.return_line r = Done f" by (simp add: asm_statement_def)
    show ?thesis
      using return_same [OF s rok fr RETURN_LINE] RETURN_LINE inp by (fastforce simp: ends_with_def)
  qed simp_all
qed

section \<open>The end of the run is printed\<close>

lemma same_code_printable: "same_code st st' \<Longrightarrow> printable st \<Longrightarrow> printable st'"
  by (auto simp: same_code_def printable_def wf_line_def wf_return_def wf_return_data_def is_error_def)

lemma skipped_comment: "n < 65536 \<Longrightarrow> \<exists>s. print_as_comment c (skipped_text n) = Done s"
  using length_dec16 [of n] by (simp add: print_as_comment_def skipped_text_def)

lemma emulate_v_done:
  assumes R: "resolved L V T" "laid L T" and C: "C = map of_nat (code_lines T)"
    and m: "m_text m = T" "length (enable_stack (m_color m)) < 0x10"
    and v: "length (e_mem (m_vars m)) = BPF_MEMWORDS" "scmp_data_len (m_vars m) = 64"
    and nr: "resolve_sysnr lib (ea_scmp_arch ea) (ea_sys_name ea) = Done nr" "length (ea_args ea) = 6"
  shows "\<exists>x. emulate_v lib C ea m = Done x"
proof -
  from init_attr_inputs [OF nr v] obtain s where s: "init_attr lib ea (m_vars m) = Done s" "inputs (emu_data ea nr) s" by blast
  let ?m = "m\<lparr>m_vars := s\<rparr>" and ?d = "emu_data ea nr"
  have "\<exists>i m'. emulator C (ea_quiet ea) ?m = Done (i, m') \<and> 0 < i \<and> i < length T \<and> m_text m' = T[i := m_text m' ! i]
    \<and> m_color m' = m_color ?m \<and> ((\<exists>w. ends_with w (line (m_text m' ! i))) \<and> inputs ?d (m_vars m'))
    \<and> same_code (T ! i) (m_text m' ! i)"
    by (rule emulator_keeps [where E = "\<lambda>l s. (\<exists>w. ends_with w l) \<and> inputs ?d s", OF R C emu_keeps_inputs [OF R(1)]])
      (use m s in \<open>auto simp: ends_with_def is_return_def is_assign_def split: line_t.splits\<close>)
  then obtain i m' w where r: "emulator C (ea_quiet ea) ?m = Done (i, m')" "0 < i" "i < length T"
    "m_text m' = T[i := m_text m' ! i]" "m_color m' = m_color m" "ends_with w (line (m_text m' ! i))"
    "same_code (T ! i) (m_text m' ! i)" by auto
  have T: "T ! 0 = zero_statement" "length T \<le> 65536" "T \<noteq> []" using R(2) by (simp_all add: laid_def)
  have pr: "printable (m_text m' ! i)"
    by (rule same_code_printable [OF r(7) resolved_printable [OF R(1) T(1) r(3,2)]])
  have len: "length (m_text m') = length T" using arg_cong [OF r(4), of length] by simp
  show ?thesis
  proof (cases "ea_quiet ea")
    case False
    define st where "st = (if is_assign (line (m_text m' ! i)) then (m_text m' ! i)\<lparr>line_text := Some FPE_ERR_STR, comment := 0\<rparr>
      else m_text m' ! i)"
    have "printable st" using pr by (simp add: st_def printable_def)
    then obtain t where t: "emulate_printer (m_color m') st False False = Done (t, m_color m')"
      using emulate_printer_ok [of st "m_color m'" False False] m(2) r(5) by auto
    define left where "left = length (m_text m') - 1 - unat (text_nr (m_text m' ! i))"
    have "left < 65536" using T len by (cases T) (auto simp: left_def)
    then obtain u where "print_as_comment (color_enable (m_color m')) (skipped_text left) = Done u"
      using skipped_comment by blast
    moreover have "left = length (m_text m') - Suc (unat (text_nr (m_text m' ! i)))" by (simp add: left_def)
    ultimately show ?thesis using s(1) r(1) False t by (simp add: emulate_v_def Let_def st_def [symmetric])
  next
    case True
    define obj where "obj = (case line (m_text m' ! i) of RETURN_LINE r \<Rightarrow> real_obj r | _ \<Rightarrow> zero_obj\<lparr>obj_type := KILL\<rparr>)"
    have "\<exists>w. reports w obj"
      using r(6) kill_reports by (auto simp: ends_with_def obj_def split: line_t.splits)
    then obtain t where "obj_printer (color_enable (m_color m')) obj = Done t" using reports_printer by blast
    with s(1) r(1) True show ?thesis by (simp add: emulate_v_def Let_def obj_def split: line_t.splits)
  qed
qed

section \<open>The whole command\<close>

lemma resolve_sysnr_ends: "resolve_sysnr lib a n \<noteq> Crash m"
  by (auto simp: resolve_sysnr_def Let_def split: option.splits prod.splits)

lemma emulate_never_crashes:
  assumes r: "\<And>c. Some c \<in> set reads \<Longrightarrow> length c \<le> GROW_LEN \<and> no_escape c"
    and a: "length (ea_args ea) = 6" and col: "length (enable_stack color) < 0x10"
  shows "emulate lib color ea reads \<noteq> Crash m"
proof (cases "parse_source lib (ea_scmp_arch ea) reads")
  case (Done p)
  obtain tv cv L where p: "p = (tv, cv, L)" by (cases p)
  note ps = Done [unfolded p]
  have "\<forall>c. Some c \<in> set reads \<longrightarrow> length c \<le> GROW_LEN \<and> no_escape c" using r by blast
  from resolver_ends [OF this ps] show ?thesis
  proof (elim disjE exE conjE)
    fix err T log
    assume rs: "resolver L (vec_elems tv) (vec_elems cv) = Done (err, T, log)"
      and acc: "\<not> err \<longrightarrow> accepted lib (ea_scmp_arch ea) reads L (vec_elems cv) T"
    show ?thesis
    proof (cases err)
      case False
      with acc have acc: "accepted lib (ea_scmp_arch ea) reads L (vec_elems cv) T" by simp
      from accepted_pipeline [OF acc] obtain V where R: "resolved L V T" "laid L T" "vec_elems cv = map of_nat (code_lines T)" .
      let ?m = "\<lparr>m_text = T, m_vars = start_vars, m_color = color, m_out = []\<rparr>"
      have e: "emulate lib color ea reads = cbind (emulate_v lib (vec_elems cv) ea ?m) (\<lambda>(out, rest, m). Done (out, rest))"
        using ps rs False by (simp add: emulate_def)
      show ?thesis
      proof (cases "resolve_sysnr lib (ea_scmp_arch ea) (ea_sys_name ea)")
        case (Done nr)
        from emulate_v_done [OF R, of ?m, OF _ _ _ _ Done a] col e show ?thesis by (auto simp: start_vars_def)
      qed (use e resolve_sysnr_ends in \<open>auto simp: emulate_v_def init_attr_def\<close>)
    qed (use ps rs in \<open>simp add: emulate_def\<close>)
  qed (use ps in \<open>simp add: emulate_def\<close>)
next
  case (Crash e)
  have "\<And>c. Some c \<in> set reads \<Longrightarrow> length c \<le> GROW_LEN" using r by blast
  from parse_source_total [OF this] Crash show ?thesis by blast
qed (simp add: emulate_def)

end
