(* ===== verification/Escape_Overflow.thy ===== *)
theory Escape_Overflow
  imports Source_Lines Pipeline
begin

text \<open>
  What escape characters do to the lines: a colour without its end takes the line break along, so three lines
  become one of more than a thousand bytes, and the report of an error in it does not fit into the buffer of
  the resolver.
\<close>

section \<open>The source\<close>

definition open_colour :: string where
  "open_colour = CHR 0x1B # replicate 375 CHR ''x''"

definition colour_lines :: string where
  "colour_lines = open_colour @ CHR 0x0A # open_colour @ CHR 0x0A # open_colour @ [CHR 0x0A]"

definition colour_source :: string where
  "colour_source = ''$A=$A#'' @ colour_lines @ [CHR 0x0A]"

lemma length_open_colour: "length open_colour = 376"
  by (simp add: open_colour_def)

lemma open_colour_plain: "CHR 0x0A \<notin> set open_colour" "CHR 0x00 \<notin> set open_colour"
  by (simp_all add: open_colour_def)

section \<open>One line of the reader\<close>

lemma memchr_first:
  assumes "c \<notin> set l" "length l < n"
  shows "memchr (pre @ l @ c # rest) c (length pre) n = Some (length pre + length l)"
proof -
  let ?s = "pre @ l @ c # rest"
  have at: "char_at ?s (length pre + length l) = c" by (simp add: char_at_append)
  have no: "char_at ?s k \<noteq> c" if "length pre \<le> k" "k < length pre + length l" for k
    using that assms(1) by (auto simp: char_at_append nth_append)
  show ?thesis
  proof (cases "memchr ?s c (length pre) n")
    case None
    from memchr_None [OF None, of "length pre + length l"] assms(2) at show ?thesis by simp
  next
    case (Some k)
    from memchr_Some [OF Some] have k: "length pre \<le> k" "char_at ?s k = c"
      "\<forall>j. length pre \<le> j \<and> j < k \<longrightarrow> char_at ?s j \<noteq> c" by auto
    have "\<not> k < length pre + length l" using no k by blast
    moreover have "\<not> length pre + length l < k" using k(3) [rule_format, of "length pre + length l"] at by auto
    ultimately show ?thesis using Some by simp
  qed
qed

lemma clear_loop_open: "CHR ''m'' \<notin> set q \<Longrightarrow> clear_loop True q = []"
  by (induction q) auto

text \<open>A line without colours stays, one with an open colour is erased from there on, its line break included.\<close>

lemma clear_open_colour:
  assumes "CHR 0x1B \<notin> set p" "CHR ''m'' \<notin> set q"
  shows "clear_color (pre @ p @ CHR 0x1B # q @ rest) (length pre) (length p + 1 + length q)
    = pre @ p @ replicate (1 + length q) CHR 0x00 @ rest"
proof -
  let ?s = "pre @ p @ CHR 0x1B # q @ rest"
  have m: "memchr ?s CHR 0x1B (length pre) (length p + 1 + length q) = Some (length pre + length p)"
    using memchr_first [OF assms(1), of "length p + 1 + length q" pre "q @ rest"] by simp
  have "slice ?s (length pre + length p) (1 + length q) = CHR 0x1B # q" by (simp add: slice_def)
  moreover have "length pre + (length p + 1 + length q) - length ?s = 0" by simp
  ultimately show ?thesis
    using m clear_loop_open [OF assms(2)] by (simp add: clear_color_def Let_def)
qed

lemma poke_same: "i < length s \<Longrightarrow> s ! i = c \<Longrightarrow> poke s i c = s"
  by (simp add: poke_def list_update_same_conv)

lemma process_lines_step:
  assumes "s = pre @ l @ CHR 0x0A # rest" "CHR 0x0A \<notin> set l" "length l < MAX_LINE_LEN" "t = length s" "ls = length pre"
  shows "process_lines UNIX CHR 0x0A t s ls nr =
    process_lines UNIX CHR 0x0A t (clear_color s ls (length l + 1)) (ls + length l + 1) (nr + 1)"
proof -
  have m: "memchr s CHR 0x0A ls MAX_LINE_LEN = Some (ls + length l)" "memchr s CHR 0x0A ls (t - ls) = Some (ls + length l)"
    using memchr_first [OF assms(2), of MAX_LINE_LEN pre rest] memchr_first [OF assms(2), of "t - ls" pre rest] assms by simp_all
  have "fix_break UNIX s (ls + length l) = s"
    using assms by (simp add: fix_break_def poke_same nth_append)
  then show ?thesis using m by (subst process_lines.simps) simp
qed

lemma process_open_colour:
  assumes "s = pre @ p @ open_colour @ CHR 0x0A # rest" "CHR 0x1B \<notin> set p" "CHR 0x0A \<notin> set p" "length p < 8"
    and "t = length s" "ls = length pre" "s' = pre @ p @ replicate 377 CHR 0x00 @ rest" "ls' = ls + length p + 377" "nr' = nr + 1"
  shows "process_lines UNIX CHR 0x0A t s ls nr = process_lines UNIX CHR 0x0A t s' ls' nr'"
proof -
  let ?q = "replicate 375 CHR ''x'' @ [CHR 0x0A]"
  have s: "s = pre @ (p @ open_colour) @ CHR 0x0A # rest" using assms(1) by simp
  have "process_lines UNIX CHR 0x0A t s ls nr = process_lines UNIX CHR 0x0A t
      (clear_color s ls (length (p @ open_colour) + 1)) (ls + length (p @ open_colour) + 1) (nr + 1)"
    by (rule process_lines_step [OF s]) (use assms open_colour_plain in \<open>simp_all add: length_open_colour MAX_LINE_LEN_def\<close>)
  moreover have "clear_color s ls (length (p @ open_colour) + 1) = pre @ p @ replicate 377 CHR 0x00 @ rest"
    using clear_open_colour [OF assms(2), of ?q pre rest] assms(1,6) by (simp add: open_colour_def)
  moreover have "ls + length (p @ open_colour) + 1 = ls'" using assms(8) by (simp add: length_open_colour)
  ultimately show ?thesis using assms(7,9) by (simp only:)
qed

section \<open>The text the scanner gets\<close>

definition joined_text :: string where
  "joined_text = ''$A=$A#'' @ replicate 1131 CHR 0x00 @ [CHR 0x0A]"

lemma length_colour_source: "length colour_source = 1138" "length joined_text = 1138"
  by (simp_all add: colour_source_def colour_lines_def length_open_colour joined_text_def)

lemma process_colour_source: "process_source colour_source 1138 = Done (5, joined_text)"
proof -
  let ?z = "\<lambda>n. replicate n CHR 0x00 :: string" and ?P = "process_lines UNIX CHR 0x0A 1138"
  have d: "detect_file_type colour_source 1138 = Done (UNIX, CHR 0x0A)"
  proof -
    have s: "colour_source = [] @ (''$A=$A#'' @ open_colour) @ CHR 0x0A # open_colour @ CHR 0x0A # open_colour @ [CHR 0x0A, CHR 0x0A]"
      by (simp add: colour_source_def colour_lines_def)
    have "memchr colour_source CHR 0x0A 0 1138 = Some 382"
      unfolding s using memchr_first [of "CHR 0x0A" "''$A=$A#'' @ open_colour" 1138 "[]"] open_colour_plain
      by (simp add: length_open_colour)
    moreover have "char_at colour_source 381 = CHR ''x''"
      by (simp add: colour_source_def colour_lines_def char_at_append open_colour_def nth_append)
    ultimately show ?thesis by (simp add: detect_file_type_def)
  qed
  have rep: "?z 377 @ ?z 377 = ?z 754" "?z 754 @ ?z 377 = ?z 1131" by (simp_all add: replicate_add [symmetric])
  have "?P colour_source 0 1 = ?P (''$A=$A#'' @ ?z 377 @ open_colour @ CHR 0x0A # open_colour @ [CHR 0x0A, CHR 0x0A]) 383 2"
    by (rule process_open_colour [where pre = "[]" and p = "''$A=$A#''"])
      (simp_all add: length_colour_source, simp_all add: colour_source_def colour_lines_def)
  also have "\<dots> = ?P (''$A=$A#'' @ ?z 754 @ open_colour @ [CHR 0x0A, CHR 0x0A]) 760 3"
    by (rule process_open_colour [where pre = "''$A=$A#'' @ ?z 377" and p = "[]"])
      (simp_all add: length_open_colour rep(1) [symmetric])
  also have "\<dots> = ?P joined_text 1137 4"
    by (rule process_open_colour [where pre = "''$A=$A#'' @ ?z 754" and p = "[]"])
      (simp_all add: length_open_colour joined_text_def rep(2) [symmetric])
  also have "\<dots> = ?P joined_text 1138 5"
  proof -
    have e: "CHR 0x1B \<notin> set joined_text" by (simp add: joined_text_def)
    have s: "joined_text = (''$A=$A#'' @ ?z 1131) @ [] @ CHR 0x0A # []" by (simp add: joined_text_def)
    show ?thesis
      using process_lines_step [OF s, of 1138 1137 4] clear_color_id [OF e]
      by (simp add: length_colour_source MAX_LINE_LEN_def)
  qed
  also have "\<dots> = Done (joined_text, 1138, 5)"
    by (subst process_lines.simps) (simp add: MAX_LINE_LEN_def)
  finally show ?thesis using d by (simp add: process_source_def BPF_MAXINSNS_def)
qed

section \<open>The source in memory\<close>

definition joined_source :: source_t where
  "joined_source = \<lparr>src_text = joined_text, src_current = 1138, src_cursor = 0, map_len = 0x8000\<rparr>"

lemma init_colour_source: "init_source [Some colour_source, Some []] = Done (5, joined_source)"
proof -
  have z: "CHR 0x00 \<notin> set colour_source" by (simp add: colour_source_def colour_lines_def open_colour_plain)
  have n: "memchr colour_source CHR 0x00 0 1138 = None"
  proof (cases "memchr colour_source CHR 0x00 0 1138")
    case (Some k)
    from memchr_Some [OF this] have k: "k < 1138" "char_at colour_source k = CHR 0x00" by auto
    then have "CHR 0x00 \<in> set colour_source"
      using nth_mem [of k colour_source] by (simp add: char_at_def length_colour_source)
    with z show ?thesis by simp
  qed
  moreover have "colour_source \<noteq> []" using length_colour_source(1) by fastforce
  ultimately show ?thesis
    by (simp add: init_source_def Let_def increase_map_def length_colour_source process_colour_source
        GROW_LEN_def MAX_FILE_LEN_def joined_source_def)
qed

text \<open>The bytes the scanner looks at.\<close>

definition joined_head :: string where
  "joined_head = ''$A=$A#'' @ replicate 1131 CHR 0x00"

lemma joined_head: "joined_text = joined_head @ [CHR 0x0A]" "length joined_head = 1137" "CHR 0x0A \<notin> set joined_head"
  by (simp_all add: joined_text_def joined_head_def)

lemma joined_break_at: "joined_text ! 1137 = CHR 0x0A"
  using nth_append_length [of joined_head "CHR 0x0A" "[]"] by (simp add: joined_head)

lemma joined_chars:
  "char_at joined_text 0 = CHR ''$''" "char_at joined_text (Suc 0) = CHR ''A''" "char_at joined_text 2 = CHR ''=''"
  "char_at joined_text 3 = CHR ''$''" "char_at joined_text 4 = CHR ''A''" "char_at joined_text 5 = CHR ''#''"
  "char_at joined_text 1137 = CHR 0x0A"
proof -
  show "char_at joined_text 1137 = CHR 0x0A" using joined_break_at by (simp add: char_at_def length_colour_source)
qed (simp_all add: joined_text_def char_at_append)

lemma joined_break: "memchr joined_text CHR 0x0A 0 1138 = Some 1137"
  using memchr_first [OF joined_head(3), of 1138 "[]" "[]"] by (simp add: joined_head)

lemma comment_end_first:
  assumes "i \<le> e" "e < length s" "s ! e = CHR 0x0A" "\<And>j. i \<le> j \<Longrightarrow> j < e \<Longrightarrow> s ! j \<noteq> CHR 0x0A"
  shows "comment_end s i = Some e"
  using assms
proof (induction s i rule: comment_end.induct)
  case (1 s i)
  then show ?case by (subst comment_end.simps) (cases "i = e"; simp)
qed

lemma joined_comment: "comment_end joined_text 6 = Some 1137"
proof (rule comment_end_first)
  show "joined_text ! j \<noteq> CHR 0x0A" if "6 \<le> j" "j < 1137" for j
  proof -
    have "joined_head ! j \<in> set joined_head" using that by (simp add: joined_head(2))
    moreover have "joined_text ! j = joined_head ! j" using that by (simp add: joined_head nth_append)
    ultimately show ?thesis using joined_head(3) by metis
  qed
qed (simp_all add: length_colour_source joined_break_at)

section \<open>The tokens\<close>

text \<open>The scanner in the joined line, and behind it.\<close>

definition line_source :: source_t where
  "line_source = joined_source\<lparr>src_cursor := 1138\<rparr>"

definition scan_at :: "nat option \<Rightarrow> nat \<Rightarrow> scan_state" where
  "scan_at ts i = \<lparr>source = line_source, scanner = \<lparr>token_start = ts, current_char = i, line_nr = 1\<rparr>, unknown_count = 0\<rparr>"

definition scan_end :: scan_state where
  "scan_end = \<lparr>source = line_source, scanner = \<lparr>token_start = None, current_char = 0, line_nr = 2\<rparr>, unknown_count = 0\<rparr>"

definition line_token :: "token_type \<Rightarrow> nat \<Rightarrow> u16 \<Rightarrow> token_t" where
  "line_token ty i n = \<lparr>tk_type = ty, tk_start = Some i, tk_len = n, tk_line_nr = 1, tk_data = 0\<rparr>"

lemma line_source_fields: "src_text line_source = joined_text" "src_current line_source = 1138" "src_cursor line_source = 1138"
  by (simp_all add: line_source_def joined_source_def)

lemma first_line: "next_line joined_source = (Some 0, line_source)"
proof -
  have "skip_nuls joined_text 1138 1138 = 1138" by (subst skip_nuls.simps) simp
  then show ?thesis
    using joined_break by (simp add: next_line_def joined_source_def line_source_def)
qed

lemma no_spaces: "\<not> (isspace_l (char_at s i) \<and> char_at s i \<noteq> CHR 0x0A) \<Longrightarrow> skip_spaces s i = i"
  by (subst skip_spaces.simps) (simp only: if_False)

lemmas scan_simps = scan_token_def scan_at_def line_token_def line_source_fields joined_chars no_spaces Let_def
  match_offset_def Scanner.peek_def Scanner.advance_def goto_char_def INIT_TOKEN_def INIT_TOKEN_ADV1_def init_token_def
  ctype_defs scan_punct_def or_match_def

lemma scan_A: "scan_token (line_token ty n l) (scan_at (Some i) 0) = Done (line_token Tk_A 0 2, scan_at (Some 0) 2)"
  by (simp add: scan_simps)

lemma scan_zero: "scan_token zero_token (scan_at (Some i) 0) = Done (line_token Tk_A 0 2, scan_at (Some 0) 2)"
  by (simp add: scan_simps zero_token_def)

lemma scan_EQUAL: "scan_token (line_token ty n l) (scan_at (Some i) 2) = Done (line_token EQUAL 2 1, scan_at (Some 2) 3)"
  by (simp add: scan_simps)

lemma scan_A2: "scan_token (line_token ty n l) (scan_at (Some i) 3) = Done (line_token Tk_A 3 2, scan_at (Some 3) 5)"
  by (simp add: scan_simps)

lemma scan_COMMENT:
  "scan_token (line_token ty n l) (scan_at (Some i) 5) = Done (line_token COMMENT 5 1132, scan_at (Some 5) 1137)"
  by (simp add: scan_simps joined_comment)

lemma scan_EOL: "scan_token (line_token ty n l) (scan_at (Some i) 1137) = Done (line_token EOL 1137 1, scan_end)"
  by (simp add: scan_simps scan_end_def reset_to_nextline_def next_line_def)

lemma scan_EOF: "scan_token t scan_end = Done (\<lparr>tk_type = TOKEN_EOF, tk_start = None, tk_len = 0, tk_line_nr = 2, tk_data = tk_data t\<rparr>, scan_end)"
  by (simp add: scan_simps scan_end_def)

section \<open>The statement\<close>

text \<open>The statement of the joined line: \<open>$A=$A\<close>, with a text of more than a thousand bytes.\<close>

definition joined_statement :: statement_t where
  "joined_statement = zero_statement\<lparr>text_nr := 1, code_nr := 1,
     line := ASSIGN_LINE \<lparr>
       left_var = \<lparr>obj_type = Tk_A, obj_data = 0, literal = Some (slice joined_text 0 2)\<rparr>, operator = EQUAL,
       right_var = \<lparr>obj_type = Tk_A, obj_data = 0, literal = Some (slice joined_text 3 2)\<rparr>\<rparr>,
     line_text := Some (slice joined_text 0 1137), comment := 5\<rparr>"

definition eof_token :: token_t where
  "eof_token = \<lparr>tk_type = TOKEN_EOF, tk_start = None, tk_len = 0, tk_line_nr = 2, tk_data = 0\<rparr>"

definition parse_at :: "scan_state \<Rightarrow> token_t \<Rightarrow> token_t \<Rightarrow> token_t \<Rightarrow> u16 \<Rightarrow> statement_t \<Rightarrow> nat option \<Rightarrow> pstate" where
  "parse_at sc t1 t2 t3 n st ls = \<lparr>p_scan = sc, p_previous = t1, p_current = t2, p_next = t3, p_text_nr = n, p_code_nr = n,
     p_labels = init_table, p_local = st, p_line_start = ls\<rparr>"

lemma advance_at: "scan_token t3 sc = Done (t, sc') \<Longrightarrow>
  Parser.advance (parse_at sc t1 t2 t3 n st ls) = (Ok (), parse_at sc' t2 t3 t n st ls)"
  by (simp add: Parser.advance_def parse_at_def)

lemma line_token_simps [simp]: "tk_type (line_token ty n l) = ty" "tk_start (line_token ty n l) = Some n"
  "tk_len (line_token ty n l) = l" "tk_data (line_token ty n l) = 0"
  by (simp_all add: line_token_def)

lemma eof_token_simps [simp]: "tk_type eof_token = TOKEN_EOF" "tk_start eof_token = None" "tk_data eof_token = 0"
  by (simp_all add: eof_token_def)

lemma parse_at_simps [simp]:
  "p_scan (parse_at sc t1 t2 t3 n st ls) = sc" "p_current (parse_at sc t1 t2 t3 n st ls) = t2"
  "p_next (parse_at sc t1 t2 t3 n st ls) = t3" "p_local (parse_at sc t1 t2 t3 n st ls) = st"
  "p_line_start (parse_at sc t1 t2 t3 n st ls) = ls" "p_code_nr (parse_at sc t1 t2 t3 n st ls) = n"
  "p_text_nr (parse_at sc t1 t2 t3 n st ls) = n" "p_labels (parse_at sc t1 t2 t3 n st ls) = init_table"
  "p_previous (parse_at sc t1 t2 t3 n st ls) = t1"
  "parse_at sc t1 t2 t3 n st ls\<lparr>p_local := st'\<rparr> = parse_at sc t1 t2 t3 n st' ls"
  by (simp_all add: parse_at_def)

lemma scan_text [simp]: "stext (scan_at ts i) = joined_text" "stext scan_end = joined_text"
  by (simp_all add: scan_at_def scan_end_def line_source_fields)

lemma scan_EOF_token: "scan_token (line_token ty n l) scan_end = Done (eof_token, scan_end)"
  "scan_token eof_token scan_end = Done (eof_token, scan_end)"
  by (simp_all add: scan_EOF eof_token_def line_token_def)

lemmas advance_simps_at = advance_at [OF scan_A] advance_at [OF scan_EQUAL] advance_at [OF scan_A2]
  advance_at [OF scan_COMMENT] advance_at [OF scan_EOL] advance_at [OF scan_EOF_token(1)]
  advance_at [OF scan_EOF_token(2)]

lemmas monad_simps = pbind_def preturn_def pget_def pmodify_def plift_def set_local_def match_def match_if_def
  match_from_to_def Parser.peek_def peek_from_to_def

lemma match_one: "match ty (parse_at sc t1 t2 t3 n st ls) =
    (if ty = tk_type t3 then pbind Parser.advance (\<lambda>_. preturn True) (parse_at sc t1 t2 t3 n st ls)
     else (Ok False, parse_at sc t1 t2 t3 n st ls))"
  by (simp add: match_def match_if_def Parser.peek_def preturn_def)

lemma init_joined: "init_parser joined_source =
  (Ok (), parse_at (scan_at (Some 0) 2) zero_token zero_token (line_token Tk_A 0 2) 0 zero_statement None)"
proof -
  have "start_pstate joined_source = parse_at (scan_at (Some 0) 0) zero_token zero_token zero_token 0 zero_statement None"
    by (simp add: start_pstate_def first_line parse_at_def scan_at_def init_scanner_def)
  then show ?thesis by (simp add: init_parser_def advance_at [OF scan_zero])
qed

lemma parse_joined_line:
  "parse_line lib a (parse_at (scan_at (Some 0) 2) t1 t2 (line_token Tk_A 0 2) 0 st ls) =
   (Ok joined_statement, parse_at scan_end (line_token COMMENT 5 1132) (line_token EOL 1137 1) eof_token 1
      joined_statement (Some 0))"
proof -
  let ?z = "zero_statement\<lparr>text_nr := 1, code_nr := 1\<rparr>"
  let ?l = "ASSIGN_LINE \<lparr>
       left_var = \<lparr>obj_type = Tk_A, obj_data = 0, literal = Some (slice joined_text 0 2)\<rparr>, operator = EQUAL,
       right_var = \<lparr>obj_type = Tk_A, obj_data = 0, literal = Some (slice joined_text 3 2)\<rparr>\<rparr>"
  let ?s0 = "parse_at (scan_at (Some 0) 2) t1 t2 (line_token Tk_A 0 2) 1 ?z (Some 0)"
  let ?s1 = "parse_at (scan_at (Some 2) 3) t2 (line_token Tk_A 0 2) (line_token EQUAL 2 1) 1 ?z (Some 0)"
  let ?s2 = "parse_at (scan_at (Some 5) 1137) (line_token EQUAL 2 1) (line_token Tk_A 3 2) (line_token COMMENT 5 1132) 1 ?z (Some 0)"
  have a: "Parser.assign_line ?s1 = (Ok ?l, ?s2)"
    by (simp add: Parser.assign_line_def left_def right_def monad_simps tok_simps with_literal_def current_type_def next_start_def
        advance_simps_at span_to_def) (simp add: numeral_2_eq_2)
  have e: "expression_line lib a ?s0 = (Ok ?l, ?s2)"
    by (simp add: expression_line_def monad_simps tok_simps advance_simps_at a BPF_MAXINSNS_def)
  have l: "parse_label_decl ?s0 = (Ok (), ?s0)"
    by (simp add: parse_label_decl_def match_one pbind_def preturn_def)
  have c: "comment_pos (parse_at (scan_at (Some 5) 1137) t u (line_token COMMENT 5 1132) 1 z (Some 0))
      = (Ok 5, parse_at scan_end u (line_token COMMENT 5 1132) (line_token EOL 1137 1) 1 z (Some 0))" for t u z
    by (simp add: comment_pos_def match_one pbind_def preturn_def pget_def plift_def ptr_diff_def advance_simps_at)
  have n: "end_of_line (parse_at scan_end t u (line_token EOL 1137 1) 1 z (Some 0))
      = (Ok (), parse_at scan_end u (line_token EOL 1137 1) eof_token 1
          (z\<lparr>line_text := Some (slice joined_text 0 1137)\<rparr>) (Some 0))" for t u z
    by (simp add: end_of_line_def match_one pbind_def preturn_def pget_def plift_def ptr_diff_def advance_simps_at
        set_line_len_def set_local_def pmodify_def text_span_def)
  have s: "parse_at (scan_at (Some 0) 2) t1 t2 (line_token Tk_A 0 2) 0 st ls
    \<lparr>p_text_nr := 1, p_code_nr := 1, p_local := ?z, p_line_start := Some 0\<rparr> = ?s0"
    by (simp add: parse_at_def)
  show ?thesis
    by (simp add: parse_line_def Let_def s l e c n pbind_def expression_def set_local_def pmodify_def joined_statement_def)
qed

definition eof_statement :: statement_t where
  "eof_statement = zero_statement\<lparr>text_nr := 2, code_nr := 2, line := EOF_LINE, comment := - 1, line_text := text_span joined_text None 0\<rparr>"

lemma parse_joined_eof:
  "parse_line lib a (parse_at scan_end t1 t2 eof_token 1 st ls) =
   (Ok eof_statement, parse_at scan_end t1 t2 eof_token 2 eof_statement None)"
proof -
  let ?z = "zero_statement\<lparr>text_nr := 2, code_nr := 2\<rparr>"
  have s: "parse_at scan_end t1 t2 eof_token 1 st ls\<lparr>p_text_nr := 2, p_code_nr := 2, p_local := ?z, p_line_start := None\<rparr>
    = parse_at scan_end t1 t2 eof_token 2 ?z None"
    by (simp add: parse_at_def)
  have e: "expression_line lib a (parse_at scan_end t1 t2 eof_token 2 ?z None)
    = (Ok EOF_LINE, parse_at scan_end t1 t2 eof_token 2 ?z None)"
    by (simp add: expression_line_def monad_simps eof_line_def)
  show ?thesis
    by (simp add: parse_line_def Let_def s e parse_label_decl_def match_one pbind_def preturn_def pget_def plift_def
        expression_def set_local_def pmodify_def comment_pos_def end_of_line_def Parser.peek_def set_line_len_def
        ptr_diff_def eof_statement_def)
qed

lemma line_fields: "line eof_statement = EOF_LINE" "line joined_statement \<noteq> EOF_LINE" "line joined_statement \<noteq> EMPTY_LINE"
  by (simp_all add: eof_statement_def joined_statement_def)

section \<open>The overflow\<close>

definition six :: "'a list \<Rightarrow> 'a vector_t" where
  "six xs = \<lparr>v_count = of_nat (length xs), v_capacity = 6, v_data = map Some xs @ replicate (6 - length xs) None\<rparr>"

lemma init_six: "init_vector 6 = six []"
  by (simp add: six_def init_vector_def update_vector_def)

lemma push_six: "push_vector (six []) x = Done (six [x])" "push_vector (six [x]) y = Done (six [x, y])"
proof -
  have r: "replicate 6 None = None # replicate 5 None" "replicate 5 None = None # replicate 4 None"
    by (simp_all add: numeral_eq_Suc)
  show "push_vector (six []) x = Done (six [x])" "push_vector (six [x]) y = Done (six [x, y])"
    by (simp_all add: push_vector_def six_def r word_le_nat_alt)
qed

lemma get_six: "get_vector (six [x, y]) 1 = Done y"
  by (simp add: get_vector_def six_def)

lemma elems_six: "vec_elems (six [x, y]) = [x, y]" "v_count (six [x, y]) = 2"
  by (simp_all add: vec_elems_def six_def)

lemma parse_colour_source:
  "\<exists>tv cv L. parse_source lib a [Some colour_source, Some []] = Done (tv, cv, L)
     \<and> vec_elems tv = [zero_statement, joined_statement] \<and> vec_elems cv = [0, 1]"
proof -
  let ?s = "parse_at (scan_at (Some 0) 2) zero_token zero_token (line_token Tk_A 0 2) 0 zero_statement None"
  let ?tv = "six [zero_statement, joined_statement]" and ?cv = "six [0, 1] :: u32 vector_t"
  have f: "scan_left (scan_at (Some 0) 2) + 3 = 1140"
    by (simp add: scan_left_def scan_at_def line_source_fields)
  let ?s' = "parse_at scan_end (line_token COMMENT 5 1132) (line_token EOL 1137 1) eof_token"
  have n: "parse_lines lib a (Suc (Suc n)) v ?s = (Ok v', ?s' 2 eof_statement None)"
    if "push_vector v joined_statement = Done v'" for v v' n
    using that by (simp add: parse_joined_line parse_joined_eof pbind_def plift_def preturn_def line_fields)
  have l: "parse_lines lib a 1140 v ?s = (Ok v', ?s' 2 eof_statement None)"
    if "push_vector v joined_statement = Done v'" for v v'
    using n [OF that, of 1138] by simp
  have "parser lib a (init_vector 6) (init_vector 6) ?s
    = (Ok (?tv, ?cv), ?s' 2 eof_statement None)"
    by (simp add: parser_def pbind_def plift_def pget_def f l [OF push_six(2)] init_six push_six elems_six get_six line_fields del: parse_lines.simps)
  then show ?thesis
    by (simp add: parse_source_def init_colour_source init_joined elems_six BPF_MAXINSNS_def)
qed

lemma escape_overflow:
  "assemble lib big a mode [Some colour_source, Some []] = Crash ''stack buffer overflow''"
proof -
  obtain tv cv L where p: "parse_source lib a [Some colour_source, Some []] = Done (tv, cv, L)"
    "vec_elems tv = [zero_statement, joined_statement]" "vec_elems cv = [0, 1]"
    using parse_colour_source by blast
  have "resolver L [zero_statement, joined_statement] [0, 1] = Crash ''stack buffer overflow''"
    by (simp add: resolver_def start_rstate_def Let_def resolve_statement_def joined_statement_def Resolver.assign_line_def assign_A_def
       report_if_def report_error_def put_report_def REPORT_BUF_def text_len_def tok_simps length_colour_source)
  with p show ?thesis by (simp add: assemble_def)
qed

end
