(* ===== verification/Fast_Eval.thy ===== *)
theory Fast_Eval
  imports Scanner
begin

text \<open>
  Equations that let the concrete runs of the development be evaluated inside the logic in
  reasonable time: the character at an index and \<open>memchr\<close>, in one pass over the list.
\<close>

fun skip16 :: "'a list \<Rightarrow> 'a list" where
  "skip16 (x0 # x1 # x2 # x3 # x4 # x5 # x6 # x7 # x8 # x9 # x10 # x11 # x12 # x13 # x14 # x15 # xs) = xs"
| "skip16 _ = []"

lemma skip16_drop: "skip16 xs = drop 16 xs"
  by (cases xs rule: skip16.cases) simp_all

fun skip8 :: "'a list \<Rightarrow> 'a list" where
  "skip8 (x0 # x1 # x2 # x3 # x4 # x5 # x6 # x7 # xs) = xs"
| "skip8 _ = []"

lemma skip8_drop: "skip8 xs = drop 8 xs"
  by (cases xs rule: skip8.cases) simp_all

fun skip4 :: "'a list \<Rightarrow> 'a list" where
  "skip4 (x0 # x1 # x2 # x3 # xs) = xs"
| "skip4 _ = []"

lemma skip4_drop: "skip4 xs = drop 4 xs"
  by (cases xs rule: skip4.cases) simp_all

fun skip2 :: "'a list \<Rightarrow> 'a list" where
  "skip2 (x0 # x1 # xs) = xs"
| "skip2 _ = []"

lemma skip2_drop: "skip2 xs = drop 2 xs"
  by (cases xs rule: skip2.cases) simp_all

text \<open>
  A natural number that is a sum is not computed by the evaluation until it is compared, and then each
  time; \<open>computed\<close> replaces it by its numeral.
\<close>

definition computed :: "nat \<Rightarrow> nat" where
  "computed n = n"

definition nat_literal :: "integer \<Rightarrow> nat" where
  "nat_literal k = nat_of_integer k"

lemma nat_literal_code [code]:
  "nat_literal 0 = 0"
  "nat_literal (Code_Numeral.Pos n) = numeral n"
  "nat_literal (Code_Numeral.Neg n) = 0"
  by (simp_all add: nat_literal_def Code_Numeral.Pos_def Code_Numeral.Neg_def)

lemma computed_code [code]: "computed n = nat_literal (integer_of_nat n)"
  by (simp add: computed_def nat_literal_def)

text \<open>\<open>drop\<close> in steps of 16 and powers of two below.\<close>

definition drop_small :: "nat \<Rightarrow> 'a list \<Rightarrow> 'a list" where
  "drop_small n xs =
     (let (n, xs) = (if 8 \<le> n then (n - 8, skip8 xs) else (n, xs));
          (n, xs) = (if 4 \<le> n then (n - 4, skip4 xs) else (n, xs));
          (n, xs) = (if 2 \<le> n then (n - 2, skip2 xs) else (n, xs))
      in if n = 0 then xs else tl xs)"

lemma drop_small_drop: "n < 16 \<Longrightarrow> drop_small n xs = drop n xs"
  by (auto simp: drop_small_def skip8_drop skip4_drop skip2_drop tl_drop drop_Suc less_Suc_eq_le le_Suc_eq numeral_eq_Suc)

function fast_drop :: "nat \<Rightarrow> 'a list \<Rightarrow> 'a list" where
  "fast_drop n xs =
     (case xs of [] \<Rightarrow> [] | _ \<Rightarrow> if 16 \<le> n then fast_drop (n - 16) (skip16 xs) else drop_small n xs)"
  by pat_completeness auto
termination by (relation "measure fst") auto

declare fast_drop.simps [simp del]

lemma drop_code [code]: "drop n xs = fast_drop n xs"
proof (induction n xs rule: fast_drop.induct)
  case (1 n xs)
  show ?case
  proof (cases xs)
    case (Cons y ys)
    show ?thesis
    proof (cases "16 \<le> n")
      case True
      with 1 Cons have "fast_drop (n - 16) (drop 16 xs) = drop (n - 16) (drop 16 xs)" by (simp add: skip16_drop)
      with True have "fast_drop (n - 16) (skip16 xs) = drop n xs" by (simp add: skip16_drop)
      with True Cons show ?thesis by (subst fast_drop.simps) simp
    next
      case False
      with Cons show ?thesis by (subst fast_drop.simps) (simp add: drop_small_drop)
    qed
  qed (simp add: fast_drop.simps)
qed

lemma take_code [code]:
  "take n xs = (case xs of [] \<Rightarrow> [] | y # ys \<Rightarrow> if n = 0 then [] else y # take (computed (n - 1)) ys)"
  by (cases n) (auto simp: computed_def split: list.splits)

lemma char_at_code [code]: "char_at s i = (case fast_drop i s of [] \<Rightarrow> CHR 0x00 | c # _ \<Rightarrow> c)"
proof (cases "i < length s")
  case True
  then show ?thesis by (simp add: drop_code [symmetric] Cons_nth_drop_Suc [symmetric])
qed (simp add: drop_code [symmetric])

fun find_from :: "char \<Rightarrow> nat \<Rightarrow> string \<Rightarrow> nat option" where
  "find_from c i [] = None"
| "find_from c i (x # xs) = (if x = c then Some i else find_from c (Suc i) xs)"

lemma find_from_code [code]:
  "find_from c i xs =
     (let n = length (takeWhile (\<lambda>x. x \<noteq> c) xs) in if n = length xs then None else Some (computed (i + n)))"
  unfolding computed_def
proof (induction c i xs rule: find_from.induct)
  case (2 c i x xs)
  then show ?case by (auto simp: Let_def)
qed simp

lemma memchr_code [code]:
  "memchr s c i n =
     (case find_from c i (slice s i n) of
        Some j \<Rightarrow> Some j
      | None \<Rightarrow> if c = CHR 0x00 \<and> n \<noteq> 0 \<and> length s < i + n then Some (max i (length s)) else None)"
proof (induction s c i n rule: memchr.induct)
  case (2 s c i n)
  show ?case
  proof (cases "i < length s")
    case True
    then have "slice s i (Suc n) = s ! i # slice s (Suc i) n" by (simp add: slice_def Cons_nth_drop_Suc [symmetric])
    with 2 True show ?thesis by (auto split: option.splits)
  next
    case False
    then have "slice s i (Suc n) = []" "slice s (Suc i) n = []" by (simp_all add: slice_def)
    with 2 False show ?thesis by (auto split: option.splits)
  qed
qed (simp add: slice_def)

text \<open>The tokens between two are a piece of the order of the tokens.\<close>

lemma token_order_numbers: "map tk_num token_order = [0..<length token_order]"
  by code_simp

lemma filter_numbers:
  assumes "map f xs = [0..<length xs]"
  shows "filter (\<lambda>t. a \<le> f t \<and> f t \<le> b) xs = take (Suc b - a) (drop a xs)"
proof -
  have f: "f (xs ! i) = i" if "i < length xs" for i
    using that arg_cong [OF assms, of "\<lambda>l. l ! i"] by simp
  have xs: "xs = map ((!) xs) [0..<length xs]" by (simp add: map_nth)
  have u: "filter (\<lambda>i. a \<le> i \<and> i \<le> b) [0..<n] = take (Suc b - a) [a..<n]" for n
    by (induction n) (auto simp: take_Cons' not_le le_Suc_eq)
  have "filter (\<lambda>t. a \<le> f t \<and> f t \<le> b) xs = map ((!) xs) (filter (\<lambda>i. a \<le> f (xs ! i) \<and> f (xs ! i) \<le> b) [0..<length xs])"
    by (subst xs) (simp add: filter_map comp_def)
  also have "filter (\<lambda>i. a \<le> f (xs ! i) \<and> f (xs ! i) \<le> b) [0..<length xs] = filter (\<lambda>i. a \<le> i \<and> i \<le> b) [0..<length xs]"
    using f by (intro filter_cong) auto
  also have "map ((!) xs) \<dots> = take (Suc b - a) (drop a xs)"
    unfolding u by (subst (2) xs) (simp add: take_map drop_map)
  finally show ?thesis .
qed

lemma token_range_code [code]:
  "token_range from to = take (Suc (tk_num to) - tk_num from) (drop (tk_num from) token_order)"
  unfolding token_range_def using filter_numbers [OF token_order_numbers, of "tk_num from" "tk_num to"]
  by (simp add: tk_between_num cong: filter_cong)

lemma strncmp_eq_code [code]:
  "strncmp_eq s t n =
     (if n = 0 then True
      else case t of [] \<Rightarrow> char_at s 0 = CHR 0x00
        | d # ds \<Rightarrow> (case s of [] \<Rightarrow> d = CHR 0x00
            | c # cs \<Rightarrow> c = d \<and> (c = CHR 0x00 \<or> strncmp_eq cs ds (computed (n - 1)))))"
  by (cases n; cases s; cases t) (auto simp: char_at_def computed_def)

text \<open>The loops of the scanner over a piece of the text.\<close>

lemma comment_end_code [code]: "comment_end s i = find_from CHR 0x0A i (drop i s)"
proof (induction s i rule: comment_end.induct)
  case (1 s i)
  show ?case
  proof (cases "i < length s")
    case True
    then have "drop i s = s ! i # drop (Suc i) s" by (simp add: Cons_nth_drop_Suc)
    with 1 True show ?thesis by (subst comment_end.simps) auto
  qed (simp add: comment_end.simps)
qed

lemma skip_spaces_code [code]:
  "skip_spaces s i = computed (i + length (takeWhile (\<lambda>c. isspace_l c \<and> c \<noteq> CHR 0x0A) (drop i s)))"
  unfolding computed_def
proof (induction s i rule: skip_spaces.induct)
  case (1 s i)
  show ?case
  proof (cases "i < length s")
    case True
    then have "drop i s = s ! i # drop (Suc i) s" by (simp add: Cons_nth_drop_Suc)
    with 1 True show ?thesis by (subst skip_spaces.simps) auto
  qed (simp add: skip_spaces.simps isspace_l_def)
qed

lemma skip_identifier_code [code]: "skip_identifier s i = computed (i + length (takeWhile isidentifier (drop i s)))"
  unfolding computed_def
proof (induction s i rule: skip_identifier.induct)
  case (1 s i)
  show ?case
  proof (cases "i < length s")
    case True
    then have "drop i s = s ! i # drop (Suc i) s" by (simp add: Cons_nth_drop_Suc)
    with 1 True show ?thesis by (subst skip_identifier.simps) auto
  qed (simp add: skip_identifier.simps isidentifier_def ctype_defs)
qed

text \<open>The positions the scanner and the reader keep.\<close>

lemma advance_code [code]: "advance n st = st\<lparr>scanner := (scanner st)\<lparr>current_char := computed (scur st + n)\<rparr>\<rparr>"
  by (simp add: advance_def computed_def)

lemma slice_code [code]: "slice s i n = take (computed n) (drop i s)"
  by (simp add: slice_def computed_def)

lemma process_lines_code [code]:
  "process_lines ft lf text_top s line_start nr =
     (case (if line_start + MAX_LINE_LEN \<le> text_top then memchr s lf line_start MAX_LINE_LEN
            else memchr s lf line_start (computed (text_top - line_start))) of
        None \<Rightarrow> if line_start + MAX_LINE_LEN \<le> text_top then Die M_FOUND_SUS_LINE else Done (s, line_start, nr)
      | Some lb \<Rightarrow>
          process_lines ft lf text_top
            (clear_color (fix_break ft s lb) line_start (computed (lb - line_start + 1))) (computed (lb + 1)) (computed (nr + 1)))"
  unfolding computed_def by (subst process_lines.simps) (auto split: option.splits)

lemma read_chunks_code [code]:
  "read_chunks [] st = Done (increase_map st)"
  "read_chunks (r # rs) st =
     (let st = increase_map st in
      case r of
        None \<Rightarrow> Die M_READ_FAIL
      | Some chunk \<Rightarrow>
          if map_len st < src_current st + GROW_LEN then Crash ''read behind the map''
          else
            (let st = st\<lparr>src_text := src_text st @ chunk, src_current := computed (src_current st + length chunk)\<rparr>
             in if MAX_FILE_LEN < src_current st then Die M_FILE_TOO_LARGE
                else if chunk = [] then Done st
                else read_chunks rs st))"
  unfolding computed_def by (rule read_chunks.simps)+

lemma skip_nuls_code [code]:
  "skip_nuls s n i = (if i < n \<and> char_at s i = CHR 0x00 then skip_nuls s n (computed (Suc i)) else computed i)"
  unfolding computed_def by (rule skip_nuls.simps)

end
