(* ===== verification/Sample.thy ===== *)
theory Sample
  imports Pipeline Fast_Eval
begin

text \<open>
  A source the theorems are applied to: four lines with a load, a conditional jump to a label
  and two returns, run through the parser and the resolver inside the logic, and a library that
  stands for libseccomp with one architecture.
\<close>

definition sample_lib :: scmp_lib where
  "sample_lib =
     \<lparr>scmp_arch_macro = (\<lambda>a. if a = ARCH_X86_64' then 0xC000003E else of_nat (arch_num a)),
      scmp_ver_2_6 = True,
      syscall_resolve_name_arch = (\<lambda>a s. if s = ''read'' then 0 else - 1),
      syscall_resolve_num_arch = (\<lambda>a n. if n = 0 then Some ''read'' else None)\<rparr>"

definition sample_source :: string where
  "sample_source =
     ''$A=$arch'' @ [CHR 0x0A] @ ''if($A!=3)goto k'' @ [CHR 0x0A] @ ''return ALLOW'' @ [CHR 0x0A]
     @ ''k:return KILL'' @ [CHR 0x0A]"

definition sample_reads :: "string option list" where
  "sample_reads = [Some sample_source, Some []]"

definition sample_obj :: "token_type \<Rightarrow> u32 \<Rightarrow> string \<Rightarrow> obj_t" where
  "sample_obj t d s = \<lparr>obj_type = t, obj_data = d, literal = Some s\<rparr>"

definition sample_line :: "line_t \<Rightarrow> string_t \<Rightarrow> u16 \<Rightarrow> string \<Rightarrow> statement_t" where
  "sample_line l d n t =
     \<lparr>line = l, label_decl = d, text_nr = n, code_nr = n, line_text = Some t, comment = - 1\<rparr>"

definition sample_text :: "statement_t list" where
  "sample_text =
     [zero_statement,
      sample_line (ASSIGN_LINE \<lparr>left_var = sample_obj Tk_A 0 ''$A'', operator = EQUAL,
        right_var = sample_obj ATTR_ARCH 0 ''$arch''\<rparr>) None 1 ''$A=$arch'',
      sample_line (JUMP_LINE \<lparr>if_bang = False, if_condition = True, cmptype = CMP_NUMBER,
        comparator = BANG_EQUAL, cmpobj = sample_obj NUMBER 3 ''3'',
        jt = \<lparr>key = Some ''k'', label_nr = 1\<rparr>, jf = \<lparr>key = None, label_nr = 0\<rparr>\<rparr>) None 2 ''if($A!=3)goto k'',
      sample_line (RETURN_LINE \<lparr>ret_obj = sample_obj ALLOW 0 ''ALLOW'', real_obj = zero_obj\<rparr>) None 3
        ''return ALLOW'',
      sample_line (RETURN_LINE \<lparr>ret_obj = sample_obj KILL 0 ''KILL'', real_obj = zero_obj\<rparr>) (Some ''k'') 4
        ''k:return KILL'']"

definition sample_labels :: str_table where "sample_labels = [(''k'', 4)]"

definition sample_ptrs :: "u32 list" where "sample_ptrs = [0, 1, 2, 3, 4]"

lemma sample_accepted: "accepted sample_lib 0xC000003E sample_reads sample_labels sample_ptrs sample_text"
  by code_simp

lemma sample_plain_shift: "\<forall>st \<in> set sample_text. plain_shift (line st)"
  by code_simp

definition sample_args :: "bool \<Rightarrow> emu_arg_t" where
  "sample_args q = \<lparr>ea_scmp_arch = 0xC000003E, ea_quiet = q, ea_sys_name = Some ''read'',
     ea_args = replicate 6 0, ea_ip = 0\<rparr>"

lemma sample_sysnr: "resolve_sysnr sample_lib (ea_scmp_arch (sample_args q)) (ea_sys_name (sample_args q)) = Done 0"
  by (simp add: resolve_sysnr_def sample_args_def sample_lib_def)

definition sample_color :: color_t where
  "sample_color = \<lparr>color_enable = False, enable_stack = []\<rparr>"

definition sample_data :: seccomp_data where
  "sample_data = \<lparr>sd_nr = 0, sd_arch = 3, sd_ip = 0, sd_args = replicate 6 0\<rparr>"

end
