(* ===== verification/Total_Facts.thy ===== *)
theory Total_Facts
  imports Emu_Total Escape_Overflow Sample
begin

text \<open>
  The whole of \<open>assemble\<close> and \<open>emulate\<close>: what every source without escape characters gives, and what a source with
  an unfinished colour can do.
\<close>

text \<open>
  C4: \<open>assemble\<close> never leaves its memory, whatever the bytes of the source, the library, the architecture and the
  format: on every source without escape characters, read in chunks that fit the map, the reader, the scanner, the
  parser, the resolver with its reports, the encoder and the printer of C macros all end in a result or in an error
  message. No accepted line is longer than \<open>MAX_LINE_LEN\<close>, so every report fits into its buffer.
\<close>

theorem assemble_total:
  assumes "\<And>c. Some c \<in> set reads \<Longrightarrow> length c \<le> GROW_LEN \<and> no_escape c"
  shows "assemble lib big a mode reads \<noteq> Crash m"
  using assms by (rule assemble_never_crashes)

theorem assemble_total_witness: "\<forall>m. assemble sample_lib False 0xC000003E C_MACRO sample_reads \<noteq> Crash m"
proof
  fix m
  show "assemble sample_lib False 0xC000003E C_MACRO sample_reads \<noteq> Crash m"
    by (rule assemble_total) (auto simp: sample_reads_def sample_source_def no_escape_def GROW_LEN_def)
qed

text \<open>
  C5: \<open>emulate\<close> never leaves its memory either: on every source without escape characters, for every name or number
  of a system call, all arguments and both modes of output, no read or write is outside of the registers, the memory,
  the data, the text or the code pointers, every line met is one that can be printed, the loop ends with a statement
  that returns or divides by zero, and the comments fit their buffers. Shifts by \<open>$X\<close> are included.
\<close>

theorem emulate_total:
  assumes "\<And>c. Some c \<in> set reads \<Longrightarrow> length c \<le> GROW_LEN \<and> no_escape c"
    and "length (ea_args ea) = 6" "length (enable_stack color) < 0x10"
  shows "emulate lib color ea reads \<noteq> Crash m"
  using assms by (rule emulate_never_crashes)

theorem emulate_total_witness: "\<forall>m. emulate sample_lib sample_color (sample_args False) sample_reads \<noteq> Crash m"
proof
  fix m
  show "emulate sample_lib sample_color (sample_args False) sample_reads \<noteq> Crash m"
    by (rule emulate_total)
      (auto simp: sample_reads_def sample_source_def no_escape_def GROW_LEN_def sample_args_def sample_color_def)
qed

text \<open>
  C34: The condition on escape characters is needed. Three colours that are not closed take the line breaks along with
  which they should end, although each of the four lines read is shorter than \<open>MAX_LINE_LEN\<close>: the scanner gets one
  line of 1137 bytes, a comment behind \<open>$A=$A\<close>, and the report of the error in it is written behind the end of the
  \<open>0x400\<close> bytes of \<open>report_error\<close>, with every library, architecture and format.
\<close>

theorem open_colour_overflows:
  "assemble lib big a mode [Some colour_source, Some []] = Crash ''stack buffer overflow''"
  by (rule escape_overflow)

end
