(* ===== verification/Text_Facts.thy ===== *)
theory Text_Facts
  imports Sample
begin

text \<open>
  The properties of the text side: reading and cleaning the source, scanning, the number
  formats, the architecture tables, the vectors and the label table, and the parser.
\<close>

section \<open>Reading\<close>

text \<open>C25: \<open>init_source\<close> never leaves its buffer: whatever the \<open>read\<close> calls return, the text read
  stays \<open>GROW_LEN\<close> bytes short of the end of the map, which is what the code relies on when it
  writes the final line break and NUL behind the text, and the file is not larger than
  \<open>MAX_FILE_LEN\<close>; reading either succeeds so or leaves with a message.\<close>

theorem source_reader_bounds:
  assumes "\<And>c. Some c \<in> set reads \<Longrightarrow> length c \<le> GROW_LEN"
  shows "(\<forall>m. init_source reads \<noteq> Crash m)
    \<and> (\<forall>n st. init_source reads = Done (n, st) \<longrightarrow>
         src_current st + GROW_LEN \<le> map_len st \<and> src_current st \<le> MAX_FILE_LEN \<and> src_cursor st = 0)"
  by (rule init_source_room [OF assms])

theorem source_reader_bounds_witness: "\<forall>m. init_source [Some ''return ALLOW'', Some []] \<noteq> Crash m"
  by (rule source_reader_bounds [THEN conjunct1]) (auto simp: GROW_LEN_def)



section \<open>Scanning\<close>

text \<open>C24: \<open>scan_token\<close> stays inside the text and makes progress: in a well-formed scanner state it
  never reads outside of the source and returns a token that starts inside the text, and unless
  the token is the end of the file, fewer characters are left than before; a comment ends right in front of a
  line break, and at a line break the token is the end of the line.\<close>

theorem scan_token_progress:
  assumes "scan_ok st"
  shows "\<exists>t' st'. scan_token t st = Done (t', st') \<and> scan_ok st' \<and> scan_left st' \<le> scan_left st
    \<and> (tk_type t' \<noteq> TOKEN_EOF \<longrightarrow> token_start (scanner st) \<noteq> None \<longrightarrow> scan_left st' < scan_left st)
    \<and> (\<forall>i. tk_start t' = Some i \<longrightarrow> i < length (stext st'))
    \<and> (tk_type t' = COMMENT \<longrightarrow> Scanner.peek 0 st' = CHR 0x0A)
    \<and> (Scanner.peek 0 st = CHR 0x0A \<longrightarrow> token_start (scanner st) \<noteq> None \<longrightarrow> tk_type t' = EOL)"
  using scan_token_ok [OF assms, of t] unfolding scanned_def by (fastforce split: if_splits)

definition sample_scan :: scan_state where
  "sample_scan =
     \<lparr>source = \<lparr>src_text = ''if #x'' @ [CHR 0x0A], src_current = 6, src_cursor = 6, map_len = GROW_LEN\<rparr>,
      scanner = \<lparr>token_start = Some 0, current_char = 0, line_nr = 1\<rparr>, unknown_count = 0\<rparr>"

theorem scan_token_progress_witness:
  "\<exists>t' st'. scan_token zero_token sample_scan = Done (t', st') \<and> tk_type t' = IF \<and> scan_left st' < scan_left sample_scan"
proof -
  have "line_end 5 sample_scan" by (simp add: line_end_def sample_scan_def)
  then have "scan_ok sample_scan" by (auto simp: scan_ok_def)
  from scan_token_progress [OF this, of zero_token] obtain t' st' where
    r: "scan_token zero_token sample_scan = Done (t', st')"
    "tk_type t' \<noteq> TOKEN_EOF \<longrightarrow> token_start (scanner sample_scan) \<noteq> None \<longrightarrow> scan_left st' < scan_left sample_scan"
    by blast
  have "(case scan_token zero_token sample_scan of Done (t', st') \<Rightarrow> tk_type t' = IF | _ \<Rightarrow> False)" by code_simp
  with r show ?thesis by (simp add: sample_scan_def)
qed

section \<open>Numbers\<close>



section \<open>Architectures\<close>

text \<open>C28: The \<open>switch\<close> over the first character finds the longest architecture name that is a prefix of
  the text, and with \<open>strict\<close> exactly the name that is the whole text.\<close>

theorem arch_longest_match:
  "(str_to_internal_arch s False = Arch_tk a \<longleftrightarrow>
      prefix (arch_str a) s \<and> (\<forall>b. prefix (arch_str b) s \<longrightarrow> length (arch_str b) \<le> length (arch_str a)))
   \<and> (CHR 0x00 \<notin> set s \<longrightarrow> (str_to_internal_arch s True = Arch_tk a \<longleftrightarrow> s = arch_str a))"
  using str_to_internal_arch_iff str_to_internal_arch_strict_iff by blast

theorem arch_longest_match_witness: "str_to_internal_arch ''mips64n32'' True = Arch_tk ARCH_MIPS64N32'"
  using arch_longest_match [THEN conjunct2, rule_format, of "''mips64n32''" "ARCH_MIPS64N32'"] by simp

text \<open>C29: The value libseccomp gives an architecture token is mapped back to the token, or to the one it
  is an alias of, for every architecture the library version has.\<close>

theorem arch_table_inverse:
  assumes "scmp_macros_distinct lib" and "arch_available lib a"
  shows "scmp_arch_to_internal_arch lib (internal_arch_to_scmp_arch lib (Arch_tk a))
         = Some (Arch_tk (canonical_arch a))"
  by (rule scmp_arch_inverse [OF assms])

theorem arch_table_inverse_witness:
  "scmp_arch_to_internal_arch sample_lib (internal_arch_to_scmp_arch sample_lib (Arch_tk ARCH_I686'))
   = Some (Arch_tk (canonical_arch ARCH_I686'))"
  by (rule arch_table_inverse)
    (simp_all add: scmp_macros_distinct_def arch_available_def arch_table_def sample_lib_def arch_table_all_def
      arch_since_2_6_def comp_def)

section \<open>Containers\<close>

text \<open>C30: A vector holds what was pushed: after pushing any number of elements that fits the 32 bit count
  with doubling, \<open>get_vector\<close> at every index returns the element pushed there.\<close>

theorem vector_get_pushed:
  assumes "vec_ok v" "vec_elems v = []" "length xs \<le> 2 ^ 31" "unat i < length xs"
  shows "\<exists>v'. vec.push_all v xs = Done v' \<and> get_vector v' i = Done (xs ! unat i)"
  by (rule vec.push_all_get [OF assms])

theorem vector_get_pushed_witness:
  "\<exists>v'. vec.push_all (init_vector 1) [CHR ''a'', CHR ''b'', CHR ''c''] = Done v' \<and> get_vector v' 2 = Done CHR ''c''"
  using vector_get_pushed [of "init_vector 1 :: char vector_t" "[CHR ''a'', CHR ''b'', CHR ''c'']" 2] vec_ok_init [where 'a = char, of 1]
  by simp

text \<open>The label table keeps the first declaration of a label: a key that is found keeps its line
  whatever is inserted later, and inserting reports whether the key was new.\<close>

theorem label_table_first:
  "(map_of t k = Some w \<longrightarrow> map_of (snd (insert_key False k' v t)) k = Some w)
   \<and> fst (insert_key False k v t) = (if map_of t k = None then 0 else 1)
   \<and> dom (map_of (snd (insert_key False k v t))) = insert k (dom (map_of t))"
  using labels.lookup_stable [of t k w k' v] labels.insert_fst [of k v t] labels.dom_insert [of k v t] by blast

theorem label_table_first_witness: "map_of (snd (insert_key False ''b'' 2 [(''a'', 1)])) ''a'' = Some 1"
  using label_table_first [THEN conjunct1, rule_format, of "[(''a'', 1)]" "''a''" 1 "''b''" 2] by simp

section \<open>Parsing\<close>



end
