(* ===== verification/Filter_Facts.thy ===== *)
theory Filter_Facts
  imports Sample
begin

text \<open>
  The properties of the filter side: the instruction tables, the bytes of a filter, and the
  check of a filter program.
\<close>

text \<open>The guard of the disassembler, a code above \<open>MAX_VALID_INSN\<close> or without an entry in
  \<open>insn_name_map\<close>, singles out exactly the codes of the table of valid instructions.\<close>

theorem insn_map_valid: "MAX_VALID_INSN < c \<or> insn_name_map c = Done 0 \<longleftrightarrow> \<not> valid_insn c"
  by (rule insn_name_map_valid)

text \<open>A filter written as bytes in an order is read back from them in that order, and
  \<open>reverse_endian\<close> gives the filter whose bytes are those of the other order and undoes itself.\<close>

theorem filter_bytes_roundtrip:
  "filter_of_bytes big (filter_bytes big f) = f
   \<and> filter_bytes big (reverse_endian f) = filter_bytes (\<not> big) f
   \<and> reverse_endian (reverse_endian f) = f"
  by (simp add: filter_of_filter_bytes filter_bytes_reverse) (simp add: reverse_endian_def)

end
