(* ===== verification/Bitmap.thy ===== *)
theory Bitmap
  imports Prelude
begin

unbundle bit_operations_syntax

text \<open>
  The bit map of \<open>src/utils/bpf_trans.c\<close>: which instructions are deleted, 32 in a word. A shift
  by 32 or more and an access outside of the array are \<open>Crash\<close>. The interface is the set of
  the bits, with \<open>mark\<close> and \<open>count\<close> as the operations the translation uses.
\<close>

section \<open>The code\<close>

type_synonym bitmap = "u32 list"

abbreviation (input) U32BITS :: nat where "U32BITS \<equiv> 32"

definition read_word :: "bitmap \<Rightarrow> nat \<Rightarrow> u32 cres" where
  "read_word b i = (if i < length b then Done (b ! i) else Crash ''read outside bitmap'')"

definition or_word :: "nat \<Rightarrow> u32 \<Rightarrow> bitmap \<Rightarrow> bitmap cres" where
  "or_word i w b =
     (if i < length b then Done (b[i := b ! i OR w]) else Crash ''write outside bitmap'')"

definition shl :: "u32 \<Rightarrow> nat \<Rightarrow> u32 cres" where
  "shl w n = (if n < 32 then Done (push_bit n w) else Crash ''shift out of range'')"

definition setbits :: "nat \<Rightarrow> nat \<Rightarrow> bitmap \<Rightarrow> bitmap cres" where
  "setbits fromidx count b =
     (if count = 0 then Done b
      else
        let mapidx = fromidx div U32BITS; frombit = fromidx mod U32BITS in
        if mapidx \<noteq> (fromidx + count) div U32BITS then
          cbind (shl (- 1) frombit) (\<lambda>w.
          cbind (or_word mapidx w b) (\<lambda>b.
          cbind (shl 1 ((fromidx + count) mod U32BITS)) (\<lambda>w.
          or_word (mapidx + 1) (w - 1) b)))
        else
          cbind (shl 1 count) (\<lambda>w.
          cbind (shl (w - 1) frombit) (\<lambda>w. or_word mapidx w b)))"

definition popcount :: "u32 \<Rightarrow> nat" where
  "popcount w = length (filter (bit w) [0..<32])"

text \<open>The words between the first and the last.\<close>

fun sum_words :: "nat \<Rightarrow> nat \<Rightarrow> bitmap \<Rightarrow> nat cres" where
  "sum_words idx 0 b = Done 0"
| "sum_words idx (Suc n) b =
     cbind (read_word b idx) (\<lambda>w. cbind (sum_words (Suc idx) n b) (\<lambda>s. Done (popcount w + s)))"

definition countbits :: "nat \<Rightarrow> nat \<Rightarrow> bitmap \<Rightarrow> nat cres" where
  "countbits from to b =
     (let startidx = from div U32BITS; startbit = from mod U32BITS;
          endidx = to div U32BITS; endbit = to mod U32BITS
      in if startidx = endidx then
           (if endbit < startbit then Crash ''negative shift''
            else
              cbind (shl 1 (endbit - startbit)) (\<lambda>w.
              cbind (shl (w - 1) startbit) (\<lambda>bitmask.
              cbind (read_word b startidx) (\<lambda>v. Done (popcount (v AND bitmask))))))
         else
           cbind (shl (- 1) startbit) (\<lambda>bitmask.
           cbind (read_word b startidx) (\<lambda>v.
           cbind (shl 1 endbit) (\<lambda>w.
           cbind (read_word b endidx) (\<lambda>v'.
           cbind (sum_words (startidx + 1) (endidx - (startidx + 1)) b) (\<lambda>s.
           Done (popcount (v AND bitmask) + popcount (v' AND (w - 1)) + s)))))))"

definition clear_bit :: "nat \<Rightarrow> bitmap \<Rightarrow> bitmap cres" where
  "clear_bit i b =
     (if i div U32BITS < length b
      then Done (b[i div U32BITS := b ! (i div U32BITS) AND NOT (push_bit (i mod U32BITS) 1)])
      else Crash ''write outside bitmap'')"

section \<open>The interface\<close>

locale index_set =
  fixes mark :: "nat \<Rightarrow> nat \<Rightarrow> 'm \<Rightarrow> 'm cres"
    and count_in :: "nat \<Rightarrow> nat \<Rightarrow> 'm \<Rightarrow> nat cres"
    and unmark :: "nat \<Rightarrow> 'm \<Rightarrow> 'm cres"
    and members :: "'m \<Rightarrow> nat set"
    and bound :: "'m \<Rightarrow> nat"
    and width :: nat
  assumes mark_ok: "n < width \<Longrightarrow> i + n < bound m \<Longrightarrow>
      \<exists>m'. mark i n m = Done m' \<and> members m' = members m \<union> {i..<i + n} \<and> bound m' = bound m"
    and count_ok: "i \<le> j \<Longrightarrow> j < bound m \<Longrightarrow> count_in i j m = Done (card (members m \<inter> {i..<j}))"
    and unmark_ok: "i < bound m \<Longrightarrow>
      \<exists>m'. unmark i m = Done m' \<and> members m' = members m - {i} \<and> bound m' = bound m"
begin

text \<open>Adjacent ranges add up, and a range that was just marked counts in full.\<close>

lemma count_split:
  assumes "i \<le> j" "j \<le> k" "k < bound m" "count_in i j m = Done x" "count_in j k m = Done y"
  shows "count_in i k m = Done (x + y)"
proof -
  have "members m \<inter> {i..<k} = (members m \<inter> {i..<j}) \<union> (members m \<inter> {j..<k})" using assms by auto
  moreover have "(members m \<inter> {i..<j}) \<inter> (members m \<inter> {j..<k}) = {}" by auto
  ultimately have "card (members m \<inter> {i..<k}) = card (members m \<inter> {i..<j}) + card (members m \<inter> {j..<k})"
    by (simp add: card_Un_disjoint)
  with assms show ?thesis by (simp add: count_ok)
qed

lemma count_bound:
  assumes "i \<le> j" "j < bound m" shows "\<exists>n \<le> j - i. count_in i j m = Done n"
proof -
  have "card (members m \<inter> {i..<j}) \<le> card {i..<j}" by (intro card_mono) auto
  with assms show ?thesis by (simp add: count_ok)
qed

lemma mark_count:
  assumes "n < width" "i + n < bound m" "mark i n m = Done m'"
  shows "count_in i (i + n) m' = Done n"
proof -
  from mark_ok [OF assms(1,2)] assms(3) have "members m' = members m \<union> {i..<i + n}" "bound m' = bound m" by auto
  moreover from this have "members m' \<inter> {i..<i + n} = {i..<i + n}" by auto
  ultimately show ?thesis using assms(2) by (simp add: count_ok)
qed

end

section \<open>The bit map provides it\<close>

definition bits_of :: "bitmap \<Rightarrow> nat set" where
  "bits_of b = {i. i div 32 < length b \<and> bit (b ! (i div 32)) (i mod 32)}"

lemma bits_of_or:
  assumes "k < length b"
  shows "bits_of (b[k := b ! k OR w]) = bits_of b \<union> {i. i div 32 = k \<and> bit w (i mod 32)}"
  using assms by (auto simp: bits_of_def nth_list_update bit_simps)

lemma bit_ones_upto: "bit (push_bit f (push_bit n 1 - 1) :: u32) i \<longleftrightarrow> i < 32 \<and> f \<le> i \<and> i < f + n"
  if "n < 32"
proof -
  have "(push_bit n 1 - 1 :: u32) = mask n" by (simp add: mask_eq_exp_minus_1 push_bit_eq_mult)
  then show ?thesis by (auto simp: bit_simps)
qed

text \<open>Index arithmetic, with the quotient and the remainder as variables.\<close>

lemma index_cases:
  fixes i :: nat
  obtains p s where "i = 32 * p + s" "s < 32" "i div 32 = p" "i mod 32 = s"
proof -
  have "i = 32 * (i div 32) + i mod 32" by simp
  moreover have "i mod 32 < 32" by simp
  ultimately show thesis using that by blast
qed

lemma range_in_word:
  fixes p q r s n :: nat
  assumes "s < 32" "r + n < 32"
  shows "p = q \<and> r \<le> s \<and> s < r + n \<longleftrightarrow> 32 * q + r \<le> 32 * p + s \<and> 32 * p + s < 32 * q + r + n"
proof -
  consider "p < q" | "p = q" | "q < p" by linarith
  then show ?thesis using assms by cases auto
qed

lemma range_in_words:
  fixes p q r s n :: nat
  assumes "s < 32" "r < 32" "n < 32" "32 \<le> r + n"
  shows "p = q \<and> r \<le> s \<or> p = q + 1 \<and> s < r + n - 32 \<longleftrightarrow> 32 * q + r \<le> 32 * p + s \<and> 32 * p + s < 32 * q + r + n"
proof -
  consider "p < q" | "p = q" | "p = q + 1" | "q + 1 < p" by linarith
  then show ?thesis using assms by cases auto
qed

lemma end_of_range:
  fixes f n :: nat
  assumes "n < 32"
  shows "f div 32 = (f + n) div 32 \<longleftrightarrow> f mod 32 + n < 32"
    and "32 \<le> f mod 32 + n \<Longrightarrow> (f + n) div 32 = f div 32 + 1 \<and> (f + n) mod 32 = f mod 32 + n - 32"
proof -
  obtain q r where f: "f = 32 * q + r" "r < 32" "f div 32 = q" "f mod 32 = r" by (rule index_cases)
  have small: "r + n < 32 \<Longrightarrow> (f + n) div 32 = q" using f(1) by (simp add: div_nat_eqI)
  have big: "(f + n) div 32 = q + 1 \<and> (f + n) mod 32 = r + n - 32" if "32 \<le> r + n"
  proof -
    have "f + n = 32 * (q + 1) + (r + n - 32)" "r + n - 32 < 32" using f that assms by simp_all
    then show ?thesis by (metis div_mult_self4 div_less mod_mult_self4 mod_less add_0_right zero_neq_numeral mult.commute)
  qed
  show "f div 32 = (f + n) div 32 \<longleftrightarrow> f mod 32 + n < 32"
    using small big f by (cases "r + n < 32") auto
  show "32 \<le> f mod 32 + n \<Longrightarrow> (f + n) div 32 = f div 32 + 1 \<and> (f + n) mod 32 = f mod 32 + n - 32"
    using big f by simp
qed

lemma div_mod_range:
  fixes i f n :: nat
  assumes "f div 32 = (f + n) div 32" "n < 32"
  shows "i div 32 = f div 32 \<and> f mod 32 \<le> i mod 32 \<and> i mod 32 < f mod 32 + n \<longleftrightarrow> f \<le> i \<and> i < f + n"
proof -
  obtain q r where f: "f = 32 * q + r" "r < 32" "f div 32 = q" "f mod 32 = r" by (rule index_cases)
  obtain p s where i: "i = 32 * p + s" "s < 32" "i div 32 = p" "i mod 32 = s" by (rule index_cases)
  have "r + n < 32" using assms end_of_range(1) [of n f] f by simp
  from range_in_word [OF i(2) this, of p q] show ?thesis using f i by simp
qed

lemma div_mod_split:
  fixes i f n :: nat
  assumes "f div 32 \<noteq> (f + n) div 32" "n < 32"
  shows "i div 32 = f div 32 \<and> f mod 32 \<le> i mod 32 \<or> i div 32 = f div 32 + 1 \<and> i mod 32 < (f + n) mod 32
    \<longleftrightarrow> f \<le> i \<and> i < f + n"
proof -
  obtain q r where f: "f = 32 * q + r" "r < 32" "f div 32 = q" "f mod 32 = r" by (rule index_cases)
  obtain p s where i: "i = 32 * p + s" "s < 32" "i div 32 = p" "i mod 32 = s" by (rule index_cases)
  have b: "32 \<le> r + n" using assms end_of_range(1) [of n f] f by simp
  have e: "(f + n) mod 32 = r + n - 32" using end_of_range(2) [OF assms(2), of f] b f by simp
  from range_in_words [OF i(2) f(2) assms(2) b, of p q] show ?thesis using f i e by simp
qed

lemma range_of_words:
  fixes i j k :: nat
  assumes "i div 32 < j div 32"
  shows "k div 32 = i div 32 \<and> i mod 32 \<le> k mod 32 \<or> k div 32 = j div 32 \<and> k mod 32 < j mod 32
    \<or> i div 32 < k div 32 \<and> k div 32 < j div 32 \<longleftrightarrow> i \<le> k \<and> k < j"
proof -
  obtain q r where f: "i = 32 * q + r" "r < 32" "i div 32 = q" "i mod 32 = r" by (rule index_cases)
  obtain p s where g: "j = 32 * p + s" "s < 32" "j div 32 = p" "j mod 32 = s" by (rule index_cases)
  obtain u v where h: "k = 32 * u + v" "v < 32" "k div 32 = u" "k mod 32 = v" by (rule index_cases)
  have "q < p" using assms f g by simp
  have "u = q \<and> r \<le> v \<or> u = p \<and> v < s \<or> q < u \<and> u < p \<longleftrightarrow> 32 * q + r \<le> 32 * u + v \<and> 32 * u + v < 32 * p + s"
  proof -
    consider "u < q" | "u = q" | "q < u" "u < p" | "u = p" | "p < u" by linarith
    then show ?thesis using \<open>q < p\<close> f(2) g(2) h(2) by cases auto
  qed
  then show ?thesis unfolding f(3,4) g(3,4) h(3,4) by (simp only: f(1) [symmetric] g(1) [symmetric] h(1) [symmetric])
qed

lemma bit_all_from: "bit (push_bit f (- 1) :: u32) i \<longleftrightarrow> f \<le> i \<and> i < 32"
  by (auto simp: bit_simps)

lemma bit_ones: "n < 32 \<Longrightarrow> bit (push_bit n 1 - 1 :: u32) i \<longleftrightarrow> i < n"
  using bit_ones_upto [of n 0 i] by auto

lemma word_range_set:
  assumes "f div 32 = (f + n) div 32" "n < 32"
  shows "{i. i div 32 = f div 32 \<and> bit (push_bit (f mod 32) (push_bit n 1 - 1) :: u32) (i mod 32)} = {f..<f + n}"
proof (rule set_eqI)
  fix i :: nat
  have "i mod 32 < 32" by simp
  then show "i \<in> {i. i div 32 = f div 32 \<and> bit (push_bit (f mod 32) (push_bit n 1 - 1) :: u32) (i mod 32)} \<longleftrightarrow> i \<in> {f..<f + n}"
    unfolding mem_Collect_eq bit_ones_upto [OF assms(2)] atLeastLessThan_iff div_mod_range [OF assms, symmetric] by blast
qed

lemma setbits_ok:
  assumes n: "n < 32" and len: "f + n < 32 * length b"
  shows "\<exists>b'. setbits f n b = Done b' \<and> bits_of b' = bits_of b \<union> {f..<f + n} \<and> length b' = length b"
proof -
  have l: "f div 32 < length b" "(f + n) div 32 < length b" using len by linarith+
  consider "n = 0" | "n \<noteq> 0" "f div 32 = (f + n) div 32" | "n \<noteq> 0" "f div 32 \<noteq> (f + n) div 32" by blast
  then show ?thesis
  proof cases
    case 2
    then have "setbits f n b = Done (b[f div 32 := b ! (f div 32) OR push_bit (f mod 32) (push_bit n 1 - 1)])"
      using n l by (simp add: setbits_def Let_def shl_def or_word_def)
    then show ?thesis using bits_of_or [OF l(1)] word_range_set [OF 2(2) n] by simp
  next
    case 3
    have k: "f div 32 + 1 < length b"
      using l(2) 3 end_of_range [OF n, of f] by (cases "32 \<le> f mod 32 + n") simp_all
    let ?b1 = "b[f div 32 := b ! (f div 32) OR push_bit (f mod 32) (- 1)]"
    have "setbits f n b = Done (?b1[f div 32 + 1 := ?b1 ! (f div 32 + 1) OR (push_bit ((f + n) mod 32) 1 - 1)])"
      using 3 n l(1) k by (simp add: setbits_def Let_def shl_def or_word_def)
    moreover have "bits_of (?b1[f div 32 + 1 := ?b1 ! (f div 32 + 1) OR (push_bit ((f + n) mod 32) 1 - 1)])
      = bits_of b \<union> {i. i div 32 = f div 32 \<and> f mod 32 \<le> i mod 32} \<union> {i. i div 32 = f div 32 + 1 \<and> i mod 32 < (f + n) mod 32}"
    proof -
      have k': "f div 32 + 1 < length ?b1" using k by simp
      have m: "i mod 32 < 32" "(f + n) mod 32 < 32" for i :: nat by simp_all
      show ?thesis unfolding bits_of_or [OF k'] bits_of_or [OF l(1)] bit_all_from bit_ones [OF m(2)] using m(1) by blast
    qed
    moreover have "{i. i div 32 = f div 32 \<and> f mod 32 \<le> i mod 32} \<union> {i. i div 32 = f div 32 + 1 \<and> i mod 32 < (f + n) mod 32} = {f..<f + n}"
      by (rule set_eqI) (simp only: Un_iff mem_Collect_eq atLeastLessThan_iff div_mod_split [OF 3(2) n])
    ultimately show ?thesis by (simp add: Un_assoc)
  qed (simp add: setbits_def)
qed

text \<open>The bits of one word, shifted to their place.\<close>

lemma popcount_card: "popcount w = card {i. i < 32 \<and> bit w i}"
proof -
  have "card (set (filter (bit w) [0..<32])) = length (filter (bit w) [0..<32])"
    by (intro distinct_card) simp
  moreover have "set (filter (bit w) [0..<32]) = {i. i < 32 \<and> bit w i}" by auto
  ultimately show ?thesis unfolding popcount_def by simp
qed

lemma popcount_word:
  assumes "k < length b"
  shows "popcount (b ! k AND w) = card (bits_of b \<inter> {i. i div 32 = k \<and> bit w (i mod 32)})"
proof -
  have "bits_of b \<inter> {i. i div 32 = k \<and> bit w (i mod 32)} = (\<lambda>i. 32 * k + i) ` {i. i < 32 \<and> bit (b ! k AND w) i}"
    (is "?L = ?R")
  proof
    show "?L \<subseteq> ?R"
    proof
      fix i assume i: "i \<in> ?L"
      then have "i = 32 * k + i mod 32" by auto
      moreover have "i mod 32 < 32 \<and> bit (b ! k AND w) (i mod 32)" using i by (auto simp: bits_of_def bit_simps)
      ultimately show "i \<in> ?R" by blast
    qed
    show "?R \<subseteq> ?L" using assms by (auto simp: bits_of_def bit_simps)
  qed
  moreover have "inj_on (\<lambda>i. 32 * k + i) S" for S :: "nat set" by (simp add: inj_on_def)
  ultimately show ?thesis by (simp add: popcount_card card_image)
qed

lemma sum_words_card:
  "idx + n \<le> length b \<Longrightarrow> sum_words idx n b = Done (card (bits_of b \<inter> {i. idx \<le> i div 32 \<and> i div 32 < idx + n}))"
proof (induction n arbitrary: idx)
  case (Suc n)
  have "bits_of b \<inter> {i. idx \<le> i div 32 \<and> i div 32 < idx + Suc n} =
      (bits_of b \<inter> {i. i div 32 = idx \<and> bit (- 1 :: u32) (i mod 32)})
      \<union> (bits_of b \<inter> {i. Suc idx \<le> i div 32 \<and> i div 32 < Suc idx + n})" (is "_ = ?A \<union> ?B")
    by auto
  moreover have "finite ?A" "finite ?B"
  proof -
    have "{i. i div 32 = idx} \<subseteq> {..<32 * Suc idx}" "{i. i div 32 < Suc idx + n} \<subseteq> {..<32 * (Suc idx + n)}" by auto
    then show "finite ?A" "finite ?B" by (auto intro: finite_subset)
  qed
  moreover have "?A \<inter> ?B = {}" by auto
  ultimately have c: "card (bits_of b \<inter> {i. idx \<le> i div 32 \<and> i div 32 < idx + Suc n}) = card ?A + card ?B"
    by (simp add: card_Un_disjoint)
  have "popcount (b ! idx) = card ?A" using popcount_word [of idx b "- 1"] Suc.prems by simp
  with Suc.IH [of "Suc idx"] Suc.prems c show ?case by (simp add: read_word_def)
next
  case 0
  have "bits_of b \<inter> {i. idx \<le> i div 32 \<and> i div 32 < idx + 0} = {}" by auto
  then show ?case by simp
qed

lemma countbits_ok:
  assumes ij: "i \<le> j" and len: "j < 32 * length b"
  shows "countbits i j b = Done (card (bits_of b \<inter> {i..<j}))"
proof -
  have l: "i div 32 < length b" "j div 32 < length b" "i div 32 \<le> j div 32"
    using ij len by (linarith, linarith, simp add: div_le_mono)
  show ?thesis
  proof (cases "i div 32 = j div 32")
    case True
    have m: "i mod 32 \<le> j mod 32" "j mod 32 - i mod 32 < 32" "i + (j mod 32 - i mod 32) = j"
    proof -
      obtain q r where f: "i = 32 * q + r" "r < 32" "i div 32 = q" "i mod 32 = r" by (rule index_cases)
      obtain p s where g: "j = 32 * p + s" "s < 32" "j div 32 = p" "j mod 32 = s" by (rule index_cases)
      have "p = q" using True f(3) g(3) by simp
      then have "r \<le> s" "s - r < 32" "i + (s - r) = j" using f(1) g(1,2) ij by simp_all
      then show "i mod 32 \<le> j mod 32" "j mod 32 - i mod 32 < 32" "i + (j mod 32 - i mod 32) = j"
        unfolding f(4) g(4) .
    qed
    have "{k. k div 32 = i div 32 \<and> bit (push_bit (i mod 32) (push_bit (j mod 32 - i mod 32) 1 - 1) :: u32) (k mod 32)} = {i..<j}"
      using word_range_set [of i "j mod 32 - i mod 32"] m True by simp
    with popcount_word [OF l(1), of "push_bit (i mod 32) (push_bit (j mod 32 - i mod 32) 1 - 1)"]
    show ?thesis using True m l by (simp add: countbits_def Let_def shl_def read_word_def)
  next
    case False
    let ?A = "bits_of b \<inter> {k. k div 32 = i div 32 \<and> bit (push_bit (i mod 32) (- 1) :: u32) (k mod 32)}"
    let ?B = "bits_of b \<inter> {k. k div 32 = j div 32 \<and> bit (push_bit (j mod 32) 1 - 1 :: u32) (k mod 32)}"
    let ?n = "j div 32 - (i div 32 + 1)"
    let ?C = "bits_of b \<inter> {k. i div 32 + 1 \<le> k div 32 \<and> k div 32 < i div 32 + 1 + ?n}"
    have n: "i div 32 + 1 + ?n = j div 32" using False l(3) by simp
    have s: "sum_words (i div 32 + 1) ?n b = Done (card ?C)" by (rule sum_words_card) (use n l in simp)
    have fin: "finite ?A" "finite ?B" "finite ?C"
      by (rule finite_subset [of _ "{..<32 * length b}"], auto simp: bits_of_def)+
    have dis: "?A \<inter> ?B = {}" "(?A \<union> ?B) \<inter> ?C = {}"
    proof -
      have ne: "\<And>x y :: nat. x + 1 \<le> y \<Longrightarrow> y \<noteq> x" "\<And>x y :: nat. y < x \<Longrightarrow> y \<noteq> x" by simp_all
      have sep: "\<And>x y z :: nat. y \<noteq> z \<Longrightarrow> x = y \<Longrightarrow> x \<noteq> z" by simp
      show "?A \<inter> ?B = {}" using sep [OF False] by blast
      show "(?A \<union> ?B) \<inter> ?C = {}" unfolding n using ne by blast
    qed
    have m: "i mod 32 < 32" "j mod 32 < 32" by simp_all
    have u: "?A \<union> ?B \<union> ?C = bits_of b \<inter> {i..<j}"
    proof -
      have mk: "k mod 32 < 32" for k :: nat by simp
      have lt: "i div 32 < j div 32" using False l(3) by simp
      have C: "?C = bits_of b \<inter> {k. i div 32 < k div 32 \<and> k div 32 < j div 32}"
        unfolding n by (simp add: Suc_le_eq)
      have "?A \<union> ?B \<union> ?C = bits_of b \<inter> {k. i \<le> k \<and> k < j}"
        unfolding C bit_all_from bit_ones [OF m(2)] range_of_words [OF lt, symmetric] using mk by blast
      then show ?thesis by (simp only: atLeastLessThan_def atLeast_def lessThan_def Collect_conj_eq [symmetric])
    qed
    have "countbits i j b = Done (card ?A + card ?B + card ?C)"
      using False s l popcount_word [OF l(1)] popcount_word [OF l(2)]
      by (simp add: countbits_def Let_def shl_def read_word_def)
    also have "card ?A + card ?B + card ?C = card (?A \<union> ?B \<union> ?C)"
      using fin dis by (simp add: card_Un_disjoint)
    finally show ?thesis unfolding u .
  qed
qed

lemma clear_bit_ok:
  assumes "i < 32 * length b"
  shows "\<exists>b'. clear_bit i b = Done b' \<and> bits_of b' = bits_of b - {i} \<and> length b' = length b"
proof -
  have l: "i div 32 < length b" using assms by linarith
  have "bits_of (b[i div 32 := b ! (i div 32) AND NOT (push_bit (i mod 32) 1)]) = bits_of b - {i}"
  proof (rule set_eqI)
    fix k
    have "k = i \<longleftrightarrow> k div 32 = i div 32 \<and> k mod 32 = i mod 32" by (metis div_mult_mod_eq)
    then show "k \<in> bits_of (b[i div 32 := b ! (i div 32) AND NOT (push_bit (i mod 32) 1)]) \<longleftrightarrow> k \<in> bits_of b - {i}"
      using l by (auto simp: bits_of_def nth_list_update bit_simps)
  qed
  with l show ?thesis by (simp add: clear_bit_def)
qed

interpretation holes: index_set setbits countbits clear_bit bits_of "\<lambda>b. 32 * length b" 32
  using setbits_ok countbits_ok clear_bit_ok by unfold_locales auto

end
