(* ===== verification/Bpf_Trans.thy ===== *)
theory Bpf_Trans
  imports Bitmap Bpf Messages "HOL-Library.Signed_Division"
begin

text \<open>
  \<open>src/utils/bpf_trans.c\<close>: the eBPF instructions the kernel makes of a seccomp filter, back to
  classic filters, in four passes. The arrays are \<open>trans\<close>: the instructions (with the room
  \<open>read_insns\<close> leaves behind them), the flags, the bit map and the filter buffer. Pointers are
  indices, an access outside of an array is \<open>Crash\<close>, and a failed \<open>ASSERT_JMP\<close> is \<open>Assert\<close> with
  its line in the file, which \<open>ebpf2cbpf\<close> catches.
\<close>

section \<open>Instructions and flags\<close>

record ebpf_insn =
  bi_code :: u8
  bi_dst :: "4 word"
  bi_src :: "4 word"
  bi_off :: u16
  bi_imm :: u32

definition zero_insn :: ebpf_insn where
  "zero_insn = \<lparr>bi_code = 0, bi_dst = 0, bi_src = 0, bi_off = 0, bi_imm = 0\<rparr>"

abbreviation (input) REG_A :: "4 word" where "REG_A \<equiv> 0"
abbreviation (input) REG_TMP :: "4 word" where "REG_TMP \<equiv> 2"
abbreviation (input) REG_CTX :: "4 word" where "REG_CTX \<equiv> 6"
abbreviation (input) REG_X :: "4 word" where "REG_X \<equiv> 7"
abbreviation (input) REG_FP :: "4 word" where "REG_FP \<equiv> 10"
abbreviation (input) REG_AX :: "4 word" where "REG_AX \<equiv> 11"

text \<open>Classes, operations and sources of eBPF codes.\<close>

definition E_CLASS :: "u8 \<Rightarrow> u8" where "E_CLASS c = c AND 0x07"
definition E_OP :: "u8 \<Rightarrow> u8" where "E_OP c = c AND 0xf0"
definition E_SRC :: "u8 \<Rightarrow> u8" where "E_SRC c = c AND 0x08"

abbreviation (input) E_LDX :: u8 where "E_LDX \<equiv> 0x01"
abbreviation (input) E_STX :: u8 where "E_STX \<equiv> 0x03"
abbreviation (input) E_ALU :: u8 where "E_ALU \<equiv> 0x04"
abbreviation (input) E_JMP :: u8 where "E_JMP \<equiv> 0x05"
abbreviation (input) E_JMP32 :: u8 where "E_JMP32 \<equiv> 0x06"
abbreviation (input) E_ALU64 :: u8 where "E_ALU64 \<equiv> 0x07"
abbreviation (input) E_X :: u8 where "E_X \<equiv> 0x08"
abbreviation (input) E_XOR :: u8 where "E_XOR \<equiv> 0xa0"
abbreviation (input) E_MOV :: u8 where "E_MOV \<equiv> 0xb0"
abbreviation (input) E_JA :: u8 where "E_JA \<equiv> 0x00"
abbreviation (input) E_JEQ :: u8 where "E_JEQ \<equiv> 0x10"
abbreviation (input) E_JGT :: u8 where "E_JGT \<equiv> 0x20"
abbreviation (input) E_JGE :: u8 where "E_JGE \<equiv> 0x30"
abbreviation (input) E_JSET :: u8 where "E_JSET \<equiv> 0x40"
abbreviation (input) E_JNE :: u8 where "E_JNE \<equiv> 0x50"
abbreviation (input) E_EXIT :: u8 where "E_EXIT \<equiv> 0x90"
abbreviation (input) E_JLT :: u8 where "E_JLT \<equiv> 0xa0"
abbreviation (input) E_JLE :: u8 where "E_JLE \<equiv> 0xb0"

text \<open>\<open>reverse_ebpf_endian\<close>.\<close>

definition reverse_ebpf_endian :: "ebpf_insn \<Rightarrow> ebpf_insn" where
  "reverse_ebpf_endian f =
     f\<lparr>bi_off := bswap_16 (bi_off f), bi_imm := bswap_32 (bi_imm f), bi_dst := bi_src f, bi_src := bi_dst f\<rparr>"

record insn_flag =
  fl_fold :: "3 word"
  fl_targeted :: bool

record trans =
  t_insns :: "ebpf_insn list"
  t_flags :: "insn_flag list"
  t_bitmap :: bitmap
  t_buf :: "sock_filter list"

section \<open>Outcomes\<close>

datatype 'a tres = Val 'a | Assert nat | Bad string

primrec tbind :: "'a tres \<Rightarrow> ('a \<Rightarrow> 'b tres) \<Rightarrow> 'b tres" where
  "tbind (Val x) f = f x"
| "tbind (Assert l) f = Assert l"
| "tbind (Bad m) f = Bad m"

definition assert_jmp :: "nat \<Rightarrow> bool \<Rightarrow> 'a tres \<Rightarrow> 'a tres" where
  "assert_jmp l c r = (if c then r else Assert l)"

text \<open>The outcomes of the bit map operations.\<close>

definition lift :: "'a cres \<Rightarrow> 'a tres" where
  "lift r = (case r of Done x \<Rightarrow> Val x | Die m \<Rightarrow> Bad m | Crash m \<Rightarrow> Bad m)"

definition insn_at :: "int \<Rightarrow> trans \<Rightarrow> ebpf_insn tres" where
  "insn_at i st =
     (if 0 \<le> i \<and> nat i < length (t_insns st) then Val (t_insns st ! nat i) else Bad ''read outside ebpfs'')"

definition put_insn :: "int \<Rightarrow> ebpf_insn \<Rightarrow> trans \<Rightarrow> trans tres" where
  "put_insn i x st =
     (if 0 \<le> i \<and> nat i < length (t_insns st) then Val (st\<lparr>t_insns := (t_insns st)[nat i := x]\<rparr>)
      else Bad ''write outside ebpfs'')"

definition flag_at :: "int \<Rightarrow> trans \<Rightarrow> insn_flag tres" where
  "flag_at i st =
     (if 0 \<le> i \<and> nat i < length (t_flags st) then Val (t_flags st ! nat i) else Bad ''read outside flags'')"

definition put_flag :: "int \<Rightarrow> (insn_flag \<Rightarrow> insn_flag) \<Rightarrow> trans \<Rightarrow> trans tres" where
  "put_flag i f st =
     (if 0 \<le> i \<and> nat i < length (t_flags st)
      then Val (st\<lparr>t_flags := (t_flags st)[nat i := f (t_flags st ! nat i)]\<rparr>)
      else Bad ''write outside flags'')"

definition put_filter :: "int \<Rightarrow> sock_filter \<Rightarrow> trans \<Rightarrow> trans tres" where
  "put_filter i f st =
     (if 0 \<le> i \<and> nat i < length (t_buf st) then Val (st\<lparr>t_buf := (t_buf st)[nat i := f]\<rparr>)
      else Bad ''write outside cbpf_buf'')"

definition filter_at :: "int \<Rightarrow> trans \<Rightarrow> sock_filter tres" where
  "filter_at i st =
     (if 0 \<le> i \<and> nat i < length (t_buf st) then Val (t_buf st ! nat i) else Bad ''read outside cbpf_buf'')"

abbreviation set_targeted :: "int \<Rightarrow> trans \<Rightarrow> trans tres" where
  "set_targeted i \<equiv> put_flag i (\<lambda>x. x\<lparr>fl_targeted := True\<rparr>)"

definition not_targeted :: "int \<Rightarrow> trans \<Rightarrow> bool tres" where
  "not_targeted i st = tbind (flag_at i st) (\<lambda>x. Val (\<not> fl_targeted x))"

definition CBPF_STMT :: "u16 \<Rightarrow> u32 \<Rightarrow> sock_filter" where
  "CBPF_STMT c k = \<lparr>sf_code = c, sf_jt = 0, sf_jf = 0, sf_k = k\<rparr>"

definition CBPF_JMP :: "u16 \<Rightarrow> u32 \<Rightarrow> u8 \<Rightarrow> u8 \<Rightarrow> sock_filter" where
  "CBPF_JMP c k t f = \<lparr>sf_code = c, sf_jt = t, sf_jf = f, sf_k = k\<rparr>"

abbreviation (input) off :: "ebpf_insn \<Rightarrow> int" where
  "off x \<equiv> sint (bi_off x)"

abbreviation (input) fold_at :: "insn_flag \<Rightarrow> int" where
  "fold_at x \<equiv> uint (fl_fold x)"

section \<open>Jumps\<close>

text \<open>
  The result of a folding step: the filter, what is added to \<open>*ate\<close>, and the arrays. \<open>e\<close> is the
  index of \<open>ebpfp\<close>, \<open>fi\<close> the one of \<open>flag\<close>.
\<close>

type_synonym folded = "sock_filter \<times> nat \<times> trans"

text \<open>\<open>NOT_CHECK\<close>: the filter of a conditional jump on its own.\<close>

definition single_jump :: "u8 \<Rightarrow> u16 \<Rightarrow> u32 \<Rightarrow> sock_filter tres" where
  "single_jump op c k =
     (if op = E_JEQ \<or> op = E_JGT \<or> op = E_JGE \<or> op = E_JSET then Val (CBPF_JMP c k 1 0)
      else if op = E_JNE then Val (CBPF_JMP ((c AND NOT 0x50) OR BPF_JEQ) k 0 1)
      else if op = E_JLE then Val (CBPF_JMP ((c AND NOT 0xb0) OR BPF_JGT) k 0 1)
      else if op = E_JLT then Val (CBPF_JMP ((c AND NOT 0xa0) OR BPF_JGE) k 0 1)
      else Assert 137)"

text \<open>Whether the next instruction is the other branch; \<open>x\<close> is the index of \<open>flag + flag->fold\<close>.\<close>

definition jump_tail :: "int \<Rightarrow> u8 \<Rightarrow> u16 \<Rightarrow> u32 \<Rightarrow> int \<Rightarrow> trans \<Rightarrow> folded tres" where
  "jump_tail e op c k x st =
     tbind (insn_at (e + 1) st) (\<lambda>nxt.
     tbind (if bi_code nxt = 0x05 then not_targeted (x + 1) st else Val False) (\<lambda>ja.
     if ja \<and> op \<noteq> E_JNE \<and> op \<noteq> E_JLE \<and> op \<noteq> E_JLT then
       tbind (set_targeted (x + 1 + off nxt + 1) st) (\<lambda>st. Val (CBPF_JMP c k 1 1, 1, st))
     else tbind (single_jump op c k) (\<lambda>f. Val (f, 0, st))))"

definition jmp_not_check :: "int \<Rightarrow> u32 \<Rightarrow> int \<Rightarrow> trans \<Rightarrow> folded tres" where
  "jmp_not_check e large_k fi st =
     tbind (insn_at e st) (\<lambda>insn.
     let op = E_OP (bi_code insn); c = ucast (bi_code insn) :: u16 in
     if op = E_EXIT then Val (CBPF_STMT (BPF_RET OR BPF_A) 0, 0, st)
     else if op = E_JA then
       tbind (set_targeted (fi + off insn + 1) st) (\<lambda>st. Val (CBPF_JMP (BPF_JMP OR BPF_JA) 1 0 0, 0, st))
     else
       tbind (flag_at fi st) (\<lambda>fl.
       tbind (set_targeted (fi + fold_at fl + off insn + 1) st) (\<lambda>st.
       if large_k \<noteq> 0 then jump_tail e op (c AND NOT BPF_X) large_k (fi + fold_at fl) st
       else jump_tail e op c (bi_imm insn) (fi + fold_at fl) st)))"

text \<open>\<open>CHECK_DIV_X\<close>: the instructions around a division by \<open>X\<close>, with or without blinding.\<close>

definition div_tail :: "int \<Rightarrow> nat \<Rightarrow> trans \<Rightarrow> folded tres" where
  "div_tail e n st =
     tbind (insn_at e st) (\<lambda>insn.
     assert_jmp 167 (bi_code insn = 0xac)
       (tbind (insn_at (e + 1) st) (\<lambda>insn.
        assert_jmp 169 (bi_code insn = 0x95) (Val (CBPF_STMT (BPF_ALU OR BPF_DIV OR BPF_X) 0, n + 4, st)))))"

definition check_div_x :: "int \<Rightarrow> trans \<Rightarrow> folded tres" where
  "check_div_x e st =
     tbind (insn_at (e + 1) st) (\<lambda>insn.
     if bi_code insn = 0x55 then div_tail (e + 2) 0 st
     else
       assert_jmp 158 (bi_code insn = 0xb7)
         (tbind (insn_at (e + 2) st) (\<lambda>insn.
          assert_jmp 160 (bi_code insn = 0xa7)
            (tbind (insn_at (e + 3) st) (\<lambda>insn.
             assert_jmp 162 (bi_code insn = 0x5d \<and> bi_src insn = REG_AX) (div_tail (e + 4) 2 st))))))"

text \<open>\<open>CHECK_CMP_LARGE_K\<close>: a constant moved to \<open>TMP\<close> and compared with \<open>A\<close>.\<close>

definition check_cmp_large_k :: "int \<Rightarrow> int \<Rightarrow> trans \<Rightarrow> folded tres" where
  "check_cmp_large_k e fi st =
     tbind (put_flag fi (\<lambda>x. x\<lparr>fl_fold := fl_fold x + 1\<rparr>) st) (\<lambda>st.
     tbind (insn_at (e + 1) st) (\<lambda>nxt.
     assert_jmp 178 (E_CLASS (bi_code nxt) = E_JMP)
       (tbind (insn_at e st) (\<lambda>insn.
        tbind (jmp_not_check (e + 1) (bi_imm insn) fi st) (\<lambda>(f, n, st). Val (f, n + 1, st))))))"

text \<open>\<open>CHECK_RET_K\<close>: a constant moved to \<open>A\<close>, perhaps to be returned.\<close>

definition check_ret_k :: "int \<Rightarrow> int \<Rightarrow> trans \<Rightarrow> folded tres" where
  "check_ret_k e fi st =
     tbind (insn_at e st) (\<lambda>insn.
     tbind (insn_at (e + 1) st) (\<lambda>nxt.
     tbind (if bi_code nxt = 0x95
            then tbind (flag_at fi st) (\<lambda>fl. not_targeted (fi + fold_at fl + 1) st)
            else Val False) (\<lambda>ret.
     Val (if ret then (CBPF_STMT (BPF_RET OR BPF_K) (bi_imm insn), 1, st)
          else (CBPF_STMT (BPF_LD OR BPF_IMM) (bi_imm insn), 0, st)))))"

section \<open>Arithmetic\<close>

text \<open>Removing the blinding: the index of the instruction left, and what was eaten.\<close>

definition unblind :: "int \<Rightarrow> int \<Rightarrow> trans \<Rightarrow> (int \<times> nat \<times> trans) tres" where
  "unblind e fi st =
     tbind (insn_at e st) (\<lambda>insn.
     if E_OP (bi_code insn) = E_MOV \<and> bi_dst insn = REG_AX then
       tbind (put_flag fi (\<lambda>x. x\<lparr>fl_fold := fl_fold x + 2\<rparr>) st) (\<lambda>st.
       tbind (insn_at (e + 1) st) (\<lambda>x1.
       tbind (insn_at (e + 2) st) (\<lambda>x2.
       tbind (put_insn (e + 2) (x2\<lparr>bi_imm := bi_imm insn XOR bi_imm x1, bi_code := bi_code x2 AND NOT E_X,
         bi_src := 0\<rparr>) st) (\<lambda>st. Val (e + 2, 2, st)))))
     else if E_OP (bi_code insn) = E_XOR \<and> E_SRC (bi_code insn) = E_X \<and> bi_src insn = bi_dst insn then
       tbind (put_insn e (insn\<lparr>bi_src := 0, bi_code := 0xb4\<rparr>) st) (\<lambda>st. Val (e, 0, st))
     else Val (e, 0, st))"

definition mov_insn :: "int \<Rightarrow> ebpf_insn \<Rightarrow> int \<Rightarrow> trans \<Rightarrow> folded tres" where
  "mov_insn e insn fi st =
     (if E_CLASS (bi_code insn) = E_ALU64 \<and> E_SRC (bi_code insn) = E_X
         \<and> (bi_src insn = REG_X \<or> bi_dst insn = REG_X) then
        Val (CBPF_STMT (BPF_MISC OR (if bi_src insn = REG_A then BPF_TAX else BPF_TXA)) 0, 0, st)
      else if bi_dst insn = REG_A \<and> bi_src insn = 0 then
        tbind (check_ret_k e fi st) (\<lambda>(f, n, st).
        Val (if sf_code f = BPF_LD OR BPF_IMM \<and> sf_k f = SECCOMP_DATA_LEN
             then CBPF_STMT (BPF_LD OR BPF_LEN) 0 else f, n, st))
      else if bi_dst insn = REG_X \<and> bi_src insn = 0 then
        Val (if bi_imm insn = SECCOMP_DATA_LEN then CBPF_STMT (BPF_LDX OR BPF_LEN) 0
             else CBPF_STMT (BPF_LDX OR BPF_IMM) (bi_imm insn), 0, st)
      else if bi_dst insn = REG_X \<and> bi_src insn = REG_X then check_div_x e st
      else if bi_dst insn = REG_TMP \<and> bi_src insn = 0 then check_cmp_large_k e fi st
      else Assert 257)"

definition alu_insn :: "int \<Rightarrow> int \<Rightarrow> trans \<Rightarrow> folded tres" where
  "alu_insn e fi st =
     tbind (unblind e fi st) (\<lambda>(e, ate, st).
     tbind (insn_at e st) (\<lambda>insn.
     tbind (if E_CLASS (bi_code insn) = E_JMP then jmp_not_check e 0 fi st
            else if E_OP (bi_code insn) = E_MOV then mov_insn e insn fi st
            else Val (CBPF_STMT (ucast (bi_code insn)) (bi_imm insn), 0, st)) (\<lambda>(f, n, st).
     Val (f, ate + n, st))))"

section \<open>The passes\<close>

text \<open>The check of the jump destinations.\<close>

definition jump_in_range :: "nat \<Rightarrow> nat \<Rightarrow> ebpf_insn \<Rightarrow> bool" where
  "jump_in_range len i insn \<longleftrightarrow>
     ((E_CLASS (bi_code insn) = E_JMP \<or> E_CLASS (bi_code insn) = E_JMP32) \<and> E_OP (bi_code insn) \<noteq> E_EXIT
      \<longrightarrow> 0 \<le> off insn \<and> int i + 1 + off insn < int len)"

definition check_jumps :: "nat \<Rightarrow> ebpf_insn list \<Rightarrow> bool" where
  "check_jumps len insns \<longleftrightarrow> (\<forall>i \<in> set [0..<len]. jump_in_range len i (insns ! i))"

abbreviation (input) SKIP :: nat where "SKIP \<equiv> 3"

definition check_prologue :: "trans \<Rightarrow> unit tres" where
  "check_prologue st =
     tbind (insn_at 0 st) (\<lambda>x.
     assert_jmp 378 (E_CLASS (bi_code x) = E_ALU \<and> E_OP (bi_code x) = E_XOR)
       (tbind (insn_at 1 st) (\<lambda>x.
        assert_jmp 380 (E_CLASS (bi_code x) = E_ALU \<and> E_OP (bi_code x) = E_XOR)
          (tbind (insn_at 2 st) (\<lambda>x.
           assert_jmp 382 (E_CLASS (bi_code x) = E_ALU64 \<and> E_OP (bi_code x) = E_MOV) (Val ()))))))"

text \<open>\<open>(-insn.off - 4) / 4\<close>, rounded to zero.\<close>

definition stack_slot :: "ebpf_insn \<Rightarrow> u32" where
  "stack_slot insn = of_int ((- off insn - 4) sdiv 4)"

text \<open>One instruction of the first pass: the filter, the instructions eaten behind it.\<close>

definition fold_insn :: "nat \<Rightarrow> trans \<Rightarrow> folded tres" where
  "fold_insn i st =
     tbind (insn_at (int i) st) (\<lambda>insn.
     let cl = E_CLASS (bi_code insn) in
     if cl = E_LDX then
       (if bi_src insn = REG_CTX
        then Val (CBPF_STMT (BPF_LD OR BPF_W OR BPF_ABS) (of_int (off insn)), 0, st)
        else assert_jmp 405 (bi_src insn = REG_FP)
          (Val (CBPF_STMT (BPF_MEM OR (if bi_dst insn = REG_A then BPF_LD else BPF_LDX)) (stack_slot insn), 0, st)))
     else if cl = E_STX then
       Val (CBPF_STMT (if bi_src insn = REG_A then BPF_ST else BPF_STX) (stack_slot insn), 0, st)
     else if cl = E_ALU \<or> cl = E_ALU64 then alu_insn (int i) (int i) st
     else if cl = E_JMP then jmp_not_check (int i) 0 (int i) st
     else Assert 431)"

function fold_pass :: "nat \<Rightarrow> nat \<Rightarrow> trans \<Rightarrow> trans tres" where
  "fold_pass len i st =
     (if i < len then
        tbind (fold_insn i st) (\<lambda>(f, ate, st).
        tbind (put_filter (int i) f st) (\<lambda>st.
        tbind (lift (setbits (i + 1) ate (t_bitmap st))) (\<lambda>b.
        fold_pass len (i + ate + 1) (st\<lparr>t_bitmap := b\<rparr>))))
      else Val st)"
  by pat_completeness auto
termination
  by (relation "measure (\<lambda>(len, i, st). len - i)") auto

declare fold_pass.simps [simp del]

text \<open>The distance of a jump: \<open>off - patch + c\<close> in 32 bits.\<close>

definition distance :: "ebpf_insn \<Rightarrow> nat \<Rightarrow> int \<Rightarrow> u32" where
  "distance insn patch c = of_int (off insn) - of_nat patch + of_int c"

definition holes_between :: "int \<Rightarrow> int \<Rightarrow> trans \<Rightarrow> nat tres" where
  "holes_between i j st =
     (if 0 \<le> i \<and> 0 \<le> j then lift (countbits (nat i) (nat j) (t_bitmap st)) else Bad ''read outside bitmap'')"

text \<open>The three kinds of jumps of the second pass; \<open>x\<close> is \<open>ebpf_idx\<close>.\<close>

definition relocate_both :: "int \<Rightarrow> int \<Rightarrow> int \<Rightarrow> sock_filter \<Rightarrow> trans \<Rightarrow> trans tres" where
  "relocate_both i fo x f st =
     tbind (insn_at (x + 1) st) (\<lambda>ja.
     tbind (holes_between (x + 1) (x + 1 + off ja + 1) st) (\<lambda>patch.
     let jmp = distance ja patch 1 in
     tbind (if 255 < jmp then
              tbind (lift (clear_bit (nat (x + 1)) (t_bitmap st))) (\<lambda>b.
              tbind (put_filter (x + 1) (CBPF_JMP (BPF_JMP OR BPF_JA) jmp 0 0) (st\<lparr>t_bitmap := b\<rparr>)) (\<lambda>st.
              Val (f\<lparr>sf_jf := 0\<rparr>, st)))
            else Val (f\<lparr>sf_jf := ucast jmp\<rparr>, st)) (\<lambda>(f, st).
     tbind (insn_at x st) (\<lambda>insn.
     tbind (holes_between i (x + 1 + off insn) st) (\<lambda>patch.
     put_filter i (f\<lparr>sf_jt := ucast (distance insn patch fo)\<rparr>) st)))))"

definition relocate_one :: "int \<Rightarrow> int \<Rightarrow> int \<Rightarrow> sock_filter \<Rightarrow> trans \<Rightarrow> trans tres" where
  "relocate_one i fo x f st =
     tbind (insn_at x st) (\<lambda>insn.
     tbind (holes_between i (x + 1 + off insn) st) (\<lambda>patch.
     let jmp = ucast (distance insn patch fo) in
     put_filter i (if sf_jt f \<noteq> 0 then f\<lparr>sf_jt := jmp\<rparr> else f\<lparr>sf_jf := jmp\<rparr>) st))"

definition relocate_ja :: "int \<Rightarrow> int \<Rightarrow> sock_filter \<Rightarrow> trans \<Rightarrow> trans tres" where
  "relocate_ja i x f st =
     tbind (insn_at x st) (\<lambda>insn.
     tbind (holes_between i (i + 1 + off insn) st) (\<lambda>patch.
     put_filter i (f\<lparr>sf_k := distance insn patch 0\<rparr>) st))"

definition relocate :: "nat \<Rightarrow> trans \<Rightarrow> trans tres" where
  "relocate i st =
     tbind (filter_at (int i) st) (\<lambda>f.
     if BPF_CLASS (sf_code f) \<noteq> BPF_JMP then Val st
     else
       tbind (flag_at (int i) st) (\<lambda>fl.
       let x = int i + fold_at fl in
       if sf_jt f \<noteq> 0 \<and> sf_jf f \<noteq> 0 then relocate_both (int i) (fold_at fl) x f st
       else if sf_jt f \<noteq> 0 \<or> sf_jf f \<noteq> 0 then relocate_one (int i) (fold_at fl) x f st
       else relocate_ja (int i) x f st))"

text \<open>
  The loop down from \<open>i - 1\<close>, with the word of the bit map it holds in \<open>bitset\<close>.
\<close>

fun relocate_pass :: "nat \<Rightarrow> int \<Rightarrow> u32 \<Rightarrow> u32 \<Rightarrow> trans \<Rightarrow> trans tres" where
  "relocate_pass 0 mapidx bitmask bitset st = Val st"
| "relocate_pass (Suc i) mapidx bitmask bitset st =
     (if i < SKIP then Val st
      else
        let deleted = (bitset AND bitmask \<noteq> 0); bitmask = drop_bit 1 bitmask in
        tbind (if bitmask = 0 then
                 (if 0 < mapidx \<and> nat (mapidx - 1) < length (t_bitmap st)
                  then Val (mapidx - 1, push_bit 31 1, t_bitmap st ! nat (mapidx - 1))
                  else Bad ''read outside bitmap'')
               else Val (mapidx, bitmask, bitset)) (\<lambda>(mapidx, bitmask, bitset).
        tbind (if deleted then Val st else relocate i st) (\<lambda>st.
        relocate_pass i mapidx bitmask bitset st)))"

text \<open>The third pass: \<open>n\<close> filters left from index \<open>rp\<close>.\<close>

fun compress :: "nat \<Rightarrow> nat \<Rightarrow> nat \<Rightarrow> u32 \<Rightarrow> u32 \<Rightarrow> trans \<Rightarrow> sock_filter list tres" where
  "compress 0 rp mapidx bitmask bitset st = Val []"
| "compress (Suc n) rp mapidx bitmask bitset st =
     tbind (filter_at (int rp) st) (\<lambda>f.
     let kept = (bitset AND bitmask = 0); bitmask = push_bit 1 bitmask in
     tbind (if bitmask = 0 then
              tbind (lift (read_word (t_bitmap st) (mapidx + 1))) (\<lambda>w. Val (mapidx + 1, 1, w))
            else Val (mapidx, bitmask, bitset)) (\<lambda>(mapidx, bitmask, bitset).
     tbind (compress n (Suc rp) mapidx bitmask bitset st) (\<lambda>fs.
     Val (if kept then f # fs else fs))))"

section \<open>The translation\<close>

definition start_trans :: "ebpf_insn list \<Rightarrow> nat \<Rightarrow> sock_filter list \<Rightarrow> trans" where
  "start_trans ebpfs ebpf_len cbpf_buf =
     \<lparr>t_insns = ebpfs,
      t_flags = replicate (ebpf_len + 10) \<lparr>fl_fold = 0, fl_targeted = False\<rparr>,
      t_bitmap = (replicate (ebpf_len div U32BITS + 2) 0)[0 := 7],
      t_buf = cbpf_buf\<rparr>"

definition trans_passes :: "nat \<Rightarrow> bool \<Rightarrow> trans \<Rightarrow> sock_filter list tres" where
  "trans_passes ebpf_len trustful st =
     assert_jmp 373 (trustful \<or> check_jumps ebpf_len (t_insns st))
       (tbind (check_prologue st) (\<lambda>_.
        tbind (fold_pass ebpf_len SKIP st) (\<lambda>st.
        let last = ebpf_len - 1 in
        if ebpf_len = 0 then Bad ''read outside bitmap'' else
        tbind (lift (read_word (t_bitmap st) (last div U32BITS))) (\<lambda>w.
        tbind (relocate_pass ebpf_len (int (last div U32BITS)) (push_bit (last mod U32BITS) 1) w st) (\<lambda>st.
        tbind (lift (read_word (t_bitmap st) 0)) (\<lambda>w.
        compress (ebpf_len - SKIP) SKIP 0 8 w st))))))"

text \<open>\<open>None\<close> is the return value -1.\<close>

definition ebpf2cbpf ::
  "ebpf_insn list \<Rightarrow> nat \<Rightarrow> sock_filter list \<Rightarrow> bool \<Rightarrow> sock_filter list option cres" where
  "ebpf2cbpf ebpfs ebpf_len cbpf_buf trustful =
     (if length ebpfs < ebpf_len then Crash ''ebpfs too short''
      else
        case trans_passes ebpf_len trustful (start_trans ebpfs ebpf_len cbpf_buf) of
          Val fs \<Rightarrow> Done (Some fs)
        | Assert l \<Rightarrow> if trustful then Done None else Die M_DISASM_TERMINATED
        | Bad m \<Rightarrow> Crash m)"

end
