(* ===== verification/Bpf_Trans_Safe.thy ===== *)
theory Bpf_Trans_Safe
  imports Bpf_Trans
begin

text \<open>
  The translation is memory safe on input that is not trusted: with the room \<open>read_insns\<close> leaves
  behind the instructions, no pass of \<open>ebpf2cbpf\<close> reads or writes outside of the four arrays,
  whatever the instructions are. The check of the jump destinations in the first lines is what
  this rests on.
\<close>

section \<open>Outcomes\<close>

definition tsafe :: "'a tres \<Rightarrow> ('a \<Rightarrow> bool) \<Rightarrow> bool" where
  "tsafe r Q = (case r of Val x \<Rightarrow> Q x | Assert l \<Rightarrow> True | Bad m \<Rightarrow> False)"

lemma tsafe_simps [simp]: "tsafe (Val x) Q = Q x" "tsafe (Assert l) Q" "\<not> tsafe (Bad m) Q"
  by (simp_all add: tsafe_def)

lemma tsafe_bind [simp]: "tsafe (tbind r f) Q = tsafe r (\<lambda>x. tsafe (f x) Q)"
  by (cases r) simp_all

lemma tsafe_assert [simp]: "tsafe (assert_jmp l c r) Q = (c \<longrightarrow> tsafe r Q)"
  by (simp add: assert_jmp_def)

lemma tsafe_mono: "tsafe r P \<Longrightarrow> (\<And>x. P x \<Longrightarrow> Q x) \<Longrightarrow> tsafe r Q"
  by (auto simp: tsafe_def split: tres.splits)

lemma tsafe_bindI: "tsafe r P \<Longrightarrow> (\<And>x. P x \<Longrightarrow> tsafe (f x) Q) \<Longrightarrow> tsafe (tbind r f) Q"
  by (cases r) simp_all

lemma tsafe_if: "(c \<Longrightarrow> tsafe a Q) \<Longrightarrow> (\<not> c \<Longrightarrow> tsafe b Q) \<Longrightarrow> tsafe (if c then a else b) Q"
  by simp

section \<open>The arrays\<close>

definition jumps :: "ebpf_insn \<Rightarrow> bool" where
  "jumps x \<longleftrightarrow> E_CLASS (bi_code x) = 0x05 \<and> E_OP (bi_code x) \<noteq> 0x90"

definition arrays_ok :: "nat \<Rightarrow> trans \<Rightarrow> bool" where
  "arrays_ok len st \<longleftrightarrow>
     len + 10 \<le> length (t_insns st) \<and> length (t_flags st) = len + 10
     \<and> len + 33 \<le> 32 * length (t_bitmap st) \<and> len \<le> length (t_buf st)
     \<and> (\<forall>k. len \<le> k \<longrightarrow> k < length (t_insns st) \<longrightarrow> bi_code (t_insns st ! k) = 0)
     \<and> (\<forall>k < len. jumps (t_insns st ! k) \<longrightarrow>
          0 \<le> sint (bi_off (t_insns st ! k)) \<and> int k + 1 + sint (bi_off (t_insns st ! k)) < int len)"

text \<open>A jump whose destination has been checked is at \<open>x\<close>.\<close>

definition jump_at :: "nat \<Rightarrow> trans \<Rightarrow> int \<Rightarrow> bool" where
  "jump_at len st x \<longleftrightarrow> 0 \<le> x \<and> nat x < len \<and> jumps (t_insns st ! nat x)"

lemma jump_at_range:
  assumes "arrays_ok len st" "jump_at len st x"
  shows "0 \<le> sint (bi_off (t_insns st ! nat x)) \<and> x + 1 + sint (bi_off (t_insns st ! nat x)) < int len"
  using assms by (fastforce simp: arrays_ok_def jump_at_def)

text \<open>What the folding of an instruction keeps.\<close>

definition kept :: "nat \<Rightarrow> trans \<Rightarrow> trans \<Rightarrow> bool" where
  "kept i st st' \<longleftrightarrow>
     t_bitmap st' = t_bitmap st \<and> t_buf st' = t_buf st
     \<and> (\<forall>x len. jump_at len st x \<longrightarrow> jump_at len st' x)
     \<and> (\<forall>k. k \<noteq> i \<longrightarrow> fl_fold (t_flags st' ! k) = fl_fold (t_flags st ! k))"

lemma kept_refl [simp]: "kept i st st"
  by (simp add: kept_def)

lemma kept_trans: "kept i st st' \<Longrightarrow> kept i st' st'' \<Longrightarrow> kept i st st''"
  by (simp add: kept_def)

definition filter_fits :: "nat \<Rightarrow> trans \<Rightarrow> nat \<Rightarrow> sock_filter \<Rightarrow> bool" where
  "filter_fits len st i f \<longleftrightarrow>
     (BPF_CLASS (sf_code f) = BPF_JMP \<longrightarrow>
        jump_at len st (int i + uint (fl_fold (t_flags st ! i)))
        \<and> (sf_jt f \<noteq> 0 \<and> sf_jf f \<noteq> 0 \<longrightarrow> jump_at len st (int i + uint (fl_fold (t_flags st ! i)) + 1)))"

definition fold_ok :: "nat \<Rightarrow> nat \<Rightarrow> trans \<Rightarrow> nat \<Rightarrow> folded \<Rightarrow> bool" where
  "fold_ok len i st bound r \<longleftrightarrow>
     (case r of (f, n, st') \<Rightarrow> arrays_ok len st' \<and> kept i st st' \<and> n \<le> bound \<and> filter_fits len st' i f)"

section \<open>Accesses\<close>

lemma insn_at_Val: "arrays_ok len st \<Longrightarrow> 0 \<le> e \<Longrightarrow> e < int len + 10 \<Longrightarrow> insn_at e st = Val (t_insns st ! nat e)"
  by (auto simp: insn_at_def arrays_ok_def)

lemma flag_at_Val: "arrays_ok len st \<Longrightarrow> 0 \<le> e \<Longrightarrow> e < int len + 10 \<Longrightarrow> flag_at e st = Val (t_flags st ! nat e)"
  by (auto simp: flag_at_def arrays_ok_def)

lemma code_inside:
  assumes "arrays_ok len st" "0 \<le> e" "e < int len + 10" "bi_code (t_insns st ! nat e) \<noteq> 0"
  shows "nat e < len"
proof (rule ccontr)
  assume "\<not> nat e < len"
  with assms show False by (auto simp: arrays_ok_def)
qed

lemma tsafe_insn_at:
  "arrays_ok len st \<Longrightarrow> 0 \<le> e \<Longrightarrow> e < int len + 10 \<Longrightarrow> Q (t_insns st ! nat e) \<Longrightarrow> tsafe (insn_at e st) Q"
  by (auto simp: insn_at_def arrays_ok_def)

lemma tsafe_flag_at:
  "arrays_ok len st \<Longrightarrow> 0 \<le> e \<Longrightarrow> e < int len + 10 \<Longrightarrow> Q (t_flags st ! nat e) \<Longrightarrow> tsafe (flag_at e st) Q"
  by (auto simp: flag_at_def arrays_ok_def)

lemma arrays_ok_flags: "length fs = length (t_flags st) \<Longrightarrow> arrays_ok len (st\<lparr>t_flags := fs\<rparr>) = arrays_ok len st"
  by (simp add: arrays_ok_def)

lemma jump_at_flags [simp]: "jump_at len (st\<lparr>t_flags := fs\<rparr>) x = jump_at len st x"
  by (simp add: jump_at_def)

text \<open>Marking a target: the state changes in nothing that matters.\<close>

definition same_fold :: "trans \<Rightarrow> trans \<Rightarrow> bool" where
  "same_fold st st' \<longleftrightarrow>
     t_bitmap st' = t_bitmap st \<and> t_buf st' = t_buf st \<and> t_insns st' = t_insns st
     \<and> (\<forall>k. fl_fold (t_flags st' ! k) = fl_fold (t_flags st ! k))"

lemma same_fold_kept: "same_fold st st' \<Longrightarrow> kept i st st'"
  by (auto simp: same_fold_def kept_def jump_at_def)

lemma same_fold_fits: "same_fold st st' \<Longrightarrow> filter_fits len st' i f = filter_fits len st i f"
  by (simp add: same_fold_def filter_fits_def jump_at_def)

lemma same_fold_trans: "same_fold st st' \<Longrightarrow> same_fold st' st'' \<Longrightarrow> same_fold st st''"
  by (simp add: same_fold_def)

lemma tsafe_targeted:
  assumes "arrays_ok len st" "0 \<le> e" "e < int len + 10"
    "\<And>st'. arrays_ok len st' \<Longrightarrow> same_fold st st' \<Longrightarrow> Q st'"
  shows "tsafe (put_flag e (\<lambda>x. x\<lparr>fl_targeted := True\<rparr>) st) Q"
proof -
  have l: "nat e < length (t_flags st)" using assms by (auto simp: arrays_ok_def)
  let ?st = "st\<lparr>t_flags := (t_flags st)[nat e := (t_flags st ! nat e)\<lparr>fl_targeted := True\<rparr>]\<rparr>"
  have "same_fold st ?st" using l by (auto simp: same_fold_def nth_list_update)
  moreover have "arrays_ok len ?st" using assms(1) by (simp add: arrays_ok_flags)
  ultimately show ?thesis using assms l by (simp add: put_flag_def)
qed

section \<open>Jumps\<close>

lemma class_of_code: "E_CLASS c = 0x05 \<Longrightarrow> c \<noteq> 0"
  by (auto simp: E_CLASS_def)

lemma single_jump_ok: "tsafe (single_jump op c k) (\<lambda>f. sf_jt f = 0 \<or> sf_jf f = 0)"
  by (simp add: single_jump_def CBPF_JMP_def)

lemma fits_one: "jump_at len st (int i + uint (fl_fold (t_flags st ! i))) \<Longrightarrow> sf_jt f = 0 \<or> sf_jf f = 0 \<Longrightarrow>
  filter_fits len st i f"
  by (auto simp: filter_fits_def)

lemma jump_tail_ok:
  assumes ok: "arrays_ok len st" and x: "x = int i + uint (fl_fold (t_flags st ! i))" and j: "jump_at len st x"
  shows "tsafe (jump_tail x op c k x st) (fold_ok len i st 1)"
proof -
  let ?n = "t_insns st ! nat (x + 1)"
  have x0: "0 \<le> x" "x < int len" "0 \<le> x + 1" "x + 1 < int len + 10" using j by (auto simp: jump_at_def)
  have one: "tsafe (tbind (single_jump op c k) (\<lambda>f. Val (f, 0, st))) (fold_ok len i st 1)"
    using tsafe_mono [OF single_jump_ok [of op c k]] ok j x by (simp add: fold_ok_def fits_one)
  have j1: "jump_at len st (x + 1)" if c: "bi_code ?n = 0x05"
  proof -
    have "nat (x + 1) < len" by (rule code_inside [OF ok x0(3,4)]) (use c in simp)
    then show ?thesis using c x0 by (simp add: jump_at_def jumps_def E_CLASS_def E_OP_def)
  qed
  have two: "tsafe (tbind (set_targeted (x + 1 + sint (bi_off ?n) + 1) st) (\<lambda>st. Val (CBPF_JMP c k 1 1, 1, st)))
      (fold_ok len i st 1)" if "bi_code ?n = 0x05"
  proof -
    from jump_at_range [OF ok j1 [OF that]]
    have r: "0 \<le> x + 1 + sint (bi_off ?n) + 1" "x + 1 + sint (bi_off ?n) + 1 < int len + 10" using x0 by auto
    have ff: "filter_fits len st i (CBPF_JMP c k 1 1)" using j j1 [OF that] x by (simp add: filter_fits_def)
    show ?thesis unfolding tsafe_bind
      by (rule tsafe_targeted [OF ok r]) (use ff in \<open>simp add: fold_ok_def same_fold_kept same_fold_fits\<close>)
  qed
  show ?thesis
    unfolding jump_tail_def tsafe_bind
    by (rule tsafe_insn_at [OF ok x0(3,4)])
      (use one two tsafe_flag_at [OF ok x0(3,4)] in \<open>auto simp: not_targeted_def\<close>)
qed

text \<open>\<open>NOT_CHECK\<close> on a jump that is \<open>fold\<close> instructions ahead of the flag.\<close>

lemma fold_ok_kept: "kept i st st' \<Longrightarrow> n \<le> m \<Longrightarrow> fold_ok len i st' n r \<Longrightarrow> fold_ok len i st m r"
  using kept_trans by (fastforce simp: fold_ok_def)

lemma fold_ok_same: "same_fold st st' \<Longrightarrow> fold_ok len i st' n r \<Longrightarrow> fold_ok len i st n r"
  by (rule fold_ok_kept [OF same_fold_kept]) simp_all

lemma jmp_not_check_ok:
  assumes ok: "arrays_ok len st" and e: "e = int i + uint (fl_fold (t_flags st ! i))" "i < len"
    and cl: "E_CLASS (bi_code (t_insns st ! nat e)) = 0x05" "nat e < len"
  shows "tsafe (jmp_not_check e k (int i) st) (fold_ok len i st 1)"
proof -
  let ?x = "t_insns st ! nat e"
  have e0: "0 \<le> e" "e < int len" "e < int len + 10" using e cl by auto
  have i: "0 \<le> int i" "int i < int len + 10" using e(2) by simp_all
  show ?thesis
  proof (cases "E_OP (bi_code ?x) = 0x90")
    case True
    with ok show ?thesis unfolding jmp_not_check_def tsafe_bind
      by (intro tsafe_insn_at [OF ok e0(1,3)]) (simp add: fold_ok_def filter_fits_def CBPF_STMT_def BPF_CLASS_def Let_def)
  next
    case exit: False
    then have j: "jump_at len st e" using cl e0 by (simp add: jump_at_def jumps_def)
    from jump_at_range [OF ok this] have off: "0 \<le> sint (bi_off ?x)" "e + 1 + sint (bi_off ?x) < int len" by auto
    have "int i \<le> e" using e by simp
    then have b: "0 \<le> e + sint (bi_off ?x) + 1" "e + sint (bi_off ?x) + 1 < int len + 10"
      "0 \<le> int i + sint (bi_off ?x) + 1" "int i + sint (bi_off ?x) + 1 < int len + 10" using off by linarith+
    have ja: "tsafe (tbind (set_targeted (int i + sint (bi_off ?x) + 1) st) (\<lambda>st. Val (CBPF_JMP 5 1 0 0, 0, st)))
        (fold_ok len i st 1)"
      unfolding tsafe_bind
      by (rule tsafe_targeted [OF ok b(3,4)])
        (use j e in \<open>simp add: fold_ok_def same_fold_kept same_fold_fits fits_one CBPF_JMP_def\<close>)
    have tail: "tsafe (tbind (set_targeted (e + sint (bi_off ?x) + 1) st) (\<lambda>st. jump_tail e op c k e st)) (fold_ok len i st 1)"
      for op c k
      unfolding tsafe_bind
    proof (rule tsafe_targeted [OF ok b(1,2)])
      fix st1 assume s: "arrays_ok len st1" "same_fold st st1"
      have "tsafe (jump_tail e op c k e st1) (fold_ok len i st1 1)"
        by (rule jump_tail_ok [OF s(1)]) (use s(2) j e in \<open>simp_all add: same_fold_def jump_at_def\<close>)
      then show "tsafe (jump_tail e op c k e st1) (fold_ok len i st 1)"
        by (rule tsafe_mono) (rule fold_ok_same [OF s(2)])
    qed
    have r: "insn_at e st = Val ?x" "flag_at (int i) st = Val (t_flags st ! i)"
      using insn_at_Val [OF ok e0(1,3)] flag_at_Val [OF ok i] by simp_all
    show ?thesis
      using exit ja tail [where c = "ucast (bi_code ?x) AND NOT 8" and k = k]
        tail [where c = "ucast (bi_code ?x)" and k = "bi_imm ?x"]
      by (cases "E_OP (bi_code ?x) = 0"; cases "k = 0")
        (simp_all add: jmp_not_check_def r Let_def e(1) [symmetric] del: tsafe_bind)
  qed
qed

section \<open>Divisions, constants and returns\<close>

lemma fits_plain: "BPF_CLASS (sf_code f) \<noteq> 5 \<Longrightarrow> filter_fits len st i f"
  by (simp add: filter_fits_def)

lemma div_tail_ok:
  assumes ok: "arrays_ok len st" and e: "0 \<le> e" "e + 1 < int len + 10" and n: "n \<le> 2"
  shows "tsafe (div_tail e n st) (fold_ok len i st 6)"
  using e n ok
  by (auto simp: div_tail_def fold_ok_def CBPF_STMT_def BPF_CLASS_def intro!: tsafe_insn_at [OF ok] fits_plain)

lemma check_div_x_ok:
  assumes ok: "arrays_ok len st" and e: "0 \<le> e" "e + 5 < int len + 10"
  shows "tsafe (check_div_x e st) (fold_ok len i st 6)"
  using e ok
  by (auto simp: check_div_x_def intro!: tsafe_insn_at [OF ok] div_tail_ok [OF ok])

lemma check_ret_k_ok:
  assumes ok: "arrays_ok len st" and e: "e = int i + uint (fl_fold (t_flags st ! i))" "i < len" "e + 1 < int len + 10"
  shows "tsafe (check_ret_k e (int i) st) (fold_ok len i st 1)"
proof -
  have e0: "0 \<le> e" "0 \<le> e + 1" "e < int len + 10" using e by auto
  have r: "insn_at e st = Val (t_insns st ! nat e)" "insn_at (e + 1) st = Val (t_insns st ! nat (e + 1))"
    "flag_at (int i) st = Val (t_flags st ! i)" "flag_at (e + 1) st = Val (t_flags st ! nat (e + 1))"
    using insn_at_Val [OF ok] flag_at_Val [OF ok] e e0 by simp_all
  show ?thesis
    using ok by (simp add: check_ret_k_def r e(1) [symmetric] not_targeted_def)
      (auto simp: fold_ok_def CBPF_STMT_def BPF_CLASS_def intro!: fits_plain)
qed

lemma check_cmp_large_k_ok:
  assumes ok: "arrays_ok len st" and e: "e = int i + uint (fl_fold (t_flags st ! i))" "i < len" "e + 1 < int len + 10"
    and f: "uint (fl_fold (t_flags st ! i)) \<le> 2"
  shows "tsafe (check_cmp_large_k e (int i) st) (fold_ok len i st 2)"
proof -
  let ?fl = "t_flags st ! i"
  let ?st = "st\<lparr>t_flags := (t_flags st)[i := ?fl\<lparr>fl_fold := fl_fold ?fl + 1\<rparr>]\<rparr>"
  have e0: "0 \<le> e" "0 \<le> e + 1" "e < int len + 10" using e by auto
  have l: "i < length (t_flags st)" using ok e by (simp add: arrays_ok_def)
  have ok1: "arrays_ok len ?st" using ok by (simp add: arrays_ok_flags)
  have k: "kept i st ?st" by (simp add: kept_def)
  have one: "uint (fl_fold ?fl + 1) = uint (fl_fold ?fl) + 1" using f by (simp add: uint_word_ariths)
  have p: "put_flag (int i) (\<lambda>x. x\<lparr>fl_fold := fl_fold x + 1\<rparr>) st = Val ?st" using l by (simp add: put_flag_def)
  have r: "insn_at (e + 1) ?st = Val (t_insns st ! nat (e + 1))" "insn_at e ?st = Val (t_insns st ! nat e)"
    using insn_at_Val [OF ok1] e e0 by simp_all
  show ?thesis
  proof (cases "E_CLASS (bi_code (t_insns st ! nat (e + 1))) = 0x05")
    case True
    have in1: "nat (e + 1) < len"
      by (rule code_inside [OF ok e0(2) e(3)]) (use True class_of_code in simp)
    have "tsafe (jmp_not_check (e + 1) (bi_imm (t_insns st ! nat e)) (int i) ?st) (fold_ok len i ?st 1)"
      by (rule jmp_not_check_ok [OF ok1 _ e(2)]) (use True in1 l one e(1) in simp_all)
    then have "tsafe (jmp_not_check (e + 1) (bi_imm (t_insns st ! nat e)) (int i) ?st)
        (\<lambda>(f, n, st'). fold_ok len i st 2 (f, n + 1, st'))"
      by (rule tsafe_mono) (use kept_trans [OF k] in \<open>auto simp: fold_ok_def\<close>)
    then show ?thesis using True by (simp add: check_cmp_large_k_def p r case_prod_unfold)
  qed (simp add: check_cmp_large_k_def p r)
qed

section \<open>Arithmetic\<close>

lemma unblind_class: "E_CLASS (c AND - 9) = E_CLASS c" "E_OP (c AND - 9) = E_OP c"
  by (simp_all add: E_CLASS_def E_OP_def and.assoc)

lemma put_insn_ok:
  assumes ok: "arrays_ok len st" and e: "0 \<le> e" "e < int len + 10"
    and x: "jumps x \<Longrightarrow> jumps (t_insns st ! nat e) \<and> bi_off x = bi_off (t_insns st ! nat e)"
      "jumps (t_insns st ! nat e) \<Longrightarrow> jumps x" "bi_code (t_insns st ! nat e) = 0 \<Longrightarrow> bi_code x = 0"
    and Q: "\<And>st'. arrays_ok len st' \<Longrightarrow> kept i st st' \<Longrightarrow> t_flags st' = t_flags st \<Longrightarrow> Q st'"
  shows "tsafe (put_insn e x st) Q"
proof -
  have l: "nat e < length (t_insns st)" using ok e by (auto simp: arrays_ok_def)
  let ?st = "st\<lparr>t_insns := (t_insns st)[nat e := x]\<rparr>"
  have "arrays_ok len ?st" using ok x l by (auto simp: arrays_ok_def nth_list_update)
  moreover have "kept i st ?st" using x l by (auto simp: kept_def jump_at_def nth_list_update)
  ultimately show ?thesis using Q [of ?st] l e by (simp add: put_insn_def)
qed

definition unblinded :: "nat \<Rightarrow> nat \<Rightarrow> trans \<Rightarrow> int \<times> nat \<times> trans \<Rightarrow> bool" where
  "unblinded len i st r \<longleftrightarrow>
     (case r of (e, n, st') \<Rightarrow> arrays_ok len st' \<and> kept i st st' \<and> n \<le> 2
        \<and> e = int i + uint (fl_fold (t_flags st' ! i)) \<and> uint (fl_fold (t_flags st' ! i)) \<le> 2)"

lemma unblind_ok:
  assumes ok: "arrays_ok len st" and i: "i < len" and f: "fl_fold (t_flags st ! i) = 0"
    and cl: "E_CLASS (bi_code (t_insns st ! i)) \<noteq> 0x05"
  shows "tsafe (unblind (int i) (int i) st) (unblinded len i st)"
proof -
  let ?x = "t_insns st ! i" let ?x1 = "t_insns st ! nat (int i + 1)" let ?x2 = "t_insns st ! nat (int i + 2)"
  let ?fl = "t_flags st ! i"
  let ?st = "st\<lparr>t_flags := (t_flags st)[i := ?fl\<lparr>fl_fold := fl_fold ?fl + 2\<rparr>]\<rparr>"
  let ?y = "?x2\<lparr>bi_imm := bi_imm ?x XOR bi_imm ?x1, bi_code := bi_code ?x2 AND NOT 8, bi_src := 0\<rparr>"
  have l: "i < length (t_flags st)" using ok i by (simp add: arrays_ok_def)
  have ok1: "arrays_ok len ?st" using ok by (simp add: arrays_ok_flags)
  have k: "kept i st ?st" by (simp add: kept_def)
  have p: "put_flag (int i) (\<lambda>x. x\<lparr>fl_fold := fl_fold x + 2\<rparr>) st = Val ?st" using l by (simp add: put_flag_def)
  have r: "insn_at (int i) st = Val ?x" "insn_at (int i + 1) ?st = Val ?x1" "insn_at (int i + 2) ?st = Val ?x2"
    using insn_at_Val [OF ok] insn_at_Val [OF ok1] i by simp_all
  have jy: "jumps ?y = jumps ?x2" by (simp add: jumps_def unblind_class)
  have blind: "tsafe (put_insn (int i + 2) ?y ?st) (\<lambda>st'. unblinded len i st (int i + 2, 2, st'))"
    by (rule put_insn_ok [OF ok1, where i = i])
      (use i jy kept_trans [OF k] l f in \<open>auto simp: unblinded_def\<close>)
  have xor: "tsafe (put_insn (int i) (?x\<lparr>bi_src := 0, bi_code := 0xb4\<rparr>) st) (\<lambda>st'. unblinded len i st (int i, 0, st'))"
    if "E_OP (bi_code ?x) = 0xa0"
    by (rule put_insn_ok [OF ok, where i = i])
      (use i cl f that in \<open>auto simp: unblinded_def jumps_def E_CLASS_def E_OP_def\<close>)
  have "unblinded len i st (int i, 0, st)" using ok f by (simp add: unblinded_def)
  then show ?thesis using blind xor
    by (cases "E_OP (bi_code ?x) = 0xb0 \<and> bi_dst ?x = 11"; cases "E_OP (bi_code ?x) = 0xa0 \<and> E_SRC (bi_code ?x) = 8 \<and> bi_src ?x = bi_dst ?x")
      (simp_all add: unblind_def p r)
qed

lemma tsafe_case: "tsafe r (\<lambda>x. case x of (f, n, st) \<Rightarrow> Q f n st) \<Longrightarrow> tsafe r (\<lambda>(f, n, st). Q f n st)"
  by simp

lemma fold_ok_le: "fold_ok len i st n r \<Longrightarrow> n \<le> m \<Longrightarrow> fold_ok len i st m r"
  by (auto simp: fold_ok_def)

lemma mov_insn_ok:
  assumes ok: "arrays_ok len st" and e: "e = int i + uint (fl_fold (t_flags st ! i))" "i < len"
    and f: "uint (fl_fold (t_flags st ! i)) \<le> 2"
  shows "tsafe (mov_insn e x (int i) st) (fold_ok len i st 6)"
proof -
  have e0: "0 \<le> e" "e + 5 < int len + 10" "e + 1 < int len + 10" using e f by auto
  have st: "fold_ok len i st 6 (CBPF_STMT c k, 0, st)" if "BPF_CLASS c \<noteq> 5" for c k
    using ok that by (simp add: fold_ok_def CBPF_STMT_def fits_plain)
  have ret: "tsafe (tbind (check_ret_k e (int i) st) (\<lambda>(f, n, st).
        Val (if sf_code f = BPF_LD OR BPF_IMM \<and> sf_k f = SECCOMP_DATA_LEN
             then CBPF_STMT (BPF_LD OR BPF_LEN) 0 else f, n, st))) (fold_ok len i st 6)"
    unfolding tsafe_bind
    by (rule tsafe_mono [OF check_ret_k_ok [OF ok e e0(3)]])
      (auto simp: fold_ok_def CBPF_STMT_def BPF_CLASS_def fits_plain)
  have cmp: "tsafe (check_cmp_large_k e (int i) st) (fold_ok len i st 6)"
    by (rule tsafe_mono [OF check_cmp_large_k_ok [OF ok e e0(3) f]]) (erule fold_ok_le, simp)
  show ?thesis unfolding mov_insn_def
    by (intro tsafe_if ret cmp check_div_x_ok [OF ok e0(1,2)])
      (simp_all add: st BPF_CLASS_def split: if_split)
qed

lemma class_ucast: "BPF_CLASS (ucast c) = 5 \<longleftrightarrow> E_CLASS c = 5"
proof -
  have "take_bit 16 (uint c) = uint c" using uint_lt2p [of c] by (simp add: take_bit_int_eq_self_iff)
  then have "uint (ucast c AND 7 :: u16) = uint (c AND 7)"
    by (simp add: uint_and unsigned_ucast_eq)
  then show ?thesis by (simp add: BPF_CLASS_def E_CLASS_def word_uint_eq_iff)
qed

lemma alu_insn_ok:
  assumes ok: "arrays_ok len st" and i: "i < len" and f: "fl_fold (t_flags st ! i) = 0"
    and cl: "E_CLASS (bi_code (t_insns st ! i)) \<noteq> 0x05"
  shows "tsafe (alu_insn (int i) (int i) st) (fold_ok len i st 8)"
  unfolding alu_insn_def tsafe_bind
proof (rule tsafe_mono [OF unblind_ok [OF assms]])
  fix r assume u: "unblinded len i st r"
  obtain e n st1 where r: "r = (e, n, st1)" by (cases r) auto
  from u r have ok1: "arrays_ok len st1" and k: "kept i st st1" and n: "n \<le> 2"
    and e: "e = int i + uint (fl_fold (t_flags st1 ! i))" and f1: "uint (fl_fold (t_flags st1 ! i)) \<le> 2"
    by (simp_all add: unblinded_def)
  have e0: "0 \<le> e" "e < int len + 10" using e f1 i by auto
  let ?x = "t_insns st1 ! nat e"
  have up: "fold_ok len i st1 6 (f, m, st') \<Longrightarrow> fold_ok len i st 8 (f, n + m, st')" for f m st'
    using kept_trans [OF k] n by (auto simp: fold_ok_def)
  have j: "tsafe (jmp_not_check e 0 (int i) st1) (fold_ok len i st1 6)" if c: "E_CLASS (bi_code ?x) = 5"
  proof -
    have "nat e < len" by (rule code_inside [OF ok1 e0]) (use c class_of_code in simp)
    from jmp_not_check_ok [OF ok1 e i c this] show ?thesis by (rule tsafe_mono) (erule fold_ok_le, simp)
  qed
  have "tsafe (if E_CLASS (bi_code ?x) = 5 then jmp_not_check e 0 (int i) st1
      else if E_OP (bi_code ?x) = 0xb0 then mov_insn e ?x (int i) st1
      else Val (CBPF_STMT (ucast (bi_code ?x)) (bi_imm ?x), 0, st1)) (fold_ok len i st1 6)"
    using j mov_insn_ok [OF ok1 e i f1] ok1
    by (simp add: fold_ok_def fits_plain CBPF_STMT_def class_ucast)
  then have "tsafe (tbind (if E_CLASS (bi_code ?x) = 5 then jmp_not_check e 0 (int i) st1
      else if E_OP (bi_code ?x) = 0xb0 then mov_insn e ?x (int i) st1
      else Val (CBPF_STMT (ucast (bi_code ?x)) (bi_imm ?x), 0, st1)) (\<lambda>(f, m, st). Val (f, n + m, st)))
     (fold_ok len i st 8)"
    unfolding tsafe_bind by (rule tsafe_mono) (use up in auto)
  then show "tsafe (case r of (e, ate, st) \<Rightarrow>
      tbind (insn_at e st) (\<lambda>insn.
      tbind (if E_CLASS (bi_code insn) = 5 then jmp_not_check e 0 (int i) st
            else if E_OP (bi_code insn) = 0xb0 then mov_insn e insn (int i) st
            else Val (CBPF_STMT (ucast (bi_code insn)) (bi_imm insn), 0, st)) (\<lambda>(f, n, st). Val (f, ate + n, st))))
     (fold_ok len i st 8)"
    unfolding r prod.case insn_at_Val [OF ok1 e0] tbind.simps .
qed

section \<open>The first pass\<close>

lemma fold_insn_ok:
  assumes ok: "arrays_ok len st" and i: "i < len" and f: "fl_fold (t_flags st ! i) = 0"
  shows "tsafe (fold_insn i st) (fold_ok len i st 8)"
proof -
  let ?x = "t_insns st ! i"
  have plain: "fold_ok len i st 8 (CBPF_STMT c k, 0, st)" if "BPF_CLASS c \<noteq> 5" for c k
    using ok that by (simp add: fold_ok_def CBPF_STMT_def fits_plain)
  have jmp: "tsafe (jmp_not_check (int i) 0 (int i) st) (fold_ok len i st 8)" if "E_CLASS (bi_code ?x) = 0x05"
    by (rule tsafe_mono [OF jmp_not_check_ok [OF ok _ i]]) (use that f i fold_ok_le in auto)
  have alu: "tsafe (alu_insn (int i) (int i) st) (fold_ok len i st 8)" if "E_CLASS (bi_code ?x) \<noteq> 0x05"
    by (rule alu_insn_ok [OF ok i f that])
  show ?thesis
    using insn_at_Val [OF ok, of "int i"] i jmp alu
    by (auto simp: fold_insn_def Let_def plain BPF_CLASS_def)
qed

lemma fits_kept: "kept i st st' \<Longrightarrow> k \<noteq> i \<Longrightarrow> filter_fits len st k f \<Longrightarrow> filter_fits len st' k f"
  by (simp add: kept_def filter_fits_def)

text \<open>The filters written so far, apart from those to be deleted, and the flags not yet used.\<close>

definition folded_to :: "nat \<Rightarrow> nat \<Rightarrow> trans \<Rightarrow> bool" where
  "folded_to len i st \<longleftrightarrow>
     arrays_ok len st
     \<and> (\<forall>k. 3 \<le> k \<longrightarrow> k < i \<longrightarrow> k < len \<longrightarrow> k \<notin> bits_of (t_bitmap st) \<longrightarrow> filter_fits len st k (t_buf st ! k))"

definition unused_from :: "nat \<Rightarrow> trans \<Rightarrow> bool" where
  "unused_from i st \<longleftrightarrow> (\<forall>k \<ge> i. k < length (t_flags st) \<longrightarrow> fl_fold (t_flags st ! k) = 0)"

lemma folded_step:
  assumes inv: "folded_to len i st" "unused_from i st" and i: "i < len" and r: "fold_ok len i st 8 (f, n, st1)"
    and b: "bits_of b = bits_of (t_bitmap st1) \<union> {i + 1..<i + 1 + n}" "length b = length (t_bitmap st1)"
  shows "folded_to len (i + n + 1) (st1\<lparr>t_buf := (t_buf st1)[i := f], t_bitmap := b\<rparr>)"
    and "unused_from (i + n + 1) (st1\<lparr>t_buf := (t_buf st1)[i := f], t_bitmap := b\<rparr>)"
proof -
  let ?st = "st1\<lparr>t_buf := (t_buf st1)[i := f], t_bitmap := b\<rparr>"
  have ok: "arrays_ok len st1" and k: "kept i st st1" and fits: "filter_fits len st1 i f"
    using r by (simp_all add: fold_ok_def)
  have len: "length (t_flags st1) = length (t_flags st)" using ok inv by (simp add: folded_to_def arrays_ok_def)
  show "unused_from (i + n + 1) ?st" using inv k len by (simp add: unused_from_def kept_def)
  have same: "filter_fits len ?st j g = filter_fits len st1 j g" for j g by (simp add: filter_fits_def jump_at_def)
  have "filter_fits len st1 j ((t_buf st1)[i := f] ! j)"
    if "3 \<le> j" "j < i + n + 1" "j < len" "j \<notin> bits_of b" for j
  proof (cases "j = i")
    case True
    then show ?thesis using fits ok i by (simp add: arrays_ok_def)
  next
    case False
    then have "j < i" "j \<notin> bits_of (t_bitmap st)" using that b k by (auto simp: kept_def)
    then have "filter_fits len st j (t_buf st ! j)" using inv that by (simp add: folded_to_def)
    then show ?thesis using fits_kept [OF k False] False k by (simp add: kept_def)
  qed
  moreover have "arrays_ok len ?st" using ok b by (simp add: arrays_ok_def)
  ultimately show "folded_to len (i + n + 1) ?st" by (simp add: folded_to_def same)
qed

lemma put_filter_Val: "i < length (t_buf st) \<Longrightarrow> put_filter (int i) f st = Val (st\<lparr>t_buf := (t_buf st)[i := f]\<rparr>)"
  by (simp add: put_filter_def)

lemma fold_pass_ok:
  "folded_to len i st \<Longrightarrow> unused_from i st \<Longrightarrow> tsafe (fold_pass len i st) (folded_to len len)"
proof (induction "len - i" arbitrary: i st rule: less_induct)
  case less
  show ?case
  proof (cases "i < len")
    case i: True
    have ok: "arrays_ok len st" using less.prems by (simp add: folded_to_def)
    have f0: "fl_fold (t_flags st ! i) = 0"
      using less.prems(2) ok i by (simp add: unused_from_def arrays_ok_def)
    have body: "tsafe (case r of (f, ate, st) \<Rightarrow>
        tbind (put_filter (int i) f st) (\<lambda>st.
        tbind (lift (setbits (i + 1) ate (t_bitmap st))) (\<lambda>b.
        fold_pass len (i + ate + 1) (st\<lparr>t_bitmap := b\<rparr>)))) (folded_to len len)"
      if r: "fold_ok len i st 8 r" for r
    proof -
      obtain f n st1 where r': "r = (f, n, st1)" by (cases r) auto
      with r have ok1: "arrays_ok len st1" and n: "n \<le> 8" by (simp_all add: fold_ok_def)
      then have l: "i < length (t_buf st1)" "i + 1 + n < 32 * length (t_bitmap st1)"
        using i by (simp_all add: arrays_ok_def)
      from setbits_ok [of n "i + 1" "t_bitmap st1"] n l(2)
      obtain b where b: "setbits (i + 1) n (t_bitmap st1) = Done b"
          "bits_of b = bits_of (t_bitmap st1) \<union> {i + 1..<i + 1 + n}" "length b = length (t_bitmap st1)" by auto
      have "tsafe (fold_pass len (i + n + 1) (st1\<lparr>t_buf := (t_buf st1)[i := f], t_bitmap := b\<rparr>)) (folded_to len len)"
        by (rule less.hyps [OF _ folded_step [OF less.prems i r [unfolded r'] b(2,3)]]) (use i in simp)
      then show ?thesis using l b(1) by (simp add: r' put_filter_Val lift_def)
    qed
    show ?thesis using i tsafe_mono [OF fold_insn_ok [OF ok i f0] body]
      by (simp add: fold_pass.simps [of len i st])
  next
    case False
    then show ?thesis using less.prems(1) by (simp add: fold_pass.simps [of len i st] folded_to_def)
  qed
qed

section \<open>The second pass\<close>

text \<open>What the relocation of filter \<open>i\<close> may change: the filter, and what is behind it.\<close>

definition relocated :: "nat \<Rightarrow> nat \<Rightarrow> trans \<Rightarrow> trans \<Rightarrow> bool" where
  "relocated len i st st' \<longleftrightarrow>
     arrays_ok len st' \<and> t_insns st' = t_insns st \<and> t_flags st' = t_flags st
     \<and> length (t_bitmap st') = length (t_bitmap st)
     \<and> (\<forall>k \<le> i. k \<in> bits_of (t_bitmap st') \<longleftrightarrow> k \<in> bits_of (t_bitmap st))
     \<and> (\<forall>k < i. t_buf st' ! k = t_buf st ! k)"

lemma relocated_refl: "arrays_ok len st \<Longrightarrow> relocated len i st st"
  by (simp add: relocated_def)

lemma relocated_trans: "relocated len i st st1 \<Longrightarrow> relocated len i st1 st2 \<Longrightarrow> relocated len i st st2"
  by (simp add: relocated_def)

lemma relocated_put:
  assumes "arrays_ok len st" "i \<le> nat x" "nat x < len" "0 \<le> x"
  shows "tsafe (put_filter x f st) (relocated len i st)"
  using assms by (auto simp: put_filter_def arrays_ok_def relocated_def)

lemma relocated_clear:
  assumes "arrays_ok len st" "i < x" "x < len"
    and Q: "\<And>b. relocated len i st (st\<lparr>t_bitmap := b\<rparr>) \<Longrightarrow> Q b"
  shows "tsafe (lift (clear_bit x (t_bitmap st))) Q"
proof -
  have "x < 32 * length (t_bitmap st)" using assms by (simp add: arrays_ok_def)
  from clear_bit_ok [OF this] obtain b where b: "clear_bit x (t_bitmap st) = Done b"
    "bits_of b = bits_of (t_bitmap st) - {x}" "length b = length (t_bitmap st)" by auto
  have "Q b" by (rule Q) (use b assms in \<open>auto simp: relocated_def arrays_ok_def\<close>)
  then show ?thesis by (simp add: b lift_def)
qed

lemma tsafe_holes:
  assumes "arrays_ok len st" "0 \<le> i" "i \<le> j" "j \<le> int len" "\<And>n. Q n"
  shows "tsafe (holes_between i j st) Q"
proof -
  have "nat i \<le> nat j" "nat j < 32 * length (t_bitmap st)" using assms by (auto simp: arrays_ok_def)
  from countbits_ok [OF this] show ?thesis using assms by (simp add: holes_between_def lift_def)
qed

lemma insn_at_jump: "arrays_ok len st \<Longrightarrow> jump_at len st x \<Longrightarrow> insn_at x st = Val (t_insns st ! nat x)"
  by (rule insn_at_Val) (auto simp: jump_at_def)

lemma relocate_one_ok:
  assumes ok: "arrays_ok len st" and i: "i < len" "int i \<le> x" and j: "jump_at len st x"
  shows "tsafe (relocate_one (int i) fo x f st) (relocated len i st)"
  using jump_at_range [OF ok j] i
  by (auto simp: relocate_one_def insn_at_jump [OF ok j] Let_def intro!: tsafe_holes [OF ok] relocated_put [OF ok])

lemma relocate_ja_ok:
  assumes ok: "arrays_ok len st" and i: "i < len" "int i \<le> x" and j: "jump_at len st x"
  shows "tsafe (relocate_ja (int i) x f st) (relocated len i st)"
  using jump_at_range [OF ok j] i
  by (auto simp: relocate_ja_def insn_at_jump [OF ok j] intro!: tsafe_holes [OF ok] relocated_put [OF ok])

lemma relocate_both_ok:
  assumes ok: "arrays_ok len st" and i: "i < len" "int i \<le> x"
    and j: "jump_at len st x" "jump_at len st (x + 1)"
  shows "tsafe (relocate_both (int i) fo x f st) (relocated len i st)"
proof -
  note r = jump_at_range [OF ok j(1)] and r1 = jump_at_range [OF ok j(2)]
  have x1: "i < nat (x + 1)" "nat (x + 1) < len" "0 \<le> x + 1" using i j by (auto simp: jump_at_def)
  have tail: "tsafe (tbind (insn_at x st1) (\<lambda>insn.
      tbind (holes_between (int i) (x + 1 + sint (bi_off insn)) st1) (\<lambda>patch.
      put_filter (int i) (g\<lparr>sf_jt := ucast (distance insn patch fo)\<rparr>) st1))) (relocated len i st)"
    if s: "relocated len i st st1" for st1 g
  proof -
    have ok1: "arrays_ok len st1" and e: "t_insns st1 = t_insns st" using s by (simp_all add: relocated_def)
    have at: "insn_at x st1 = Val (t_insns st ! nat x)"
      using insn_at_Val [OF ok1, of x] j(1) e by (auto simp: jump_at_def)
    show ?thesis using r i
      by (auto simp: at intro!: tsafe_holes [OF ok1]
        tsafe_mono [OF relocated_put [OF ok1, where i = i] relocated_trans [OF s]])
  qed
  have large: "tsafe (tbind (lift (clear_bit (nat (x + 1)) (t_bitmap st))) (\<lambda>b.
      tbind (put_filter (x + 1) h (st\<lparr>t_bitmap := b\<rparr>)) (\<lambda>st. Val (g, st)))) (\<lambda>(f, st1). relocated len i st st1)" for g h
    unfolding tsafe_bind
  proof (rule relocated_clear [OF ok x1(1,2)])
    fix b assume s: "relocated len i st (st\<lparr>t_bitmap := b\<rparr>)"
    then have ok1: "arrays_ok len (st\<lparr>t_bitmap := b\<rparr>)" by (simp add: relocated_def)
    have "tsafe (put_filter (x + 1) h (st\<lparr>t_bitmap := b\<rparr>)) (relocated len i st)"
      by (rule tsafe_mono [OF relocated_put [OF ok1 _ x1(2,3), where i = i] relocated_trans [OF s]]) (use x1(1) in linarith)
    then show "tsafe (put_filter (x + 1) h (st\<lparr>t_bitmap := b\<rparr>)) (\<lambda>st1. tsafe (Val (g, st1)) (\<lambda>(f, st1). relocated len i st st1))"
      by simp
  qed
  have small: "tsafe (Val (g, st)) (\<lambda>(f, st1). relocated len i st st1)" for g :: sock_filter
    using relocated_refl [OF ok] by simp
  show ?thesis
    unfolding relocate_both_def insn_at_jump [OF ok j(2)] tbind.simps Let_def
    apply (rule tsafe_bindI [OF tsafe_holes [OF ok, where Q = "\<lambda>_. True"]])
        apply (use r1 x1 in linarith)
       apply (use r1 x1 in linarith)
      apply (use r1 x1 in linarith)
     apply (rule TrueI)
    apply (rule tsafe_bindI [OF tsafe_if [OF large small]])
    apply (simp only: split_paired_all prod.case)
    by (rule tail)
qed

lemma relocate_ok:
  assumes ok: "arrays_ok len st" and i: "i < len" and fits: "filter_fits len st i (t_buf st ! i)"
  shows "tsafe (relocate i st) (relocated len i st)"
proof -
  let ?f = "t_buf st ! i" let ?fo = "uint (fl_fold (t_flags st ! i))"
  have at: "filter_at (int i) st = Val ?f" "flag_at (int i) st = Val (t_flags st ! i)"
    using ok i flag_at_Val [OF ok, of "int i"] by (simp_all add: filter_at_def arrays_ok_def)
  have x: "int i \<le> int i + ?fo" by simp
  show ?thesis
  proof (cases "BPF_CLASS (sf_code ?f) = 5")
    case True
    with fits have j: "jump_at len st (int i + ?fo)"
      and j1: "sf_jt ?f \<noteq> 0 \<and> sf_jf ?f \<noteq> 0 \<Longrightarrow> jump_at len st (int i + ?fo + 1)"
      by (simp_all add: filter_fits_def)
    show ?thesis
      using True relocate_both_ok [OF ok i x j j1] relocate_one_ok [OF ok i x j] relocate_ja_ok [OF ok i x j]
      by (simp add: relocate_def at Let_def)
  qed (simp add: relocate_def at relocated_refl [OF ok])
qed

text \<open>The word and the mask the loop holds, when \<open>i\<close> is the next instruction.\<close>

definition cached :: "nat \<Rightarrow> int \<Rightarrow> u32 \<Rightarrow> u32 \<Rightarrow> bitmap \<Rightarrow> bool" where
  "cached i mapidx bitmask bitset b \<longleftrightarrow>
     mapidx = int (i div 32) \<and> bitmask = push_bit (i mod 32) 1
     \<and> (\<forall>s \<le> i mod 32. bit bitset s \<longleftrightarrow> 32 * (i div 32) + s \<in> bits_of b)"

lemma and_one_bit: "w AND push_bit n 1 \<noteq> 0 \<longleftrightarrow> bit w n" for w :: u32
  by (simp add: bit_iff_and_push_bit_not_eq_0)

lemma cached_bit: "cached i mapidx bitmask bitset b \<Longrightarrow> bitset AND bitmask \<noteq> 0 \<longleftrightarrow> i \<in> bits_of b"
  unfolding cached_def by (metis and_one_bit le_refl mult_div_mod_eq)

lemma cached_mask: "cached i mapidx bitmask bitset b \<Longrightarrow> drop_bit 1 bitmask = 0 \<longleftrightarrow> i mod 32 = 0"
proof -
  have "drop_bit 1 (push_bit n 1 :: u32) = 0 \<longleftrightarrow> n = 0" if "n < 32" for n
  proof (cases n)
    case (Suc m)
    then have "bit (drop_bit 1 (push_bit n 1) :: u32) m" using that by (simp add: bit_simps)
    then show ?thesis using Suc by auto
  qed (simp add: drop_bit_eq_div)
  moreover assume "cached i mapidx bitmask bitset b"
  ultimately show ?thesis by (simp add: cached_def)
qed

lemma cached_shift:
  assumes c: "cached (Suc i) mapidx bitmask bitset b" and n: "Suc i mod 32 \<noteq> 0"
  shows "cached i mapidx (drop_bit 1 bitmask) bitset b"
proof -
  have d: "Suc i div 32 = i div 32" "Suc i mod 32 = Suc (i mod 32)" using n by (simp_all add: div_Suc mod_Suc split: if_splits)
  have "drop_bit 1 (push_bit (Suc m) 1) = (push_bit m 1 :: u32)" if "Suc m < 32" for m
    by (rule bit_word_eqI) (use that in \<open>auto simp: bit_simps\<close>)
  moreover have "Suc (i mod 32) < 32" using d(2) mod_less_divisor [of 32 "Suc i"] by simp
  ultimately show ?thesis using c d by (simp add: cached_def)
qed

lemma cached_reload:
  assumes "Suc i mod 32 = 0" "i div 32 < length b"
  shows "cached i (int (i div 32)) (push_bit 31 1) (b ! (i div 32)) b"
proof -
  have "i mod 32 = 31" using assms(1) by (simp add: mod_Suc split: if_splits)
  then show ?thesis using assms(2) by (simp add: cached_def bits_of_def)
qed

lemma cached_cong:
  assumes "cached i mapidx bitmask bitset b" "\<And>k. k \<le> i \<Longrightarrow> k \<in> bits_of b' \<longleftrightarrow> k \<in> bits_of b"
  shows "cached i mapidx bitmask bitset b'"
proof -
  have "32 * (i div 32) + s \<le> i" if "s \<le> i mod 32" for s
    using that mult_div_mod_eq [of 32 i] by linarith
  then show ?thesis using assms by (simp add: cached_def)
qed

lemma bitmap_bound: "arrays_ok len st \<Longrightarrow> k \<le> len \<Longrightarrow> k div 32 < length (t_bitmap st)"
  by (rule less_mult_imp_div_less) (simp add: arrays_ok_def)

text \<open>The invariant of the loop, with \<open>i\<close> the next instruction.\<close>

definition relocating :: "nat \<Rightarrow> nat \<Rightarrow> trans \<Rightarrow> bool" where
  "relocating len i st \<longleftrightarrow>
     arrays_ok len st \<and> i < len
     \<and> (\<forall>k. 3 \<le> k \<longrightarrow> k \<le> i \<longrightarrow> k \<notin> bits_of (t_bitmap st) \<longrightarrow> filter_fits len st k (t_buf st ! k))"

lemma relocating_next:
  assumes inv: "relocating len (Suc i) st" and r: "relocated len (Suc i) st st'"
  shows "relocating len i st'"
  unfolding relocating_def
proof (intro conjI allI impI)
  show "arrays_ok len st'" "i < len" using inv r by (simp_all add: relocating_def relocated_def)
  fix k assume k: "3 \<le> k" "k \<le> i" "k \<notin> bits_of (t_bitmap st')"
  then have "filter_fits len st k (t_buf st ! k)" using inv r by (simp add: relocating_def relocated_def)
  then show "filter_fits len st' k (t_buf st' ! k)"
    using r k by (simp add: relocated_def filter_fits_def jump_at_def)
qed

lemma relocate_pass_ok:
  "relocating len i st \<Longrightarrow> cached i mapidx bitmask bitset (t_bitmap st) \<Longrightarrow>
   tsafe (relocate_pass (Suc i) mapidx bitmask bitset st) (arrays_ok len)"
proof (induction i arbitrary: mapidx bitmask bitset st)
  case 0
  then show ?case by (simp add: relocating_def)
next
  case (Suc i)
  have ok: "arrays_ok len st" and il: "Suc i < len" using Suc.prems(1) by (simp_all add: relocating_def)
  show ?case
  proof (cases "Suc i < 3")
    case False
    let ?del = "bitset AND bitmask \<noteq> 0"
    have del: "?del \<longleftrightarrow> Suc i \<in> bits_of (t_bitmap st)" by (rule cached_bit [OF Suc.prems(2)])
    have move: "tsafe (if ?del then Val st else relocate (Suc i) st) (relocated len (Suc i) st)"
    proof (rule tsafe_if)
      assume "\<not> ?del"
      then have "filter_fits len st (Suc i) (t_buf st ! Suc i)"
        using del Suc.prems(1) False by (simp add: relocating_def)
      then show "tsafe (relocate (Suc i) st) (relocated len (Suc i) st)" by (rule relocate_ok [OF ok il])
    qed (simp add: relocated_refl [OF ok])
    have rest: "tsafe (tbind (if ?del then Val st else relocate (Suc i) st) (relocate_pass (Suc i) m w s)) (arrays_ok len)"
      if c: "cached i m w s (t_bitmap st)" for m w s
    proof (rule tsafe_bindI [OF move])
      fix st' assume r: "relocated len (Suc i) st st'"
      have "cached i m w s (t_bitmap st')"
        by (rule cached_cong [OF c]) (use r in \<open>simp add: relocated_def\<close>)
      from Suc.IH [OF relocating_next [OF Suc.prems(1) r] this]
      show "tsafe (relocate_pass (Suc i) m w s st') (arrays_ok len)" .
    qed
    show ?thesis
    proof (cases "Suc i mod 32 = 0")
      case True
      have d: "Suc i div 32 = Suc (i div 32)" using True by (simp add: div_Suc)
      have l: "i div 32 < length (t_bitmap st)" by (rule bitmap_bound [OF ok]) (use il in simp)
      have m: "0 < mapidx" "nat (mapidx - 1) = i div 32" "mapidx - 1 = int (i div 32)"
        using Suc.prems(2) d by (simp_all add: cached_def)
      from rest [OF cached_reload [OF True l]] show ?thesis
        unfolding relocate_pass.simps(2) [of "Suc i"] Let_def cached_mask [OF Suc.prems(2)]
        using False True m l by simp
    next
      case shift: False
      from rest [OF cached_shift [OF Suc.prems(2) shift]] show ?thesis
        unfolding relocate_pass.simps(2) [of "Suc i"] Let_def cached_mask [OF Suc.prems(2)]
        using False shift by simp
    qed
  qed (simp add: ok)
qed

section \<open>The third pass\<close>

text \<open>The filters that are not deleted, in order.\<close>

definition survivors :: "nat \<Rightarrow> nat \<Rightarrow> trans \<Rightarrow> sock_filter list" where
  "survivors n rp st = map ((!) (t_buf st)) (filter (\<lambda>k. k \<notin> bits_of (t_bitmap st)) [rp..<rp + n])"

lemma mask_up: "m < 32 \<Longrightarrow> push_bit 1 (push_bit m 1) = (0 :: u32) \<longleftrightarrow> m = 31"
proof -
  assume m: "m < 32"
  show ?thesis
  proof
    assume z: "push_bit 1 (push_bit m 1) = (0 :: u32)"
    show "m = 31"
    proof (rule ccontr)
      assume "m \<noteq> 31"
      then have "bit (push_bit 1 (push_bit m 1) :: u32) (Suc m)" unfolding bit_push_bit_iff using m by simp
      then show False unfolding z by simp
    qed
  qed simp
qed

lemma compress_ok:
  "arrays_ok len st \<Longrightarrow> rp + n \<le> len \<Longrightarrow>
   compress n rp (rp div 32) (push_bit (rp mod 32) 1) (t_bitmap st ! (rp div 32)) st = Val (survivors n rp st)"
proof (induction n arbitrary: rp)
  case 0
  then show ?case by (simp add: survivors_def)
next
  case (Suc n)
  have l: "rp < length (t_buf st)" "Suc rp div 32 < length (t_bitmap st)" "rp div 32 < length (t_bitmap st)"
    using Suc.prems bitmap_bound [OF Suc.prems(1)] by (simp_all add: arrays_ok_def)
  have b: "t_bitmap st ! (rp div 32) AND push_bit (rp mod 32) 1 = 0 \<longleftrightarrow> rp \<notin> bits_of (t_bitmap st)"
    using l and_one_bit [of "t_bitmap st ! (rp div 32)" "rp mod 32"] by (auto simp: bits_of_def)
  have m: "push_bit 1 (push_bit (rp mod 32) 1) = (0 :: u32) \<longleftrightarrow> rp mod 32 = 31" by (rule mask_up) simp
  have ih: "compress n (Suc rp) (Suc rp div 32) (push_bit (Suc rp mod 32) 1) (t_bitmap st ! (Suc rp div 32)) st
      = Val (survivors n (Suc rp) st)"
    by (rule Suc.IH) (use Suc.prems in simp_all)
  have s: "survivors (Suc n) rp st
      = (if rp \<notin> bits_of (t_bitmap st) then t_buf st ! rp # survivors n (Suc rp) st else survivors n (Suc rp) st)"
  proof -
    have "[rp..<rp + Suc n] = rp # [Suc rp..<Suc rp + n]" by (simp add: upt_conv_Cons del: upt_Suc)
    then show ?thesis by (simp add: survivors_def del: upt_Suc)
  qed
  have f: "filter_at (int rp) st = Val (t_buf st ! rp)" using l by (simp add: filter_at_def)
  show ?case
  proof (cases "rp mod 32 = 31")
    case True
    then have d: "Suc rp div 32 = Suc (rp div 32)" "Suc rp mod 32 = 0" by (simp_all add: div_Suc mod_Suc)
    show ?thesis unfolding compress.simps f tbind.simps Let_def m b s
      using ih True d l by (simp add: read_word_def lift_def)
  next
    case False
    then have d: "Suc rp div 32 = rp div 32" "Suc rp mod 32 = Suc (rp mod 32)" by (simp_all add: div_Suc mod_Suc split: if_splits)
    have p: "push_bit 1 (push_bit (rp mod 32) 1) = (push_bit (Suc (rp mod 32)) 1 :: u32)" by (simp add: push_bit_push_bit)
    have m': "2 ^ (rp mod 32) * 2 = (0 :: u32) \<longleftrightarrow> rp mod 32 = 31" using m by (simp add: push_bit_eq_mult)
    show ?thesis unfolding compress.simps f tbind.simps Let_def b s
      using ih False d by (simp add: m' mult.commute [of 2])
  qed
qed

section \<open>The translation\<close>

text \<open>The input: the instructions read, zeros behind them, and room for the filters.\<close>

definition trans_input :: "nat \<Rightarrow> ebpf_insn list \<Rightarrow> sock_filter list \<Rightarrow> bool" where
  "trans_input len insns buf \<longleftrightarrow>
     len + 10 \<le> length insns \<and> len \<le> length buf
     \<and> (\<forall>k. len \<le> k \<longrightarrow> k < length insns \<longrightarrow> bi_code (insns ! k) = 0)"

lemma start_ok:
  assumes "trans_input len insns buf" "check_jumps len insns"
  shows "arrays_ok len (start_trans insns len buf)"
proof -
  have "0 \<le> sint (bi_off (insns ! k)) \<and> int k + 1 + sint (bi_off (insns ! k)) < int len"
    if "k < len" "jumps (insns ! k)" for k
    using assms(2) that by (auto simp: check_jumps_def jump_in_range_def jumps_def)
  then show ?thesis using assms(1) by (simp add: arrays_ok_def start_trans_def trans_input_def)
qed

lemma prologue_ok:
  assumes "arrays_ok len st"
  shows "tsafe (check_prologue st) (\<lambda>_. 3 \<le> len)"
proof -
  have r: "insn_at 0 st = Val (t_insns st ! 0)" "insn_at 1 st = Val (t_insns st ! 1)" "insn_at 2 st = Val (t_insns st ! 2)"
    using insn_at_Val [OF assms, of 0] insn_at_Val [OF assms, of 1] insn_at_Val [OF assms, of 2] by simp_all
  have "E_CLASS (bi_code (t_insns st ! 2)) = 0x07 \<Longrightarrow> 2 < len"
    using code_inside [OF assms, of 2] by (fastforce simp: E_CLASS_def)
  then have "E_CLASS (bi_code (t_insns st ! 2)) = 0x07 \<Longrightarrow> 3 \<le> len" by simp
  then show ?thesis unfolding check_prologue_def r tbind.simps by (simp only: tsafe_assert tsafe_simps) blast
qed

lemma trans_passes_ok:
  assumes inp: "trans_input len insns buf"
  shows "tsafe (trans_passes len False (start_trans insns len buf)) (\<lambda>fs. length fs \<le> len - 3)"
proof -
  let ?st = "start_trans insns len buf"
  have "tsafe (check_prologue ?st) (\<lambda>_. 3 \<le> len)" if "check_jumps len insns"
    by (rule prologue_ok [OF start_ok [OF inp that]])
  moreover have "tsafe (fold_pass len 3 ?st) (folded_to len len)" if c: "check_jumps len insns"
    by (rule fold_pass_ok)
      (use start_ok [OF inp c] in \<open>simp_all add: folded_to_def unused_from_def start_trans_def\<close>)
  moreover have "tsafe (tbind (lift (read_word (t_bitmap st) ((len - 1) div 32))) (\<lambda>w.
        tbind (relocate_pass len (int ((len - 1) div 32)) (push_bit ((len - 1) mod 32) 1) w st) (\<lambda>st.
        tbind (lift (read_word (t_bitmap st) 0)) (\<lambda>w. compress (len - 3) 3 0 8 w st)))) (\<lambda>fs. length fs \<le> len - 3)"
    if st: "folded_to len len st" and len: "3 \<le> len" for st
  proof -
    have ok: "arrays_ok len st" using st by (simp add: folded_to_def)
    obtain m where m: "len = Suc m" using len by (cases len) auto
    have "relocating len m st" using st m by (simp add: folded_to_def relocating_def)
    moreover have l: "m div 32 < length (t_bitmap st)" by (rule bitmap_bound [OF ok]) (simp add: m)
    then have "cached m (int (m div 32)) (push_bit (m mod 32) 1) (t_bitmap st ! (m div 32)) (t_bitmap st)"
      by (simp add: cached_def bits_of_def)
    ultimately have "tsafe (relocate_pass len (int (m div 32)) (push_bit (m mod 32) 1) (t_bitmap st ! (m div 32)) st)
        (arrays_ok len)" unfolding m by (rule relocate_pass_ok)
    then have "tsafe (tbind (relocate_pass len (int (m div 32)) (push_bit (m mod 32) 1) (t_bitmap st ! (m div 32)) st) (\<lambda>st.
        tbind (lift (read_word (t_bitmap st) 0)) (\<lambda>w. compress (len - 3) 3 0 8 w st))) (\<lambda>fs. length fs \<le> len - 3)"
    proof (rule tsafe_bindI)
      fix st' assume ok': "arrays_ok len st'"
      have "0 < length (t_bitmap st')" using bitmap_bound [OF ok', of 0] by simp
      moreover have "length (survivors (len - 3) 3 st') \<le> len - 3"
        by (simp add: survivors_def order_trans [OF length_filter_le])
      ultimately show "tsafe (tbind (lift (read_word (t_bitmap st') 0)) (\<lambda>w. compress (len - 3) 3 0 8 w st')) (\<lambda>fs. length fs \<le> len - 3)"
        using compress_ok [OF ok', of 3 "len - 3"] len by (simp add: read_word_def lift_def)
    qed
    then show ?thesis using l by (simp add: m read_word_def lift_def)
  qed
  ultimately show ?thesis
    unfolding trans_passes_def Let_def
    by (auto simp del: tsafe_bind simp add: start_trans_def [of insns] intro!: tsafe_bindI)
qed

lemma ebpf2cbpf_safe:
  assumes "trans_input len insns buf"
  shows "ebpf2cbpf insns len buf False = Die M_DISASM_TERMINATED
    \<or> (\<exists>fs. ebpf2cbpf insns len buf False = Done (Some fs) \<and> length fs \<le> len - 3)"
proof -
  have "length insns < len \<longleftrightarrow> False" using assms by (simp add: trans_input_def)
  with trans_passes_ok [OF assms] show ?thesis
    by (auto simp: ebpf2cbpf_def tsafe_def split: tres.splits)
qed

end
