(* ===== verification/Trans_Facts.thy ===== *)
theory Trans_Facts
  imports Bpf_Trans_Safe
begin

text \<open>
  The properties of the bit map and of the translation of eBPF instructions to classic filters.
\<close>

text \<open>C31: \<open>setbits\<close> marks exactly the \<open>count\<close> instructions from \<open>fromidx\<close>, also across a word of
  the map, and \<open>countbits\<close> counts the marks of a range of any length.\<close>

theorem bitmap_marks_and_counts:
  assumes "n < 32" "f + n < 32 * length b" "i \<le> j" "j < 32 * length b"
  shows "\<exists>b'. setbits f n b = Done b' \<and> length b' = length b
    \<and> countbits i j b' = Done (card ((bits_of b \<union> {f..<f + n}) \<inter> {i..<j}))"
  using setbits_ok [OF assms(1,2)] countbits_ok [OF assms(3)] assms(4) by metis

theorem bitmap_marks_and_counts_witness:
  "\<exists>b'. setbits 29 5 [7, 0] = Done b' \<and> length b' = length [7 :: u32, 0]
    \<and> countbits 0 33 b' = Done (card ((bits_of [7, 0] \<union> {29..<29 + 5}) \<inter> {0..<33}))"
  by (rule bitmap_marks_and_counts) simp_all

text \<open>C8: no instruction sequence, however it was made, makes the translation read or write outside
  of its arrays when the input is not trusted: it ends with the filters or with the message,
  and there are never more filters than instructions behind the prologue.\<close>

theorem translation_memory_safe:
  assumes "trans_input len insns buf"
  shows "ebpf2cbpf insns len buf False = Die M_DISASM_TERMINATED
    \<or> (\<exists>fs. ebpf2cbpf insns len buf False = Done (Some fs) \<and> length fs \<le> len - 3)"
  by (rule ebpf2cbpf_safe [OF assms])

text \<open>The prologue of the kernel, a comparison with two branches, and two returns.\<close>

definition sample_ebpf :: "ebpf_insn list" where
  "sample_ebpf =
    [\<lparr>bi_code = 0xac, bi_dst = 0, bi_src = 0, bi_off = 0, bi_imm = 0\<rparr>,
     \<lparr>bi_code = 0xac, bi_dst = 7, bi_src = 7, bi_off = 0, bi_imm = 0\<rparr>,
     \<lparr>bi_code = 0xbf, bi_dst = 6, bi_src = 1, bi_off = 0, bi_imm = 0\<rparr>,
     \<lparr>bi_code = 0x61, bi_dst = 0, bi_src = 6, bi_off = 4, bi_imm = 0\<rparr>,
     \<lparr>bi_code = 0x55, bi_dst = 0, bi_src = 0, bi_off = 2, bi_imm = 59\<rparr>,
     \<lparr>bi_code = 0xb4, bi_dst = 0, bi_src = 0, bi_off = 0, bi_imm = 0\<rparr>,
     \<lparr>bi_code = 0x95, bi_dst = 0, bi_src = 0, bi_off = 0, bi_imm = 0\<rparr>,
     \<lparr>bi_code = 0xb4, bi_dst = 0, bi_src = 0, bi_off = 0, bi_imm = 0x7fff0000\<rparr>,
     \<lparr>bi_code = 0x95, bi_dst = 0, bi_src = 0, bi_off = 0, bi_imm = 0\<rparr>]
    @ replicate 10 zero_insn"

theorem translation_memory_safe_witness:
  "ebpf2cbpf sample_ebpf 9 (replicate 9 (CBPF_STMT 0 0)) False = Die M_DISASM_TERMINATED
    \<or> (\<exists>fs. ebpf2cbpf sample_ebpf 9 (replicate 9 (CBPF_STMT 0 0)) False = Done (Some fs) \<and> length fs \<le> 9 - 3)"
proof (rule translation_memory_safe)
  have "bi_code (sample_ebpf ! k) = 0" if "9 \<le> k" "k < 19" for k
  proof -
    have "k = 9 \<or> k = 10 \<or> k = 11 \<or> k = 12 \<or> k = 13 \<or> k = 14 \<or> k = 15 \<or> k = 16 \<or> k = 17 \<or> k = 18"
      using that by presburger
    then show ?thesis by (auto simp: sample_ebpf_def zero_insn_def numeral_eq_Suc)
  qed
  moreover have "length sample_ebpf = 19" by (simp add: sample_ebpf_def)
  ultimately show "trans_input 9 sample_ebpf (replicate 9 (CBPF_STMT 0 0))" by (simp add: trans_input_def)
qed

text \<open>The translation of a trusted program with the prologue of the kernel, a comparison and
  two returns is the filter \<open>ld; jeq 59, 0, 1; ret KILL; ret ALLOW\<close>.\<close>

lemma translation_sample:
  "ebpf2cbpf sample_ebpf 9 (replicate 9 (CBPF_STMT 0 0)) True =
    Done (Some [CBPF_STMT 0x20 4, CBPF_JMP 0x15 59 0 1, CBPF_STMT 0x06 0, CBPF_STMT 0x06 0x7fff0000])"
  by code_simp

end
