(* ===== verification/Str_Pile.thy ===== *)
theory Str_Pile
  imports Prelude
begin

text \<open>
  \<open>src/utils/str_pile.c\<close>: the memory the names of system calls are copied to. The pile is its
  content up to the cursor and its size; a string that \<open>persist_object\<close> returns is its
  characters. \<open>mmap\<close> is assumed to succeed.
\<close>

record str_pile =
  pile_text :: string
  pile_size :: nat

text \<open>The size is aligned up to a page.\<close>

definition init_pile :: "nat \<Rightarrow> str_pile" where
  "init_pile init_size = \<lparr>pile_text = [], pile_size = (init_size + 0xfff) div 0x1000 * 0x1000\<rparr>"

definition pile_put :: "string \<Rightarrow> str_pile \<Rightarrow> str_pile" where
  "pile_put t p = p\<lparr>pile_text := pile_text p @ t\<rparr>"

definition persist_object :: "string \<Rightarrow> string option \<Rightarrow> str_pile \<Rightarrow> (string \<times> str_pile) cres" where
  "persist_object sysname arch p =
     (let size = (case arch of Some a \<Rightarrow> length a + 1 + length sysname | None \<Rightarrow> length sysname) in
      if pile_size p < length (pile_text p) + size then Crash ''assert (pile_cursor + size <= pile_top)''
      else
        let p = (case arch of None \<Rightarrow> p | Some a \<Rightarrow> pile_put ''.'' (pile_put a p));
            p = pile_put sysname p
        in Done (drop (length (pile_text p) - size) (pile_text p), p))"

text \<open>What is returned is the name, behind the architecture and a dot if one is given.\<close>

definition full_name :: "string \<Rightarrow> string option \<Rightarrow> string" where
  "full_name sysname arch = (case arch of None \<Rightarrow> sysname | Some a \<Rightarrow> a @ ''.'' @ sysname)"

lemma persist_object_name:
  "persist_object sysname arch p = Done (t, p') \<longleftrightarrow>
     length (pile_text p) + length (full_name sysname arch) \<le> pile_size p
     \<and> t = full_name sysname arch \<and> p' = pile_put (full_name sysname arch) p"
  by (cases arch) (auto simp: persist_object_def full_name_def pile_put_def Let_def)

lemma persist_object_crash:
  "persist_object sysname arch p = Crash m \<Longrightarrow> pile_size p < length (pile_text p) + length (full_name sysname arch)"
  by (auto simp: persist_object_def full_name_def Let_def split: option.splits if_splits)

lemma persist_object_no_die: "persist_object sysname arch p \<noteq> Die m"
  by (simp add: persist_object_def Let_def)

end
