(* ===== verification/Render.thy ===== *)
theory Render
  imports Statements Arch_Trans Str_Pile Bpf
begin

text \<open>
  \<open>src/resolver/render.c\<close>: what the registers and words hold is followed through a decoded
  program, so that numbers compared with the architecture or the system call number are shown
  by name. The array \<open>list\<close> and the pile are the state; an access outside of the array is
  \<open>Crash\<close>. Names come from libseccomp (\<open>syscall_resolve_num_arch\<close> of the library record).
\<close>

section \<open>Contexts\<close>

datatype stat_t = St_NONE | St_ARCH | St_SYSNR | St_MIXED

record stat_ctx_t =
  A_stat :: stat_t
  X_stat :: stat_t
  mem_stat :: "stat_t list"
  ctx_arch :: u32

definition no_ctx :: stat_ctx_t where
  "no_ctx = \<lparr>A_stat = St_NONE, X_stat = St_NONE, mem_stat = replicate BPF_MEMWORDS St_NONE, ctx_arch = 0\<rparr>"

text \<open>\<open>NONE\<close> and \<open>MIXED\<close> as architectures.\<close>

abbreviation (input) ARCH_NONE :: u32 where "ARCH_NONE \<equiv> 0"
abbreviation (input) ARCH_MIXED :: u32 where "ARCH_MIXED \<equiv> 3"

record render_state =
  rd_list :: "stat_ctx_t list"
  rd_pile :: str_pile

definition set_stat :: "stat_t \<Rightarrow> stat_t \<Rightarrow> bool \<Rightarrow> stat_t" where
  "set_stat dest src force =
     (if force \<or> dest = St_NONE then src
      else if dest \<noteq> src then St_MIXED
      else dest)"

definition at_ctx :: "nat \<Rightarrow> render_state \<Rightarrow> stat_ctx_t cres" where
  "at_ctx i rs = (if i < length (rd_list rs) then Done (rd_list rs ! i) else Crash ''access outside list'')"

definition put_ctx :: "nat \<Rightarrow> stat_ctx_t \<Rightarrow> render_state \<Rightarrow> render_state" where
  "put_ctx i c rs = rs\<lparr>rd_list := (rd_list rs)[i := c]\<rparr>"

definition set_arch :: "nat \<Rightarrow> u32 \<Rightarrow> render_state \<Rightarrow> render_state cres" where
  "set_arch dest_idx src rs =
     cbind (at_ctx dest_idx rs) (\<lambda>d.
     Done (if ctx_arch d = ARCH_NONE then put_ctx dest_idx (d\<lparr>ctx_arch := src\<rparr>) rs
           else if ctx_arch d \<noteq> src then put_ctx dest_idx (d\<lparr>ctx_arch := ARCH_MIXED\<rparr>) rs
           else rs))"

definition set_ctx :: "nat \<Rightarrow> nat \<Rightarrow> bool \<Rightarrow> render_state \<Rightarrow> render_state cres" where
  "set_ctx dest_idx src_idx force rs =
     cbind (at_ctx dest_idx rs) (\<lambda>d.
     cbind (at_ctx src_idx rs) (\<lambda>s.
     Done (put_ctx dest_idx
       (d\<lparr>A_stat := set_stat (A_stat d) (A_stat s) force,
          X_stat := set_stat (X_stat d) (X_stat s) force,
          mem_stat := map2 (\<lambda>x y. set_stat x y force) (mem_stat d) (mem_stat s)\<rparr>) rs)))"

section \<open>Lines\<close>

definition read_mem_stat :: "u32 \<Rightarrow> stat_ctx_t \<Rightarrow> stat_t cres" where
  "read_mem_stat i ctx =
     (if unat i < length (mem_stat ctx) then Done (mem_stat ctx ! unat i) else Crash ''read outside mem_stat'')"

definition right_stat :: "assign_line_t \<Rightarrow> stat_ctx_t \<Rightarrow> stat_t cres" where
  "right_stat al ctx =
     (let right = right_var al; rt = obj_type right in
      if operator al \<noteq> EQUAL then Done St_MIXED
      else if rt = ATTR_SYSCALL then Done St_SYSNR
      else if rt = ATTR_ARCH then Done St_ARCH
      else if rt = Tk_A then Done (A_stat ctx)
      else if rt = Tk_X then Done (X_stat ctx)
      else if rt = MEM then read_mem_stat (obj_data right) ctx
      else Done St_MIXED)"

definition assign_line :: "assign_line_t \<Rightarrow> stat_ctx_t \<Rightarrow> stat_ctx_t cres" where
  "assign_line al ctx =
     (let left = left_var al; lt = obj_type left in
      if lt = Tk_A then
        cbind (right_stat al ctx) (\<lambda>r. Done (ctx\<lparr>A_stat := set_stat (A_stat ctx) r True\<rparr>))
      else if lt = Tk_X then
        cbind (right_stat al ctx) (\<lambda>r. Done (ctx\<lparr>X_stat := set_stat (X_stat ctx) r True\<rparr>))
      else if lt = MEM then
        cbind (right_stat al ctx) (\<lambda>r.
        cbind (read_mem_stat (obj_data left) ctx) (\<lambda>d.
        Done (ctx\<lparr>mem_stat := (mem_stat ctx)[unat (obj_data left) := set_stat d r True]\<rparr>)))
      else Crash ''Unknown left value type'')"

definition try_resolve_arch :: "scmp_lib \<Rightarrow> obj_t \<Rightarrow> obj_t" where
  "try_resolve_arch lib obj =
     (case scmp_arch_to_internal_str lib (obj_data obj) of
        None \<Rightarrow> obj
      | Some s \<Rightarrow> obj\<lparr>obj_type := IDENTIFIER, literal := Some s\<rparr>)"

definition try_resolve_sysnr ::
  "scmp_lib \<Rightarrow> u32 \<Rightarrow> u32 \<Rightarrow> obj_t \<Rightarrow> render_state \<Rightarrow> (obj_t \<times> render_state) cres" where
  "try_resolve_sysnr lib default_arch cur_arch obj rs =
     (if cur_arch = ARCH_NONE then Done (obj, rs)
      else
        case syscall_resolve_num_arch lib cur_arch (obj_data obj) of
          None \<Rightarrow> Done (obj, rs)
        | Some sys_name \<Rightarrow>
            (let arch_str = (if cur_arch \<noteq> default_arch then scmp_arch_to_internal_str lib cur_arch else None) in
             cbind (persist_object sys_name arch_str (rd_pile rs)) (\<lambda>(s, p).
             Done (obj\<lparr>obj_type := IDENTIFIER, literal := Some s\<rparr>, rs\<lparr>rd_pile := p\<rparr>))))"

text \<open>The architecture that is known behind a comparison with the architecture.\<close>

definition set_arch_jump ::
  "stat_ctx_t \<Rightarrow> token_type \<Rightarrow> u32 \<Rightarrow> nat \<Rightarrow> nat \<Rightarrow> render_state \<Rightarrow> render_state cres" where
  "set_arch_jump ctx cmp_op cmp_data abs_jt abs_jf rs =
     (if A_stat ctx \<noteq> St_ARCH then
        cbind (set_arch abs_jt (ctx_arch ctx) rs) (set_arch abs_jf (ctx_arch ctx))
      else if cmp_op = EQUAL_EQUAL \<or> cmp_op = BANG_EQUAL then
        cbind (set_arch (if cmp_op = EQUAL_EQUAL then abs_jt else abs_jf) cmp_data rs)
          (set_arch (if cmp_op = EQUAL_EQUAL then abs_jf else abs_jt) ARCH_MIXED)
      else Done rs)"

definition jump_line ::
  "scmp_lib \<Rightarrow> u32 \<Rightarrow> nat \<Rightarrow> jump_line_t \<Rightarrow> render_state \<Rightarrow> (jump_line_t \<times> render_state) cres" where
  "jump_line lib default_arch pc j rs =
     (let abs_jt = pc + unat (label_nr (jt j)) + 1; abs_jf = pc + unat (label_nr (jf j)) + 1 in
      if \<not> if_condition j then
        cbind (set_ctx abs_jt pc False rs) (\<lambda>rs.
        cbind (at_ctx pc rs) (\<lambda>ctx.
        cbind (set_arch abs_jt (ctx_arch ctx) rs) (\<lambda>rs. Done (j, rs))))
      else
        cbind (set_ctx abs_jt pc False rs) (\<lambda>rs.
        cbind (set_ctx abs_jf pc False rs) (\<lambda>rs.
        cbind (at_ctx pc rs) (\<lambda>ctx.
        cbind (set_arch_jump ctx (comparator j) (obj_data (cmpobj j)) abs_jt abs_jf rs) (\<lambda>rs.
        if A_stat ctx = St_ARCH then Done (j\<lparr>cmpobj := try_resolve_arch lib (cmpobj j)\<rparr>, rs)
        else if A_stat ctx = St_SYSNR then
          cbind (try_resolve_sysnr lib default_arch (ctx_arch ctx) (cmpobj j) rs) (\<lambda>(obj, rs).
          Done (j\<lparr>cmpobj := obj\<rparr>, rs))
        else Done (j, rs))))))"

definition render_statement ::
  "scmp_lib \<Rightarrow> u32 \<Rightarrow> statement_t \<Rightarrow> render_state \<Rightarrow> (statement_t \<times> render_state) cres" where
  "render_statement lib default_arch st rs =
     (let pc = unat (code_nr st) in
      case line st of
        ASSIGN_LINE al \<Rightarrow>
          cbind (at_ctx pc rs) (\<lambda>ctx.
          cbind (assign_line al ctx) (\<lambda>ctx.
          cbind (set_ctx (pc + 1) pc False (put_ctx pc ctx rs)) (\<lambda>rs.
          cbind (set_arch (pc + 1) (ctx_arch ctx) rs) (\<lambda>rs. Done (st, rs)))))
      | JUMP_LINE j \<Rightarrow>
          cbind (jump_line lib default_arch pc j rs) (\<lambda>(j, rs). Done (st\<lparr>line := JUMP_LINE j\<rparr>, rs))
      | RETURN_LINE r \<Rightarrow> Done (st, rs)
      | _ \<Rightarrow> Crash ''type should not be EMPTY, EOF or ERROR'')"

section \<open>The program\<close>

fun render_loop ::
  "scmp_lib \<Rightarrow> u32 \<Rightarrow> statement_t list \<Rightarrow> render_state \<Rightarrow> (statement_t list \<times> render_state) cres" where
  "render_loop lib default_arch [] rs = Done ([], rs)"
| "render_loop lib default_arch (st # sts) rs =
     cbind (render_statement lib default_arch st rs) (\<lambda>(st, rs).
     cbind (render_loop lib default_arch sts rs) (\<lambda>(sts, rs). Done (st # sts, rs)))"

definition start_list :: "nat \<Rightarrow> u32 \<Rightarrow> stat_ctx_t list" where
  "start_list n scmp_arch = (replicate (n + 1) no_ctx)[1 := no_ctx\<lparr>ctx_arch := scmp_arch\<rparr>]"

text \<open>\<open>T\<close> are the elements of the vector, with the skipped one in front.\<close>

definition render ::
  "scmp_lib \<Rightarrow> u32 \<Rightarrow> statement_t list \<Rightarrow> str_pile \<Rightarrow> (statement_t list \<times> str_pile) cres" where
  "render lib scmp_arch T p =
     cbind (render_loop lib scmp_arch (tl T) \<lparr>rd_list = start_list (length T) scmp_arch, rd_pile = p\<rparr>)
       (\<lambda>(sts, rs). Done (take 1 T @ sts, rd_pile rs))"

end
