(* ===== verification/Disasm.thy ===== *)
theory Disasm
  imports Read_Source Decoder Formatter Render Bpf_Trans
begin

text \<open>
  \<open>src/disasm.c\<close>: from the bytes of a filter program, classic or extended, to the listing. The
  input is its bytes together with what each \<open>read\<close> call does: fail (\<open>None\<close>), or return at
  most so many bytes (\<open>Some k\<close>: at most \<open>k + 1\<close>); calls without an entry return all that is
  asked for. The memory calls are assumed to succeed, apart from the size 0 that a wrapped
  \<open>map_size\<close> asks for. What is written to the standard output is the result, and the
  messages (as in \<open>Messages\<close>, with their conversions) are the log.
\<close>

section \<open>Reading\<close>

text \<open>\<open>init_global_filters\<close>: the filters of whole pages, zeroed, unless they are there.\<close>

definition init_global_filters :: "nat \<Rightarrow> sock_filter list option \<Rightarrow> sock_filter list option" where
  "init_global_filters insn_count g_filters =
     (case g_filters of
        Some fs \<Rightarrow> Some fs
      | None \<Rightarrow> Some (replicate ((8 * (insn_count + 1) + 0xfff) div 0x1000 * 0x1000 div 8) zero_filter))"

text \<open>The number of bytes a \<open>read\<close> of \<open>todo\<close> bytes may return; \<open>None\<close> is an error.\<close>

fun read_limit :: "nat \<Rightarrow> nat option list \<Rightarrow> nat option" where
  "read_limit todo [] = Some todo"
| "read_limit todo (None # rs) = None"
| "read_limit todo (Some k # rs) = Some (min todo (k + 1))"

function read_filters_loop :: "nat \<Rightarrow> u8 list \<Rightarrow> nat option list \<Rightarrow> u8 list \<Rightarrow> (nat \<times> u8 list) cres" where
  "read_filters_loop todo input reads got =
     (if todo = 0 then Done (todo, got)
      else
        case read_limit todo reads of
          None \<Rightarrow> Die M_READ_FAIL
        | Some n \<Rightarrow>
            if input = [] \<or> n = 0 then Done (todo, got)
            else read_filters_loop (todo - min n (length input)) (drop n input) (tl reads) (got @ take n input))"
  by pat_completeness auto
termination
  by (relation "measure (\<lambda>(todo, input, reads, got). length input)") auto

declare read_filters_loop.simps [simp del]

definition filters_of :: "bool \<Rightarrow> u8 list \<Rightarrow> sock_filter list" where
  "filters_of big bs = map (\<lambda>i. filter_of_bytes big (take 8 (drop (8 * i) bs))) [0..<length bs div 8]"

definition read_filters :: "bool \<Rightarrow> u8 list \<Rightarrow> nat option list \<Rightarrow> (sock_filter list \<times> string list) cres" where
  "read_filters big input reads =
     cbind (read_filters_loop (8 * (BPF_MAXINSNS + 1)) input reads []) (\<lambda>(todo, got).
     if todo = 0 then Die M_TOO_LARGE_INPUT
     else Done (filters_of big got, if length got mod 8 \<noteq> 0 then [M_INPUT_HAS_LEFTOVER] else []))"

text \<open>A \<open>struct bpf_insn\<close> from its eight bytes; the bit fields follow the byte order.\<close>

definition insn_of_bytes :: "bool \<Rightarrow> u8 list \<Rightarrow> ebpf_insn" where
  "insn_of_bytes big bs =
     (case bs of
        [a, b, c, d, e, f, g, h] \<Rightarrow>
          \<lparr>bi_code = a,
           bi_dst = ucast (if big then drop_bit 4 b else b),
           bi_src = ucast (if big then b else drop_bit 4 b),
           bi_off = (if big then of_bytes16 d c else of_bytes16 c d),
           bi_imm = (if big then of_bytes32 h g f e else of_bytes32 e f g h)\<rparr>
      | _ \<Rightarrow> zero_insn)"

definition insns_of :: "bool \<Rightarrow> u8 list \<Rightarrow> ebpf_insn list" where
  "insns_of big bs = map (\<lambda>i. insn_of_bytes big (take 8 (drop (8 * i) bs))) [0..<length bs div 8]"

abbreviation (input) BLK_SIZE :: nat where "BLK_SIZE \<equiv> 0x2000"

text \<open>\<open>LOCAL_REMAP\<close>: \<open>map_size + size\<close> has 32 bits, and \<open>mremap\<close> refuses the size 0.\<close>

definition local_remap :: "nat \<Rightarrow> nat \<Rightarrow> nat cres" where
  "local_remap map_size grow =
     (if 2 ^ 32 \<le> map_size + grow then Crash ''assert (insns)'' else Done (map_size + grow))"

function read_insns_loop ::
  "nat \<Rightarrow> nat \<Rightarrow> u8 list \<Rightarrow> nat option list \<Rightarrow> u8 list \<Rightarrow> (nat \<times> u8 list) cres" where
  "read_insns_loop todo map_size input reads got =
     (case read_limit todo reads of
        None \<Rightarrow> Die M_READ_FAIL
      | Some n \<Rightarrow>
          if input = [] \<or> n = 0 then Done (map_size, got)
          else
            let rc = min n (length input) in
            if todo - rc = 0 then
              cbind (local_remap map_size BLK_SIZE) (\<lambda>map_size.
              read_insns_loop BLK_SIZE map_size (drop n input) (tl reads) (got @ take n input))
            else read_insns_loop (todo - rc) map_size (drop n input) (tl reads) (got @ take n input))"
  by pat_completeness auto
termination
  by (relation "measure (\<lambda>(todo, map_size, input, reads, got). length input)") auto

declare read_insns_loop.simps [simp del]

text \<open>The instructions of the whole map, zeros behind the input, and how many were read.\<close>

definition read_insns :: "bool \<Rightarrow> u8 list \<Rightarrow> nat option list \<Rightarrow> (ebpf_insn list \<times> nat \<times> string list) cres" where
  "read_insns big input reads =
     cbind (read_insns_loop BLK_SIZE BLK_SIZE input reads []) (\<lambda>(map_size, got).
     let leftover = length got mod 8; offset = length got - leftover in
     cbind (if map_size - offset < 0x50 then local_remap map_size 0x1000 else Done map_size) (\<lambda>map_size.
     Done (insns_of big (take offset got @ replicate (map_size - offset) 0), offset div 8,
       if leftover \<noteq> 0 then [M_INPUT_HAS_LEFTOVER] else [])))"

section \<open>Printing\<close>

definition separator :: string where
  "separator = replicate 33 CHR ''-''"

text \<open>\<open>snprintf\<close> into 8 bytes, and the separator cut to what is left of its length.\<close>

definition pid_comment :: "nat \<Rightarrow> string" where
  "pid_comment pid =
     (let pid_text = take 7 (dec_str pid); text_len = length (dec_str pid);
          rest = int (length separator) - 5 - int text_len
      in ''PID='' @ take text_len pid_text @ '' ''
         @ (if rest < 0 then separator else take (nat rest) separator))"

definition filter_columns :: "nat \<Rightarrow> sock_filter \<Rightarrow> string" where
  "filter_columns i f =
     '' '' @ default_label i @ '': 0x'' @ pad0 2 (hex_str (unat (sf_code f))) @ '' 0x'' @ pad0 2 (hex_str (unat (sf_jt f)))
     @ '' 0x'' @ pad0 2 (hex_str (unat (sf_jf f))) @ '' 0x'' @ pad0 8 (hex_str (unat (sf_k f))) @ '' ''"

fun print_filters :: "bool \<Rightarrow> nat \<Rightarrow> sock_filter list \<Rightarrow> statement_t list \<Rightarrow> string cres" where
  "print_filters color i (f # fs) (st # sts) =
     cbind (print_stmt color st) (\<lambda>s.
     cbind (print_filters color (Suc i) fs sts) (\<lambda>t. Done (filter_columns i f @ s @ t)))"
| "print_filters color i fs sts = Done []"

definition print_prog ::
  "scmp_lib \<Rightarrow> bool \<Rightarrow> u32 \<Rightarrow> sock_filter list \<Rightarrow> nat \<Rightarrow> bool \<Rightarrow> cp_state \<Rightarrow> (string \<times> cp_state) cres" where
  "print_prog lib color scmp_arch prog pid trustful cp =
     (if prog = [] then Crash ''assert (prog->len)''
      else
        cbind (decode_filters prog trustful cp) (\<lambda>(err, v, cp).
        cbind (if err then Done v
               else cbind (render lib scmp_arch v (init_pile (length prog * 40))) (\<lambda>(v, p). Done v)) (\<lambda>v.
        cbind (print_as_comment color ''Label  CODE  JT   JF      K'') (\<lambda>h.
        cbind (print_as_comment color (if pid = 0 then separator else pid_comment pid)) (\<lambda>s.
        cbind (print_filters color 1 prog (tl v)) (\<lambda>t.
        cbind (print_as_comment color separator) (\<lambda>e. Done (h @ s @ t @ e, cp))))))))"

section \<open>The command\<close>

text \<open>\<open>prog.len\<close> has 16 bits.\<close>

definition sock_fprog :: "sock_filter list \<Rightarrow> sock_filter list" where
  "sock_fprog fs = take (length fs mod 2 ^ 16) fs"

definition print_read ::
  "scmp_lib \<Rightarrow> bool \<Rightarrow> u32 \<Rightarrow> sock_filter list \<Rightarrow> string list \<Rightarrow> (string \<times> string list) cres" where
  "print_read lib color scmp_arch prog log =
     (if prog = [] then Done ([], log @ [M_NO_FILTER])
      else
        cbind (print_prog lib color scmp_arch prog 0 False start_cp) (\<lambda>(out, cp). Done (out, log @ cp_log cp)))"

definition disasm ::
  "scmp_lib \<Rightarrow> bool \<Rightarrow> bool \<Rightarrow> u32 \<Rightarrow> bool \<Rightarrow> u8 list \<Rightarrow> nat option list \<Rightarrow> (string \<times> string list) cres" where
  "disasm lib big color scmp_arch ebpf input reads =
     (let reverse = need_reverse_endian big scmp_arch in
      if ebpf then
        cbind (read_insns big input reads) (\<lambda>(insns, count, log).
        if count = 0 then Done ([], log @ [M_NO_FILTER])
        else
          let insns = (if reverse then map reverse_ebpf_endian (take count insns) @ drop count insns else insns);
              buf = (case init_global_filters count None of None \<Rightarrow> [] | Some fs \<Rightarrow> fs)
          in cbind (ebpf2cbpf insns count buf False) (\<lambda>r.
             case r of
               None \<Rightarrow> Crash ''assert (filter_len >= 0)''
             | Some fs \<Rightarrow> print_read lib color scmp_arch (sock_fprog fs) log))
      else
        cbind (read_filters big input reads) (\<lambda>(fs, log).
        print_read lib color scmp_arch (if reverse then map reverse_endian fs else fs) log))"

end
