(* ===== verification/Check_Sound.thy ===== *)
theory Check_Sound
  imports Filter_Safe
begin

text \<open>
  What it means that \<open>check_prog\<close> has nothing to say of a program, or only errors that are not
  fatal. Without a fatal error every instruction is known and every load of the data is
  inside it, so that the decoder has a statement for it. With no error at all, the jumps stay
  in the program and the indices and constants are in range too.
\<close>

section \<open>One filter\<close>

definition loads_ok :: "sock_filter \<Rightarrow> bool" where
  "loads_ok f \<longleftrightarrow> valid_insn (sf_code f) \<and> (sf_code f = 0x20 \<longrightarrow> unat (sf_k f) < 64 \<and> sf_k f AND 3 = 0)"

text \<open>The three outcomes: nothing, an error, a fatal error.\<close>

definition checked :: "nat \<Rightarrow> nat \<Rightarrow> sock_filter \<Rightarrow> cp_state \<Rightarrow> cp_state \<Rightarrow> bool" where
  "checked flen pc f st st' \<longleftrightarrow>
     length (cp_masks st') = length (cp_masks st)
     \<and> (fatal_count st' = fatal_count st \<and> error_count st' = error_count st \<and> filter_safe (- 1) flen pc f
        \<or> fatal_count st' = fatal_count st \<and> error_count st' = error_count st + 1 \<and> loads_ok f
        \<or> fatal_count st' = fatal_count st + 1 \<and> error_count st' = error_count st)"

lemma report_counts [simp]:
  "cp_masks (report_error f n i fatal msg st) = cp_masks st"
  "fatal_count (report_error f n i fatal msg st) = (if fatal then fatal_count st + 1 else fatal_count st)"
  "error_count (report_error f n i fatal msg st) = (if fatal then error_count st else error_count st + 1)"
  by (simp_all add: report_error_def Let_def)

lemma checked_error: "loads_ok f \<Longrightarrow> checked flen pc f st (report_error f n i False msg st)"
  by (simp add: checked_def)

lemma checked_fatal: "checked flen pc f st (report_error g n i True msg st)"
  by (simp add: checked_def)

lemma checked_quiet: "filter_safe (- 1) flen pc f \<Longrightarrow> quiet_from st st' \<Longrightarrow> checked flen pc f st st'"
  by (simp add: checked_def quiet_from_def)

lemma target_word:
  fixes w :: u8
  assumes "pc < flen" "flen < 65536"
  shows "flen \<le> pc + 1 + unat w \<longleftrightarrow> (of_nat flen :: u32) \<le> of_nat pc + ucast w + 1"
proof -
  have w: "unat w < 256" by (rule order_less_le_trans [OF unsigned_less]) simp
  have "unat (of_nat pc + ucast w + 1 :: u32) = pc + 1 + unat w"
    using assms w by (simp add: unat_word_ariths unat_of_nat unsigned_ucast_eq take_bit_nat_eq_self)
  then show ?thesis using assms(2) by (simp add: word_le_nat_alt unat_of_nat)
qed

lemma target_ja:
  fixes k :: u32
  assumes "pc < flen" "flen < 65536"
  shows "flen \<le> pc + 1 + unat k \<longleftrightarrow> (of_nat flen - of_nat pc - 1 :: u32) \<le> k"
proof -
  obtain e where e: "flen = pc + 1 + e" using le_Suc_ex [of "pc + 1" flen] assms(1) by auto
  then have w: "(of_nat flen - of_nat pc - 1 :: u32) = of_nat e" by simp
  have u: "unat (of_nat e :: u32) = e" using assms(2) e by (simp add: unat_of_nat)
  show ?thesis unfolding w word_le_nat_alt u using e by simp
qed

lemma jump_safe: "is_jump_code (sf_code f) \<Longrightarrow>
  filter_safe m flen pc f \<longleftrightarrow> pc + 1 + unat (sf_jt f) < flen \<and> pc + 1 + unat (sf_jf f) < flen"
  using jump_code(1,3) [of "sf_code f"] by (simp add: filter_safe_def Let_def)

lemma ja_safe: "sf_code f = 0x05 \<Longrightarrow> filter_safe m flen pc f \<longleftrightarrow> pc + 1 + unat (sf_k f) < flen"
  by (simp add: filter_safe_def Let_def valid_insn_simps not_jump_code)

lemma check_jump_total:
  assumes "is_jump_code (sf_code f)" "pc < flen" "flen < 65536" "length (cp_masks st) = flen"
  shows "\<exists>st'. check_jump f (of_nat pc) (of_nat flen) st = Done st' \<and> checked flen pc f st st'"
proof (cases "pc + 1 + unat (sf_jt f) < flen \<and> pc + 1 + unat (sf_jf f) < flen")
  case True
  with check_jump_ok [of pc f flen st] assms show ?thesis by (auto simp: jump_safe intro!: checked_quiet)
next
  case False
  then have "loads_ok f" using jump_code(1,3) [OF assms(1)] by (simp add: loads_ok_def)
  with False target_word [OF assms(2,3)] show ?thesis
    by (auto simp: check_jump_def not_less intro!: checked_error)
qed

lemma check_ja_total:
  assumes "sf_code f = 0x05" "pc < flen" "flen < 65536" "length (cp_masks st) = flen"
  shows "\<exists>st'. check_ja f (of_nat pc) (of_nat flen) st = Done st' \<and> checked flen pc f st st'"
proof (cases "pc + 1 + unat (sf_k f) < flen")
  case True
  with check_ja_ok [of pc f flen st] assms show ?thesis by (auto simp: ja_safe intro!: checked_quiet)
next
  case False
  then have "loads_ok f" using assms(1) by (simp add: loads_ok_def valid_insn_simps)
  with False target_ja [OF assms(2,3)] show ?thesis
    by (auto simp: check_ja_def not_less intro!: checked_error)
qed

lemma mem_safe:
  "sf_code f \<in> {0x60, 0x61, 0x02, 0x03} \<Longrightarrow> filter_safe (- 1) flen pc f \<longleftrightarrow> unat (sf_k f) < BPF_MEMWORDS"
  by (auto simp: filter_safe_def Let_def valid_insn_simps not_jump_code BPF_MEMWORDS_def bit_simps)

lemma check_mem_total:
  assumes "sf_code f \<in> {0x60, 0x61, 0x02, 0x03}"
  shows "\<exists>st'. check_mem store f pc' st = Done st' \<and> checked flen pc f st st'"
proof -
  have l: "loads_ok f" using assms by (auto simp: loads_ok_def valid_insn_simps)
  show ?thesis
  proof (cases "BPF_MEMWORDS \<le> unat (sf_k f)")
    case False
    then have "filter_safe (- 1) flen pc f" using mem_safe [OF assms] by simp
    with False l show ?thesis by (auto simp: check_mem_def checked_def)
  qed (simp add: check_mem_def checked_error [OF l])
qed

lemma check_filter_total:
  assumes "pc < flen" "flen < 65536" "length (cp_masks st) = flen"
  shows "\<exists>st'. check_filter f (of_nat pc) (of_nat flen) st = Done st' \<and> checked flen pc f st st'"
proof (cases "valid_insn (sf_code f)")
  case False
  then have nv: "MAX_VALID_INSN < sf_code f \<or> insn_name_map (sf_code f) = Done 0"
    by (simp add: insn_name_map_valid)
  show ?thesis unfolding check_filter_def Let_def if_P [OF nv] by (simp add: checked_fatal)
next
  case v: True
  then have nv: "\<not> (MAX_VALID_INSN < sf_code f \<or> insn_name_map (sf_code f) = Done 0)"
    by (simp add: insn_name_map_valid)
  note cf = check_filter_def [of f, unfolded Let_def if_not_P [OF nv]]
  note fs = filter_safe_def Let_def valid_insn_simps not_jump_code
  from v show ?thesis
  proof (cases rule: valid_insn_cases)
    case 1
    then show ?thesis
      by (auto simp: cf check_ld_abs_def checked_fatal word_le_nat_alt fs checked_def)
  next
    case 6
    then show ?thesis using alu_code [OF 6]
      by (auto simp: cf checked_def fs loads_ok_def word_le_nat_alt unat_gt_0)
  next
    case 11
    then show ?thesis using check_mem_total [of f False] by (simp add: cf)
  next
    case 12
    then show ?thesis using check_mem_total [of f False] by (simp add: cf)
  next
    case 13
    then show ?thesis using check_mem_total [of f True] by (simp add: cf)
  next
    case 14
    then show ?thesis using check_mem_total [of f True] by (simp add: cf)
  next
    case 15
    then show ?thesis using check_ja_total [OF 15 assms] by (simp add: cf)
  next
    case 16
    then show ?thesis using check_jump_total [OF 16 assms] jump_code(3) [OF 16] by (simp add: cf)
  qed (simp_all add: cf fs checked_def)
qed

section \<open>The program\<close>

text \<open>What has been found of the first \<open>i\<close> filters.\<close>

definition found :: "sock_filter list \<Rightarrow> nat \<Rightarrow> cp_state \<Rightarrow> bool" where
  "found prog i st \<longleftrightarrow>
     length (cp_masks st) = length prog \<and> unat (error_count st) \<le> i \<and> unat (fatal_count st) \<le> 6
     \<and> (fatal_count st = 0 \<longrightarrow> (\<forall>k < i. loads_ok (prog ! k)))
     \<and> (fatal_count st = 0 \<and> error_count st = 0 \<longrightarrow> (\<forall>k < i. filter_safe (- 1) (length prog) k (prog ! k)))"

lemma safe_loads: "filter_safe m flen pc f \<Longrightarrow> loads_ok f"
  by (auto simp: filter_safe_def loads_ok_def Let_def)

lemma found_step:
  assumes f: "found prog i st" "i < length prog" "length prog < 65536" "\<not> 5 < fatal_count st"
    and c: "checked (length prog) i (prog ! i) st st'"
  shows "found prog (Suc i) st'"
proof -
  have u: "unat (error_count st + 1) = Suc (unat (error_count st))"
    "unat (fatal_count st + 1) = Suc (unat (fatal_count st))" "unat (fatal_count st) \<le> 5"
    using f by (simp_all add: found_def unat_word_ariths word_less_nat_alt)
  then have nz: "error_count st + 1 \<noteq> 0" "fatal_count st + 1 \<noteq> 0" by (metis nat.distinct(1) unsigned_0)+
  show ?thesis using c unfolding checked_def
  proof (elim conjE disjE)
    assume "fatal_count st' = fatal_count st" "error_count st' = error_count st"
      "filter_safe (- 1) (length prog) i (prog ! i)" "length (cp_masks st') = length (cp_masks st)"
    then show ?thesis using f(1) safe_loads by (auto simp: found_def less_Suc_eq)
  next
    assume "fatal_count st' = fatal_count st" "error_count st' = error_count st + 1" "loads_ok (prog ! i)"
      "length (cp_masks st') = length (cp_masks st)"
    then show ?thesis using f(1) u nz by (auto simp: found_def less_Suc_eq)
  next
    assume "fatal_count st' = fatal_count st + 1" "error_count st' = error_count st"
      "length (cp_masks st') = length (cp_masks st)"
    then show ?thesis using f(1) u nz by (auto simp: found_def)
  qed
qed

lemma check_loop_found:
  assumes "length prog < 65536" "i \<le> length prog" "found prog i st" "\<not> 5 < fatal_count st"
  shows "\<exists>stop st'. check_loop i (of_nat (length prog)) (drop i prog) st = Done (stop, st')
    \<and> (stop \<longrightarrow> 5 < fatal_count st') \<and> (\<not> stop \<longrightarrow> found prog (length prog) st')"
  using assms(2-)
proof (induction "length prog - i" arbitrary: i st)
  case 0
  show ?case by (intro exI [of _ False] exI [of _ st]) (use 0 in simp)
next
  case (Suc n)
  then have i: "i < length prog" by simp
  then have d: "drop i prog = prog ! i # drop (Suc i) prog" by (simp add: Cons_nth_drop_Suc)
  have l: "length (cp_masks st) = length prog" using Suc.prems(2) by (simp add: found_def)
  from check_filter_total [OF i assms(1) l, of "prog ! i"] obtain st1 where
    1: "check_filter (prog ! i) (of_nat i) (of_nat (length prog)) st = Done st1" "checked (length prog) i (prog ! i) st st1"
    by blast
  show ?case
  proof (cases "5 < fatal_count st1")
    case True
    show ?thesis by (intro exI [of _ True] exI [of _ st1]) (use 1 d True in simp)
  next
    case False
    have "\<exists>stop st'. check_loop (Suc i) (of_nat (length prog)) (drop (Suc i) prog) st1 = Done (stop, st')
      \<and> (stop \<longrightarrow> 5 < fatal_count st') \<and> (\<not> stop \<longrightarrow> found prog (length prog) st')"
      by (rule Suc.hyps(1) [OF _ _ found_step [OF Suc.prems(2) i assms(1) Suc.prems(3) 1(2)] False])
        (use Suc.hyps(2) i in simp_all)
    with 1 d False show ?thesis by simp
  qed
qed

text \<open>The check ends, with a message or with what it promises.\<close>

definition check_promise :: "sock_filter list \<Rightarrow> bool \<Rightarrow> bool" where
  "check_promise prog err \<longleftrightarrow>
     (\<forall>f \<in> set prog. loads_ok f)
     \<and> (\<not> err \<longrightarrow> (\<forall>k < length prog. filter_safe (- 1) (length prog) k (prog ! k))
          \<and> sf_code (last prog) \<in> {0x16, 0x06})"

lemma check_prog_total:
  assumes "prog \<noteq> []" "length prog < 65536"
  shows "check_prog prog start_cp = Die M_DISASM_TERMINATED
    \<or> (\<exists>err cp. check_prog prog start_cp = Done (err, cp) \<and> check_promise prog err)"
proof -
  let ?st = "start_cp\<lparr>cp_masks := replicate (length prog) (- 1), cp_mem := 0\<rparr>"
  have "found prog 0 ?st" by (simp add: found_def start_cp_def)
  moreover have "\<not> 5 < fatal_count ?st" by (simp add: start_cp_def)
  ultimately obtain stop st where l: "check_loop 0 (of_nat (length prog)) prog ?st = Done (stop, st)"
    "stop \<Longrightarrow> 5 < fatal_count st" "\<not> stop \<Longrightarrow> found prog (length prog) st"
    using check_loop_found [OF assms(2), of 0 ?st] by auto
  show ?thesis
  proof (cases stop)
    case True
    then have "fatal_count st \<noteq> 0" using l(2) by auto
    with True l(1) show ?thesis by (simp add: check_prog_def check_complete_def Let_def)
  next
    case False
    let ?err = "error_count st \<noteq> 0 \<or> sf_code (last prog) \<notin> {0x16, 0x06}"
    have u: "unat (error_count st) < 65536" using l(3) [OF False] assms(2) by (simp add: found_def)
    then have nz: "error_count st + 1 \<noteq> 0" by (auto simp: word_unat_eq_iff unat_word_ariths)
    have p: "check_promise prog ?err" if "fatal_count st = 0"
      using l(3) [OF False] that by (auto simp: check_promise_def found_def in_set_conv_nth)
    let ?st' = "if sf_code (last prog) \<in> {0x16, 0x06} then st
      else report_error (last prog) (of_nat (length prog)) NONE_ERR False M_MUST_END_WITH_RET st"
    have e: "check_prog prog start_cp = check_complete ?st'"
      using False l(1) assms(1) by (simp add: check_prog_def Let_def)
    show ?thesis
    proof (cases "fatal_count st = 0")
      case True
      then have "check_prog prog start_cp = Done (?err, ?st')"
        unfolding e check_complete_def using nz by simp
      with p [OF True] show ?thesis by blast
    next
      case False
      then show ?thesis unfolding e check_complete_def by simp
    qed
  qed
qed

lemma promise_inside:
  assumes "prog \<noteq> []" "check_promise prog False"
  shows "runs_inside prog"
  unfolding runs_inside_def
proof (intro allI impI conjI ballI)
  fix pc assume pc: "pc < length prog"
  then show s: "filter_safe (- 1) (length prog) pc (prog ! pc)" using assms(2) by (simp add: check_promise_def)
  fix t assume ret: "BPF_CLASS (sf_code (prog ! pc)) \<noteq> BPF_RET" and t: "t \<in> set (filter_targets pc (prog ! pc))"
  have "pc \<noteq> length prog - 1"
    using ret assms by (auto simp: check_promise_def last_conv_nth bpf_fields)
  then show "t < length prog" using t s pc
    by (auto simp: filter_targets_def filter_safe_def Let_def split: if_splits)
qed

end
