(* ===== verification/Disasm_Ok.thy ===== *)
theory Disasm_Ok
  imports Disasm Check_Sound Bpf_Trans_Safe
begin

text \<open>
  The listing of a program that \<open>check_prog\<close> lets through is printed to its end: every
  instruction has a statement, every statement has a text, and the contexts of the renderer
  and the pile of names are large enough.
\<close>

section \<open>Statements that can be printed and followed\<close>

definition shown :: "obj_t \<Rightarrow> bool" where
  "shown obj \<longleftrightarrow> obj_print (obj_type obj) \<noteq> None"

definition has_text :: "line_t \<Rightarrow> bool" where
  "has_text l =
     (case l of
        ASSIGN_LINE al \<Rightarrow> shown (left_var al) \<and> shown (right_var al)
      | JUMP_LINE j \<Rightarrow> if_condition j \<longrightarrow> shown (cmpobj j)
      | RETURN_LINE r \<Rightarrow> shown (ret_obj r)
      | EMPTY_LINE \<Rightarrow> True
      | _ \<Rightarrow> False)"

definition in_memory :: "obj_t \<Rightarrow> bool" where
  "in_memory obj \<longleftrightarrow> (obj_type obj = MEM \<longrightarrow> unat (obj_data obj) < BPF_MEMWORDS)"

text \<open>What the renderer needs of the statement \<open>pc\<close>, from 1, of a program of \<open>n\<close>.\<close>

definition followed :: "nat \<Rightarrow> nat \<Rightarrow> line_t \<Rightarrow> bool" where
  "followed n pc l =
     (case l of
        ASSIGN_LINE al \<Rightarrow> obj_type (left_var al) \<in> {Tk_A, Tk_X, MEM} \<and> in_memory (left_var al) \<and> in_memory (right_var al)
      | JUMP_LINE j \<Rightarrow> pc + unat (label_nr (jt j)) + 1 \<le> n
          \<and> (if_condition j \<longrightarrow> pc + unat (label_nr (jf j)) + 1 \<le> n)
      | RETURN_LINE r \<Rightarrow> True
      | _ \<Rightarrow> False)"

lemma shown_obj [simp]:
  "shown (zero_obj\<lparr>obj_type := Var_tk v\<rparr>)" "shown (zero_obj\<lparr>obj_type := Action_tk a\<rparr>)"
  "shown (zero_obj\<lparr>obj_type := Var_tk v, obj_data := d\<rparr>)"
  "shown (zero_obj\<lparr>obj_type := NUMBER, obj_data := d\<rparr>)"
  "shown (obj\<lparr>obj_type := IDENTIFIER, literal := s\<rparr>)"
  by (simp_all add: shown_def obj_print_def)

lemma print_stmt_done: "has_text (line st) \<Longrightarrow> \<exists>s. print_stmt color st = Done s"
  by (auto simp: print_stmt_def has_text_def shown_def print_assign_def print_jump_def print_return_def
      obj_printer_def obj_print_def[of Tk_A] split: line_t.splits option.splits)

section \<open>Decoding\<close>

definition decoded :: "nat \<Rightarrow> nat \<Rightarrow> sock_filter \<Rightarrow> statement_t \<Rightarrow> bool" where
  "decoded n pc f st \<longleftrightarrow>
     code_nr st = of_nat pc \<and> has_text (line st) \<and> (filter_safe (- 1) n (pc - 1) f \<longrightarrow> followed n pc (line st))"

text \<open>An offset of the data, aligned: the table has a token for it.\<close>

lemma abs_table_done:
  assumes "unat k < 64" "k AND 3 = 0"
  shows "\<exists>v. abs_table (drop_bit 2 k) = Done (Var_tk v) \<and> v \<noteq> MEM'"
proof -
  have "unat (drop_bit 2 k) = unat k div 4" unfolding unat_drop_bit_eq by (simp add: drop_bit_eq_div)
  then have "unat (drop_bit 2 k) < 16" using assms(1) by simp
  then have "drop_bit 2 k < 16" by (simp add: word_less_nat_alt)
  then show ?thesis by (simp add: abs_table_def)
qed

lemma label_ja: "unat k < 65536 \<Longrightarrow> unat (ucast k :: u16) = unat k" for k :: u32
  by (simp add: unsigned_ucast_eq take_bit_nat_eq_self)

lemma label_byte: "unat (ucast k :: u16) = unat k" for k :: u8
  by (simp add: unsigned_ucast_eq take_bit_nat_eq_self order_less_le_trans [OF unsigned_less])

lemmas decoded_defs = decoded_def has_text_def followed_def in_memory_def Let_def

lemma decode_alu:
  assumes "sf_code f \<in> set alu_codes" "code_nr st = of_nat pc"
  shows "\<exists>st'. decode_filter f st = Done st' \<and> decoded n pc f st'"
proof -
  have "\<forall>c \<in> set alu_codes. \<exists>op. operator_table (BPF_OP c) = Done op"
    by (simp add: alu_nums operator_table_def bpf_fields)
  with assms(1) obtain op where op: "operator_table (BPF_OP (sf_code f)) = Done op" by blast
  show ?thesis using assms alu_code(2) [OF assms(1)]
    by (simp add: decode_filter_def alu_line_def op decoded_defs)
qed

lemma condition_done:
  assumes "is_jump_code (sf_code f)"
  shows "\<exists>c obj b. condition f bang = Done (c, obj, b) \<and> shown obj"
proof -
  have "\<forall>c \<in> set jump_codes. BPF_OP c \<in> {0x10, 0x20, 0x30, 0x40}"
    by (simp add: jump_nums bpf_fields)
  with assms have "BPF_OP (sf_code f) \<in> {0x10, 0x20, 0x30, 0x40}" unfolding is_jump_codes by blast
  then show ?thesis
    by (auto simp: condition_def comparator_table_def reverse_table_def Let_def)
qed

lemma decode_jump:
  assumes "is_jump_code (sf_code f)" "code_nr st = of_nat pc" "0 < pc"
  shows "\<exists>st'. decode_filter f st = Done st' \<and> decoded n pc f st'"
proof -
  have s: "filter_safe (- 1) n (pc - 1) f \<Longrightarrow> pc + unat (sf_jt f) + 1 \<le> n \<and> pc + unat (sf_jf f) + 1 \<le> n"
    using assms by (simp add: jump_safe [OF assms(1)])
  let ?bang = "sf_jt f = 0 \<and> sf_jf f \<noteq> 0"
  obtain c obj b where c: "condition f ?bang = Done (c, obj, b)" "shown obj"
    using condition_done [OF assms(1), of ?bang] by blast
  have "\<forall>c \<in> set jump_codes. BPF_OP c \<noteq> 0" by (simp add: jump_nums bpf_fields)
  with assms(1) have ja: "BPF_OP (sf_code f) \<noteq> 0" unfolding is_jump_codes by blast
  show ?thesis using jump_code(2) [OF assms(1)] assms(2) ja s c
    by (cases ?bang) (auto simp: decode_filter_def Decoder.jump_line_def decoded_defs label_byte)
qed

lemma decode_ja:
  assumes "sf_code f = 0x05" "code_nr st = of_nat pc" "0 < pc" "n < 65536"
  shows "\<exists>st'. decode_filter f st = Done st' \<and> decoded n pc f st'"
proof -
  have "filter_safe (- 1) n (pc - 1) f \<Longrightarrow> pc + unat (ucast (sf_k f) :: u16) + 1 \<le> n"
    using assms label_ja [of "sf_k f"] by (simp add: ja_safe [OF assms(1)])
  with assms show ?thesis
    by (simp add: decode_filter_def Decoder.jump_line_def bpf_fields decoded_defs zero_jump_def zero_label_def)
qed

lemma decode_load:
  assumes "sf_code f = 0x20" "loads_ok f" "code_nr st = of_nat pc"
  shows "\<exists>st'. decode_filter f st = Done st' \<and> decoded n pc f st'"
proof -
  from assms(1,2) abs_table_done [of "sf_k f"] obtain v where
    v: "abs_table (drop_bit 2 (sf_k f)) = Done (Var_tk v)" "v \<noteq> MEM'" by (auto simp: loads_ok_def)
  with assms show ?thesis
    by (simp add: decode_filter_def ld_ldx_line_def bpf_fields decoded_defs)
qed

lemma decode_plain:
  assumes "sf_code f \<in> {0x80, 0x81, 0x06, 0x16, 0x00, 0x01, 0x07, 0x87, 0x60, 0x61, 0x02, 0x03}"
    "code_nr st = of_nat pc"
  shows "\<exists>st'. decode_filter f st = Done st' \<and> decoded n pc f st'"
proof -
  have mem: "sf_code f \<in> {0x60, 0x61, 0x02, 0x03} \<Longrightarrow> filter_safe (- 1) n (pc - 1) f \<Longrightarrow> unat (sf_k f) < BPF_MEMWORDS"
    using mem_safe by blast
  consider "sf_code f \<in> {0x06, 0x16}" | "sf_code f \<in> {0x07, 0x87}" | "sf_code f \<in> {0x02, 0x03}"
    | "sf_code f \<in> {0x80, 0x81, 0x00, 0x01}" | "sf_code f \<in> {0x60, 0x61}"
    using assms(1) by blast
  then show ?thesis
  proof cases
    case 1
    have "\<exists>l. line (return_line f st) = RETURN_LINE l \<and> shown (ret_obj l)"
      by (simp add: return_line_def decode_return_k_def Let_def shown_def obj_print_def zero_return_def)
    with 1 assms(2) show ?thesis
      by (auto simp: decode_filter_def bpf_fields decoded_defs return_line_def)
  next
    case 2
    with assms(2) show ?thesis
      by (auto simp: decode_filter_def misc_line_def bpf_fields decoded_defs)
  next
    case 3
    with assms(2) mem show ?thesis
      by (auto simp: decode_filter_def st_stx_line_def bpf_fields decoded_defs)
  next
    case 4
    with assms(2) show ?thesis
      by (auto simp: decode_filter_def ld_ldx_line_def bpf_fields decoded_defs)
  next
    case 5
    with assms(2) mem show ?thesis
      by (auto simp: decode_filter_def ld_ldx_line_def bpf_fields decoded_defs)
  qed
qed

lemma decode_filter_done:
  assumes "loads_ok f" "code_nr st = of_nat pc" "0 < pc" "n < 65536"
  shows "\<exists>st'. decode_filter f st = Done st' \<and> decoded n pc f st'"
proof -
  from assms(1) have "valid_insn (sf_code f)" by (simp add: loads_ok_def)
  then show ?thesis
  proof (cases rule: valid_insn_cases)
    case 1
    show ?thesis by (rule decode_load [OF 1 assms(1,2)])
  next
    case 6
    show ?thesis by (rule decode_alu [OF 6 assms(2)])
  next
    case 15
    show ?thesis by (rule decode_ja [OF 15 assms(2-)])
  next
    case 16
    show ?thesis by (rule decode_jump [OF 16 assms(2,3)])
  qed (simp_all add: decode_plain assms(2))
qed

section \<open>Rendering\<close>

definition cok :: "'a cres \<Rightarrow> ('a \<Rightarrow> bool) \<Rightarrow> bool" where
  "cok r Q \<longleftrightarrow> (\<exists>x. r = Done x \<and> Q x)"

lemma cok_Done [simp]: "cok (Done x) Q = Q x"
  by (simp add: cok_def)

lemma cok_bind [simp]: "cok (cbind r f) Q = cok r (\<lambda>x. cok (f x) Q)"
  by (auto simp: cok_def)

lemma cok_bindI: "cok r P \<Longrightarrow> (\<And>x. P x \<Longrightarrow> cok (f x) Q) \<Longrightarrow> cok (cbind r f) Q"
  by (auto simp: cok_def)

lemma cok_mono: "cok r P \<Longrightarrow> (\<And>x. P x \<Longrightarrow> Q x) \<Longrightarrow> cok r Q"
  by (auto simp: cok_def)

definition list_ok :: "nat \<Rightarrow> str_pile \<Rightarrow> render_state \<Rightarrow> bool" where
  "list_ok n p rs \<longleftrightarrow>
     length (rd_list rs) = n + 2 \<and> (\<forall>c \<in> set (rd_list rs). length (mem_stat c) = BPF_MEMWORDS) \<and> rd_pile rs = p"

lemma cok_at_ctx: "list_ok n p rs \<Longrightarrow> i < n + 2 \<Longrightarrow> cok (at_ctx i rs) (\<lambda>c. length (mem_stat c) = BPF_MEMWORDS)"
  by (simp add: at_ctx_def list_ok_def)

lemma put_ctx_ok: "list_ok n p rs \<Longrightarrow> length (mem_stat c) = BPF_MEMWORDS \<Longrightarrow> list_ok n p (put_ctx i c rs)"
  by (auto simp: put_ctx_def list_ok_def dest: set_update_subset_insert [THEN subsetD])

lemma cok_set_arch:
  assumes "list_ok n p rs" "i < n + 2"
  shows "cok (set_arch i a rs) (list_ok n p)"
  unfolding set_arch_def
  by (rule cok_bindI [OF cok_at_ctx [OF assms]]) (simp add: put_ctx_ok [OF assms(1)] assms(1))

lemma cok_set_ctx:
  assumes "list_ok n p rs" "i < n + 2" "j < n + 2"
  shows "cok (set_ctx i j force rs) (list_ok n p)"
  unfolding set_ctx_def
  by (intro cok_bindI [OF cok_at_ctx [OF assms(1,2)]] cok_bindI [OF cok_at_ctx [OF assms(1,3)]])
    (simp add: put_ctx_ok [OF assms(1)])

lemma cok_right_stat:
  "in_memory (right_var al) \<Longrightarrow> length (mem_stat c) = BPF_MEMWORDS \<Longrightarrow> cok (right_stat al c) (\<lambda>_. True)"
  by (simp add: right_stat_def Let_def in_memory_def read_mem_stat_def)

lemma cok_assign:
  assumes "followed n pc (ASSIGN_LINE al)" "length (mem_stat c) = BPF_MEMWORDS"
  shows "cok (Render.assign_line al c) (\<lambda>c. length (mem_stat c) = BPF_MEMWORDS)"
proof -
  from cok_right_stat [of al c] assms obtain r where r: "right_stat al c = Done r" by (auto simp: followed_def cok_def)
  with assms show ?thesis
    by (auto simp: Render.assign_line_def Let_def followed_def in_memory_def read_mem_stat_def)
qed

text \<open>The names libseccomp gives, and the room a statement takes in the pile.\<close>

definition names_short :: "scmp_lib \<Rightarrow> bool" where
  "names_short lib \<longleftrightarrow> (\<forall>a k s. syscall_resolve_num_arch lib a k = Some s \<longrightarrow> length s \<le> 28)"

lemma arch_name_short: "scmp_arch_to_internal_str lib a = Some s \<Longrightarrow> length s \<le> 11"
proof -
  have "length (token_pairs (Arch_tk t)) \<le> 11" for t by (cases t) simp_all
  then show "scmp_arch_to_internal_str lib a = Some s \<Longrightarrow> length s \<le> 11"
    by (auto simp: scmp_arch_to_internal_str_def scmp_arch_to_internal_arch_def simp del: token_pairs.simps split: option.splits)
qed

definition pile_room :: "str_pile \<Rightarrow> nat \<Rightarrow> bool" where
  "pile_room p k \<longleftrightarrow> length (pile_text p) + 40 * k \<le> pile_size p"

lemma cok_persist:
  assumes "pile_room p (Suc k)" "length sysname \<le> 28" "\<And>a. arch = Some a \<Longrightarrow> length a \<le> 11"
  shows "cok (persist_object sysname arch p) (\<lambda>(s, p). pile_room p k)"
proof -
  have l: "length (full_name sysname arch) \<le> 40"
    using assms(2,3) by (cases arch) (fastforce simp: full_name_def)+
  have "persist_object sysname arch p = Done (full_name sysname arch, pile_put (full_name sysname arch) p)"
    using persist_object_name [of sysname arch p] assms(1) l by (simp add: pile_room_def)
  then show ?thesis using assms(1) l by (simp add: pile_room_def pile_put_def)
qed

definition rendering :: "nat \<Rightarrow> nat \<Rightarrow> render_state \<Rightarrow> bool" where
  "rendering n k rs \<longleftrightarrow> (\<exists>p. list_ok n p rs \<and> pile_room p k)"

lemma cok_sysnr:
  assumes lib: "names_short lib" and rs: "list_ok n p rs" "pile_room p (Suc k)" and obj: "shown obj"
  shows "cok (try_resolve_sysnr lib d a obj rs) (\<lambda>(obj, rs). shown obj \<and> rendering n k rs)"
proof (cases "a = ARCH_NONE \<or> syscall_resolve_num_arch lib a (obj_data obj) = None")
  case True
  have "rendering n k rs" using rs by (auto simp: rendering_def pile_room_def)
  with True obj show ?thesis by (auto simp: try_resolve_sysnr_def)
next
  case False
  then obtain nm where nm: "syscall_resolve_num_arch lib a (obj_data obj) = Some nm" by auto
  let ?arch = "if a \<noteq> d then scmp_arch_to_internal_str lib a else None"
  have "length nm \<le> 28" using lib nm by (auto simp: names_short_def)
  then have "cok (persist_object nm ?arch p) (\<lambda>(s, p). pile_room p k)"
    by (rule cok_persist [OF rs(2)]) (use arch_name_short in \<open>auto split: if_splits\<close>)
  then show ?thesis using False nm rs
    by (auto simp: try_resolve_sysnr_def Let_def cok_def rendering_def list_ok_def)
qed

lemma cok_set_arch_jump:
  assumes "list_ok n p rs" "t < n + 2" "e < n + 2"
  shows "cok (set_arch_jump ctx cmp d t e rs) (list_ok n p)"
proof -
  have two: "cok (cbind (set_arch i a rs) (set_arch j b)) (list_ok n p)" if "i < n + 2" "j < n + 2" for i j a b
    by (rule cok_bindI [OF cok_set_arch [OF assms(1) that(1)]], rule cok_set_arch [OF _ that(2)])
  show ?thesis
    using two [OF assms(2,3)] two [OF assms(3,2)] assms(1)
    by (simp add: set_arch_jump_def del: cok_bind)
qed

lemma cok_jump:
  assumes lib: "names_short lib" and rs: "list_ok n p rs" "pile_room p (Suc k)" and pc: "pc < n + 2"
    and j: "followed n pc (JUMP_LINE j)" "has_text (JUMP_LINE j)"
  shows "cok (Render.jump_line lib d pc j rs) (\<lambda>(j, rs). has_text (JUMP_LINE j) \<and> rendering n k rs)"
proof -
  let ?t = "pc + unat (label_nr (jt j)) + 1" let ?e = "pc + unat (label_nr (jf j)) + 1"
  have t: "?t < n + 2" and e: "if_condition j \<Longrightarrow> ?e < n + 2" using j(1) by (auto simp: followed_def)
  have fin: "has_text (JUMP_LINE j) \<and> rendering n k rs'" if "list_ok n p rs'" for rs'
    using that rs(2) j(2) by (auto simp: rendering_def pile_room_def)
  have tail: "cok (if A_stat ctx = St_ARCH then Done (j\<lparr>cmpobj := try_resolve_arch lib (cmpobj j)\<rparr>, rs')
        else if A_stat ctx = St_SYSNR then
          cbind (try_resolve_sysnr lib d (ctx_arch ctx) (cmpobj j) rs') (\<lambda>(obj, rs). Done (j\<lparr>cmpobj := obj\<rparr>, rs))
        else Done (j, rs')) (\<lambda>(j, rs). has_text (JUMP_LINE j) \<and> rendering n k rs)"
    if r: "list_ok n p rs'" and c: "if_condition j" for ctx rs'
  proof -
    have "shown (cmpobj j)" using j(2) c by (simp add: has_text_def)
    moreover from this have "shown (try_resolve_arch lib (cmpobj j))"
      by (simp add: try_resolve_arch_def split: option.split)
    moreover have "cok (cbind (try_resolve_sysnr lib d (ctx_arch ctx) (cmpobj j) rs') (\<lambda>(obj, rs). Done (j\<lparr>cmpobj := obj\<rparr>, rs)))
        (\<lambda>(j, rs). has_text (JUMP_LINE j) \<and> rendering n k rs)"
      unfolding cok_bind
      by (rule cok_mono [OF cok_sysnr [OF lib r rs(2) calculation(1)]]) (auto simp: has_text_def)
    ultimately show ?thesis using fin [OF r] by (simp add: has_text_def)
  qed
  show ?thesis
  proof (cases "if_condition j")
    case False
    show ?thesis
      unfolding Render.jump_line_def Let_def if_P [OF False]
      by (rule cok_bindI [OF cok_set_ctx [OF rs(1) t pc]], rule cok_bindI [OF cok_at_ctx [OF _ pc]], assumption,
          rule cok_bindI [OF cok_set_arch [OF _ t]], assumption) (simp add: fin)
  next
    case True
    then have nn: "\<not> \<not> if_condition j" by simp
    show ?thesis
      unfolding Render.jump_line_def Let_def if_not_P [OF nn]
      by (rule cok_bindI [OF cok_set_ctx [OF rs(1) t pc]], rule cok_bindI [OF cok_set_ctx [OF _ e [OF True] pc]], assumption,
          rule cok_bindI [OF cok_at_ctx [OF _ pc]], assumption,
          rule cok_bindI [OF cok_set_arch_jump [OF _ t e [OF True]]], assumption)
        (rule tail [OF _ True])
  qed
qed

lemma cok_statement:
  assumes lib: "names_short lib" and rs: "rendering n (Suc k) rs" and pc: "unat (code_nr st) < n + 1"
    and st: "has_text (line st)" "followed n (unat (code_nr st)) (line st)"
  shows "cok (render_statement lib d st rs) (\<lambda>(st, rs). has_text (line st) \<and> rendering n k rs)"
proof -
  let ?pc = "unat (code_nr st)"
  obtain p where p: "list_ok n p rs" "pile_room p (Suc k)" using rs by (auto simp: rendering_def)
  have pc': "?pc < n + 2" "?pc + 1 < n + 2" using pc by simp_all
  have less: "rendering n k rs'" if "list_ok n p rs'" for rs'
    using that p(2) by (auto simp: rendering_def pile_room_def)
  show ?thesis
  proof (cases "line st")
    case (ASSIGN_LINE al)
    have f: "followed n ?pc (ASSIGN_LINE al)" using st(2) ASSIGN_LINE by simp
    show ?thesis
      unfolding render_statement_def Let_def ASSIGN_LINE line_t.case
      by (rule cok_bindI [OF cok_at_ctx [OF p(1) pc'(1)]], rule cok_bindI [OF cok_assign [OF f]], assumption,
          rule cok_bindI [OF cok_set_ctx [OF put_ctx_ok [OF p(1)] pc'(2,1)]], assumption,
          rule cok_bindI [OF cok_set_arch [OF _ pc'(2)]], assumption)
        (use st(1) less in simp)
  next
    case (JUMP_LINE j)
    have "cok (Render.jump_line lib d ?pc j rs) (\<lambda>(j, rs). has_text (JUMP_LINE j) \<and> rendering n k rs)"
      by (rule cok_jump [OF lib p pc'(1)]) (use st JUMP_LINE in simp_all)
    then have "cok (cbind (Render.jump_line lib d ?pc j rs) (\<lambda>(j, rs). Done (st\<lparr>line := JUMP_LINE j\<rparr>, rs)))
        (\<lambda>(st, rs). has_text (line st) \<and> rendering n k rs)"
      by (rule cok_bindI) auto
    then show ?thesis unfolding render_statement_def Let_def JUMP_LINE line_t.case .
  next
    case (RETURN_LINE r)
    then show ?thesis using st(1) less [OF p(1)] by (simp add: render_statement_def)
  qed (use st(2) in \<open>simp_all add: followed_def\<close>)
qed

lemma cok_render_loop:
  assumes lib: "names_short lib"
  shows "\<forall>st \<in> set sts. unat (code_nr st) < n + 1 \<and> has_text (line st) \<and> followed n (unat (code_nr st)) (line st) \<Longrightarrow>
    rendering n (length sts) rs \<Longrightarrow>
    cok (render_loop lib d sts rs) (\<lambda>(sts', rs). length sts' = length sts \<and> (\<forall>st \<in> set sts'. has_text (line st)))"
proof (induction sts arbitrary: rs)
  case (Cons st sts)
  have "cok (render_statement lib d st rs) (\<lambda>(st, rs). has_text (line st) \<and> rendering n (length sts) rs)"
    by (rule cok_statement [OF lib]) (use Cons.prems in simp_all)
  then show ?case
    unfolding render_loop.simps
    by (rule cok_bindI) (use Cons.IH Cons.prems(1) in \<open>fastforce simp: cok_def\<close>)
qed simp

lemma start_list_ok: "list_ok n p \<lparr>rd_list = start_list (n + 1) a, rd_pile = p\<rparr>"
  by (auto simp: list_ok_def start_list_def no_ctx_def dest: set_update_subset_insert [THEN subsetD])

lemma start_pile_room: "pile_room (init_pile (n * 40)) n"
proof -
  have "n * 40 \<le> (n * 40 + 0xfff) div 0x1000 * 0x1000" by linarith
  then show ?thesis by (simp add: pile_room_def init_pile_def mult.commute)
qed

text \<open>The statements of a program, behind the skipped one.\<close>

lemma decode_loop_done:
  assumes "n < 65536" "i + length fs \<le> n" "\<forall>f \<in> set fs. loads_ok f"
  shows "cok (decode_loop i fs) (\<lambda>sts. length sts = length fs
    \<and> (\<forall>k < length fs. decoded n (i + k + 1) (fs ! k) (sts ! k)))"
  using assms(2,3)
proof (induction fs arbitrary: i)
  case (Cons f fs)
  from Cons.prems obtain st where
    st: "decode_filter f (zero_statement\<lparr>text_nr := of_nat (i + 1), code_nr := of_nat (i + 1)\<rparr>) = Done st"
      "decoded n (i + 1) f st"
    using decode_filter_done [of f "zero_statement\<lparr>text_nr := of_nat (i + 1), code_nr := of_nat (i + 1)\<rparr>" "i + 1" n]
      assms(1) by auto
  have "cok (decode_loop (Suc i) fs) (\<lambda>sts. length sts = length fs
      \<and> (\<forall>k < length fs. decoded n (Suc i + k + 1) (fs ! k) (sts ! k)))"
    by (rule Cons.IH) (use Cons.prems in simp_all)
  then show ?case
    using st by (auto simp: cok_def nth_Cons split: nat.split)
qed simp

section \<open>The listing\<close>

lemma print_filters_done:
  "\<forall>st \<in> set sts. has_text (line st) \<Longrightarrow> \<exists>s. print_filters color i fs sts = Done s"
proof (induction fs arbitrary: i sts)
  case (Cons f fs)
  then show ?case
  proof (cases sts)
    case (Cons st sts')
    with Cons.prems obtain s where "print_stmt color st = Done s" using print_stmt_done by fastforce
    moreover obtain t where "print_filters color (Suc i) fs sts' = Done t"
      using Cons.IH [of sts' "Suc i"] Cons.prems Cons by auto
    ultimately show ?thesis using Cons by simp
  qed simp
qed simp

lemma rendered:
  assumes "names_short lib" "prog \<noteq> []" "length prog < 65536" "check_promise prog err"
  shows "cok (decode_loop 0 prog) (\<lambda>sts.
    cok (if err then Done (zero_statement # sts)
      else cbind (render lib a (zero_statement # sts) (init_pile (length prog * 40))) (\<lambda>(v, p). Done v))
     (\<lambda>v. \<forall>st \<in> set (tl v). has_text (line st)))"
proof (rule cok_mono [OF decode_loop_done [OF assms(3), of 0 prog]])
  fix sts assume d: "length sts = length prog \<and> (\<forall>k < length prog. decoded (length prog) (0 + k + 1) (prog ! k) (sts ! k))"
  then have pr: "\<forall>st \<in> set sts. has_text (line st)"
    by (auto simp: in_set_conv_nth decoded_def)
  show "cok (if err then Done (zero_statement # sts)
      else cbind (render lib a (zero_statement # sts) (init_pile (length prog * 40))) (\<lambda>(v, p). Done v))
     (\<lambda>v. \<forall>st \<in> set (tl v). has_text (line st))"
  proof (cases err)
    case False
    have f: "\<forall>st \<in> set sts. unat (code_nr st) < length prog + 1 \<and> has_text (line st)
        \<and> followed (length prog) (unat (code_nr st)) (line st)"
    proof
      fix st assume "st \<in> set sts"
      then obtain k where k: "k < length prog" "st = sts ! k" using d by (auto simp: in_set_conv_nth)
      then have dk: "decoded (length prog) (k + 1) (prog ! k) st" using d by simp
      then have c: "unat (code_nr st) = k + 1" using k assms(3) by (simp add: decoded_def unat_of_nat del: of_nat_add of_nat_Suc)
      have "filter_safe (- 1) (length prog) k (prog ! k)" using assms(4) False k by (simp add: check_promise_def)
      then show "unat (code_nr st) < length prog + 1 \<and> has_text (line st)
          \<and> followed (length prog) (unat (code_nr st)) (line st)"
        using dk k c by (simp add: decoded_def)
    qed
    have "rendering (length prog) (length sts)
        \<lparr>rd_list = start_list (length (zero_statement # sts)) a, rd_pile = init_pile (length prog * 40)\<rparr>"
      unfolding rendering_def
      by (rule exI [of _ "init_pile (length prog * 40)"])
        (use start_list_ok [of "length prog"] start_pile_room [of "length prog"] d in simp)
    from cok_render_loop [OF assms(1) f this, of a] obtain sts' rs' where
      "render_loop lib a sts \<lparr>rd_list = start_list (length (zero_statement # sts)) a, rd_pile = init_pile (length prog * 40)\<rparr>
        = Done (sts', rs')" "\<forall>st \<in> set sts'. has_text (line st)" by (auto simp: cok_def)
    then show ?thesis using False by (simp add: render_def)
  qed (use pr in simp)
qed (use assms(4) in \<open>simp_all add: check_promise_def\<close>)

text \<open>A program the check returns from is listed.\<close>

lemma print_prog_done:
  assumes lib: "names_short lib" and prog: "prog \<noteq> []" "length prog < 65536"
    and c: "check_prog prog start_cp = Done (err, cp)"
  shows "\<exists>out. print_prog lib color a prog 0 False start_cp = Done (out, cp)"
proof -
  from check_prog_total [OF prog] c have p: "check_promise prog err" by auto
  from rendered [OF lib prog p, of a] obtain sts v where
    v: "decode_loop 0 prog = Done sts"
      "(if err then Done (zero_statement # sts)
        else cbind (render lib a (zero_statement # sts) (init_pile (length prog * 40))) (\<lambda>(v, p). Done v)) = Done v"
      "\<forall>st \<in> set (tl v). has_text (line st)" by (auto simp: cok_def)
  obtain t where t: "print_filters color 1 prog (tl v) = Done t" using print_filters_done [OF v(3)] by blast
  have d: "decode_filters prog False start_cp = Done (err, zero_statement # sts, cp)"
    using c v(1) by (simp add: decode_filters_def)
  show ?thesis unfolding print_prog_def if_not_P [OF prog(1)] d cbind.simps prod.case v(2)
    using t by (simp add: print_as_comment_def separator_def)
qed

lemma print_prog_total:
  assumes "names_short lib" "prog \<noteq> []" "length prog < 65536"
  shows "print_prog lib color a prog 0 False start_cp = Die M_DISASM_TERMINATED
    \<or> (\<exists>out cp. print_prog lib color a prog 0 False start_cp = Done (out, cp))"
  using check_prog_total [OF assms(2,3)]
proof (elim disjE exE conjE)
  assume "check_prog prog start_cp = Die M_DISASM_TERMINATED"
  then show ?thesis using assms(2) by (simp add: print_prog_def decode_filters_def)
next
  fix err cp assume "check_prog prog start_cp = Done (err, cp)"
  from print_prog_done [OF assms this] show ?thesis by blast
qed

section \<open>Reading\<close>

lemma read_limit_le: "read_limit todo reads = Some n \<Longrightarrow> n \<le> todo"
  by (induction todo reads rule: read_limit.induct) auto

lemma read_filters_loop_got:
  "length got + todo = m \<Longrightarrow>
   read_filters_loop todo input reads got = Die M_READ_FAIL
   \<or> (\<exists>todo' got'. read_filters_loop todo input reads got = Done (todo', got') \<and> length got' + todo' = m)"
proof (induction todo input reads got rule: read_filters_loop.induct)
  case (1 todo input reads got)
  show ?case
  proof (cases "todo = 0 \<or> read_limit todo reads = None")
    case False
    then obtain n where n: "read_limit todo reads = Some n" "todo \<noteq> 0" by auto
    have le: "n \<le> todo" by (rule read_limit_le [OF n(1)])
    show ?thesis
    proof (cases "input = [] \<or> n = 0")
      case stop: False
      have "length (got @ take n input) + (todo - min n (length input)) = m" using 1(2) le by simp
      from 1(1) [OF n(2,1) stop this] show ?thesis
        using n stop by (simp add: read_filters_loop.simps [of todo input reads got])
    qed (use n 1(2) in \<open>auto simp: read_filters_loop.simps [of todo input reads got]\<close>)
  qed (use 1(2) in \<open>auto simp: read_filters_loop.simps [of todo input reads got]\<close>)
qed

lemma read_filters_total:
  "(\<exists>m. read_filters big input reads = Die m) \<or> (\<exists>fs log. read_filters big input reads = Done (fs, log) \<and> length fs \<le> BPF_MAXINSNS)"
proof -
  have "length ([] :: u8 list) + 8 * (BPF_MAXINSNS + 1) = 8 * (BPF_MAXINSNS + 1)" by simp
  from read_filters_loop_got [OF this, of input reads] show ?thesis
  proof (elim disjE exE conjE)
    fix todo got
    assume r: "read_filters_loop (8 * (BPF_MAXINSNS + 1)) input reads [] = Done (todo, got)"
      and l: "length got + todo = 8 * (BPF_MAXINSNS + 1)"
    show ?thesis
    proof (cases "todo = 0")
      case False
      with l have "length got < (BPF_MAXINSNS + 1) * 8" by simp
      then have "length got div 8 < BPF_MAXINSNS + 1" by (rule less_mult_imp_div_less)
      with False r show ?thesis unfolding read_filters_def r by (simp add: filters_of_def)
    next
      case True
      show ?thesis unfolding read_filters_def r by (simp add: True)
    qed
  qed (simp add: read_filters_def)
qed

text \<open>The loop for extended instructions: what it has read and what is left fill the map.\<close>

lemma page_add: "(m + n * 0x1000) mod 0x1000 = m mod (0x1000 :: nat)"
  by (rule mod_mult_self1)

lemma read_insns_loop_got:
  "length got + todo = map_size \<Longrightarrow> 0 < todo \<Longrightarrow> map_size mod 0x1000 = 0 \<Longrightarrow> length got + length input + 0x3000 < 2 ^ 32 \<Longrightarrow>
   read_insns_loop todo map_size input reads got = Die M_READ_FAIL
   \<or> (\<exists>map_size' got'. read_insns_loop todo map_size input reads got = Done (map_size', got')
        \<and> length got' \<le> map_size' \<and> map_size' mod 0x1000 = 0 \<and> map_size' \<le> max map_size (length got + length input + 0x2000))"
proof (induction todo map_size input reads got rule: read_insns_loop.induct)
  case (1 todo map_size input reads got)
  show ?case
  proof (cases "read_limit todo reads")
    case (Some n)
    have le: "n \<le> todo" by (rule read_limit_le [OF Some])
    show ?thesis
    proof (cases "input = [] \<or> n = 0")
      case go: False
      let ?rc = "min n (length input)"
      have sum: "length (got @ take n input) + length (drop n input) = length got + length input" by simp
      show ?thesis
      proof (cases "todo - ?rc = 0")
        case True
        have l: "length (got @ take n input) = map_size" "map_size \<le> length got + length input"
          using True le "1.prems"(1) by auto
        then have r: "local_remap map_size 0x2000 = Done (map_size + 0x2000)"
          using "1.prems"(4) by (simp add: local_remap_def)
        have m: "(map_size + 0x2000) mod 0x1000 = 0" using page_add [of map_size 2] "1.prems"(3) by simp
        have "read_insns_loop 0x2000 (map_size + 0x2000) (drop n input) (tl reads) (got @ take n input) = Die M_READ_FAIL
          \<or> (\<exists>map_size' got'. read_insns_loop 0x2000 (map_size + 0x2000) (drop n input) (tl reads) (got @ take n input) = Done (map_size', got')
            \<and> length got' \<le> map_size' \<and> map_size' mod 0x1000 = 0
            \<and> map_size' \<le> max (map_size + 0x2000) (length (got @ take n input) + length (drop n input) + 0x2000))"
          by (rule "1.IH"(1) [OF Some go refl True]) (use l sum m "1.prems" in simp_all)
        then show ?thesis using go True Some r l(2) sum
          by (auto simp: read_insns_loop.simps [of todo map_size input reads got] Let_def max_def)
      next
        case False
        have "read_insns_loop (todo - ?rc) map_size (drop n input) (tl reads) (got @ take n input) = Die M_READ_FAIL
          \<or> (\<exists>map_size' got'. read_insns_loop (todo - ?rc) map_size (drop n input) (tl reads) (got @ take n input) = Done (map_size', got')
            \<and> length got' \<le> map_size' \<and> map_size' mod 0x1000 = 0
            \<and> map_size' \<le> max map_size (length (got @ take n input) + length (drop n input) + 0x2000))"
          by (rule "1.IH"(2) [OF Some go refl False]) (use False le sum "1.prems" in auto)
        then show ?thesis using go False Some sum
          by (auto simp: read_insns_loop.simps [of todo map_size input reads got] Let_def)
      qed
    qed (use Some "1.prems" in \<open>auto simp: read_insns_loop.simps [of todo map_size input reads got]\<close>)
  qed (simp add: read_insns_loop.simps [of todo map_size input reads got])
qed

text \<open>Zeros behind the input, and at least ten instructions of them.\<close>

lemma insns_of_zeros:
  assumes "offset mod 8 = 0" "offset \<le> m" "length bs = offset" "offset div 8 \<le> k" "k < m div 8"
  shows "bi_code (insns_of big (bs @ replicate (m - offset) 0) ! k) = 0"
proof -
  have "offset \<le> 8 * k" using mult_div_mod_eq [of 8 offset] assms(1,4) by linarith
  moreover have "8 * k + 8 \<le> m" using mult_div_mod_eq [of 8 m] assms(5) by linarith
  ultimately have "take 8 (drop (8 * k) (bs @ replicate (m - offset) 0)) = replicate 8 (0 :: u8)"
    using assms(3) by (simp add: drop_replicate take_replicate min_def)
  also have "replicate 8 (0 :: u8) = [0, 0, 0, 0, 0, 0, 0, 0]" by (simp add: numeral_eq_Suc)
  finally show ?thesis using assms(2,3,5)
    by (simp add: insns_of_def insn_of_bytes_def)
qed

lemma read_insns_input:
  assumes "length input + 0x3000 < 2 ^ 32"
  shows "read_insns big input reads = Die M_READ_FAIL
    \<or> (\<exists>insns count log. read_insns big input reads = Done (insns, count, log)
        \<and> count + 10 \<le> length insns \<and> (\<forall>k. count \<le> k \<longrightarrow> k < length insns \<longrightarrow> bi_code (insns ! k) = 0))"
proof -
  have "read_insns_loop 0x2000 0x2000 input reads [] = Die M_READ_FAIL
    \<or> (\<exists>m got. read_insns_loop 0x2000 0x2000 input reads [] = Done (m, got)
         \<and> length got \<le> m \<and> m mod 0x1000 = 0 \<and> m \<le> max 0x2000 (length input + 0x2000))"
    using read_insns_loop_got [of "[]" "0x2000" "0x2000" input reads] assms by simp
  then show ?thesis
proof (elim disjE exE conjE)
  fix m got assume r: "read_insns_loop 0x2000 0x2000 input reads [] = Done (m, got)"
    and l: "length got \<le> m" "m mod 0x1000 = 0" "m \<le> max 0x2000 (length input + 0x2000)"
  let ?o = "length got - length got mod 8"
  have o: "?o mod 8 = 0" "?o \<le> length got" by (simp_all add: minus_mod_eq_mult_div)
  obtain m' where m': "(if m - ?o < 0x50 then local_remap m 0x1000 else Done m) = Done m'"
      "?o + 0x50 \<le> m'" "m' mod 0x1000 = 0"
  proof (cases "m - ?o < 0x50")
    case True
    have "local_remap m 0x1000 = Done (m + 0x1000)" using l(3) assms by (simp add: local_remap_def max_def split: if_splits)
    moreover have "(m + 0x1000) mod 0x1000 = 0" using page_add [of m 1] l(2) by simp
    ultimately show thesis using that True o(2) l(1) by simp
  next
    case False
    then show thesis using that l o(2) by simp
  qed
  have m8: "m' mod 8 = 0" using m'(3) by (auto simp: mod_eq_0_iff_dvd elim: dvd_trans [rotated])
  let ?insns = "insns_of big (take ?o got @ replicate (m' - ?o) 0)"
  have len: "length ?insns = m' div 8" using m'(2) o(2) by (simp add: insns_of_def)
  have "?o div 8 + 10 \<le> m' div 8" using m'(2) o(1) m8 by auto
  moreover have "bi_code (?insns ! k) = 0" if "?o div 8 \<le> k" "k < m' div 8" for k
    by (rule insns_of_zeros) (use o m'(2) that in simp_all)
  ultimately show ?thesis using r m'(1) len by (simp add: read_insns_def Let_def)
qed (simp_all add: read_insns_def)
qed

section \<open>The command\<close>

definition ends :: "'a cres \<Rightarrow> bool" where
  "ends r \<longleftrightarrow> (\<forall>m. r \<noteq> Crash m)"

lemma ends_simps [simp]: "ends (Done x)" "ends (Die m)" "\<not> ends (Crash m)"
  by (simp_all add: ends_def)

lemma print_read_ends:
  assumes "names_short lib" "length prog < 65536"
  shows "ends (print_read lib color a prog log)"
proof (cases "prog = []")
  case False
  from print_prog_total [OF assms(1) False assms(2), of color a] show ?thesis
    using False by (auto simp: print_read_def)
qed (simp add: print_read_def)

lemma global_room: "init_global_filters n None = Some fs \<Longrightarrow> n \<le> length fs"
  by (auto simp: init_global_filters_def)

lemma disasm_ends:
  assumes "names_short lib" "length input + 0x3000 < 2 ^ 32"
  shows "ends (disasm lib big color a ebpf input reads)"
proof (cases ebpf)
  case True
  from read_insns_input [OF assms(2), of big reads] show ?thesis
  proof (elim disjE exE conjE)
    fix insns count log
    assume r: "read_insns big input reads = Done (insns, count, log)" and l: "count + 10 \<le> length insns"
      and z: "\<forall>k. count \<le> k \<longrightarrow> k < length insns \<longrightarrow> bi_code (insns ! k) = 0"
    obtain buf where b: "init_global_filters count None = Some buf" by (simp add: init_global_filters_def)
    let ?insns = "if need_reverse_endian big a then map reverse_ebpf_endian (take count insns) @ drop count insns else insns"
    have "trans_input count ?insns buf"
      using l z global_room [OF b] by (auto simp: trans_input_def nth_append min_def)
    note ebpf2cbpf_safe [OF this]
    moreover have "length (sock_fprog fs) < 65536" for fs
      by (rule order_le_less_trans [of _ "length fs mod 2 ^ 16"]) (simp_all add: sock_fprog_def)
    ultimately show ?thesis
      using True r b print_read_ends [OF assms(1)] by (auto simp: disasm_def Let_def)
  qed (use True in \<open>simp add: disasm_def Let_def\<close>)
next
  case False
  from read_filters_total [of big input reads] show ?thesis
  proof (elim disjE exE conjE)
    fix fs log assume r: "read_filters big input reads = Done (fs, log)" "length fs \<le> BPF_MAXINSNS"
    have "length (if need_reverse_endian big a then map reverse_endian fs else fs) < 65536"
      using r(2) by (simp add: BPF_MAXINSNS_def)
    from print_read_ends [OF assms(1) this] show ?thesis using False r(1) by (simp add: disasm_def Let_def)
  qed (use False in \<open>simp add: disasm_def Let_def\<close>)
qed

end
