(* ===== verification/Decode_Asm.thy ===== *)
theory Decode_Asm
  imports Decoder Asm_Ok
begin

text \<open>
  The assembler undoes the decoder: a filter that has nothing in the fields its instruction does
  not use is what \<open>asm.c\<close> makes of the statement \<open>decoder.c\<close> has for it.
\<close>

text \<open>Filters with nothing in the fields that are not used.\<close>

definition canonical :: "sock_filter \<Rightarrow> bool" where
  "canonical f \<longleftrightarrow>
     (let c = sf_code f in
      valid_insn c
      \<and> (\<not> is_jump_code c \<longrightarrow> sf_jt f = 0 \<and> sf_jf f = 0)
      \<and> (c \<in> {0x80, 0x81, 0x16, 0x07, 0x87, 0x84} \<longrightarrow> sf_k f = 0)
      \<and> ((c \<in> set alu_codes \<or> is_jump_code c) \<and> BPF_SRC c = BPF_X \<longrightarrow> sf_k f = 0)
      \<and> (c = 0x20 \<longrightarrow> sf_k f < 64 \<and> sf_k f AND 3 = 0)
      \<and> (c = 0x05 \<longrightarrow> sf_k f < 65536)
      \<and> (c = 0x06 \<longrightarrow> sf_k f AND RET_ACTION_FULL \<in> {RET_KILL_PROCESS, RET_KILL, RET_ALLOW, RET_LOG, RET_USER_NOTIF}
           \<longrightarrow> sf_k f AND RET_DATA = 0))"

text \<open>The fields of the codes, put together again.\<close>

lemma alu_back:
  assumes "c \<in> set alu_codes" "c \<noteq> 0x84"
  shows "\<exists>p op. Decoder.operator_table (BPF_OP c) = Done (Assign_tk p) \<and> Asm.operator_table (Assign_tk p) = Done op
    \<and> 4 OR op OR BPF_SRC c = c \<and> BPF_SRC c \<in> {0, 8}"
proof -
  have "\<forall>c \<in> set alu_codes. c \<noteq> 0x84 \<longrightarrow>
    (\<exists>p op. Decoder.operator_table (BPF_OP c) = Done (Assign_tk p) \<and> Asm.operator_table (Assign_tk p) = Done op
      \<and> 4 OR op OR BPF_SRC c = c \<and> BPF_SRC c \<in> {0, 8})"
    by (simp add: alu_nums Decoder.operator_table_def Asm.operator_table_def bpf_fields)
  with assms show ?thesis by blast
qed

lemma jump_back:
  assumes "is_jump_code c"
  shows "BPF_OP c \<in> {0x10, 0x20, 0x30, 0x40}" "5 OR BPF_OP c OR BPF_SRC c = c" "BPF_SRC c \<in> {0, 8}"
proof -
  have "\<forall>c \<in> set jump_codes. BPF_OP c \<in> {0x10, 0x20, 0x30, 0x40} \<and> 5 OR BPF_OP c OR BPF_SRC c = c \<and> BPF_SRC c \<in> {0, 8}"
    by (simp add: jump_nums bpf_fields)
  with assms show "BPF_OP c \<in> {0x10, 0x20, 0x30, 0x40}" "5 OR BPF_OP c OR BPF_SRC c = c" "BPF_SRC c \<in> {0, 8}"
    unfolding is_jump_codes by blast+
qed

lemma filter_eqI:
  "sf_code f = sf_code g \<Longrightarrow> sf_jt f = sf_jt g \<Longrightarrow> sf_jf f = sf_jf g \<Longrightarrow> sf_k f = sf_k g \<Longrightarrow> f = (g :: sock_filter)"
  by (cases f; cases g) simp

definition goes_back :: "sock_filter \<Rightarrow> statement_t \<Rightarrow> bool" where
  "goes_back f st \<longleftrightarrow> (\<exists>st'. decode_filter f st = Done st' \<and> asm_statement st' = Done f)"

lemma back_alu:
  assumes "sf_code f \<in> set alu_codes" "canonical f"
  shows "goes_back f st"
proof (cases "sf_code f = 0x84")
  case True
  with assms(2) show ?thesis
    by (auto simp: canonical_def goes_back_def Let_def decode_filter_def Decoder.alu_line_def Decoder.operator_table_def bpf_fields
        asm_statement_def asm_neg zero_filter_def is_jump_codes jump_nums intro!: filter_eqI)
next
  case False
  from alu_back [OF assms(1) this] obtain p op where
    op: "Decoder.operator_table (BPF_OP (sf_code f)) = Done (Assign_tk p)" "Asm.operator_table (Assign_tk p) = Done op"
      "4 OR op OR BPF_SRC (sf_code f) = sf_code f" "BPF_SRC (sf_code f) \<in> {0, 8}" by blast
  have k: "BPF_SRC (sf_code f) = 8 \<Longrightarrow> sf_k f = 0" "sf_jt f = 0" "sf_jf f = 0"
    using assms alu_code(3) [OF assms(1)] by (simp_all add: canonical_def Let_def)
  show ?thesis using alu_code(2) [OF assms(1)] op k
    by (auto simp: goes_back_def decode_filter_def Decoder.alu_line_def asm_statement_def Asm.assign_line_def
        tok_simps Asm.alu_line_def Let_def zero_filter_def or.assoc intro!: filter_eqI)
qed

lemma back_jump:
  assumes j: "is_jump_code (sf_code f)" and c: "canonical f"
  shows "goes_back f st"
proof -
  note b = jump_back [OF j]
  have k: "BPF_SRC (sf_code f) = 8 \<Longrightarrow> sf_k f = 0" using c j by (simp add: canonical_def Let_def)
  have ja: "BPF_OP (sf_code f) \<noteq> 0" using b(1) by auto
  have u: "ucast (ucast w :: u16) = w" for w :: u8 by (simp add: ucast_up_ucast_id is_up)
  show ?thesis
    using jump_code(2) [OF j] ja b k u
    by (auto simp: goes_back_def decode_filter_def Decoder.jump_line_def Decoder.condition_def Decoder.comparator_table_def
        reverse_table_def asm_statement_def Asm.jump_line_def Asm.comparator_table_def reverse_jf_jt_def Let_def
        zero_filter_def zero_label_def or.assoc intro!: filter_eqI)
qed

lemma back_ja:
  assumes j: "sf_code f = 0x05" and c: "canonical f"
  shows "goes_back f st"
proof -
  have "\<not> is_jump_code 0x05" by (simp add: not_jump_code)
  then have z: "sf_jt f = 0" "sf_jf f = 0" "sf_k f < 65536" using c j by (simp_all add: canonical_def Let_def)
  then have "unat (sf_k f) < 65536" by (simp add: word_less_nat_alt)
  then have "ucast (ucast (sf_k f) :: u16) = sf_k f"
    by (simp add: word_unat_eq_iff unsigned_ucast_eq unsigned_take_bit_eq take_bit_nat_eq_self)
  then show ?thesis using z j
    by (auto simp: goes_back_def decode_filter_def bpf_fields Decoder.jump_line_def asm_statement_def asm_ja
        zero_filter_def zero_jump_def zero_label_def intro!: filter_eqI)
qed

lemma load_back:
  assumes "k < 64" "k AND 3 = (0 :: u32)"
  shows "\<exists>v. abs_table (drop_bit 2 k) = Done (Var_tk v) \<and> v \<notin> {Tk_X', MEM', ATTR_LEN'}
    \<and> offset_abs (if v = ATTR_LOWARG' \<or> v = ATTR_HIGHARG' then zero_obj\<lparr>obj_type := Var_tk v, obj_data := (k - 16) div 8\<rparr>
        else zero_obj\<lparr>obj_type := Var_tk v\<rparr>) = Done k"
proof -
  have "unat k mod 4 = 0" using and3_mod4 [of "zero_filter\<lparr>sf_k := k\<rparr>"] assms(2) by simp
  then obtain q where q: "unat k = 4 * q" by auto
  then have "q < 16" using assms(1) by (simp add: word_less_nat_alt)
  then have "q \<in> {0, 1, 2, 3, 4, 5, 6, 7, 8, 9, 10, 11, 12, 13, 14, 15}"
    by (simp add: numeral_eq_Suc less_Suc_eq)
  moreover have "k = of_nat (4 * q)" unfolding q [symmetric] by simp
  ultimately have "k \<in> {0, 4, 8, 12, 16, 20, 24, 28, 32, 36, 40, 44, 48, 52, 56, 60}" by (elim insertE) simp_all
  then show ?thesis by (elim insertE) (simp_all add: abs_table_def offset_abs_def offset_table_def)
qed

lemma back_load:
  assumes j: "sf_code f = 0x20" and c: "canonical f"
  shows "goes_back f st"
proof -
  have "\<not> is_jump_code 0x20" by (simp add: not_jump_code)
  then have z: "sf_jt f = 0" "sf_jf f = 0" "sf_k f < 64" "sf_k f AND 3 = 0" using c j by (simp_all add: canonical_def Let_def)
  from load_back [OF z(3,4)] obtain v where
    v: "abs_table (drop_bit 2 (sf_k f)) = Done (Var_tk v)" "v \<notin> {Tk_X', MEM', ATTR_LEN'}"
      "offset_abs (if v = ATTR_LOWARG' \<or> v = ATTR_HIGHARG' then zero_obj\<lparr>obj_type := Var_tk v, obj_data := (sf_k f - 16) div 8\<rparr>
        else zero_obj\<lparr>obj_type := Var_tk v\<rparr>) = Done (sf_k f)" by blast
  then show ?thesis using z(1,2) j
    by (auto simp: goes_back_def decode_filter_def bpf_fields ld_ldx_line_def asm_statement_def asm_ld ld_line_def
        zero_filter_def Let_def intro!: filter_eqI)
qed

text \<open>Returns: the action and the data make up the value.\<close>

lemma action_data: "(k AND 0xffff0000) OR (k AND 0xffff) = k" for k :: u32
proof -
  have "(0xffff0000 :: u32) OR 0xffff = - 1" by simp
  then show ?thesis by (simp only: bit.conj_disj_distrib [symmetric]) simp
qed

lemma back_return:
  assumes j: "sf_code f = 0x06" and c: "canonical f"
  shows "goes_back f st"
proof -
  have "\<not> is_jump_code 0x06" by (simp add: not_jump_code)
  then have z: "sf_jt f = 0" "sf_jf f = 0"
    and d: "sf_k f AND 0xffff0000 \<in> {0x80000000, 0, 0x7fff0000, 0x7ffc0000, 0x7fc00000} \<Longrightarrow> sf_k f AND 0xffff = 0"
    using c j by (simp_all add: canonical_def Let_def)
  have k: "sf_k f = (sf_k f AND 0xffff0000) OR (sf_k f AND 0xffff)" by (simp add: action_data)
  let ?obj = "fst (decode_return_k zero_obj (sf_k f))"
  have "obj_type ?obj = NUMBER \<and> obj_data ?obj = sf_k f
    \<or> obj_type ?obj \<noteq> NUMBER \<and> (\<exists>v. retvals (obj_type ?obj) = Done v \<and> v OR obj_data ?obj = sf_k f)"
    using d k by (auto simp: decode_return_k_def Let_def retvals_def zero_obj_def)
  moreover have "obj_type ?obj \<noteq> Tk_A" by (simp add: decode_return_k_def Let_def)
  ultimately show ?thesis using z j
    by (auto simp: goes_back_def decode_filter_def bpf_fields Decoder.return_line_def asm_statement_def
        Asm.return_line_def zero_filter_def Let_def intro!: filter_eqI)
qed

lemma plain_back:
  "goes_back (zero_filter\<lparr>sf_code := 0x80, sf_k := 0\<rparr>) st" "goes_back (zero_filter\<lparr>sf_code := 0x81, sf_k := 0\<rparr>) st"
  "goes_back (zero_filter\<lparr>sf_code := 0x16, sf_k := 0\<rparr>) st" "goes_back (zero_filter\<lparr>sf_code := 0x07, sf_k := 0\<rparr>) st"
  "goes_back (zero_filter\<lparr>sf_code := 0x87, sf_k := 0\<rparr>) st" "goes_back (zero_filter\<lparr>sf_code := 0x00, sf_k := k\<rparr>) st"
  "goes_back (zero_filter\<lparr>sf_code := 0x01, sf_k := k\<rparr>) st" "goes_back (zero_filter\<lparr>sf_code := 0x60, sf_k := k\<rparr>) st"
  "goes_back (zero_filter\<lparr>sf_code := 0x61, sf_k := k\<rparr>) st" "goes_back (zero_filter\<lparr>sf_code := 0x02, sf_k := k\<rparr>) st"
  "goes_back (zero_filter\<lparr>sf_code := 0x03, sf_k := k\<rparr>) st"
  by (simp_all add: goes_back_def decode_filter_def bpf_fields ld_ldx_line_def Decoder.st_stx_line_def
      misc_line_def Decoder.return_line_def Asm.return_line_def asm_statement_def asm_ld asm_ldx asm_st ld_line_def
      zero_filter_def zero_obj_def Let_def)

lemma back_plain:
  assumes j: "sf_code f \<in> {0x80, 0x81, 0x16, 0x00, 0x01, 0x07, 0x87, 0x60, 0x61, 0x02, 0x03}" and c: "canonical f"
  shows "goes_back f st"
proof -
  have "\<not> is_jump_code (sf_code f)" using j by (auto simp: not_jump_code)
  then have z: "sf_jt f = 0" "sf_jf f = 0" "sf_code f \<in> {0x80, 0x81, 0x16, 0x07, 0x87} \<Longrightarrow> sf_k f = 0"
    using c by (auto simp: canonical_def Let_def)
  have f: "f = zero_filter\<lparr>sf_code := sf_code f, sf_k := sf_k f\<rparr>"
    using z(1,2) by (intro filter_eqI) (simp_all add: zero_filter_def)
  show ?thesis using j z(3) by (subst f) (elim insertE; simp add: plain_back)
qed

lemma decode_asm: "canonical f \<Longrightarrow> goes_back f st"
proof -
  assume c: "canonical f"
  then have "valid_insn (sf_code f)" by (simp add: canonical_def Let_def)
  then show ?thesis
  proof (cases rule: valid_insn_cases)
    case 1
    show ?thesis by (rule back_load [OF 1 c])
  next
    case 4
    show ?thesis by (rule back_return [OF 4 c])
  next
    case 6
    show ?thesis by (rule back_alu [OF 6 c])
  next
    case 15
    show ?thesis by (rule back_ja [OF 15 c])
  next
    case 16
    show ?thesis by (rule back_jump [OF 16 c])
  qed (simp_all add: back_plain c)
qed

end
