(* ===== verification/Disasm_Asm.thy ===== *)
theory Disasm_Asm
  imports Disasm_Ok Decode_Asm Pipeline
begin

text \<open>
  The disassembler on what the assembler writes: the bytes are read back as the filters, however
  the \<open>read\<close> calls split them, and the check has nothing to say about an assembled program.
\<close>

section \<open>Reading bytes\<close>

lemma read_limit_Some:
  assumes "None \<notin> set reads" "0 < todo"
  obtains n where "read_limit todo reads = Some n" "0 < n" "n \<le> todo"
proof (cases reads)
  case Nil
  then show ?thesis using assms that by simp
next
  case (Cons r rs)
  then show ?thesis using assms that by (cases r) auto
qed

lemma read_filters_loop_all:
  "None \<notin> set reads \<Longrightarrow>
   read_filters_loop todo input reads got = Done (todo - length input, got @ take todo input)"
proof (induction todo input reads got rule: read_filters_loop.induct)
  case (1 todo input reads got)
  show ?case
  proof (cases "todo = 0")
    case True
    then show ?thesis by (subst read_filters_loop.simps) simp
  next
    case todo: False
    then obtain n where n: "read_limit todo reads = Some n" "0 < n" "n \<le> todo"
      using read_limit_Some [OF 1(2)] by blast
    show ?thesis
    proof (cases "input = []")
      case True
      then show ?thesis using todo n by (subst read_filters_loop.simps) simp
    next
      case False
      have "None \<notin> set (tl reads)" using 1(2) by (cases reads) auto
      from 1(1) [OF todo n(1) _ this] False n(2)
      have "read_filters_loop (todo - min n (length input)) (drop n input) (tl reads) (got @ take n input)
        = Done (todo - min n (length input) - length (drop n input),
            (got @ take n input) @ take (todo - min n (length input)) (drop n input))" by simp
      moreover have "take n input @ take (todo - min n (length input)) (drop n input) = take todo input"
        using n(3) by (cases "n \<le> length input") (simp_all add: take_add [symmetric])
      ultimately show ?thesis using False todo n
        by (simp add: read_filters_loop.simps [of todo input reads got])
    qed
  qed
qed

lemma read_filters_all:
  assumes "None \<notin> set reads"
  shows "read_filters big input reads =
    (if 8 * (BPF_MAXINSNS + 1) \<le> length input then Die M_TOO_LARGE_INPUT
     else Done (filters_of big input, if length input mod 8 \<noteq> 0 then [M_INPUT_HAS_LEFTOVER] else []))"
  by (simp add: read_filters_def read_filters_loop_all [OF assms] del: mult_Suc_right)

lemma length_filter_bytes [simp]: "length (filter_bytes big f) = 8"
  by (simp add: filter_bytes_def bytes16_def bytes32_def)

lemma length_bytes_of [simp]: "length (concat (map (filter_bytes big) fs)) = 8 * length fs"
  by (induction fs) simp_all

lemma filters_of_bytes: "filters_of big (concat (map (filter_bytes big) fs)) = fs"
proof (induction fs)
  case (Cons f fs)
  let ?bs = "filter_bytes big f @ concat (map (filter_bytes big) fs)"
  have "filters_of big ?bs = map (\<lambda>i. filter_of_bytes big (take 8 (drop (8 * i) ?bs))) (0 # map Suc [0..<length fs])"
    by (simp add: filters_of_def upt_conv_Cons map_Suc_upt del: upt_Suc)
  also have "\<dots> = f # filters_of big (concat (map (filter_bytes big) fs))"
    by (simp add: filters_of_def filter_of_filter_bytes)
  finally show ?case using Cons.IH by simp
qed (simp add: filters_of_def)

section \<open>Disassembling an assembled program\<close>

lemma reversed_back: "map reverse_endian (map reverse_endian fs) = fs"
  by (simp add: reverse_endian_def o_def)

lemma read_assembled:
  assumes "length fs \<le> BPF_MAXINSNS" "None \<notin> set reads"
  shows "disasm lib big color a False (concat (map (filter_bytes (big \<noteq> need_reverse_endian big a)) fs)) reads
    = print_read lib color a fs []"
proof -
  let ?rev = "need_reverse_endian big a"
  let ?fs = "if ?rev then map reverse_endian fs else fs"
  have b: "concat (map (filter_bytes (big \<noteq> ?rev)) fs) = concat (map (filter_bytes big) ?fs)"
    by (simp add: filter_bytes_reverse o_def)
  have "read_filters big (concat (map (filter_bytes big) ?fs)) reads = Done (?fs, [])"
    unfolding read_filters_all [OF assms(2)] filters_of_bytes length_bytes_of
    using assms(1) by simp
  then show ?thesis unfolding b disasm_def Let_def using reversed_back [of fs] by simp
qed

lemma assembled_listing:
  assumes "names_short lib" "safe_prog fs" "length fs \<le> BPF_MAXINSNS"
  shows "\<exists>out. print_read lib color a fs [] = Done (out, [])"
proof -
  have l: "length fs < 65536" and ne: "fs \<noteq> []" using assms by (simp_all add: BPF_MAXINSNS_def safe_prog_def)
  have z: "fatal_count start_cp = 0" "error_count start_cp = 0" "cp_log start_cp = []" by (simp_all add: start_cp_def)
  from check_prog_safe [OF assms(2) l z(1)] z obtain cp where
    c: "check_prog fs start_cp = Done (False, cp)" "cp_log cp = []" by (auto simp: quiet_from_def)
  from print_prog_done [OF assms(1) ne l c(1), of color a] c(2) ne show ?thesis by (auto simp: print_read_def)
qed

text \<open>The bytes that are written as characters.\<close>

definition text_bytes :: "string \<Rightarrow> u8 list" where
  "text_bytes s = map of_char s"

lemma text_bytes_raw: "text_bytes (concat (map (\<lambda>f. filter_text RAW (g f)) fs)) = concat (map g fs)"
proof -
  have "of_char (char_of (unat b) :: char) = b" for b :: u8
  proof -
    have "unat b < 256" by (rule order_less_le_trans [OF unsigned_less]) simp
    then have "(of_char (char_of (unat b) :: char) :: nat) = unat b" by simp
    then have "of_nat (of_char (char_of (unat b) :: char) :: nat) = (of_nat (unat b) :: u8)" by (rule arg_cong)
    then show ?thesis by (simp only: of_nat_of_char) simp
  qed
  then show ?thesis by (induction fs) (simp_all add: text_bytes_def filter_text_def o_def)
qed

end
