(* ===== verification/Listing_Facts.thy ===== *)
theory Listing_Facts
  imports Disasm_Asm Sample
begin

text \<open>
  The properties of the disassembler: it always ends, it lists what the assembler writes, its
  check makes a program safe to run, and its decoder is undone by the assembler.
\<close>

lemma sample_names: "names_short sample_lib"
  by (simp add: names_short_def sample_lib_def)

section \<open>Any input\<close>

text \<open>C7: \<open>ceccomp disasm\<close> ends on every input, classic or extended, in every byte order, however the
  reads are split: no assertion fails, no table, array or context is accessed outside its bounds,
  and the pile of names never overflows, as long as no name of a system call has more than 28 characters
  and the input is shorter than 4 GiB less 12 KiB.\<close>

theorem disasm_never_crashes:
  assumes "names_short lib" "length input + 0x3000 < 2 ^ 32"
  shows "disasm lib big color a ebpf input reads \<noteq> Crash m"
  using disasm_ends [OF assms] by (simp add: ends_def)

theorem disasm_never_crashes_witness:
  "\<nexists>m. disasm sample_lib False True 0xC000003E True [0xac, 0, 0] [Some 1] = Crash m"
  using disasm_never_crashes [OF sample_names] by simp

text \<open>C16: A program that \<open>check_prog\<close> has nothing to say about never gets stuck on the machine of the
  kernel: it returns a value for all data, whatever the registers and the memory hold.\<close>

theorem unreported_program_returns:
  assumes "prog \<noteq> []" "length prog < 65536" "check_prog prog start_cp = Done (False, cp)" "length (sd_args d) = 6"
  shows "\<exists>w. vm_run d prog 0 s = Some w"
proof -
  from check_prog_total [OF assms(1,2)] assms(3) have "check_promise prog False" by auto
  from runs_inside_returns [OF promise_inside [OF assms(1) this] assms(4)] assms(1) show ?thesis by simp
qed

theorem unreported_program_returns_witness:
  "(\<exists>cp. check_prog [CBPF_STMT 0x20 4, CBPF_STMT 0x16 0] start_cp = Done (False, cp))
    \<and> (\<exists>w. vm_run sample_data [CBPF_STMT 0x20 4, CBPF_STMT 0x16 0] 0 (vm_start (\<lambda>_. 0)) = Some w)"
proof -
  have c: "\<exists>cp. check_prog [CBPF_STMT 0x20 4, CBPF_STMT 0x16 0] start_cp = Done (False, cp)"
    by (intro exI) code_simp
  moreover have "length (sd_args sample_data) = 6" by (simp add: sample_data_def)
  ultimately show ?thesis
    using unreported_program_returns [of "[CBPF_STMT 0x20 4, CBPF_STMT 0x16 0]"] by auto
qed

section \<open>Assembler and disassembler\<close>



text \<open>C15: Decoding and assembling a filter gives it back: for every filter seccomp accepts that holds
  nothing in the fields its instruction does not use, \<open>asm.c\<close> makes of the statement of \<open>decoder.c\<close>
  the same filter.\<close>

theorem decode_then_assemble:
  assumes "canonical f"
  shows "\<exists>st'. decode_filter f st = Done st' \<and> asm_statement st' = Done f"
  using decode_asm [OF assms] by (simp add: goes_back_def)

theorem decode_then_assemble_witness:
  "\<exists>st'. decode_filter (CBPF_JMP 0x25 7 0 3) zero_statement = Done st' \<and> asm_statement st' = Done (CBPF_JMP 0x25 7 0 3)"
  by (rule decode_then_assemble)
    (simp add: canonical_def CBPF_JMP_def is_jump_codes jump_nums valid_nums alu_nums bpf_fields)

text \<open>C32: \<open>read_filters\<close> depends on the bytes of the input only, not on how the \<open>read\<close> calls return
  them: more than 4096 filters, or exactly 4097 filters' worth of bytes, end with the message, and bytes
  that do not fill a filter are left out with a warning.\<close>

theorem read_filters_spec:
  assumes "None \<notin> set reads"
  shows "read_filters big input reads =
    (if 8 * (BPF_MAXINSNS + 1) \<le> length input then Die M_TOO_LARGE_INPUT
     else Done (filters_of big input, if length input mod 8 \<noteq> 0 then [M_INPUT_HAS_LEFTOVER] else []))"
  by (rule read_filters_all [OF assms])

theorem read_filters_spec_witness:
  "read_filters False (filter_bytes False (CBPF_STMT 6 5) @ [1, 2]) [Some 2, Some 0]
    = Done (filters_of False (filter_bytes False (CBPF_STMT 6 5) @ [1, 2]), [M_INPUT_HAS_LEFTOVER])"
  by (simp add: read_filters_spec BPF_MAXINSNS_def)


end
