(* ===== verification/Logger.thy ===== *)
theory Logger
  imports Formatter Messages
begin

text \<open>
  \<open>src/utils/logger.c\<close> and \<open>set_color\<close> of \<open>src/utils/color.c\<close>: the messages on \<open>stderr\<close> and the two
  flags that say where colours are written. Of \<open>printf\<close> the conversions the messages use
  are modelled. The build without \<open>DEBUG\<close> is modelled.
\<close>

section \<open>Formatted text\<close>

datatype parg = PStr string | PInt int

text \<open>\<open>%d\<close>, \<open>%u\<close> and \<open>%lu\<close> of a value of their type.\<close>

definition int_text :: "int \<Rightarrow> string" where
  "int_text i = (if i < 0 then CHR ''-'' # dec_str (nat (- i)) else dec_str (nat i))"

definition conv_text :: "char \<Rightarrow> parg \<Rightarrow> string" where
  "conv_text c a =
     (case a of
        PStr s \<Rightarrow> s
      | PInt i \<Rightarrow>
          (if c = CHR ''x'' then alt_hex_str (nat i)
           else if c = CHR ''p'' then alt_hex_str (nat i)
           else int_text i))"

text \<open>The letters between \<open>%\<close> and the conversion are the modifiers \<open>#\<close> and \<open>l\<close>.\<close>

function printf_text :: "string \<Rightarrow> parg list \<Rightarrow> string" where
  "printf_text fmt args =
     (case fmt of
        [] \<Rightarrow> []
      | c # s \<Rightarrow>
          if c \<noteq> CHR ''%'' \<or> args = [] then c # printf_text s args
          else
            case dropWhile (\<lambda>d. d = CHR ''#'' \<or> d = CHR ''l'') s of
              [] \<Rightarrow> []
            | d # t \<Rightarrow> conv_text d (hd args) @ printf_text t (tl args))"
  by pat_completeness auto
termination
proof (relation "measure (\<lambda>(fmt, args). length fmt)", simp_all)
  fix s :: string and d t
  assume "dropWhile (\<lambda>d. d = CHR ''#'' \<or> d = CHR ''l'') s = d # t"
  then show "length t < Suc (length s)"
    using length_dropWhile_le [of "\<lambda>d. d = CHR ''#'' \<or> d = CHR ''l''" s] by simp
qed

declare printf_text.simps [simp del]

section \<open>Messages\<close>

datatype print_level_t = LV_DEBUG | LV_INFO | LV_WARN | LV_ERROR

definition BLUECLR :: string where "BLUECLR = esc ''34''"
definition CYANCLR :: string where "CYANCLR = esc ''36''"

primrec level_name :: "print_level_t \<Rightarrow> string" where
  "level_name LV_DEBUG = ''DEBUG''"
| "level_name LV_INFO = ''INFO''"
| "level_name LV_WARN = ''WARN''"
| "level_name LV_ERROR = ''ERROR''"

primrec level_color :: "print_level_t \<Rightarrow> string" where
  "level_color LV_DEBUG = CYANCLR"
| "level_color LV_INFO = BLUECLR"
| "level_color LV_WARN = YELLOWCLR"
| "level_color LV_ERROR = REDCLR"

definition prefix_str :: "string \<Rightarrow> string" where
  "prefix_str type_str = ''['' @ type_str @ '']: ''"

definition print_prefixes :: "print_level_t \<Rightarrow> string \<times> string" where
  "print_prefixes lv =
     (prefix_str (level_name lv), level_color lv @ prefix_str (level_name lv) @ CLR)"

text \<open>What a message appends to \<open>stderr\<close>.\<close>

definition ceccomp_vprint :: "bool \<Rightarrow> bool \<Rightarrow> print_level_t \<Rightarrow> string \<Rightarrow> parg list \<Rightarrow> string" where
  "ceccomp_vprint log_color from_external lv fmt args =
     (if log_color then snd (print_prefixes lv) else fst (print_prefixes lv))
     @ printf_text fmt args
     @ (if \<not> from_external then [CHR 0x0A] else [])"

definition info_print :: "bool \<Rightarrow> print_level_t \<Rightarrow> string \<Rightarrow> parg list \<Rightarrow> string" where
  "info_print log_color lv fmt args = ceccomp_vprint log_color False lv fmt args"

text \<open>The text written and the status of \<open>exit\<close>.\<close>

definition error_print :: "bool \<Rightarrow> string \<Rightarrow> parg list \<Rightarrow> string \<times> nat" where
  "error_print log_color fmt args = (ceccomp_vprint log_color False LV_ERROR fmt args, 1)"

section \<open>When to colour\<close>

datatype color_mode_t = ALWAYS | AUTO | NEVER

record log_color_t = color_t +
  log_color_enable :: bool

text \<open>The static variables before \<open>main\<close>.\<close>

definition start_color :: log_color_t where
  "start_color = \<lparr>color_enable = True, enable_stack = [], log_color_enable = True\<rparr>"

text \<open>The two booleans are \<open>isatty\<close> of the output and of \<open>stderr\<close>.\<close>

definition set_color :: "color_mode_t \<Rightarrow> bool \<Rightarrow> bool \<Rightarrow> log_color_t \<Rightarrow> log_color_t" where
  "set_color color tty_output tty_stderr c =
     (case color of
        ALWAYS \<Rightarrow> c\<lparr>color_enable := True, log_color_enable := True\<rparr>
      | NEVER \<Rightarrow> c\<lparr>color_enable := False, log_color_enable := False\<rparr>
      | AUTO \<Rightarrow> c\<lparr>color_enable := tty_output, log_color_enable := tty_stderr\<rparr>)"

lemma push_pop_color:
  "length (enable_stack c) < 0x10 \<Longrightarrow> cbind (push_color e c) pop_color = Done c"
  by (simp add: push_color_def pop_color_def)

end
