(* ===== verification/Proc_Status.thy ===== *)
theory Proc_Status
  imports Logger
begin

text \<open>
  \<open>src/utils/proc_status.c\<close>: values out of \<open>/proc/<pid>/status\<close> and the links of \<open>/proc/<pid>/fd\<close>.
  The text of the file is a parameter (\<open>None\<close> when it cannot be opened), as is the target of a
  link. \<open>fgets\<close> writes into one buffer, which keeps the rest of the longer lines before it.
\<close>

section \<open>The buffer\<close>

text \<open>\<open>fgets (buf, n, f)\<close> on the text left: what it stores and what remains.\<close>

definition fgets :: "nat \<Rightarrow> string \<Rightarrow> string \<times> string" where
  "fgets n s =
     (let len = length (takeWhile (\<lambda>c. c \<noteq> CHR 0x0A) s);
          k = min (n - 1) (if len < length s then Suc len else len)
      in (take k s, drop k s))"

lemma fgets_shorter: "s \<noteq> [] \<Longrightarrow> length (snd (fgets 0x40 s)) < length s"
  by (cases s) (auto simp: fgets_def Let_def min_def)

text \<open>A string and its NUL written over the start of a buffer, and the string a buffer holds.\<close>

definition store_str :: "string \<Rightarrow> string \<Rightarrow> string" where
  "store_str s buf = s @ CHR 0x00 # drop (Suc (length s)) buf"

definition c_str :: "string \<Rightarrow> string" where
  "c_str buf = takeWhile (\<lambda>c. c \<noteq> CHR 0x00) buf"

text \<open>\<open>STARTWITH\<close>.\<close>

definition startwith :: "string \<Rightarrow> string \<Rightarrow> bool" where
  "startwith s kw \<longleftrightarrow> take (length kw) s = kw"

section \<open>Values of the status file\<close>

abbreviation (input) PROCFS_ERROR :: int where "PROCFS_ERROR \<equiv> - 1"

definition status_value :: "nat \<Rightarrow> nat \<Rightarrow> string \<Rightarrow> u64 option" where
  "status_value base strsize buf =
     (let (v, e, r) = strtoull base (c_str (drop strsize buf)) in if e = 0 then None else Some v)"

text \<open>The loop over the lines: the value behind the key of the first line that starts with it.\<close>

function find_status :: "nat \<Rightarrow> string \<Rightarrow> string \<Rightarrow> string \<Rightarrow> u64 option" where
  "find_status base kw buf s =
     (if s = [] then None
      else
        let buf = store_str (fst (fgets 0x40 s)) buf in
        if startwith (c_str buf) kw then status_value base (Suc (length kw)) buf
        else find_status base kw buf (snd (fgets 0x40 s)))"
  by pat_completeness auto
termination
  by (relation "measure (\<lambda>(base, kw, buf, s). length s)") (simp_all add: fgets_shorter)

declare find_status.simps [simp del]

definition proc_path :: "int \<Rightarrow> string" where
  "proc_path pid = ''/proc/'' @ int_text pid @ ''/status''"

text \<open>A \<open>long\<close>, read from its 64 bits.\<close>

definition access_proc_with_key :: "int \<Rightarrow> string \<Rightarrow> string option \<Rightarrow> int" where
  "access_proc_with_key pid kw file =
     (case file of
        None \<Rightarrow> PROCFS_ERROR
      | Some s \<Rightarrow>
          (case find_status 10 kw (store_str (proc_path pid) (replicate 0x40 CHR 0x00)) s of
             None \<Rightarrow> PROCFS_ERROR
           | Some v \<Rightarrow> sint v))"

definition SECCOMP :: string where "SECCOMP = ''Seccomp:''"
definition KTHREAD :: string where "KTHREAD = ''Kthread:''"
definition TRACER_PID :: string where "TRACER_PID = ''TracerPid:''"

text \<open>The results are cut to the 32 bits of an enumeration or of a \<open>pid_t\<close>.\<close>

definition to_int :: "int \<Rightarrow> int" where
  "to_int i = sint (of_int i :: u32)"

definition get_proc_seccomp :: "int \<Rightarrow> string option \<Rightarrow> int" where
  "get_proc_seccomp pid file = to_int (access_proc_with_key pid SECCOMP file)"

definition is_proc_kthread :: "int \<Rightarrow> string option \<Rightarrow> int" where
  "is_proc_kthread pid file = to_int (access_proc_with_key pid KTHREAD file)"

definition get_tracer_pid :: "int \<Rightarrow> string option \<Rightarrow> int" where
  "get_tracer_pid pid file = to_int (access_proc_with_key pid TRACER_PID file)"

section \<open>Descriptors and capabilities\<close>

definition NOTIFY_S :: string where "NOTIFY_S = ''anon_inode:seccomp notify''"

text \<open>\<open>readlink\<close> into 0x20 bytes; \<open>None\<close> when it fails.\<close>

definition may_be_listener_fd :: "(int \<Rightarrow> string option) \<Rightarrow> int \<Rightarrow> bool" where
  "may_be_listener_fd link rax =
     (case link rax of
        None \<Rightarrow> False
      | Some t \<Rightarrow>
          let buf = take 0x20 t in length NOTIFY_S \<le> length buf \<and> take (length NOTIFY_S) buf = NOTIFY_S)"

abbreviation (input) CAP_SYS_ADMIN :: nat where "CAP_SYS_ADMIN \<equiv> 21"
abbreviation (input) CAP_PERFMON :: nat where "CAP_PERFMON \<equiv> 38"
abbreviation (input) CAP_BPF :: nat where "CAP_BPF \<equiv> 39"

definition CAPEFF :: string where "CAPEFF = ''CapEff:''"

text \<open>\<open>-1\<close> when the file or the line is missing.\<close>

definition have_bpf_cap :: "string option \<Rightarrow> int" where
  "have_bpf_cap file =
     (case file of
        None \<Rightarrow> - 1
      | Some s \<Rightarrow>
          (case find_status 16 CAPEFF (replicate 0x40 CHR 0x00) s of
             None \<Rightarrow> - 1
           | Some caps \<Rightarrow>
               if caps = - 1 then - 1
               else if (bit caps CAP_BPF \<and> bit caps CAP_PERFMON) \<or> bit caps CAP_SYS_ADMIN then 1
               else 0))"

section \<open>Reading a well formed file\<close>

text \<open>A line of the file: no line break, no NUL, and short enough for the buffer.\<close>

definition status_line :: "string \<Rightarrow> bool" where
  "status_line l \<longleftrightarrow> length l < 0x3f \<and> CHR 0x0A \<notin> set l \<and> CHR 0x00 \<notin> set l"

lemma takeWhile_no_break: "CHR 0x0A \<notin> set l \<Longrightarrow> takeWhile (\<lambda>c. c \<noteq> CHR 0x0A) (l @ CHR 0x0A # s) = l"
  by (induction l) auto

lemma fgets_line: "status_line l \<Longrightarrow> fgets 0x40 (l @ CHR 0x0A # s) = (l @ [CHR 0x0A], s)"
  by (cases "length l = 62") (auto simp: fgets_def status_line_def takeWhile_no_break Let_def min_def)

lemma c_str_store: "CHR 0x00 \<notin> set s \<Longrightarrow> c_str (store_str s buf) = s"
  by (simp add: c_str_def store_str_def takeWhile_append takeWhile_eq_all_conv [THEN iffD2])

lemma c_str_drop_store:
  "CHR 0x00 \<notin> set s \<Longrightarrow> n \<le> length s \<Longrightarrow> c_str (drop n (store_str s buf)) = drop n s"
proof -
  assume a: "CHR 0x00 \<notin> set s" "n \<le> length s"
  have "CHR 0x00 \<notin> set (drop n s)" using a(1) by (meson in_set_dropD)
  with a(2) show ?thesis by (simp add: c_str_def store_str_def takeWhile_append)
qed

lemma find_status_skip:
  assumes "status_line l" "\<not> startwith (l @ [CHR 0x0A]) kw"
  shows "find_status base kw buf (l @ CHR 0x0A # s) = find_status base kw (store_str (l @ [CHR 0x0A]) buf) s"
  using assms c_str_store [of "l @ [CHR 0x0A]" buf]
  by (subst find_status.simps) (simp add: fgets_line status_line_def)

lemma find_status_hit:
  assumes "status_line l" "startwith (l @ [CHR 0x0A]) kw" "length kw \<le> length l"
  shows "find_status base kw buf (l @ CHR 0x0A # s)
    = status_value base (Suc (length kw)) (store_str (l @ [CHR 0x0A]) buf)"
  using assms c_str_store [of "l @ [CHR 0x0A]" buf]
  by (subst find_status.simps) (simp add: fgets_line status_line_def)

lemma find_status_lines:
  assumes "list_all status_line ls" "\<forall>l \<in> set ls. \<not> startwith (l @ [CHR 0x0A]) kw"
    and "status_line l" "startwith (l @ [CHR 0x0A]) kw" "length kw \<le> length l"
  shows "\<exists>buf'. find_status base kw buf (concat (map (\<lambda>l. l @ [CHR 0x0A]) ls) @ l @ CHR 0x0A # s)
    = status_value base (Suc (length kw)) (store_str (l @ [CHR 0x0A]) buf')"
  using assms(1,2)
proof (induction ls arbitrary: buf)
  case Nil
  show ?case using find_status_hit [OF assms(3-5)] by auto
next
  case (Cons l' ls)
  then have "find_status base kw buf (concat (map (\<lambda>l. l @ [CHR 0x0A]) (l' # ls)) @ l @ CHR 0x0A # s)
      = find_status base kw (store_str (l' @ [CHR 0x0A]) buf) (concat (map (\<lambda>l. l @ [CHR 0x0A]) ls) @ l @ CHR 0x0A # s)"
    using find_status_skip [of l' kw] by simp
  with Cons show ?case by simp
qed

lemma strtoull_10:
  assumes "n < 2 ^ 64" "rest = [] \<or> \<not> isalnum_l (hd rest)"
  shows "strtoull 10 (dec_str n @ rest) = (of_nat n, length (dec_str n), False)"
proof -
  let ?s = "dec_str n @ rest"
  obtain d where d: "d < 10" "hd ?s = digit_char d"
    using base_str_digits [of 10 "hd (base_str 10 n)" n] by (auto simp: dec_str_def)
  note ok = digit_ok [of d, unfolded digit_ok_def Let_def]
  have ws: "takeWhile isspace_l ?s = []" using ok d by (cases ?s) auto
  have tw: "takeWhile (\<lambda>c. digit_val c < 10) ?s = dec_str n"
    unfolding dec_str_def by (rule takeWhile_digits [OF _ _ assms(2)]) auto
  have "num_val 10 (dec_str n) = n" unfolding dec_str_def by (rule num_val_base_str) auto
  moreover have "dec_str n \<noteq> []" by (simp add: dec_str_def)
  ultimately show ?thesis
    unfolding strtoull_def Let_def ws using ok d assms(1) by (simp add: tw)
qed

text \<open>The value of \<open>key: n\<close> (a tab behind the colon), whatever comes before and behind.\<close>

lemma access_proc_value:
  assumes "list_all status_line ls" "\<forall>l \<in> set ls. \<not> startwith (l @ [CHR 0x0A]) kw"
    and "status_line (kw @ CHR 0x09 # dec_str n)" "n < 2 ^ 63"
  shows "access_proc_with_key pid kw
      (Some (concat (map (\<lambda>l. l @ [CHR 0x0A]) ls) @ (kw @ CHR 0x09 # dec_str n) @ CHR 0x0A # s)) = int n"
proof -
  let ?l = "kw @ CHR 0x09 # dec_str n"
  from find_status_lines [OF assms(1,2,3), of 10 "store_str (proc_path pid) (replicate 0x40 CHR 0x00)" s]
  obtain buf where f: "find_status 10 kw (store_str (proc_path pid) (replicate 0x40 CHR 0x00))
      (concat (map (\<lambda>l. l @ [CHR 0x0A]) ls) @ ?l @ CHR 0x0A # s)
    = status_value 10 (Suc (length kw)) (store_str (?l @ [CHR 0x0A]) buf)"
    by (auto simp: startwith_def)
  have "CHR 0x00 \<notin> set (?l @ [CHR 0x0A])" using assms(3) by (auto simp: status_line_def)
  from c_str_drop_store [OF this, of "Suc (length kw)" buf]
  have "c_str (drop (Suc (length kw)) (store_str (?l @ [CHR 0x0A]) buf)) = dec_str n @ [CHR 0x0A]" by simp
  moreover have "strtoull 10 (dec_str n @ [CHR 0x0A]) = (of_nat n, length (dec_str n), False)"
    using assms(4) strtoull_10 [of n "[CHR 0x0A]"] by (simp add: ctype_defs)
  moreover have "dec_str n \<noteq> []" by (simp add: dec_str_def)
  moreover have "sint (of_nat n :: u64) = int n" using assms(4)
    by (simp add: signed_of_nat signed_take_bit_int_eq_self)
  ultimately show ?thesis using f by (simp add: access_proc_with_key_def status_value_def)
qed

end
