(* ===== verification/Trace.thy ===== *)
theory Trace
  imports Proc_Status Disasm
begin

text \<open>
  \<open>src/trace.c\<close>: following a process through \<open>ptrace\<close>, and printing the filters it loads. What the
  kernel answers is a parameter: the results of \<open>waitpid\<close> with, for each stop, what
  \<open>PTRACE_GET_SYSCALL_INFO\<close>, \<open>PTRACE_PEEKDATA\<close>, \<open>PTRACE_GETEVENTMSG\<close> and \<open>/proc\<close> say while it is handled.
  The state holds the static variables, the calls made of the kernel, and what was written. The
  host has 64 bits; a message is written to \<open>stderr\<close>, and \<open>error ()\<close> is \<open>Die\<close> with its text.
\<close>

section \<open>What the kernel answers\<close>

datatype info_op = OP_NONE | OP_ENTRY | OP_EXIT | OP_SECCOMP

record syscall_info =
  si_op :: info_op
  si_arch :: u32
  si_nr :: u64
  si_args :: "u64 list"
  si_rval :: u64

text \<open>The state of the thread at a stop, and the information at its next stop.\<close>

record stop_answers =
  sa_info :: syscall_info
  sa_exit :: syscall_info
  sa_mem :: "u64 \<Rightarrow> u8 option"
  sa_link :: "int \<Rightarrow> string option"
  sa_new_pid :: u64

text \<open>The requests made, and the waits that returned a stop of a thread.\<close>

datatype ptrace_call =
    PT_SEIZE int u32 | PT_INTERRUPT int | PT_SYSCALL int int | PT_LISTEN int | PT_DETACH int | WAIT_STOP int

text \<open>\<open>strerror\<close> and the flags of the colours belong to the process.\<close>

record trace_env =
  te_lib :: scmp_lib
  te_big :: bool
  te_color :: bool
  te_log_color :: bool
  te_strerror :: "int \<Rightarrow> string"

record trace_state =
  saved_arch :: u32
  seccomp_nr :: u64
  prctl_nr :: u64
  tr_cp :: cp_state
  tr_out :: string
  tr_err :: string
  tr_calls :: "ptrace_call list"

definition start_trace :: trace_state where
  "start_trace = \<lparr>saved_arch = - 1, seccomp_nr = 0, prctl_nr = 0, tr_cp = start_cp, tr_out = [], tr_err = [],
     tr_calls = []\<rparr>"

definition say :: "trace_env \<Rightarrow> print_level_t \<Rightarrow> string \<Rightarrow> parg list \<Rightarrow> trace_state \<Rightarrow> trace_state" where
  "say te lv fmt args st = st\<lparr>tr_err := tr_err st @ info_print (te_log_color te) lv fmt args\<rparr>"

definition request :: "ptrace_call \<Rightarrow> trace_state \<Rightarrow> trace_state" where
  "request r st = st\<lparr>tr_calls := tr_calls st @ [r]\<rparr>"

section \<open>Loading a filter\<close>

abbreviation (input) SECCOMP_SET_MODE_STRICT :: u64 where "SECCOMP_SET_MODE_STRICT \<equiv> 0"
abbreviation (input) SECCOMP_SET_MODE_FILTER :: u64 where "SECCOMP_SET_MODE_FILTER \<equiv> 1"
abbreviation (input) SECCOMP_MODE_STRICT :: u64 where "SECCOMP_MODE_STRICT \<equiv> 1"
abbreviation (input) SECCOMP_MODE_FILTER :: u64 where "SECCOMP_MODE_FILTER \<equiv> 2"
abbreviation (input) PR_SET_SECCOMP :: u64 where "PR_SET_SECCOMP \<equiv> 22"

text \<open>The bits of the flags.\<close>

abbreviation (input) FLAG_TSYNC :: nat where "FLAG_TSYNC \<equiv> 0"
abbreviation (input) FLAG_LOG :: nat where "FLAG_LOG \<equiv> 1"
abbreviation (input) FLAG_SPEC_ALLOW :: nat where "FLAG_SPEC_ALLOW \<equiv> 2"
abbreviation (input) FLAG_NEW_LISTENER :: nat where "FLAG_NEW_LISTENER \<equiv> 3"
abbreviation (input) FLAG_TSYNC_ESRCH :: nat where "FLAG_TSYNC_ESRCH \<equiv> 4"
abbreviation (input) FLAG_WAIT_KILLABLE_RECV :: nat where "FLAG_WAIT_KILLABLE_RECV \<equiv> 5"

datatype load_mode = SET_STRICT | SET_FILTER | LOAD_FAIL | LOAD_ELSE

text \<open>\<open>load_success\<close> of \<open>include/utils/ebpf_share.h\<close>.\<close>

definition load_success :: "int \<Rightarrow> u32 \<Rightarrow> bool" where
  "load_success ret flags =
     (if ret < 0 then False
      else if ret = 0 then True
      else if \<not> bit flags FLAG_NEW_LISTENER then False
      else if \<not> bit flags FLAG_TSYNC then True
      else if bit flags FLAG_TSYNC_ESRCH then True
      else False)"

text \<open>The mode and the flags of an attempt to load a filter.\<close>

definition load_attempt :: "trace_state \<Rightarrow> syscall_info \<Rightarrow> (load_mode \<times> u32) option" where
  "load_attempt st info =
     (let nr = si_nr info; arg0 = si_args info ! 0; arg1 = si_args info ! 1 in
      if nr = seccomp_nr st \<and> (arg0 = SECCOMP_SET_MODE_FILTER \<or> arg0 = SECCOMP_SET_MODE_STRICT) then
        Some (if arg0 = SECCOMP_SET_MODE_FILTER then SET_FILTER else SET_STRICT, ucast arg1)
      else if nr = prctl_nr st \<and> arg0 = PR_SET_SECCOMP then
        (if arg1 = SECCOMP_MODE_STRICT then Some (SET_STRICT, 0)
         else if arg1 = SECCOMP_MODE_FILTER then Some (SET_FILTER, 0)
         else None)
      else None)"

definition load_succeeds :: "(int \<Rightarrow> string option) \<Rightarrow> int \<Rightarrow> u32 \<Rightarrow> bool" where
  "load_succeeds link rval flags =
     (if bit flags FLAG_NEW_LISTENER \<and> bit flags FLAG_TSYNC \<and> bit flags FLAG_TSYNC_ESRCH
      then may_be_listener_fd link rval
      else if bit flags FLAG_NEW_LISTENER \<and> \<not> bit flags FLAG_TSYNC then may_be_listener_fd link rval
      else load_success rval flags)"

text \<open>The mode, \<open>*rval\<close>, and the state after the wait for the end of the system call.\<close>

definition check_scmp_mode ::
  "stop_answers \<Rightarrow> int \<Rightarrow> trace_state \<Rightarrow> (load_mode \<times> int \<times> trace_state) cres" where
  "check_scmp_mode sa pid st =
     (case load_attempt st (sa_info sa) of
        None \<Rightarrow> Done (LOAD_ELSE, 0, st)
      | Some (m, flags) \<Rightarrow>
          let st = request (WAIT_STOP pid) (request (PT_SYSCALL pid 0) st) in
          if si_op (sa_exit sa) \<noteq> OP_EXIT then Crash ''assert (exit_info.op == PTRACE_SYSCALL_INFO_EXIT)''
          else
            let rval = sint (si_rval (sa_exit sa)) in
            if load_succeeds (sa_link sa) rval flags then Done (m, rval, st)
            else Done (LOAD_FAIL, rval, st))"

section \<open>The filters in the memory of the process\<close>

text \<open>The eight bytes of a word, in the order of the memory.\<close>

definition mem_bytes :: "(u64 \<Rightarrow> u8 option) \<Rightarrow> u64 \<Rightarrow> nat \<Rightarrow> u8 list option" where
  "mem_bytes mem a n =
     (if list_all (\<lambda>i. mem (a + of_nat i) \<noteq> None) [0..<n]
      then Some (map (\<lambda>i. the (mem (a + of_nat i))) [0..<n]) else None)"

definition peek_data_check :: "(u64 \<Rightarrow> u8 option) \<Rightarrow> u64 \<Rightarrow> u8 list cres" where
  "peek_data_check mem addr =
     (case mem_bytes mem addr 8 of
        None \<Rightarrow> Die (printf_text M_PEEKDATA_FAILED_ADR [PInt (uint addr)])
      | Some bs \<Rightarrow> Done bs)"

text \<open>A word in the byte order of the host.\<close>

definition word_of_bytes :: "bool \<Rightarrow> u8 list \<Rightarrow> u64" where
  "word_of_bytes big bs = foldr (\<lambda>b w. ucast b OR push_bit 8 w) (if big then rev bs else bs) 0"

abbreviation (input) AUDIT_ARCH_64BIT :: nat where "AUDIT_ARCH_64BIT \<equiv> 31"

fun peek_words :: "(u64 \<Rightarrow> u8 option) \<Rightarrow> u64 \<Rightarrow> nat \<Rightarrow> u8 list cres" where
  "peek_words mem a 0 = Done []"
| "peek_words mem a (Suc n) =
     cbind (peek_data_check mem a) (\<lambda>bs.
     cbind (peek_words mem (a + 8) n) (\<lambda>rest. Done (bs @ rest)))"

text \<open>
  The filters. \<open>struct sock_fprog\<close> has its pointer at offset 8, or 4 in a process of 32 bits, whose
  pointer is copied over the first four bytes of a zero word.
\<close>

definition dump_filter :: "bool \<Rightarrow> syscall_info \<Rightarrow> (u64 \<Rightarrow> u8 option) \<Rightarrow> sock_filter list cres" where
  "dump_filter big info mem =
     (let args2 = si_args info ! 2;
          is_target_64 = bit (si_arch info) AUDIT_ARCH_64BIT;
          offset = (if is_target_64 then 8 else 4)
      in
      cbind (peek_data_check mem args2) (\<lambda>word.
      let len = unat (if big then of_bytes16 (word ! 1) (word ! 0) else of_bytes16 (word ! 0) (word ! 1)) in
      if len = 0 \<or> BPF_MAXINSNS < len then Die M_TRACE_UNDER_ATTACK
      else
        cbind (peek_data_check mem (args2 + offset)) (\<lambda>word.
        let filter_adr = (if is_target_64 then word_of_bytes big word
                          else word_of_bytes big (take 4 word @ replicate 4 0))
        in cbind (peek_words mem filter_adr len) (\<lambda>bs. Done (filters_of big bs)))))"

definition mode_filter :: "trace_env \<Rightarrow> stop_answers \<Rightarrow> int \<Rightarrow> trace_state \<Rightarrow> trace_state cres" where
  "mode_filter te sa pid st =
     cbind (dump_filter (te_big te) (sa_info sa) (sa_mem sa)) (\<lambda>prog.
     cbind (print_prog (te_lib te) (te_color te) (si_arch (sa_info sa)) prog (nat pid) True (tr_cp st)) (\<lambda>(out, cp).
     Done (st\<lparr>tr_cp := cp, tr_out := tr_out st @ out\<rparr>)))"

section \<open>Messages\<close>

definition seccomp_flags :: "(nat \<times> string) list" where
  "seccomp_flags =
     [(FLAG_TSYNC, ''SECCOMP_FILTER_FLAG_TSYNC''), (FLAG_LOG, ''SECCOMP_FILTER_FLAG_LOG''),
      (FLAG_SPEC_ALLOW, ''SECCOMP_FILTER_FLAG_SPEC_ALLOW''), (FLAG_NEW_LISTENER, ''SECCOMP_FILTER_FLAG_NEW_LISTENER''),
      (FLAG_TSYNC_ESRCH, ''SECCOMP_FILTER_FLAG_TSYNC_ESRCH''),
      (FLAG_WAIT_KILLABLE_RECV, ''SECCOMP_FILTER_FLAG_WAIT_KILLABLE_RECV'')]"

text \<open>The loop over the flags: \<open>not_first\<close> and the text in \<open>flag_buf\<close>, which has 0x100 bytes.\<close>

fun flag_loop :: "u32 \<Rightarrow> (nat \<times> string) list \<Rightarrow> bool \<Rightarrow> string \<Rightarrow> string cres" where
  "flag_loop flag [] not_first t = Done t"
| "flag_loop flag ((b, nm) # fs) not_first t =
     (if \<not> bit flag b then flag_loop flag fs not_first t
      else
        let t' = (if not_first then t @ '' | '' @ nm else nm) in
        if 0x100 \<le> length t' then Crash ''write outside flag_buf''
        else flag_loop flag fs True t')"

definition info_parse :: "trace_env \<Rightarrow> syscall_info \<Rightarrow> int \<Rightarrow> trace_state \<Rightarrow> trace_state cres" where
  "info_parse te info pid st =
     (let flag = ucast (si_args info ! 1) :: u32; nr = ucast (si_nr info) :: u32 in
      if ucast nr = prctl_nr st then
        Done (say te LV_INFO M_PID_BPF_PRCTL [PInt pid, PStr ''SECCOMP_MODE_FILTER''] st)
      else
        cbind (flag_loop flag seccomp_flags False ''0'') (\<lambda>flag_buf.
        Done (say te LV_INFO M_PID_BPF_SECCOMP [PInt pid, PStr ''SECCOMP_SET_MODE_FILTER'', PStr flag_buf] st)))"

section \<open>Stops of a process\<close>

text \<open>\<open>seccomp_syscall_resolve_name_arch\<close> returns an \<open>int\<close>.\<close>

definition resolve_nr :: "trace_env \<Rightarrow> u32 \<Rightarrow> string \<Rightarrow> u64" where
  "resolve_nr te arch name = scast (syscall_resolve_name_arch (te_lib te) arch name)"

definition new_arch :: "trace_env \<Rightarrow> u32 \<Rightarrow> trace_state \<Rightarrow> trace_state cres" where
  "new_arch te arch st =
     (if arch \<noteq> saved_arch st then
        let st = st\<lparr>saved_arch := arch, seccomp_nr := resolve_nr te arch ''seccomp'',
                    prctl_nr := resolve_nr te arch ''prctl''\<rparr>
        in if prctl_nr st = - 1 then Die (printf_text M_TRACEE_ARCH_NOT_SUPPORTED [PInt (uint arch)])
           else Done st
      else Done st)"

definition report_load ::
  "trace_env \<Rightarrow> load_mode \<Rightarrow> int \<Rightarrow> syscall_info \<Rightarrow> int \<Rightarrow> trace_state \<Rightarrow> trace_state cres" where
  "report_load te m rval info pid st =
     (if m = LOAD_FAIL then
        Done (say te LV_WARN M_PID_BPF_LOAD_FAIL
          [PInt pid, PStr (if 0 < rval then M_BPF_FAIL_UNKNOWN else te_strerror te (- rval))] st)
      else if m = SET_FILTER then info_parse te info pid st
      else Done st)"

text \<open>Whether tracing ends, and the state.\<close>

definition handle_syscall ::
  "trace_env \<Rightarrow> bool \<Rightarrow> bool \<Rightarrow> int \<Rightarrow> stop_answers \<Rightarrow> trace_state \<Rightarrow> (bool \<times> trace_state) cres" where
  "handle_syscall te quiet oneshot pid sa st =
     (let info = sa_info sa in
      if si_op info \<noteq> OP_ENTRY then Done (False, st)
      else
        cbind (new_arch te (si_arch info) st) (\<lambda>st.
        cbind (check_scmp_mode sa pid st) (\<lambda>(m, rval, st).
        cbind (if \<not> quiet then report_load te m rval info pid st else Done st) (\<lambda>st.
        cbind (if m = SET_STRICT then Done (say te LV_WARN M_FOUND_STRICT_MODE [PInt pid] st)
               else if m = SET_FILTER then mode_filter te sa pid st
               else Done st) (\<lambda>st.
        Done (oneshot \<and> m \<noteq> LOAD_FAIL \<and> m \<noteq> LOAD_ELSE, st))))))"

abbreviation (input) PTRACE_EVENT_FORK :: u32 where "PTRACE_EVENT_FORK \<equiv> 1"
abbreviation (input) PTRACE_EVENT_VFORK :: u32 where "PTRACE_EVENT_VFORK \<equiv> 2"
abbreviation (input) PTRACE_EVENT_CLONE :: u32 where "PTRACE_EVENT_CLONE \<equiv> 3"
abbreviation (input) PTRACE_EVENT_STOP :: u32 where "PTRACE_EVENT_STOP \<equiv> 128"

definition status_event :: "u32 \<Rightarrow> u32" where
  "status_event status = drop_bit 16 status AND 0xffff"

definition handle_fork ::
  "trace_env \<Rightarrow> bool \<Rightarrow> int \<Rightarrow> u32 \<Rightarrow> stop_answers \<Rightarrow> trace_state \<Rightarrow> bool \<times> trace_state" where
  "handle_fork te quiet pid status sa st =
     (let e = status_event status in
      if e = PTRACE_EVENT_FORK \<or> e = PTRACE_EVENT_VFORK \<or> e = PTRACE_EVENT_CLONE then
        (True, if \<not> quiet then say te LV_INFO M_PROCESS_FORK [PInt pid, PInt (sint (ucast (sa_new_pid sa) :: u32))] st else st)
      else if e = PTRACE_EVENT_STOP then (True, st)
      else (False, st))"

section \<open>The loop of the tracer\<close>

definition WIFEXITED :: "u32 \<Rightarrow> bool" where "WIFEXITED s \<longleftrightarrow> s AND 0x7f = 0"
definition WIFSIGNALED :: "u32 \<Rightarrow> bool" where "WIFSIGNALED s \<longleftrightarrow> s AND 0x7f \<noteq> 0 \<and> s AND 0x7f \<noteq> 0x7f"
definition WIFCONTINUED :: "u32 \<Rightarrow> bool" where "WIFCONTINUED s \<longleftrightarrow> s = 0xffff"
definition WSTOPSIG :: "u32 \<Rightarrow> u32" where "WSTOPSIG s = drop_bit 8 (s AND 0xff00)"

abbreviation (input) SIGTRAP :: u32 where "SIGTRAP \<equiv> 5"

text \<open>A result of \<open>waitpid (-1)\<close>: a failure, with whether it is \<open>ECHILD\<close>, or a process and its status.\<close>

datatype wait_result = Wait_Fail bool | Waited int u32 stop_answers

text \<open>How tracing ends: \<open>waitpid\<close> never returns again, \<open>exit (0)\<close>, or the architecture is returned.\<close>

datatype trace_end = Blocked | Exit_0 | Returned u32

definition handle_stop ::
  "trace_env \<Rightarrow> bool \<Rightarrow> bool \<Rightarrow> int \<Rightarrow> u32 \<Rightarrow> stop_answers \<Rightarrow> trace_state \<Rightarrow> (bool \<times> trace_state) cres" where
  "handle_stop te quiet oneshot pid status sa st =
     (let sig = WSTOPSIG status in
      if sig = SIGTRAP OR 0x80 then
        cbind (handle_syscall te quiet oneshot pid sa st) (\<lambda>(ret, st).
        Done (ret, if ret then st else request (PT_SYSCALL pid 0) st))
      else
        let (fork, st') = (if sig = SIGTRAP then handle_fork te quiet pid status sa st else (False, st)) in
        if fork then Done (False, request (PT_SYSCALL pid 0) st')
        else if status_event status = PTRACE_EVENT_STOP then Done (False, request (PT_LISTEN pid) st)
        else Done (False, request (PT_SYSCALL pid (uint sig)) st))"

fun parent_loop ::
  "trace_env \<Rightarrow> bool \<Rightarrow> bool \<Rightarrow> wait_result list \<Rightarrow> trace_state \<Rightarrow> (trace_end \<times> trace_state) cres" where
  "parent_loop te quiet oneshot [] st = Done (Blocked, st)"
| "parent_loop te quiet oneshot (Wait_Fail echild # ws) st =
     (if echild then Done (Exit_0, st) else parent_loop te quiet oneshot ws st)"
| "parent_loop te quiet oneshot (Waited pid status sa # ws) st =
     (if WIFEXITED status \<or> WIFSIGNALED status then
        parent_loop te quiet oneshot ws (if \<not> quiet then say te LV_INFO M_PROCESS_EXIT [PInt pid] st else st)
      else if WIFCONTINUED status then parent_loop te quiet oneshot ws st
      else
        cbind (handle_stop te quiet oneshot pid status sa (request (WAIT_STOP pid) st)) (\<lambda>(ret, st).
        if ret then Done (Returned (saved_arch st), st) else parent_loop te quiet oneshot ws st))"

abbreviation (input) PTRACE_FLAGS :: u32 where "PTRACE_FLAGS \<equiv> 0x0f"
abbreviation (input) PTRACE_O_EXITKILL :: u32 where "PTRACE_O_EXITKILL \<equiv> 0x100000"

text \<open>
  \<open>seized\<close> and \<open>interrupted\<close> say whether the two first requests succeed. The second result is what
  is written to \<open>efd\<close>, if it is not \<open>-1\<close>; the first result of a failure is \<open>Returned (-1)\<close>.
\<close>

definition parent ::
  "trace_env \<Rightarrow> int \<Rightarrow> u32 \<Rightarrow> bool \<Rightarrow> bool \<Rightarrow> bool \<Rightarrow> bool \<Rightarrow> bool \<Rightarrow> wait_result list \<Rightarrow> trace_state
    \<Rightarrow> (trace_end \<times> nat option \<times> trace_state) cres" where
  "parent te child_pid extra_flags quiet oneshot efd seized interrupted ws st =
     (let st = request (PT_SEIZE child_pid (PTRACE_FLAGS OR extra_flags)) st;
          st = (if seized then request (PT_INTERRUPT child_pid) st else st);
          ok = (seized \<and> interrupted);
          written = (if efd then Some (if ok then 1 else 2) else None)
      in
      if \<not> ok then Done (Returned (- 1), written, st)
      else
        let st = request (WAIT_STOP child_pid) st;
            st = (if \<not> quiet then say te LV_INFO M_START_TRACING [PInt child_pid] st else st);
            st = request (PT_SYSCALL child_pid 0) st
        in cbind (parent_loop te quiet oneshot ws st) (\<lambda>(e, st). Done (e, written, st)))"

text \<open>The child: \<open>fail\<close> is what it reads from \<open>efd\<close>; \<open>exec\<close> is the error of \<open>execv\<close>, if it returns.\<close>

datatype child_end = Child_Exit nat | Child_Program

definition child :: "string \<Rightarrow> nat \<Rightarrow> string option \<Rightarrow> child_end cres" where
  "child argv0 fail exec =
     (if fail = 2 then Done (Child_Exit 1)
      else
        case exec of
          None \<Rightarrow> Done Child_Program
        | Some e \<Rightarrow> Die (printf_text ''%s %s: %s'' [PStr M_EXECV_ERR, PStr argv0, PStr e]))"

definition program_trace ::
  "trace_env \<Rightarrow> int \<Rightarrow> bool \<Rightarrow> bool \<Rightarrow> bool \<Rightarrow> bool \<Rightarrow> wait_result list \<Rightarrow> trace_state
    \<Rightarrow> (trace_end \<times> trace_state) cres" where
  "program_trace te pid quiet oneshot seized interrupted ws st =
     cbind (parent te pid PTRACE_O_EXITKILL quiet oneshot True seized interrupted ws st) (\<lambda>(e, written, st).
     if e = Returned (- 1) then Die (printf_text M_FAILED_SEIZE_CHILD [PInt pid]) else Done (e, st))"

end
