(* ===== verification/Trace_Pid.thy ===== *)
theory Trace_Pid
  imports Trace
begin

text \<open>
  The second half of \<open>src/trace.c\<close>: reading the filters of a running process with
  \<open>PTRACE_SECCOMP_GET_FILTER\<close>, and the messages for the errors of \<open>ptrace\<close>. The loop of \<open>pid_trace\<close> has no
  bound, so it is a partial function, \<open>None\<close> when it does not end.
\<close>

section \<open>What the kernel answers\<close>

text \<open>
  The \<open>errno\<close> of \<open>PTRACE_SEIZE\<close> if it fails, the information at the stop, the result of
  \<open>PTRACE_SECCOMP_GET_FILTER\<close> for each index (the filters or the \<open>errno\<close>), the status files of the process
  and of \<open>ceccomp\<close>, and its own number.
\<close>

record pid_answers =
  pa_seize :: "int option"
  pa_info :: syscall_info
  pa_filter :: "nat \<Rightarrow> int + sock_filter list"
  pa_status :: "string option"
  pa_self_status :: "string option"
  pa_self_pid :: int

abbreviation (input) EPERM :: int where "EPERM \<equiv> 1"
abbreviation (input) ENOENT :: int where "ENOENT \<equiv> 2"
abbreviation (input) ESRCH :: int where "ESRCH \<equiv> 3"
abbreviation (input) EACCES :: int where "EACCES \<equiv> 13"
abbreviation (input) EINVAL :: int where "EINVAL \<equiv> 22"
abbreviation (input) EMEDIUMTYPE :: int where "EMEDIUMTYPE \<equiv> 124"

section \<open>Errors\<close>

text \<open>What a handler decides: go on, leave the loop, or \<open>exit (0)\<close>.\<close>

datatype verdict = Go_On | Leave | Exit_Now

definition procfs_error :: "string \<Rightarrow> string \<Rightarrow> 'a cres" where
  "procfs_error action hint = Die (printf_text ''%s %s, %s'' [PStr M_PROCFS_NOT_ACCESSIBLE, PStr action, PStr hint])"

definition einval_get_filter :: "trace_env \<Rightarrow> pid_answers \<Rightarrow> int \<Rightarrow> trace_state \<Rightarrow> (verdict \<times> trace_state) cres" where
  "einval_get_filter te pa pid st =
     (let mode = get_proc_seccomp pid (pa_status pa) in
      if mode = PROCFS_ERROR then procfs_error ACTION_GET_FILTER M_GET_FILTER_UNSUPPORTED_OR_NO_FILTER
      else if mode = 1 then Done (Exit_Now, say te LV_WARN M_FOUND_STRICT_MODE [PInt pid] st)
      else if mode = 2 then Die M_GET_FILTER_UNSUPPORTED
      else Done (Leave, st))"

definition eacces_get_filter :: "pid_answers \<Rightarrow> 'a cres" where
  "eacces_get_filter pa =
     (let mode = get_proc_seccomp (pa_self_pid pa) (pa_self_status pa) in
      if mode = PROCFS_ERROR then procfs_error ACTION_GET_FILTER M_CAP_SYS_ADMIN_OR_IN_SECCOMP
      else if mode = 0 then Die M_REQUIRE_CAP_SYS_ADMIN
      else Die M_CECCOMP_IN_SECCOMP)"

definition error_get_filter ::
  "trace_env \<Rightarrow> pid_answers \<Rightarrow> int \<Rightarrow> int \<Rightarrow> trace_state \<Rightarrow> (verdict \<times> trace_state) cres" where
  "error_get_filter te pa pid err st =
     (if err = ENOENT then Done (Leave, st)
      else if err = EINVAL then einval_get_filter te pa pid st
      else if err = EACCES then eacces_get_filter pa
      else if err = EMEDIUMTYPE then Done (Go_On, say te LV_WARN M_NOT_AN_CBPF [] st)
      else Die (printf_text M_UNKNOWN_GETFILTER_ERR [PStr (te_strerror te err)]))"

definition eperm_seize :: "pid_answers \<Rightarrow> int \<Rightarrow> 'a cres" where
  "eperm_seize pa pid =
     (let mode = is_proc_kthread pid (pa_status pa) in
      if mode = PROCFS_ERROR then procfs_error ACTION_PTRACE_SEIZE M_CAP_SYS_PTRACE_OR_KTHREAD
      else if mode = 1 then Die M_SEIZING_KERNEL_THREAD
      else
        let tracer = get_tracer_pid pid (pa_status pa) in
        if tracer = PROCFS_ERROR then Crash ''assert (tracer != PROCFS_ERROR)''
        else if tracer \<noteq> 0 then Die (printf_text M_TARGET_TRACED_BY [PInt tracer])
        else Die M_REQUIRE_CAP_SYS_PTRACE)"

definition error_seize :: "trace_env \<Rightarrow> pid_answers \<Rightarrow> int \<Rightarrow> int \<Rightarrow> 'a cres" where
  "error_seize te pa pid err =
     (if err = EPERM then eperm_seize pa pid
      else if err = ESRCH then Die M_SEIZE_NONEXIST_PROC
      else Die (printf_text M_UNKNOWN_SEIZE_ERR [PStr (te_strerror te err)]))"

section \<open>Reading the filters\<close>

text \<open>One round of the loop: the verdict, \<open>prog_idx\<close>, and the state. \<open>prog.len\<close> has 16 bits.\<close>

definition filter_round ::
  "trace_env \<Rightarrow> pid_answers \<Rightarrow> int \<Rightarrow> u32 \<Rightarrow> nat \<Rightarrow> trace_state \<Rightarrow> (verdict \<times> nat \<times> trace_state) cres" where
  "filter_round te pa pid arch prog_idx st =
     (case pa_filter pa prog_idx of
        Inr prog \<Rightarrow>
          cbind (print_prog (te_lib te) (te_color te) arch (sock_fprog prog) (nat pid) True (tr_cp st)) (\<lambda>(out, cp).
          Done (Go_On, Suc prog_idx, st\<lparr>tr_cp := cp, tr_out := tr_out st @ out\<rparr>))
      | Inl err \<Rightarrow>
          cbind (error_get_filter te pa pid err st) (\<lambda>(v, st). Done (v, prog_idx, st)))"

partial_function (option) filter_rounds ::
  "trace_env \<Rightarrow> pid_answers \<Rightarrow> int \<Rightarrow> u32 \<Rightarrow> nat \<Rightarrow> trace_state \<Rightarrow> (verdict \<times> nat \<times> trace_state) cres option"
where
  "filter_rounds te pa pid arch prog_idx st =
     (case filter_round te pa pid arch prog_idx st of
        Done (v, i, st') \<Rightarrow>
          (if v = Go_On then filter_rounds te pa pid arch i st' else Some (Done (v, i, st')))
      | Die m \<Rightarrow> Some (Die m)
      | Crash m \<Rightarrow> Some (Crash m))"

text \<open>Behind the loop.\<close>

definition finish_rounds ::
  "trace_env \<Rightarrow> int \<Rightarrow> verdict \<times> nat \<times> trace_state \<Rightarrow> (trace_end \<times> trace_state) cres" where
  "finish_rounds te pid r =
     (case r of (v, prog_idx, st) \<Rightarrow>
       if v = Exit_Now then Done (Exit_0, st)
       else
         let st = (if prog_idx = 0 then say te LV_INFO M_NO_FILTER_FOUND [PInt pid] st else st)
         in Done (Returned 0, request (PT_DETACH pid) st))"

text \<open>\<open>pid_seize\<close>: \<open>errno\<close> is the one of the seizing; \<open>ptrace\<close> of a process that has gone is \<open>ESRCH\<close>.\<close>

definition pid_seize ::
  "trace_env \<Rightarrow> pid_answers \<Rightarrow> int \<Rightarrow> bool \<Rightarrow> bool \<Rightarrow> wait_result list \<Rightarrow> trace_state
    \<Rightarrow> (trace_end \<times> trace_state) cres" where
  "pid_seize te pa pid quiet interrupted ws st =
     cbind (parent te pid 0 quiet False False (pa_seize pa = None) interrupted ws st) (\<lambda>(e, written, st).
     if e = Returned (- 1) then error_seize te pa pid (case pa_seize pa of Some err \<Rightarrow> err | None \<Rightarrow> ESRCH)
     else Done (e, st))"

definition pid_trace ::
  "trace_env \<Rightarrow> pid_answers \<Rightarrow> int \<Rightarrow> bool \<Rightarrow> bool \<Rightarrow> bool \<Rightarrow> wait_result list \<Rightarrow> trace_state
    \<Rightarrow> (trace_end \<times> trace_state) cres option" where
  "pid_trace te pa pid seize quiet interrupted ws st =
     (if seize then Some (pid_seize te pa pid quiet interrupted ws st)
      else
        let st = request (PT_SEIZE pid 0) st in
        case pa_seize pa of
          Some err \<Rightarrow> Some (error_seize te pa pid err)
        | None \<Rightarrow>
            map_option (\<lambda>r. cbind r (finish_rounds te pid))
              (filter_rounds te pa pid (si_arch (pa_info pa)) 0
                (request (WAIT_STOP pid) (request (PT_INTERRUPT pid) st))))"

end
