(* ===== verification/Trace_Ok.thy ===== *)
theory Trace_Ok
  imports Trace_Pid Disasm_Asm
begin

text \<open>
  Lemmas on the tracer: which threads are left stopped, the filters read from a process, and the
  listing of every program the kernel accepts.
\<close>

section \<open>Threads that are stopped\<close>

text \<open>
  The stopped threads while the calls are made; \<open>None\<close> when a thread is asked to go on that is not
  stopped, or waited for while it is.
\<close>

fun call_step :: "int set option \<Rightarrow> ptrace_call \<Rightarrow> int set option" where
  "call_step None c = None"
| "call_step (Some S) (PT_SEIZE pid f) = Some S"
| "call_step (Some S) (PT_INTERRUPT pid) = Some S"
| "call_step (Some S) (PT_SYSCALL pid sig) = (if pid \<in> S then Some (S - {pid}) else None)"
| "call_step (Some S) (PT_LISTEN pid) = (if pid \<in> S then Some (S - {pid}) else None)"
| "call_step (Some S) (PT_DETACH pid) = (if pid \<in> S then Some (S - {pid}) else None)"
| "call_step (Some S) (WAIT_STOP pid) = (if pid \<in> S then None else Some (insert pid S))"

definition stopped :: "trace_state \<Rightarrow> int set option" where
  "stopped st = foldl call_step (Some {}) (tr_calls st)"

lemma stopped_request [simp]: "stopped (request c st) = call_step (stopped st) c"
  by (simp add: stopped_def request_def)

lemma calls_say [simp]: "tr_calls (say te lv fmt args st) = tr_calls st"
  by (simp add: say_def)

lemma stopped_say [simp]: "stopped (say te lv fmt args st) = stopped st"
  by (simp add: stopped_def)

lemma stopped_out [simp]: "stopped (st\<lparr>tr_cp := c, tr_out := out\<rparr>) = stopped st"
  by (simp add: stopped_def)

lemma stopped_arch [simp]: "stopped (st\<lparr>saved_arch := a, seccomp_nr := m, prctl_nr := n\<rparr>) = stopped st"
  by (simp add: stopped_def)

lemma new_arch_stopped: "new_arch te a st = Done st' \<Longrightarrow> stopped st' = stopped st"
  by (auto simp: new_arch_def Let_def split: if_splits)

lemma check_scmp_mode_stopped:
  "check_scmp_mode sa pid st = Done (m, rval, st') \<Longrightarrow> stopped st = Some {pid} \<Longrightarrow> stopped st' = Some {pid}"
  by (auto simp: check_scmp_mode_def Let_def split: option.splits if_splits)

lemma report_load_stopped: "report_load te m rval info pid st = Done st' \<Longrightarrow> stopped st' = stopped st"
  by (auto simp: report_load_def info_parse_def Let_def split: if_splits)

lemma mode_filter_stopped: "mode_filter te sa pid st = Done st' \<Longrightarrow> stopped st' = stopped st"
  by (auto simp: mode_filter_def)

lemma handle_syscall_stopped:
  assumes "handle_syscall te quiet oneshot pid sa st = Done (ret, st')" "stopped st = Some {pid}"
  shows "stopped st' = Some {pid}"
  using assms
  by (auto simp: handle_syscall_def Let_def split: if_splits
      dest!: new_arch_stopped report_load_stopped mode_filter_stopped dest: check_scmp_mode_stopped)

lemma handle_fork_stopped: "stopped (snd (handle_fork te quiet pid status sa st)) = stopped st"
  by (simp add: handle_fork_def Let_def)

lemma handle_stop_stopped:
  assumes "handle_stop te quiet oneshot pid status sa st = Done (ret, st')" "stopped st = Some {pid}"
  shows "stopped st' = Some (if ret then {pid} else {})"
proof (cases "WSTOPSIG status = SIGTRAP OR 0x80")
  case True
  with assms show ?thesis by (auto simp: handle_stop_def Let_def dest: handle_syscall_stopped)
next
  case False
  then show ?thesis
    using assms handle_fork_stopped [of te quiet pid status sa st]
    by (auto simp: handle_stop_def Let_def split: prod.splits if_splits)
qed

lemma parent_loop_stopped:
  "parent_loop te quiet oneshot ws st = Done (e, st') \<Longrightarrow> stopped st = Some {} \<Longrightarrow>
   (if e = Blocked \<or> e = Exit_0 then stopped st' = Some {} else \<exists>pid. stopped st' = Some {pid})"
proof (induction te quiet oneshot ws st rule: parent_loop.induct)
  case (3 te quiet oneshot pid status sa ws st)
  show ?case
  proof (cases "WIFEXITED status \<or> WIFSIGNALED status \<or> WIFCONTINUED status")
    case True
    with 3 show ?thesis by (auto split: if_splits)
  next
    case False
    with "3.prems" obtain ret st1 where
      h: "handle_stop te quiet oneshot pid status sa (request (WAIT_STOP pid) st) = Done (ret, st1)"
      by auto
    from handle_stop_stopped [OF this] "3.prems"(2) have s: "stopped st1 = Some (if ret then {pid} else {})" by simp
    show ?thesis
    proof (cases ret)
      case True
      with False h s "3.prems" show ?thesis by auto
    next
      case ret: False
      with False h s "3.prems" "3.IH"(3) [of ret st1] show ?thesis by auto
    qed
  qed
qed (auto split: if_splits)

section \<open>The listing of a program the kernel accepts\<close>

lemma int_text_nat: "int_text (int n) = dec_str n"
  by (simp add: int_text_def)

lemma pid_comment_short: "length (pid_comment pid) \<le> 0x3fe"
proof -
  have "length Disasm.separator = 33" by (simp add: Disasm.separator_def)
  then show ?thesis by (auto simp: pid_comment_def Let_def)
qed

lemma print_comment_done: "length t \<le> 0x3fe \<Longrightarrow> \<exists>s. print_as_comment color t = Done s"
  by (simp add: print_as_comment_def)

text \<open>It does not depend on what the checker has counted before.\<close>

lemma print_prog_trusted:
  assumes lib: "names_short lib" and safe: "safe_prog fs" and len: "length fs < 65536"
  shows "\<exists>out. \<forall>cp. print_prog lib color a fs pid True cp = Done (out, cp)"
proof -
  have ne: "fs \<noteq> []" using safe by (simp add: safe_prog_def)
  have z: "fatal_count start_cp = 0" "error_count start_cp = 0" by (simp_all add: start_cp_def)
  from check_prog_safe [OF safe len z(1)] z obtain cp0 where "check_prog fs start_cp = Done (False, cp0)" by auto
  with check_prog_total [OF ne len] have p: "check_promise fs False" by auto
  from rendered [OF lib ne len p, of a] obtain sts v where
    v: "decode_loop 0 fs = Done sts"
      "cbind (render lib a (zero_statement # sts) (init_pile (length fs * 40))) (\<lambda>(v, p). Done v) = Done v"
      "\<forall>st \<in> set (tl v). has_text (line st)" by (auto simp: cok_def)
  obtain t where t: "print_filters color 1 fs (tl v) = Done t" using print_filters_done [OF v(3)] by blast
  have "length (if pid = 0 then Disasm.separator else pid_comment pid) \<le> 0x3fe"
    using pid_comment_short by (simp add: Disasm.separator_def)
  then obtain c where c: "print_as_comment color (if pid = 0 then Disasm.separator else pid_comment pid) = Done c"
    using print_comment_done by blast
  have d: "decode_filters fs True cp = Done (False, zero_statement # sts, cp)" for cp
    using v(1) by (simp add: decode_filters_def)
  show ?thesis unfolding print_prog_def if_not_P [OF ne] d cbind.simps prod.case if_False v(2) c
    using t by (simp add: print_as_comment_def Disasm.separator_def)
qed

definition listing :: "scmp_lib \<Rightarrow> bool \<Rightarrow> u32 \<Rightarrow> sock_filter list \<Rightarrow> nat \<Rightarrow> string" where
  "listing lib color a fs pid =
     (case print_prog lib color a fs pid True start_cp of Done (out, cp) \<Rightarrow> out | _ \<Rightarrow> [])"

lemma print_prog_listing:
  assumes "names_short lib" "safe_prog fs" "length fs < 65536"
  shows "print_prog lib color a fs pid True cp = Done (listing lib color a fs pid, cp)"
  using print_prog_trusted [OF assms, of color a pid] by (auto simp: listing_def)

section \<open>The filters in the memory\<close>

definition mem_holds :: "(u64 \<Rightarrow> u8 option) \<Rightarrow> u64 \<Rightarrow> u8 list \<Rightarrow> bool" where
  "mem_holds mem a bs \<longleftrightarrow> (\<forall>i < length bs. mem (a + of_nat i) = Some (bs ! i))"

lemma mem_bytes_holds: "mem_holds mem a bs \<Longrightarrow> mem_bytes mem a (length bs) = Some bs"
  by (auto simp: mem_holds_def mem_bytes_def list_all_iff intro: nth_equalityI)

lemma mem_holds_append:
  "mem_holds mem a (xs @ ys) \<longleftrightarrow> mem_holds mem a xs \<and> mem_holds mem (a + of_nat (length xs)) ys"
proof -
  have "mem_holds mem (a + of_nat (length xs)) ys" if h: "mem_holds mem a (xs @ ys)"
    unfolding mem_holds_def
  proof (intro allI impI)
    fix i assume "i < length ys"
    then show "mem (a + of_nat (length xs) + of_nat i) = Some (ys ! i)"
      using h [unfolded mem_holds_def, rule_format, of "length xs + i"] by (simp add: add.assoc)
  qed
  moreover have "mem_holds mem a (xs @ ys)" if h: "mem_holds mem a xs" "mem_holds mem (a + of_nat (length xs)) ys"
    unfolding mem_holds_def
  proof (intro allI impI)
    fix i assume i: "i < length (xs @ ys)"
    show "mem (a + of_nat i) = Some ((xs @ ys) ! i)"
    proof (cases "i < length xs")
      case False
      then obtain j where "i = length xs + j" by (metis le_Suc_ex not_less)
      with h(2) i show ?thesis by (simp add: mem_holds_def nth_append add.assoc)
    qed (use h(1) in \<open>simp add: mem_holds_def nth_append\<close>)
  qed
  ultimately show ?thesis by (auto simp: mem_holds_def nth_append)
qed

lemma mem_holds_part:
  assumes "mem_holds mem a bs" "j + n \<le> length bs"
  shows "mem_holds mem (a + of_nat j) (take n (drop j bs))"
proof -
  have "bs = take j bs @ take n (drop j bs) @ drop (j + n) bs"
    by (metis append_assoc append_take_drop_id take_add)
  with assms show ?thesis
    by (metis add_leD1 length_take mem_holds_append min.absorb2)
qed

text \<open>A memory that holds some bytes and nothing else.\<close>

definition mem_of :: "u64 \<Rightarrow> u8 list \<Rightarrow> u64 \<Rightarrow> u8 option" where
  "mem_of base bs a = (if unat (a - base) < length bs then Some (bs ! unat (a - base)) else None)"

lemma mem_of_holds: "length bs < 2 ^ 64 \<Longrightarrow> mem_holds (mem_of base bs) base bs"
  by (auto simp: mem_holds_def mem_of_def unat_of_nat take_bit_nat_eq_self)

text \<open>A pointer of the process, in its width and in the byte order of the machine.\<close>

definition pointer_at :: "bool \<Rightarrow> bool \<Rightarrow> (u64 \<Rightarrow> u8 option) \<Rightarrow> u64 \<Rightarrow> u64 \<Rightarrow> bool" where
  "pointer_at big is_64 mem a p \<longleftrightarrow>
     (\<exists>bs. length bs = (if is_64 then 8 else 4) \<and> mem_holds mem a bs
       \<and> p = word_of_bytes big (if big then replicate (8 - length bs) 0 @ bs else bs @ replicate (8 - length bs) 0))"

text \<open>
  A \<open>struct sock_fprog\<close> of the process at \<open>a\<close>, with its filters. The tracer reads words of eight
  bytes, so the bytes behind the members have to be readable as well.
\<close>

definition fprog_at :: "bool \<Rightarrow> u32 \<Rightarrow> (u64 \<Rightarrow> u8 option) \<Rightarrow> u64 \<Rightarrow> sock_filter list \<Rightarrow> bool" where
  "fprog_at big arch mem a fs \<longleftrightarrow>
     (let is_64 = bit arch AUDIT_ARCH_64BIT; off = (if is_64 then 8 else 4) in
      mem_holds mem a (if big then rev (bytes16 (of_nat (length fs))) else bytes16 (of_nat (length fs)))
      \<and> mem_bytes mem a 8 \<noteq> None \<and> mem_bytes mem (a + off) 8 \<noteq> None
      \<and> (\<exists>p. pointer_at big is_64 mem (a + off) p \<and> mem_holds mem p (concat (map (filter_bytes big) fs))))"

lemma peek_words_holds:
  "mem_holds mem a (concat (map (filter_bytes big) fs)) \<Longrightarrow>
   peek_words mem a (length fs) = Done (concat (map (filter_bytes big) fs))"
proof (induction fs arbitrary: a)
  case (Cons f fs)
  from Cons.prems have h: "mem_holds mem a (filter_bytes big f)" "mem_holds mem (a + 8) (concat (map (filter_bytes big) fs))"
    by (simp_all add: mem_holds_append)
  from mem_bytes_holds [OF h(1)] Cons.IH [OF h(2)] show ?case by (simp add: peek_data_check_def)
qed simp

lemma mem_bytes_take:
  assumes "mem_holds mem a bs" "mem_bytes mem a 8 = Some w" "length bs \<le> 8"
  shows "take (length bs) w = bs"
  using assms by (auto simp: mem_bytes_def mem_holds_def intro!: nth_equalityI split: if_splits)

lemma dump_filter_reads:
  assumes m: "fprog_at big (si_arch info) mem (si_args info ! 2) fs"
    and fs: "fs \<noteq> []" "length fs \<le> BPF_MAXINSNS" and big: "big \<longrightarrow> bit (si_arch info) AUDIT_ARCH_64BIT"
  shows "dump_filter big info mem = Done fs"
proof -
  let ?a = "si_args info ! 2" and ?l = "of_nat (length fs) :: u16"
  let ?i64 = "bit (si_arch info) AUDIT_ARCH_64BIT"
  let ?off = "if ?i64 then 8 else 4 :: u64"
  from m obtain w w2 p bs where w: "mem_bytes mem ?a 8 = Some w" "mem_bytes mem (?a + ?off) 8 = Some w2"
    and l: "mem_holds mem ?a (if big then rev (bytes16 ?l) else bytes16 ?l)"
    and bs: "length bs = (if ?i64 then 8 else 4)" "mem_holds mem (?a + ?off) bs"
      "p = word_of_bytes big (if big then replicate (8 - length bs) 0 @ bs else bs @ replicate (8 - length bs) 0)"
    and f: "mem_holds mem p (concat (map (filter_bytes big) fs))"
    by (auto simp: fprog_at_def pointer_at_def Let_def)
  have "take 2 w = (if big then rev (bytes16 ?l) else bytes16 ?l)"
    using mem_bytes_take [OF l w(1)] by (cases big) (simp_all add: bytes16_def numeral_2_eq_2)
  moreover have "length w = 8" using w(1) by (auto simp: mem_bytes_def split: if_splits)
  ultimately have ww: "(if big then of_bytes16 (w ! 1) (w ! 0) else of_bytes16 (w ! 0) (w ! 1)) = ?l"
    by (cases w; cases "tl w") (auto simp: bytes16_def of_bytes16_bytes16 split: if_splits)
  have "take (length bs) w2 = bs" using mem_bytes_take [OF bs(2) w(2)] bs(1) by simp
  moreover have "length w2 = 8" using w(2) by (auto simp: mem_bytes_def split: if_splits)
  ultimately have pp: "(if ?i64 then word_of_bytes big w2 else word_of_bytes big (take 4 w2 @ replicate 4 0)) = p"
    using bs big by auto
  have n: "unat ?l = length fs" using fs(2) by (simp add: unat_of_nat BPF_MAXINSNS_def take_bit_nat_eq_self)
  have "dump_filter big info mem = cbind (peek_words mem p (length fs)) (\<lambda>bs. Done (filters_of big bs))"
    unfolding dump_filter_def Let_def peek_data_check_def w(1) w(2) option.case cbind.simps ww n pp
    using fs by simp
  then show ?thesis by (simp add: peek_words_holds [OF f] filters_of_bytes)
qed

text \<open>On a big endian machine a pointer of 32 bits becomes the upper half of one of 64 bits.\<close>

lemma bytes_above: "bit (foldr (\<lambda>b w. ucast b OR push_bit 8 w) bs 0 :: u64) i \<Longrightarrow> i < 8 * length bs" for bs :: "u8 list"
proof (induction bs arbitrary: i)
  case (Cons b bs)
  then show ?case by (cases "i < 8") (auto simp: bit_simps dest: bit_imp_le_length Cons.IH)
qed simp

lemma zero_bytes: "(push_bit 8 ^^ n) w = push_bit (8 * n) w" for w :: u64
  by (induction n) (simp_all add: add.commute)

lemma pointer_big_shifted:
  "word_of_bytes True (bs @ replicate 4 0) = push_bit 32 (word_of_bytes True (replicate 4 0 @ bs))"
  by (simp add: word_of_bytes_def zero_bytes)

lemma take_bit_32_iff: "take_bit 32 w = w \<longleftrightarrow> w < 2 ^ 32" for w :: u64
  by (simp add: word_less_nat_alt word_unat_eq_iff unsigned_take_bit_eq take_bit_nat_eq_self_iff)

lemma pointer_big_small:
  assumes "length bs = 4"
  shows "word_of_bytes True (replicate 4 0 @ bs) < 2 ^ 32"
proof -
  let ?w = "word_of_bytes True (replicate 4 0 @ bs)"
  have "bit ?w i \<Longrightarrow> i < 32" for i
    using bytes_above [of "rev bs" i] assms by (simp add: word_of_bytes_def zero_bytes)
  then have "take_bit 32 ?w = ?w" by (intro bit_eqI) (auto simp: bit_simps)
  then show ?thesis by (simp add: take_bit_32_iff)
qed

lemma push_bit_32_big: "p < 2 ^ 32 \<Longrightarrow> p \<noteq> 0 \<Longrightarrow> 2 ^ 32 \<le> push_bit 32 p" for p :: u64
proof (rule ccontr)
  assume p: "p < 2 ^ 32" "p \<noteq> 0" "\<not> 2 ^ 32 \<le> push_bit 32 p"
  then have t: "take_bit 32 p = p" "take_bit 32 (push_bit 32 p) = push_bit 32 p"
    by (simp_all add: take_bit_32_iff)
  have "\<not> bit p i" for i
  proof (cases "i < 32")
    case True
    have "\<not> bit (take_bit 32 (push_bit 32 p)) (i + 32)" by (simp add: bit_simps)
    then show ?thesis unfolding t using True by (simp add: bit_simps)
  next
    case False
    then have "\<not> bit (take_bit 32 p) i" by (simp add: bit_simps)
    then show ?thesis by (simp add: t)
  qed
  then have "p = 0" by (simp add: bit_eq_iff)
  with p show False by simp
qed

lemma dump_filter_big_32:
  assumes m: "fprog_at True (si_arch info) mem (si_args info ! 2) fs" and a: "\<not> bit (si_arch info) AUDIT_ARCH_64BIT"
    and fs: "fs \<noteq> []" "length fs \<le> BPF_MAXINSNS"
    and none: "mem 0 = None" "\<forall>a. 2 ^ 32 \<le> a \<longrightarrow> mem a = None"
  shows "\<exists>t. dump_filter True info mem = Die t"
proof -
  let ?a = "si_args info ! 2" and ?l = "of_nat (length fs) :: u16"
  from m a obtain w w2 p bs where w: "mem_bytes mem ?a 8 = Some w" "mem_bytes mem (?a + 4) 8 = Some w2"
    and l: "mem_holds mem ?a (rev (bytes16 ?l))"
    and bs: "length bs = 4" "mem_holds mem (?a + 4) bs" "p = word_of_bytes True (replicate 4 0 @ bs)"
    and f: "mem_holds mem p (concat (map (filter_bytes True) fs))"
    by (auto simp: fprog_at_def pointer_at_def Let_def)
  have n: "unat (of_bytes16 (w ! 1) (w ! 0)) = length fs"
  proof -
    have "take 2 w = rev (bytes16 ?l)" using mem_bytes_take [OF l w(1)] by (simp add: bytes16_def numeral_2_eq_2)
    moreover have "length w = 8" using w(1) by (auto simp: mem_bytes_def split: if_splits)
    ultimately have "of_bytes16 (w ! 1) (w ! 0) = ?l"
      by (cases w; cases "tl w") (auto simp: bytes16_def of_bytes16_bytes16)
    then show ?thesis using fs(2) by (simp add: unat_of_nat BPF_MAXINSNS_def take_bit_nat_eq_self)
  qed
  have "take 4 w2 = bs" using mem_bytes_take [OF bs(2) w(2)] bs(1) by simp
  then have q: "word_of_bytes True (take 4 w2 @ replicate 4 0) = push_bit 32 p"
    using pointer_big_shifted [of bs] bs(3) by simp
  have "mem p \<noteq> None" using f fs(1) by (cases fs) (auto simp: mem_holds_def filter_bytes_def bytes16_def)
  then have "p \<noteq> 0" using none(1) by auto
  from push_bit_32_big [OF _ this] pointer_big_small [OF bs(1)] bs(3) none(2) have "mem (push_bit 32 p) = None" by simp
  then have "mem_bytes mem (push_bit 32 p) 8 = None" by (auto simp: mem_bytes_def list_all_iff intro!: bexI [of _ 0])
  moreover obtain k where "length fs = Suc k" using fs(1) by (cases fs) auto
  ultimately have "\<exists>t. peek_words mem (push_bit 32 p) (length fs) = Die t" by (simp add: peek_data_check_def)
  then show ?thesis
    unfolding dump_filter_def Let_def peek_data_check_def using a n fs
    by (simp add: w q BPF_MAXINSNS_def)
qed

section \<open>A load that succeeds\<close>

text \<open>What \<open>seccomp\<close> and \<open>prctl\<close> are documented to return: a negative number for an error, the number of a
  thread that could not be synchronised, 0, or the descriptor of a new listener.\<close>

inductive kernel_answer :: "u32 \<Rightarrow> (int \<Rightarrow> string option) \<Rightarrow> bool \<Rightarrow> int \<Rightarrow> bool" for flags link where
  refused: "ret < 0 \<Longrightarrow> link ret = None \<Longrightarrow> kernel_answer flags link False ret"
| not_synced: "0 < ret \<Longrightarrow> bit flags FLAG_TSYNC \<Longrightarrow> \<not> bit flags FLAG_NEW_LISTENER \<Longrightarrow> kernel_answer flags link False ret"
| loaded: "\<not> bit flags FLAG_NEW_LISTENER \<Longrightarrow> kernel_answer flags link True 0"
| listening: "bit flags FLAG_NEW_LISTENER \<Longrightarrow> bit flags FLAG_TSYNC \<longrightarrow> bit flags FLAG_TSYNC_ESRCH \<Longrightarrow> 0 \<le> ret
    \<Longrightarrow> link ret = Some NOTIFY_S \<Longrightarrow> kernel_answer flags link True ret"

lemma kernel_answer_read:
  "kernel_answer flags link ok ret \<Longrightarrow> load_succeeds link ret flags = ok \<and> load_success ret flags = ok"
  by (erule kernel_answer.cases)
    (auto simp: load_succeeds_def load_success_def may_be_listener_fd_def NOTIFY_S_def)


lemma mode_filter_lists:
  assumes "names_short (te_lib te)" "safe_prog fs" "length fs \<le> BPF_MAXINSNS"
    and "fprog_at (te_big te) (si_arch (sa_info sa)) (sa_mem sa) (si_args (sa_info sa) ! 2) fs"
    and "te_big te \<longrightarrow> bit (si_arch (sa_info sa)) AUDIT_ARCH_64BIT"
  shows "mode_filter te sa pid st = Done (st\<lparr>tr_cp := tr_cp st,
    tr_out := tr_out st @ listing (te_lib te) (te_color te) (si_arch (sa_info sa)) fs (nat pid)\<rparr>)"
proof -
  have "fs \<noteq> []" "length fs < 65536" using assms(2,3) by (simp_all add: safe_prog_def BPF_MAXINSNS_def)
  with assms show ?thesis
    by (simp add: mode_filter_def dump_filter_reads print_prog_listing)
qed

text \<open>The text of the flags: the names of the set bits, or \<open>0\<close>.\<close>

definition join_flags :: "string list \<Rightarrow> string" where
  "join_flags ns = (case ns of [] \<Rightarrow> ''0'' | n # ns \<Rightarrow> n @ concat (map (\<lambda>m. '' | '' @ m) ns))"

lemma flag_loop_rest:
  "length t + sum_list (map (\<lambda>f. 3 + length (snd f)) fs) < 0x100 \<Longrightarrow>
   flag_loop flag fs True t = Done (t @ concat (map (\<lambda>f. '' | '' @ snd f) (filter (\<lambda>f. bit flag (fst f)) fs)))"
proof (induction flag fs True t rule: flag_loop.induct)
  case (2 flag b nm fs t)
  then show ?case by (cases "bit flag b") simp_all
qed simp

lemma flag_loop_text:
  "sum_list (map (\<lambda>f. 3 + length (snd f)) fs) < 0x100 \<Longrightarrow>
   flag_loop flag fs False ''0'' = Done (join_flags (map snd (filter (\<lambda>f. bit flag (fst f)) fs)))"
proof (induction fs)
  case (Cons f fs)
  obtain b nm where f: "f = (b, nm)" by (cases f)
  from Cons.prems f have "length nm + sum_list (map (\<lambda>f. 3 + length (snd f)) fs) < 0x100" by simp
  from flag_loop_rest [OF this] Cons f show ?case by (simp add: join_flags_def comp_def)
qed (simp add: join_flags_def)

lemma flag_text:
  "flag_loop flag seccomp_flags False ''0'' = Done (join_flags (map snd (filter (\<lambda>f. bit flag (fst f)) seccomp_flags)))"
  by (rule flag_loop_text) (simp add: seccomp_flags_def)

lemma report_load_done:
  "m = SET_FILTER \<Longrightarrow> \<exists>err. report_load te m rval info pid st = Done (st\<lparr>tr_err := tr_err st @ err\<rparr>)"
  by (auto simp: report_load_def info_parse_def Let_def flag_text say_def)

text \<open>A stop at the entry of a system call that loads a filter, on an architecture that is known.\<close>

definition filter_load :: "trace_state \<Rightarrow> stop_answers \<Rightarrow> u32 \<Rightarrow> bool" where
  "filter_load st sa flags \<longleftrightarrow>
     si_op (sa_info sa) = OP_ENTRY \<and> si_arch (sa_info sa) = saved_arch st
     \<and> load_attempt st (sa_info sa) = Some (SET_FILTER, flags)
     \<and> si_op (sa_exit sa) = OP_EXIT \<and> load_succeeds (sa_link sa) (sint (si_rval (sa_exit sa))) flags"

lemma handle_syscall_lists:
  assumes l: "filter_load st sa flags"
    and fs: "names_short (te_lib te)" "safe_prog fs" "length fs \<le> BPF_MAXINSNS"
      "fprog_at (te_big te) (si_arch (sa_info sa)) (sa_mem sa) (si_args (sa_info sa) ! 2) fs"
      "te_big te \<longrightarrow> bit (si_arch (sa_info sa)) AUDIT_ARCH_64BIT"
  shows "\<exists>st'. handle_syscall te quiet oneshot pid sa st = Done (oneshot, st')
    \<and> tr_out st' = tr_out st @ listing (te_lib te) (te_color te) (saved_arch st) fs (nat pid)
    \<and> tr_calls st' = tr_calls st @ [PT_SYSCALL pid 0, WAIT_STOP pid] \<and> saved_arch st' = saved_arch st"
proof -
  have a: "new_arch te (si_arch (sa_info sa)) st = Done st" using l by (simp add: new_arch_def filter_load_def)
  let ?st = "request (WAIT_STOP pid) (request (PT_SYSCALL pid 0) st)"
  have c: "check_scmp_mode sa pid st = Done (SET_FILTER, sint (si_rval (sa_exit sa)), ?st)"
    using l by (simp add: check_scmp_mode_def filter_load_def Let_def)
  from report_load_done obtain err where
    r: "report_load te SET_FILTER (sint (si_rval (sa_exit sa))) (sa_info sa) pid ?st
      = Done (?st\<lparr>tr_err := tr_err ?st @ err\<rparr>)" by blast
  obtain st2 where s2: "(if \<not> quiet then report_load te SET_FILTER (sint (si_rval (sa_exit sa))) (sa_info sa) pid ?st
      else Done ?st) = Done st2" "tr_out st2 = tr_out st" "tr_calls st2 = tr_calls ?st" "saved_arch st2 = saved_arch st"
    using r by (cases quiet) (simp_all add: request_def)
  have o: "si_op (sa_info sa) = OP_ENTRY" "si_arch (sa_info sa) = saved_arch st" using l by (simp_all add: filter_load_def)
  show ?thesis
    unfolding handle_syscall_def Let_def a c cbind.simps prod.case s2(1) mode_filter_lists [OF fs]
    using o s2 by (simp add: request_def)
qed

section \<open>All filters of a process\<close>

definition printable_filters :: "pid_answers \<Rightarrow> nat \<Rightarrow> bool" where
  "printable_filters pa n \<longleftrightarrow>
     (\<forall>i < n. \<exists>fs. pa_filter pa i = Inr fs \<and> safe_prog fs \<and> length fs \<le> BPF_MAXINSNS)"

definition listings :: "trace_env \<Rightarrow> pid_answers \<Rightarrow> u32 \<Rightarrow> int \<Rightarrow> nat list \<Rightarrow> string" where
  "listings te pa a pid is =
     concat (map (\<lambda>i. listing (te_lib te) (te_color te) a (projr (pa_filter pa i)) (nat pid)) is)"

lemma filter_rounds_reach:
  assumes lib: "names_short (te_lib te)" and fs: "printable_filters pa n" and i: "i \<le> n"
  shows "filter_rounds te pa pid a i st =
    filter_rounds te pa pid a n (st\<lparr>tr_out := tr_out st @ listings te pa a pid [i..<n]\<rparr>)"
  using i
proof (induction "n - i" arbitrary: i st)
  case 0
  then show ?case by (simp add: listings_def)
next
  case (Suc k)
  then have "i < n" by simp
  with fs obtain f where f: "pa_filter pa i = Inr f" "safe_prog f" "length f \<le> BPF_MAXINSNS"
    unfolding printable_filters_def by blast
  have s: "sock_fprog f = f" "length f < 65536" using f(3) by (simp_all add: sock_fprog_def BPF_MAXINSNS_def)
  let ?st = "st\<lparr>tr_out := tr_out st @ listing (te_lib te) (te_color te) a f (nat pid)\<rparr>"
  have r: "filter_round te pa pid a i st = Done (Go_On, Suc i, ?st)"
    by (simp add: filter_round_def f s print_prog_listing [OF lib f(2) s(2)])
  have "k = n - Suc i" "Suc i \<le> n" using Suc.hyps(2) \<open>i < n\<close> by simp_all
  from Suc.hyps(1) [OF this, of ?st]
  have "filter_rounds te pa pid a (Suc i) ?st =
      filter_rounds te pa pid a n (st\<lparr>tr_out := tr_out st @ listings te pa a pid [i..<n]\<rparr>)"
    using \<open>i < n\<close> f by (simp add: upt_conv_Cons listings_def)
  then show ?case by (subst filter_rounds.simps) (simp add: r)
qed

lemma filter_rounds_end:
  "pa_filter pa n = Inl ENOENT \<Longrightarrow> filter_rounds te pa pid a n st = Some (Done (Leave, n, st))"
  by (subst filter_rounds.simps) (simp add: filter_round_def error_get_filter_def)

text \<open>A filter that is no classic program is asked for again and again.\<close>

lemma filter_rounds_spin:
  assumes "filter_rounds te pa pid a i st = Some r"
  shows "pa_filter pa i \<noteq> Inl EMEDIUMTYPE"
proof (rule filter_rounds.raw_induct [where P = "\<lambda>te pa pid a i st r. pa_filter pa i \<noteq> Inl EMEDIUMTYPE", OF _ assms])
  fix f :: "trace_env \<Rightarrow> pid_answers \<Rightarrow> int \<Rightarrow> u32 \<Rightarrow> nat \<Rightarrow> trace_state \<Rightarrow> (verdict \<times> nat \<times> trace_state) cres option"
    and te pa pid a i st r
  assume IH: "\<And>te pa pid a i st r. f te pa pid a i st = Some r \<Longrightarrow> pa_filter pa i \<noteq> Inl EMEDIUMTYPE"
    and eq: "(case filter_round te pa pid a i st of
        Done (v, i, st') \<Rightarrow> if v = Go_On then f te pa pid a i st' else Some (Done (v, i, st'))
      | Die m \<Rightarrow> Some (Die m) | Crash m \<Rightarrow> Some (Crash m)) = Some r"
  show "pa_filter pa i \<noteq> Inl EMEDIUMTYPE"
  proof
    assume e: "pa_filter pa i = Inl EMEDIUMTYPE"
    then have "filter_round te pa pid a i st = Done (Go_On, i, say te LV_WARN M_NOT_AN_CBPF [] st)"
      by (simp add: filter_round_def error_get_filter_def)
    with eq have "f te pa pid a i (say te LV_WARN M_NOT_AN_CBPF [] st) = Some r" by simp
    from IH [OF this] e show False by simp
  qed
qed

end
