(* ===== verification/Trace_Facts.thy ===== *)
theory Trace_Facts
  imports Trace_Ok Listing_Facts
begin

text \<open>
  The properties of the tracer: no thread is left stopped, a filter is printed when the kernel has taken
  it and as it was given, all filters of a process are listed, and what the status files say is read.
\<close>

section \<open>Following processes\<close>

text \<open>C13: Whatever the threads do, the tracer never waits while a thread it has seen stop is left
  stopped, and it only asks threads to go on that are stopped: when its loop is blocked in \<open>waitpid\<close> or
  leaves because no process is left, every stop was answered by exactly one request to go on, and when it
  returns after the first filter exactly one thread is stopped.\<close>

theorem threads_resumed:
  assumes "parent_loop te quiet oneshot ws st = Done (e, st')" "stopped st = Some {}"
  shows "if e = Blocked \<or> e = Exit_0 then stopped st' = Some {} else \<exists>pid. stopped st' = Some {pid}"
  by (rule parent_loop_stopped [OF assms])

definition sample_env :: trace_env where
  "sample_env = \<lparr>te_lib = sample_lib, te_big = False, te_color = False, te_log_color = False, te_strerror = (\<lambda>e. [])\<rparr>"

text \<open>A thread at the entry of \<open>prctl (PR_SET_SECCOMP, SECCOMP_MODE_STRICT)\<close> on an architecture whose number of
  \<open>prctl\<close> is 157.\<close>

definition sample_stop :: stop_answers where
  "sample_stop =
     \<lparr>sa_info = \<lparr>si_op = OP_ENTRY, si_arch = 0xC000003E, si_nr = 157, si_args = [22, 1, 0, 0, 0, 0], si_rval = 0\<rparr>,
      sa_exit = \<lparr>si_op = OP_EXIT, si_arch = 0xC000003E, si_nr = 0, si_args = [], si_rval = 0\<rparr>,
      sa_mem = Map.empty, sa_link = Map.empty, sa_new_pid = 0\<rparr>"

definition known_arch :: trace_state where
  "known_arch = start_trace\<lparr>saved_arch := 0xC000003E, seccomp_nr := 317, prctl_nr := 157\<rparr>"

theorem threads_resumed_witness:
  "\<exists>st'. parent_loop sample_env True False [Waited 7 0x857f sample_stop, Waited 8 0x137f sample_stop] known_arch = Done (Blocked, st')
    \<and> tr_calls st' = [WAIT_STOP 7, PT_SYSCALL 7 0, WAIT_STOP 7, PT_SYSCALL 7 0, WAIT_STOP 8, PT_SYSCALL 8 19]
    \<and> stopped st' = Some {}"
proof -
  have s: "stopped known_arch = Some {}" by (simp add: stopped_def known_arch_def start_trace_def)
  obtain st' where p: "parent_loop sample_env True False [Waited 7 0x857f sample_stop, Waited 8 0x137f sample_stop] known_arch = Done (Blocked, st')"
    "tr_calls st' = [WAIT_STOP 7, PT_SYSCALL 7 0, WAIT_STOP 7, PT_SYSCALL 7 0, WAIT_STOP 8, PT_SYSCALL 8 19]"
    by (simp add: sample_stop_def known_arch_def start_trace_def WIFEXITED_def WIFSIGNALED_def WIFCONTINUED_def
        WSTOPSIG_def handle_stop_def handle_syscall_def new_arch_def check_scmp_mode_def load_attempt_def
        load_succeeds_def load_success_def request_def say_def status_event_def)
  from threads_resumed [OF p(1) s] p show ?thesis by auto
qed

text \<open>C20: \<open>check_scmp_mode\<close> and, for the programs of \<open>capture\<close>, \<open>load_success\<close> tell a filter that was loaded
  from one that was refused, for every combination of flags and every documented result of the kernel.\<close>

theorem load_recognised:
  assumes "kernel_answer flags link ok ret"
  shows "load_succeeds link ret flags = ok \<and> load_success ret flags = ok"
  by (rule kernel_answer_read [OF assms])

theorem load_recognised_witness:
  "load_succeeds (\<lambda>fd. if fd = 3 then Some NOTIFY_S else None) 3 8 = True \<and> load_success 3 8 = True"
  by (rule load_recognised) (rule listening, simp_all add: bit_simps)

text \<open>C39: The text of the flags of \<open>seccomp\<close> names exactly the flags that are set and is \<open>0\<close> when none is; it fits
  into the 256 bytes of \<open>flag_buf\<close> for every value.\<close>

theorem flags_text:
  "flag_loop flag seccomp_flags False ''0'' = Done (join_flags (map snd (filter (\<lambda>f. bit flag (fst f)) seccomp_flags)))
    \<and> length (join_flags (map snd (filter (\<lambda>f. bit flag (fst f)) seccomp_flags))) < 0x100"
proof -
  have "length (join_flags ns) \<le> 1 + sum_list (map (\<lambda>n. Suc (Suc (Suc (length n)))) ns)" for ns
    by (cases ns) (simp_all add: join_flags_def length_concat comp_def)
  from this [of "map snd (filter (\<lambda>f. bit flag (fst f)) seccomp_flags)"] show ?thesis
    unfolding flag_text by (auto simp: seccomp_flags_def)
qed

section \<open>The filters that are printed\<close>




lemma sample_safe: "safe_prog [CBPF_STMT 6 0x7fff0000]"
proof -
  have "filter_safe 0 1 0 (CBPF_STMT 6 0x7fff0000)" "BPF_CLASS 6 = BPF_RET" by code_simp+
  then show ?thesis
    by (auto simp: safe_prog_def safe_with_def filter_targets_plain CBPF_STMT_def intro!: exI [of _ "\<lambda>_. 0"])
qed


text \<open>C35: On a big endian machine of 64 bits a process of 32 bits cannot be traced: the four bytes of its pointer
  to the filters are copied to the start of the eight bytes of a pointer, where they are its upper half.
  Whatever program the process loads, the tracer looks for it outside of the address space of the process
  and ends with the message on \<open>PEEKDATA\<close>.\<close>

theorem big_endian_32_fails:
  assumes "fprog_at True (si_arch info) mem (si_args info ! 2) fs" "\<not> bit (si_arch info) AUDIT_ARCH_64BIT"
    and "fs \<noteq> []" "length fs \<le> BPF_MAXINSNS"
    and "mem 0 = None" "\<forall>a. 2 ^ 32 \<le> a \<longrightarrow> mem a = None"
  shows "\<exists>t. dump_filter True info mem = Die t"
  by (rule dump_filter_big_32 [OF assms])

theorem big_endian_32_fails_witness:
  "\<exists>t. dump_filter True \<lparr>si_op = OP_ENTRY, si_arch = 20, si_nr = 0, si_args = [22, 2, 0x10, 0, 0, 0], si_rval = 0\<rparr>
     (mem_of 0x10 ([0, 1, 0, 0] @ [0, 0, 0, 0x20] @ replicate 8 0 @ filter_bytes True (CBPF_STMT 6 0x7fff0000))) = Die t"
    (is "\<exists>t. dump_filter True ?info ?mem = Die t")
proof (rule big_endian_32_fails)
  let ?bs = "[0, 1, 0, 0] @ [0, 0, 0, 0x20] @ replicate 8 0 @ filter_bytes True (CBPF_STMT 6 0x7fff0000)"
  have be: "word_of_bytes True (replicate 4 0 @ [0, 0, 0, 0x20]) = 0x20" by code_simp
  have all: "mem_holds ?mem 0x10 ?bs"
    by (rule mem_of_holds) (simp add: filter_bytes_def bytes16_def bytes32_def)
  from all [unfolded mem_holds_append]
  have "mem_holds ?mem 0x20 (filter_bytes True (CBPF_STMT 6 0x7fff0000))"
    and "mem_holds ?mem 0x14 [0, 0, 0, 0x20]" by simp_all
  moreover have "mem_holds ?mem 0x10 [0, 1]"
    using all mem_holds_append [of ?mem "0x10" "[0, 1]" "drop 2 ?bs"] by simp
  moreover have "mem_holds ?mem 0x10 (take 8 ?bs)" "mem_holds ?mem (0x10 + 4) (take 8 (drop 4 ?bs))"
    using all mem_holds_part [of ?mem "0x10" ?bs 0 8] mem_holds_part [of ?mem "0x10" ?bs 4 8] by simp_all
  then have "mem_bytes ?mem 0x10 8 \<noteq> None" "mem_bytes ?mem 0x14 8 \<noteq> None"
    by (auto dest!: mem_bytes_holds simp: numeral_eq_Suc)
  ultimately show "fprog_at True (si_arch ?info) ?mem (si_args ?info ! 2) [CBPF_STMT 6 0x7fff0000]"
    using be by (auto simp: fprog_at_def pointer_at_def bytes16_def bit_simps
        intro!: exI [of _ "0x20 :: u64"] exI [of _ "[0, 0, 0, 0x20] :: u8 list"])
qed (auto simp: BPF_MAXINSNS_def mem_of_def filter_bytes_def bytes16_def bytes32_def word_le_nat_alt unat_sub_if_size word_size)

section \<open>The filters of a running process\<close>

text \<open>C19: \<open>ceccomp trace -p\<close> lists all filters of a process, in the order of the kernel, and ends: when the kernel gives
  \<open>n\<close> programs it has accepted and \<open>ENOENT\<close> behind them, the output is their listings, and the process is
  let go.\<close>

theorem pid_trace_lists_all:
  assumes "names_short (te_lib te)" "pa_seize pa = None"
    and "printable_filters pa n" "pa_filter pa n = Inl ENOENT"
  shows "\<exists>st'. pid_trace te pa pid False quiet intr ws st = Some (Done (Returned 0, st'))
    \<and> tr_out st' = tr_out st @ listings te pa (si_arch (pa_info pa)) pid [0..<n]
    \<and> tr_calls st' = tr_calls st @ [PT_SEIZE pid 0, PT_INTERRUPT pid, WAIT_STOP pid, PT_DETACH pid]"
  using filter_rounds_reach [OF assms(1,3), of 0] assms(2) filter_rounds_end [OF assms(4)]
  by (simp add: pid_trace_def finish_rounds_def request_def say_def Let_def)

definition sample_pid :: "(int + sock_filter list) \<Rightarrow> pid_answers" where
  "sample_pid e =
     \<lparr>pa_seize = None, pa_info = sa_info sample_stop,
      pa_filter = (\<lambda>i. if i = 0 then Inr [CBPF_STMT 6 0x7fff0000] else e),
      pa_status = None, pa_self_status = None, pa_self_pid = 1\<rparr>"

lemma sample_pid_printable: "printable_filters (sample_pid e) 1"
  using sample_safe by (simp add: printable_filters_def sample_pid_def BPF_MAXINSNS_def)

theorem pid_trace_lists_all_witness:
  "\<exists>st'. pid_trace sample_env (sample_pid (Inl ENOENT)) 7 False True True [] start_trace = Some (Done (Returned 0, st'))
    \<and> tr_out st' = listing sample_lib False 0xC000003E [CBPF_STMT 6 0x7fff0000] 7"
proof -
  have n: "names_short (te_lib sample_env)" "pa_seize (sample_pid (Inl ENOENT)) = None"
    "pa_filter (sample_pid (Inl ENOENT)) 1 = Inl ENOENT"
    by (simp_all add: sample_env_def sample_names sample_pid_def)
  from pid_trace_lists_all [OF n(1,2) sample_pid_printable n(3), of 7 True True "[]" start_trace]
  show ?thesis by (auto simp: listings_def sample_pid_def sample_env_def sample_stop_def start_trace_def)
qed

text \<open>C36: \<open>ceccomp trace -p\<close> never ends on a process with a filter that is no classic program: the message says
  that it is skipped, but the loop asks for the same index again, for which the kernel answers
  \<open>EMEDIUMTYPE\<close> again.\<close>

theorem pid_trace_spins:
  assumes "names_short (te_lib te)" "pa_seize pa = None"
    and "printable_filters pa n" "pa_filter pa n = Inl EMEDIUMTYPE"
  shows "pid_trace te pa pid False quiet intr ws st = None"
proof -
  have "filter_rounds te pa pid a n st = None" for a st
    using filter_rounds_spin [of te pa pid a n st] assms(4) by (cases "filter_rounds te pa pid a n st") auto
  then show ?thesis
    using filter_rounds_reach [OF assms(1,3), of 0] assms(2) by (simp add: pid_trace_def)
qed

theorem pid_trace_spins_witness:
  "pid_trace sample_env (sample_pid (Inl EMEDIUMTYPE)) 7 False True True [] start_trace = None"
proof -
  have "names_short (te_lib sample_env)" "pa_seize (sample_pid (Inl EMEDIUMTYPE)) = None"
    "pa_filter (sample_pid (Inl EMEDIUMTYPE)) 1 = Inl EMEDIUMTYPE"
    by (simp_all add: sample_env_def sample_names sample_pid_def)
  from pid_trace_spins [OF this(1,2) sample_pid_printable this(3)] show ?thesis .
qed

text \<open>C38: \<open>access_proc_with_key\<close> finds the number behind a key in \<open>/proc/pid/status\<close>, whatever lines come before and
  behind it, as long as they fit into the buffer of \<open>fgets\<close> and do not start with the key.\<close>

theorem status_value_found:
  assumes "list_all status_line ls" "\<forall>l \<in> set ls. \<not> startwith (l @ [CHR 0x0A]) kw"
    and "status_line (kw @ CHR 0x09 # dec_str n)" "n < 2 ^ 63"
  shows "access_proc_with_key pid kw
      (Some (concat (map (\<lambda>l. l @ [CHR 0x0A]) ls) @ (kw @ CHR 0x09 # dec_str n) @ CHR 0x0A # s)) = int n"
  by (rule access_proc_value [OF assms])

theorem status_value_found_witness:
  "access_proc_with_key 7 SECCOMP (Some (''State:'' @ CHR 0x0A # ''Seccomp:'' @ CHR 0x09 # ''2'' @ CHR 0x0A # ''Speculation:'')) = 2"
proof -
  have d: "dec_str 2 = ''2''" by code_simp
  from status_value_found [of "[''State:'']" SECCOMP 2 7 "''Speculation:''"] show ?thesis
    by (simp add: d status_line_def startwith_def SECCOMP_def)
qed

end
