(* ===== verification/Capture_Bpf.thy ===== *)
theory Capture_Bpf
  imports Trace Bpf_Trans
begin

text \<open>
  The two eBPF programs: \<open>ebpf/capture_pid.bpf.c\<close>, which copies the filters of a process in chunks into
  a ring buffer, and \<open>ebpf/capture.bpf.c\<close>, which reports every filter that is loaded; with the types of
  \<open>include/utils/ebpf_share.h\<close>. What the kernel holds, and whether each of its helper functions
  succeeds, are parameters. Memory of the ring buffer that is not written is 0 here; nothing reads it.
\<close>

section \<open>Shared types\<close>

datatype pid_event_status =
  CHUNK_DONE | PROG_DONE | PROG_ABORTED | TRUNCATED | TASK_ABORTED | ALL_DONE | PID_NOT_FOUND

datatype ebpf_arch = PROC_ARCH_X64 | PROC_ARCH_X86 | PROC_ARCH_ARM | PROC_ARCH_AARCH64 | PROC_ARCH_OTHERS

text \<open>\<open>ev_insns\<close> is the part of \<open>prog.filters\<close> that was copied.\<close>

record pid_event =
  ev_status :: pid_event_status
  ev_arch :: ebpf_arch
  ev_flen_total :: u32
  ev_filter_count :: u32
  ev_flen :: u16
  ev_insns :: "ebpf_insn list"

record pid_config =
  cf_target_pid :: int
  cf_trigger_pid :: int

text \<open>The machine \<open>ceccomp\<close> was built for.\<close>

datatype host = Host_X86_64 | Host_AARCH64 | Host_Other

definition compat_arch :: "host \<Rightarrow> u64 \<Rightarrow> ebpf_arch" where
  "compat_arch h tflags =
     (case h of
        Host_AARCH64 \<Rightarrow> if bit tflags 22 then PROC_ARCH_ARM else PROC_ARCH_AARCH64
      | Host_X86_64 \<Rightarrow> if bit tflags 1 then PROC_ARCH_X86 else PROC_ARCH_X64
      | Host_Other \<Rightarrow> PROC_ARCH_OTHERS)"

definition CHUNK_INSN_SIZE :: u32 where "CHUNK_INSN_SIZE = 4096"
definition CHUNK_SIZE :: u16 where "CHUNK_SIZE = 4096 * 8"

section \<open>The ring buffer\<close>

text \<open>\<open>rb_room n\<close>: whether the \<open>n\<close>-th reservation succeeds.\<close>

record ring =
  rb_tries :: nat
  rb_events :: "pid_event list"

definition ring_reserve :: "(nat \<Rightarrow> bool) \<Rightarrow> ring \<Rightarrow> bool \<times> ring" where
  "ring_reserve room r = (room (rb_tries r), r\<lparr>rb_tries := Suc (rb_tries r)\<rparr>)"

definition ring_submit :: "pid_event \<Rightarrow> ring \<Rightarrow> ring" where
  "ring_submit e r = r\<lparr>rb_events := rb_events r @ [e]\<rparr>"

section \<open>The filters of a process\<close>

text \<open>
  A program of the kernel: whether its length can be read, its instructions, and whether the copy
  of a chunk succeeds. A filter of the list of a task: its program (\<open>None\<close> when the read fails,
  \<open>Some None\<close> for \<open>NULL\<close>) and whether the pointer to the next one can be read.
\<close>

record kernel_prog =
  kp_len :: "u32 option"
  kp_insns :: "ebpf_insn list"
  kp_read :: "nat \<Rightarrow> bool"

record kernel_filter =
  kf_prog :: "kernel_prog option option"
  kf_prev_read :: bool

record kernel_task =
  kt_filters :: "kernel_filter list option"
  kt_filter_count :: "u32 option"
  kt_flags :: "u64 option"

record dump_ctx =
  dc_status :: pid_event_status
  dc_prog :: kernel_prog
  dc_filter_count :: u32
  dc_flen :: u32
  dc_arch :: ebpf_arch

definition dump_chunk :: "(nat \<Rightarrow> bool) \<Rightarrow> nat \<Rightarrow> dump_ctx \<Rightarrow> ring \<Rightarrow> bool \<times> dump_ctx \<times> ring" where
  "dump_chunk room chunk_index ctx r =
     (let chunk_start_offset = of_nat chunk_index * CHUNK_INSN_SIZE;
          remaining = dc_flen ctx - chunk_start_offset;
          (st, remaining_insns) = (if remaining \<le> CHUNK_INSN_SIZE then (PROG_DONE, remaining) else (CHUNK_DONE, CHUNK_INSN_SIZE));
          ctx = ctx\<lparr>dc_status := st\<rparr>;
          (ok, r) = ring_reserve room r
      in
      if \<not> ok then (True, ctx, r)
      else
        let leftover = ucast (remaining_insns * 8) :: u16;
            leftover = (if CHUNK_SIZE < leftover then CHUNK_SIZE else leftover);
            event = \<lparr>ev_status = st, ev_arch = dc_arch ctx, ev_flen_total = dc_flen ctx,
              ev_filter_count = dc_filter_count ctx, ev_flen = ucast remaining_insns, ev_insns = []\<rparr>
        in
        if \<not> kp_read (dc_prog ctx) chunk_index then
          (True, ctx, ring_submit (event\<lparr>ev_status := PROG_ABORTED\<rparr>) r)
        else
          (False, ctx, ring_submit (event\<lparr>ev_insns :=
             take (unat leftover div 8) (drop (unat chunk_start_offset) (kp_insns (dc_prog ctx)))\<rparr>) r))"

text \<open>\<open>bpf_loop\<close>: the callback for each index, until it returns 1.\<close>

fun bpf_loop :: "(nat \<Rightarrow> bool) \<Rightarrow> nat \<Rightarrow> nat \<Rightarrow> dump_ctx \<Rightarrow> ring \<Rightarrow> ring" where
  "bpf_loop room i 0 ctx r = r"
| "bpf_loop room i (Suc n) ctx r =
     (case dump_chunk room i ctx r of (stop, ctx, r) \<Rightarrow>
        if stop then r else bpf_loop room (Suc i) n ctx r)"

definition dump_prog :: "(nat \<Rightarrow> bool) \<Rightarrow> kernel_filter \<Rightarrow> u32 \<Rightarrow> ebpf_arch \<Rightarrow> ring \<Rightarrow> ring" where
  "dump_prog room f filter_count arch r =
     (case kf_prog f of
        None \<Rightarrow> r
      | Some None \<Rightarrow> r
      | Some (Some prog) \<Rightarrow>
          (case kp_len prog of
             None \<Rightarrow> r
           | Some flen \<Rightarrow>
               bpf_loop room 0 (unat ((flen + CHUNK_INSN_SIZE - 1) div CHUNK_INSN_SIZE))
                 \<lparr>dc_status = CHUNK_DONE, dc_prog = prog, dc_filter_count = filter_count, dc_flen = flen, dc_arch = arch\<rparr> r))"

text \<open>
  The loop over the filters: at most 32 programs. The result is the status for the last event: the
  list has ended, was cut, or could not be followed.
\<close>

fun dump_filters ::
  "(nat \<Rightarrow> bool) \<Rightarrow> nat \<Rightarrow> kernel_filter list \<Rightarrow> u32 \<Rightarrow> ebpf_arch \<Rightarrow> ring \<Rightarrow> pid_event_status \<times> ring" where
  "dump_filters room n [] filter_count arch r = (ALL_DONE, r)"
| "dump_filters room 0 (f # fs) filter_count arch r = (TRUNCATED, r)"
| "dump_filters room (Suc n) (f # fs) filter_count arch r =
     (let r = dump_prog room f filter_count arch r in
      if \<not> kf_prev_read f then (TASK_ABORTED, r)
      else dump_filters room n fs filter_count arch r)"

definition zero_event :: pid_event where
  "zero_event = \<lparr>ev_status = CHUNK_DONE, ev_arch = PROC_ARCH_X64, ev_flen_total = 0, ev_filter_count = 0,
     ev_flen = 0, ev_insns = []\<rparr>"

definition last_event :: "(nat \<Rightarrow> bool) \<Rightarrow> pid_event_status \<Rightarrow> ring \<Rightarrow> ring" where
  "last_event room st r =
     (case ring_reserve room r of (ok, r) \<Rightarrow>
        if \<not> ok then r else ring_submit (zero_event\<lparr>ev_status := st\<rparr>) r)"

text \<open>\<open>fentry/do_seccomp\<close>: what the call of \<open>seccomp\<close> by the thread \<open>current_pid\<close> adds to the ring.\<close>

definition capture_pid_entry ::
  "host \<Rightarrow> (nat \<Rightarrow> bool) \<Rightarrow> pid_config option \<Rightarrow> int \<Rightarrow> (int \<Rightarrow> kernel_task option) \<Rightarrow> ring \<Rightarrow> ring" where
  "capture_pid_entry h room config current_pid tasks r =
     (case config of
        None \<Rightarrow> r
      | Some cf \<Rightarrow>
          if cf_trigger_pid cf \<noteq> current_pid then r
          else
            case tasks (cf_target_pid cf) of
              None \<Rightarrow> last_event room PID_NOT_FOUND r
            | Some task \<Rightarrow>
                (case kt_filters task of
                   None \<Rightarrow> last_event room TASK_ABORTED r
                 | Some fs \<Rightarrow>
                     (case kt_filter_count task of
                        None \<Rightarrow> last_event room TASK_ABORTED r
                      | Some filter_count \<Rightarrow>
                          (case (if h = Host_Other then Some 0 else kt_flags task) of
                             None \<Rightarrow> last_event room TASK_ABORTED r
                           | Some flags \<Rightarrow>
                               (case dump_filters room 32 fs filter_count (compat_arch h flags) r of
                                  (st, r) \<Rightarrow> last_event room st r)))))"

section \<open>Filters as they are loaded\<close>

record ebpf_prog =
  ep_flen :: u16
  ep_filters :: "sock_filter list"

record global_event =
  ge_arch :: ebpf_arch
  ge_comm :: string
  ge_op :: u32
  ge_pid :: u32
  ge_prog :: ebpf_prog

text \<open>\<open>unverified_filters\<close>, a hash map of 16 entries, and the events.\<close>

record capture_state =
  cs_unverified :: "(u32 \<times> ebpf_prog) list"
  cs_events :: "global_event list"

definition map_update :: "u32 \<Rightarrow> ebpf_prog \<Rightarrow> (u32 \<times> ebpf_prog) list \<Rightarrow> (u32 \<times> ebpf_prog) list option" where
  "map_update k v m =
     (if map_of m k = None \<and> 16 \<le> length m then None
      else Some ((k, v) # filter (\<lambda>e. fst e \<noteq> k) m))"

definition map_delete :: "u32 \<Rightarrow> (u32 \<times> ebpf_prog) list \<Rightarrow> (u32 \<times> ebpf_prog) list" where
  "map_delete k m = filter (\<lambda>e. fst e \<noteq> k) m"

text \<open>
  \<open>fentry/seccomp_check_filter\<close>. The lookup in \<open>tmp_buf\<close>, an array, always succeeds; \<open>copied\<close> says
  whether the copy of the filters does. The buffer is never written, so its filters are zeros.
\<close>

definition seccomp_check_filter_entry ::
  "u32 \<Rightarrow> sock_filter list \<Rightarrow> u32 \<Rightarrow> bool \<Rightarrow> capture_state \<Rightarrow> capture_state" where
  "seccomp_check_filter_entry pid fs flen copied cs =
     (let read_size = ucast (flen * 8) :: u16 in
      case map_update pid \<lparr>ep_flen = ucast flen, ep_filters = replicate BPF_MAXINSNS zero_filter\<rparr> (cs_unverified cs) of
        None \<Rightarrow> cs
      | Some m \<Rightarrow>
          if BPF_MAXINSNS * 8 < unat read_size then cs\<lparr>cs_unverified := m\<rparr>
          else if \<not> copied then cs\<lparr>cs_unverified := map_delete pid m\<rparr>
          else
            let n = unat read_size div 8 in
            cs\<lparr>cs_unverified := (pid, \<lparr>ep_flen = ucast flen,
                ep_filters = take n fs @ replicate (BPF_MAXINSNS - n) zero_filter\<rparr>)
              # map_delete pid m\<rparr>)"

text \<open>What the helper functions give at the end of a call: room in the ring, the flags of the thread, its
  name, and whether the copy of the program succeeds.\<close>

record exit_answers =
  xa_room :: bool
  xa_flags :: "u64 option"
  xa_comm :: "string option"
  xa_copied :: bool

definition filter_mode ::
  "host \<Rightarrow> exit_answers \<Rightarrow> int \<Rightarrow> u32 \<Rightarrow> u32 \<Rightarrow> ebpf_prog \<Rightarrow> capture_state \<Rightarrow> capture_state" where
  "filter_mode h ea ret flags pid prog cs =
     (let done' = cs\<lparr>cs_unverified := map_delete pid (cs_unverified cs)\<rparr> in
      if \<not> load_success ret flags then done'
      else
        case (if h = Host_Other then Some 0 else xa_flags ea) of
          None \<Rightarrow> done'
        | Some tflags \<Rightarrow>
            (case xa_comm ea of
               None \<Rightarrow> done'
             | Some comm \<Rightarrow>
                 if \<not> xa_copied ea then done'
                 else done'\<lparr>cs_events := cs_events cs @
                   [\<lparr>ge_arch = compat_arch h tflags, ge_comm = comm, ge_op = 1, ge_pid = pid, ge_prog = prog\<rparr>]\<rparr>))"

definition strict_mode :: "int \<Rightarrow> u32 \<Rightarrow> capture_state \<Rightarrow> capture_state" where
  "strict_mode ret pid cs =
     (if ret \<noteq> 0 then cs
      else cs\<lparr>cs_events := cs_events cs @ [\<lparr>ge_arch = PROC_ARCH_X64, ge_comm = [], ge_op = 0, ge_pid = pid,
        ge_prog = \<lparr>ep_flen = 0, ep_filters = []\<rparr>\<rparr>]\<rparr>)"

text \<open>\<open>fexit/do_seccomp\<close>.\<close>

definition seccomp_ret ::
  "host \<Rightarrow> exit_answers \<Rightarrow> u32 \<Rightarrow> u32 \<Rightarrow> u32 \<Rightarrow> int \<Rightarrow> capture_state \<Rightarrow> capture_state" where
  "seccomp_ret h ea pid op flags ret cs =
     (if op \<noteq> 0 \<and> op \<noteq> 1 then cs
      else
        let prog = map_of (cs_unverified cs) pid in
        if \<not> xa_room ea then
          (case prog of None \<Rightarrow> cs | Some p \<Rightarrow> cs\<lparr>cs_unverified := map_delete pid (cs_unverified cs)\<rparr>)
        else if op = 0 then strict_mode ret pid cs
        else
          (case prog of None \<Rightarrow> cs | Some p \<Rightarrow> filter_mode h ea ret flags pid p cs))"

end
