(* ===== verification/Capture.thy ===== *)
theory Capture
  imports Capture_Bpf
begin

text \<open>
  \<open>src/capture.c\<close>, as built with libbpf: the callbacks for the events of the two eBPF programs, and the
  loops that poll their ring buffers. libbpf is a parameter: whether a program loads and attaches, and
  the batches of events each poll delivers. The static variables of the callback and the context are
  the state.
\<close>

section \<open>Messages of libbpf\<close>

datatype libbpf_level = LIBBPF_WARN | LIBBPF_INFO | LIBBPF_DEBUG

definition libbpf_msg_dispatcher :: "bool \<Rightarrow> libbpf_level \<Rightarrow> string \<Rightarrow> parg list \<Rightarrow> string" where
  "libbpf_msg_dispatcher log_color level fmt args =
     (case level of
        LIBBPF_WARN \<Rightarrow> ceccomp_vprint log_color True LV_WARN fmt args
      | LIBBPF_INFO \<Rightarrow> ceccomp_vprint log_color True LV_INFO fmt args
      | LIBBPF_DEBUG \<Rightarrow> [])"

text \<open>\<open>strtoul\<close> up to the dot, and behind it.\<close>

definition linux_have_task_from_pid :: "string \<Rightarrow> (bool \<times> int \<times> int) cres" where
  "linux_have_task_from_pid release =
     (let (v, e, r) = strtoull 10 release; major = sint (ucast v :: u32) in
      if char_at release e \<noteq> CHR ''.'' then Crash ''no dot in the release''
      else
        let (w, e2, r2) = strtoull 10 (drop (Suc e) release); minor = sint (ucast w :: u32) in
        Done (6 < major \<or> (major = 6 \<and> 2 \<le> minor), major, minor))"

section \<open>The filters of a process\<close>

text \<open>
  The context, \<open>insn_offset\<close> and \<open>count_printed\<close>. \<open>rd_insns\<close> is the array on the heap; its
  elements are zeros before they are written.
\<close>

record reader =
  rd_target_pid :: int
  rd_scmp_arch :: u32
  rd_insns :: "ebpf_insn list option"
  rd_status :: pid_event_status
  rd_offset :: nat
  rd_printed :: bool
  rd_cp :: cp_state
  rd_out :: string
  rd_err :: string

definition rd_say :: "trace_env \<Rightarrow> print_level_t \<Rightarrow> string \<Rightarrow> parg list \<Rightarrow> reader \<Rightarrow> reader" where
  "rd_say te lv fmt args rd = rd\<lparr>rd_err := rd_err rd @ info_print (te_log_color te) lv fmt args\<rparr>"

definition trans_ebpf_arch :: "scmp_lib \<Rightarrow> host \<Rightarrow> ebpf_arch \<Rightarrow> u32 \<Rightarrow> u32" where
  "trans_ebpf_arch lib h arch scmp_arch =
     (if h = Host_X86_64 \<and> arch = PROC_ARCH_X86 then scmp_arch_macro lib ARCH_X86'
      else if h = Host_X86_64 \<and> arch = PROC_ARCH_X64 then scmp_arch_macro lib ARCH_X86_64'
      else if h = Host_AARCH64 \<and> arch = PROC_ARCH_ARM then scmp_arch_macro lib ARCH_ARM'
      else if h = Host_AARCH64 \<and> arch = PROC_ARCH_AARCH64 then scmp_arch_macro lib ARCH_AARCH64'
      else scmp_arch)"

definition do_ebpf_disasm ::
  "trace_env \<Rightarrow> host \<Rightarrow> ebpf_insn list \<Rightarrow> u32 \<Rightarrow> ebpf_arch \<Rightarrow> u32 \<Rightarrow> reader \<Rightarrow> reader cres" where
  "do_ebpf_disasm te h insns flen arch default_scmp_arch rd =
     cbind (ebpf2cbpf insns (unat flen) (replicate (unat flen) zero_filter) True) (\<lambda>r.
     case r of
       None \<Rightarrow> Die M_FAILED_EBPF_CONVERSION
     | Some fs \<Rightarrow>
         cbind (print_prog (te_lib te) (te_color te) (trans_ebpf_arch (te_lib te) h arch default_scmp_arch)
             (sock_fprog fs) 0 True (rd_cp rd)) (\<lambda>(out, cp).
         Done (rd\<lparr>rd_cp := cp, rd_out := rd_out rd @ out\<rparr>)))"

text \<open>\<open>memcpy\<close> of the instructions of a chunk behind those before it.\<close>

definition copy_chunk :: "pid_event \<Rightarrow> reader \<Rightarrow> reader cres" where
  "copy_chunk e rd =
     (let insns = (case rd_insns rd of None \<Rightarrow> replicate (unat (ev_flen_total e)) zero_insn | Some xs \<Rightarrow> xs);
          n = unat (ev_flen e); start = rd_offset rd
      in if length insns < start + n then Crash ''write outside ebpf_insns''
         else Done (rd\<lparr>rd_insns := Some (take start insns @ take n (ev_insns e @ replicate n zero_insn) @ drop (start + n) insns),
                       rd_offset := start + n\<rparr>))"

definition reset_reader :: "reader \<Rightarrow> reader" where
  "reset_reader rd = rd\<lparr>rd_offset := 0, rd_insns := None\<rparr>"

definition count_filters :: "trace_env \<Rightarrow> pid_event \<Rightarrow> reader \<Rightarrow> reader" where
  "count_filters te e rd =
     (if \<not> rd_printed rd then
        (rd_say te LV_INFO M_PROCESS_HAS_FILTER_COUNT
           [PInt (rd_target_pid rd), PInt (sint (ev_filter_count e))] rd)\<lparr>rd_printed := True\<rparr>
      else rd)"

definition on_pid_events :: "trace_env \<Rightarrow> host \<Rightarrow> pid_event \<Rightarrow> reader \<Rightarrow> reader cres" where
  "on_pid_events te h e rd =
     (if ev_status e = PID_NOT_FOUND then Die (printf_text M_PID_NOT_FOUND [PInt (rd_target_pid rd)])
      else
        let rd = count_filters te e rd in
        case ev_status e of
          CHUNK_DONE \<Rightarrow> copy_chunk e rd
        | PROG_DONE \<Rightarrow>
            cbind (copy_chunk e rd) (\<lambda>rd.
            cbind (do_ebpf_disasm te h (case rd_insns rd of None \<Rightarrow> [] | Some xs \<Rightarrow> xs) (ev_flen_total e)
                (ev_arch e) (rd_scmp_arch rd) rd) (\<lambda>rd. Done (reset_reader rd)))
        | PROG_ABORTED \<Rightarrow>
            Done (reset_reader (rd_say te LV_WARN M_UNKNOWN_PROG_ABORTED [PStr M_CAPTURE_PID_HELP] rd))
        | TRUNCATED \<Rightarrow> Done (rd_say te LV_WARN M_PROG_TRUNCATED [] (rd\<lparr>rd_status := TRUNCATED\<rparr>))
        | TASK_ABORTED \<Rightarrow>
            Done (rd_say te LV_WARN M_UNKNOWN_TASK_ABORTED [PStr M_CAPTURE_PID_HELP] (rd\<lparr>rd_status := TASK_ABORTED\<rparr>))
        | ALL_DONE \<Rightarrow> Done (rd\<lparr>rd_status := ALL_DONE\<rparr>)
        | PID_NOT_FOUND \<Rightarrow> Done rd)"

fun deliver :: "trace_env \<Rightarrow> host \<Rightarrow> pid_event list \<Rightarrow> reader \<Rightarrow> reader cres" where
  "deliver te h [] rd = Done rd"
| "deliver te h (e # es) rd = cbind (on_pid_events te h e rd) (deliver te h es)"

text \<open>A \<open>ring_buffer__poll\<close>: the events it delivers, none when the time is over, or an error.\<close>

datatype poll = Events "pid_event list" | Poll_Error int

definition finished :: "reader \<Rightarrow> bool" where
  "finished rd \<longleftrightarrow> rd_status rd = ALL_DONE \<or> rd_status rd = TRUNCATED \<or> rd_status rd = TASK_ABORTED"

text \<open>Behind the last poll of the list nothing comes any more.\<close>

fun poll_loop :: "trace_env \<Rightarrow> host \<Rightarrow> poll list \<Rightarrow> reader \<Rightarrow> reader cres" where
  "poll_loop te h ps rd =
     (if finished rd then Done rd
      else
        case ps of
          [] \<Rightarrow> Die M_CAPTURE_POLL_FAIL
        | Poll_Error rc # ps \<Rightarrow> Die (printf_text M_CAPTURE_POLL_ERROR [PStr (te_strerror te (- rc))])
        | Events es # ps \<Rightarrow>
            if es = [] then Die M_CAPTURE_POLL_FAIL
            else cbind (deliver te h es rd) (poll_loop te h ps))"

declare poll_loop.simps [simp del]

text \<open>What libbpf and the system answer before the first poll.\<close>

record capture_setup =
  su_loaded :: bool
  su_status :: "string option"
  su_release :: string
  su_configured :: bool
  su_ring :: bool
  su_attached :: bool

definition start_reader :: "int \<Rightarrow> u32 \<Rightarrow> reader" where
  "start_reader pid scmp_arch = \<lparr>rd_target_pid = pid, rd_scmp_arch = scmp_arch, rd_insns = None, rd_status = CHUNK_DONE,
     rd_offset = 0, rd_printed = False, rd_cp = start_cp, rd_out = [], rd_err = []\<rparr>"

definition load_failed :: "capture_setup \<Rightarrow> bool \<Rightarrow> string \<Rightarrow> 'a cres" where
  "load_failed su by_pid func =
     (if have_bpf_cap (su_status su) = 0 then Die M_EBPF_NOT_CAPABLE
      else if by_pid then
        cbind (linux_have_task_from_pid (su_release su)) (\<lambda>(ok, major, minor).
        if \<not> ok then Die (printf_text M_LINUX_NO_TASK_FROM_PID [PInt major, PInt minor])
        else Die (printf_text M_FAILED_OPEN_LOAD [PStr func]))
      else Die (printf_text M_FAILED_OPEN_LOAD [PStr func]))"

definition capture_pid ::
  "trace_env \<Rightarrow> host \<Rightarrow> capture_setup \<Rightarrow> int \<Rightarrow> u32 \<Rightarrow> poll list \<Rightarrow> reader cres" where
  "capture_pid te h su pid scmp_arch ps =
     (if \<not> su_loaded su then load_failed su True ''capture_pid''
      else if \<not> su_configured su then Die M_FAILED_UPDATE_MAP
      else if \<not> su_ring su then Die M_FAILED_CREATE_RINGBUF
      else if \<not> su_attached su then Die M_FAILED_ATTACH
      else poll_loop te h ps (start_reader pid scmp_arch))"

section \<open>Filters as they are loaded\<close>

text \<open>The architecture of the last event stays in the context.\<close>

record global_reader =
  gr_scmp_arch :: u32
  gr_cp :: cp_state
  gr_out :: string
  gr_err :: string

definition on_events :: "trace_env \<Rightarrow> host \<Rightarrow> global_event \<Rightarrow> global_reader \<Rightarrow> global_reader cres" where
  "on_events te h e gr =
     (if ge_op e = 0 then
        Done (gr\<lparr>gr_err := gr_err gr @ info_print (te_log_color te) LV_WARN M_FOUND_STRICT_MODE [PInt (sint (ge_pid e))]\<rparr>)
      else
        let gr = gr\<lparr>gr_err := gr_err gr @ info_print (te_log_color te) LV_INFO M_CAPTURE_EBPF_IN_TASK
                [PInt (sint (ge_pid e)), PStr (ge_comm e)],
              gr_scmp_arch := trans_ebpf_arch (te_lib te) h (ge_arch e) (gr_scmp_arch gr)\<rparr>;
            n = unat (ep_flen (ge_prog e))
        in
        if length (ep_filters (ge_prog e)) < n then Crash ''read outside prog.filters''
        else
          cbind (print_prog (te_lib te) (te_color te) (gr_scmp_arch gr) (take n (ep_filters (ge_prog e)))
              (nat (sint (ge_pid e))) True (gr_cp gr)) (\<lambda>(out, cp).
          Done (gr\<lparr>gr_cp := cp, gr_out := gr_out gr @ out\<rparr>)))"

fun deliver_all :: "trace_env \<Rightarrow> host \<Rightarrow> global_event list \<Rightarrow> global_reader \<Rightarrow> global_reader cres" where
  "deliver_all te h [] gr = Done gr"
| "deliver_all te h (e # es) gr = cbind (on_events te h e gr) (deliver_all te h es)"

definition start_global :: "u32 \<Rightarrow> global_reader" where
  "start_global scmp_arch = \<lparr>gr_scmp_arch = scmp_arch, gr_cp = start_cp, gr_out = [], gr_err = []\<rparr>"

text \<open>
  The events until now, and the error that ends the polling, if it has come: without one the program
  waits, with the text it has written so far.
\<close>

definition global_capture ::
  "trace_env \<Rightarrow> host \<Rightarrow> capture_setup \<Rightarrow> u32 \<Rightarrow> global_event list \<Rightarrow> int option \<Rightarrow> global_reader cres" where
  "global_capture te h su scmp_arch es poll_error =
     (if \<not> su_loaded su then load_failed su False ''global_capture''
      else if \<not> su_ring su then Die M_FAILED_CREATE_RINGBUF
      else if \<not> su_attached su then Die M_FAILED_ATTACH
      else
        cbind (deliver_all te h es (start_global scmp_arch)) (\<lambda>gr.
        case poll_error of
          None \<Rightarrow> Done gr
        | Some rc \<Rightarrow> Die (printf_text M_CAPTURE_POLL_ERROR [PStr (te_strerror te (- rc))])))"

text \<open>The text written, for a process or for all that load a filter.\<close>

definition capture ::
  "trace_env \<Rightarrow> host \<Rightarrow> capture_setup \<Rightarrow> int \<Rightarrow> u32 \<Rightarrow> poll list \<Rightarrow> global_event list \<Rightarrow> int option \<Rightarrow> (string \<times> string) cres"
where
  "capture te h su pid scmp_arch ps es poll_error =
     (if pid \<noteq> 0 then
        cbind (capture_pid te h su pid scmp_arch ps) (\<lambda>rd. Done (rd_out rd, rd_err rd))
      else
        cbind (global_capture te h su scmp_arch es poll_error) (\<lambda>gr. Done (gr_out gr, gr_err gr)))"

end
