(* ===== verification/Capture_Ok.thy ===== *)
theory Capture_Ok
  imports Capture Trace_Ok
begin

text \<open>
  Lemmas on \<open>capture\<close>: the chunks a program of the kernel writes into the ring are put together again by
  the reader, and a filter is reported when the kernel takes it, whatever other threads do meanwhile.
\<close>

section \<open>The chunks of a program\<close>

lemma unat_of_nat32: "n < 2 ^ 32 \<Longrightarrow> unat (of_nat n :: u32) = n"
  by (simp add: unat_of_nat take_bit_nat_eq_self)

text \<open>Reservations that always succeed.\<close>

abbreviation room :: "nat \<Rightarrow> bool" where "room \<equiv> (\<lambda>_. True)"

definition chunk_event :: "dump_ctx \<Rightarrow> nat \<Rightarrow> pid_event" where
  "chunk_event ctx i =
     (let rest = drop (4096 * i) (kp_insns (dc_prog ctx)) in
      \<lparr>ev_status = (if length rest \<le> 4096 then PROG_DONE else CHUNK_DONE), ev_arch = dc_arch ctx,
       ev_flen_total = dc_flen ctx, ev_filter_count = dc_filter_count ctx,
       ev_flen = of_nat (min (length rest) 4096), ev_insns = take 4096 rest\<rparr>)"

text \<open>A program whose length is that of its instructions, and all of whose chunks can be read.\<close>

definition whole_prog :: "kernel_prog \<Rightarrow> bool" where
  "whole_prog p \<longleftrightarrow> kp_len p = Some (of_nat (length (kp_insns p))) \<and> kp_insns p \<noteq> []
     \<and> length (kp_insns p) < 2 ^ 31 \<and> (\<forall>i. kp_read p i)"

lemma chunk_words:
  assumes "m \<le> 4096"
  shows "unat (ucast ((of_nat m :: u32) * 8) :: u16) = m * 8" "ucast (of_nat m :: u32) = (of_nat m :: u16)"
proof -
  have "(of_nat m :: u32) * 8 = of_nat (m * 8)" by simp
  moreover have "unat (of_nat (m * 8) :: u32) = m * 8" by (rule unat_of_nat32) (use assms in simp)
  ultimately show "unat (ucast ((of_nat m :: u32) * 8) :: u16) = m * 8"
    using assms by (simp only: unsigned_ucast_eq) (simp add: take_bit_nat_eq_self)
  have "unat (of_nat m :: u32) = m" by (rule unat_of_nat32) (use assms in simp)
  then show "ucast (of_nat m :: u32) = (of_nat m :: u16)"
    using assms by (intro word_unat_eq_iff [THEN iffD2]) (simp add: unsigned_ucast_eq unat_of_nat take_bit_nat_eq_self)
qed

lemma dump_chunk_at:
  assumes start: "(of_nat i :: u32) * CHUNK_INSN_SIZE = of_nat s" "unat (of_nat s :: u32) = s"
    and rest: "dc_flen ctx - of_nat s = of_nat m" "m < 2 ^ 31" and rd: "kp_read (dc_prog ctx) i" "ok (rb_tries r)"
  shows "\<exists>st. dump_chunk ok i ctx r = (False, ctx\<lparr>dc_status := st\<rparr>, \<lparr>rb_tries = Suc (rb_tries r),
    rb_events = rb_events r @ [\<lparr>ev_status = (if m \<le> 4096 then PROG_DONE else CHUNK_DONE), ev_arch = dc_arch ctx,
       ev_flen_total = dc_flen ctx, ev_filter_count = dc_filter_count ctx,
       ev_flen = of_nat (min m 4096), ev_insns = take (min m 4096) (drop s (kp_insns (dc_prog ctx)))\<rparr>]\<rparr>)"
proof -
  have "unat (of_nat m :: u32) = m" by (rule unat_of_nat32) (use rest(2) in simp)
  then have le: "(of_nat m :: u32) \<le> CHUNK_INSN_SIZE \<longleftrightarrow> m \<le> 4096" by (simp add: word_le_nat_alt CHUNK_INSN_SIZE_def)
  have full: "(ucast (CHUNK_INSN_SIZE * 8) :: u16) = CHUNK_SIZE" "unat CHUNK_SIZE div 8 = 4096"
    "ucast CHUNK_INSN_SIZE = (4096 :: u16)" by (simp_all add: CHUNK_INSN_SIZE_def CHUNK_SIZE_def)
  show ?thesis
  proof (cases "m \<le> 4096")
    case True
    have c: "\<not> CHUNK_SIZE < (ucast ((of_nat m :: u32) * 8) :: u16)"
      using True by (simp add: word_less_nat_alt CHUNK_SIZE_def chunk_words)
    show ?thesis unfolding dump_chunk_def Let_def start rest le ring_reserve_def
      using True c rd by (auto simp: chunk_words ring_submit_def min_def)
  next
    case False
    show ?thesis unfolding dump_chunk_def Let_def start rest le ring_reserve_def
      using False rd by (auto simp: full ring_submit_def min_def)
  qed
qed

lemma dump_chunk_whole:
  assumes p: "whole_prog (dc_prog ctx)" "dc_flen ctx = of_nat (length (kp_insns (dc_prog ctx)))"
    and i: "4096 * i < length (kp_insns (dc_prog ctx))" and ok: "ok (rb_tries r)"
  shows "\<exists>st. dump_chunk ok i ctx r = (False, ctx\<lparr>dc_status := st\<rparr>,
    \<lparr>rb_tries = Suc (rb_tries r), rb_events = rb_events r @ [chunk_event ctx i]\<rparr>)"
proof -
  let ?n = "length (kp_insns (dc_prog ctx))"
  have n: "?n < 2 ^ 31" "kp_read (dc_prog ctx) i" using p by (simp_all add: whole_prog_def)
  have off: "(of_nat i :: u32) * CHUNK_INSN_SIZE = of_nat (4096 * i)" by (simp add: CHUNK_INSN_SIZE_def mult.commute)
  have u: "unat (of_nat (4096 * i) :: u32) = 4096 * i" by (rule unat_of_nat32) (use i n in simp)
  have rest: "dc_flen ctx - of_nat (4096 * i) = (of_nat (?n - 4096 * i) :: u32)" unfolding p(2) using i by (simp only: of_nat_diff)
  have m: "?n - 4096 * i < 2 ^ 31" using n by simp
  have t: "take (min (?n - 4096 * i) 4096) (drop (4096 * i) (kp_insns (dc_prog ctx)))
      = take 4096 (drop (4096 * i) (kp_insns (dc_prog ctx)))" by (simp add: min_def)
  from dump_chunk_at [of i _ ctx _ ok r, OF off u rest m n(2) ok] show ?thesis unfolding t by (simp add: chunk_event_def Let_def)
qed

lemma chunk_event_status [simp]: "chunk_event (ctx\<lparr>dc_status := st\<rparr>) = chunk_event ctx"
  by (simp add: chunk_event_def fun_eq_iff)

definition chunk_count :: "'a list \<Rightarrow> nat" where
  "chunk_count xs = (length xs + 4095) div 4096"

lemma bpf_loop_whole:
  assumes "whole_prog (dc_prog ctx)" "dc_flen ctx = of_nat (length (kp_insns (dc_prog ctx)))"
    and "i + k = chunk_count (kp_insns (dc_prog ctx))"
  shows "bpf_loop room i k ctx r =
    \<lparr>rb_tries = rb_tries r + k, rb_events = rb_events r @ map (chunk_event ctx) [i..<i + k]\<rparr>"
  using assms
proof (induction k arbitrary: i ctx r)
  case 0
  then show ?case by simp
next
  case (Suc k)
  have "4096 * i < length (kp_insns (dc_prog ctx))"
    using Suc.prems(3) by (simp add: chunk_count_def)
  from dump_chunk_whole [OF Suc.prems(1,2) this, where ok = room and r = r] obtain st where
    d: "dump_chunk room i ctx r = (False, ctx\<lparr>dc_status := st\<rparr>,
      \<lparr>rb_tries = Suc (rb_tries r), rb_events = rb_events r @ [chunk_event ctx i]\<rparr>)" by blast
  from Suc.IH [of "ctx\<lparr>dc_status := st\<rparr>" "Suc i" "\<lparr>rb_tries = Suc (rb_tries r), rb_events = rb_events r @ [chunk_event ctx i]\<rparr>"]
    Suc.prems
  show ?case by (simp add: d upt_conv_Cons del: upt_Suc)
qed

section \<open>Putting the chunks together\<close>

lemma deliver_append: "deliver te h (es @ fs) rd = cbind (deliver te h es rd) (deliver te h fs)"
proof (induction es arbitrary: rd)
  case (Cons e es)
  then have "deliver te h (es @ fs) = (\<lambda>rd. cbind (deliver te h es rd) (deliver te h fs))" by blast
  then show ?case by (simp add: cbind_assoc)
qed simp

text \<open>The reader in front of the \<open>i\<close>-th chunk of a program.\<close>

definition before_chunk :: "ebpf_insn list \<Rightarrow> nat \<Rightarrow> reader \<Rightarrow> bool" where
  "before_chunk xs i rd \<longleftrightarrow> rd_offset rd = 4096 * i
     \<and> (if i = 0 then rd_insns rd = None
        else rd_insns rd = Some (take (4096 * i) xs @ replicate (length xs - 4096 * i) zero_insn))"

definition same_output :: "reader \<Rightarrow> reader \<Rightarrow> bool" where
  "same_output rd rd' \<longleftrightarrow> rd_scmp_arch rd' = rd_scmp_arch rd \<and> rd_status rd' = rd_status rd \<and> rd_cp rd' = rd_cp rd
     \<and> rd_out rd' = rd_out rd"

lemma count_filters_same:
  "same_output rd (count_filters te e rd) \<and> rd_offset (count_filters te e rd) = rd_offset rd
   \<and> rd_insns (count_filters te e rd) = rd_insns rd"
  by (simp add: count_filters_def rd_say_def same_output_def)

lemma copy_chunk_next:
  assumes p: "whole_prog (dc_prog ctx)" "dc_flen ctx = of_nat (length (kp_insns (dc_prog ctx)))"
    and i: "4096 * i < length (kp_insns (dc_prog ctx))" and rd: "before_chunk (kp_insns (dc_prog ctx)) i rd"
  shows "copy_chunk (chunk_event ctx i) rd = Done (rd\<lparr>
    rd_insns := Some (take (4096 * Suc i) (kp_insns (dc_prog ctx)) @ replicate (length (kp_insns (dc_prog ctx)) - 4096 * Suc i) zero_insn),
    rd_offset := min (length (kp_insns (dc_prog ctx))) (4096 * Suc i)\<rparr>)"
proof -
  let ?xs = "kp_insns (dc_prog ctx)" and ?e = "chunk_event ctx i"
  let ?k = "min (length ?xs - 4096 * i) 4096"
  have k: "unat (ev_flen ?e) = ?k"
    by (simp add: chunk_event_def Let_def unat_of_nat take_bit_nat_eq_self)
  have total: "unat (ev_flen_total ?e) = length ?xs"
    using p by (simp add: chunk_event_def Let_def whole_prog_def unat_of_nat32)
  have ins: "(case rd_insns rd of None \<Rightarrow> replicate (unat (ev_flen_total ?e)) zero_insn | Some xs \<Rightarrow> xs)
      = take (4096 * i) ?xs @ replicate (length ?xs - 4096 * i) zero_insn"
    using rd total by (cases i) (auto simp: before_chunk_def)
  have chunk: "take ?k (ev_insns ?e @ replicate ?k zero_insn) = take 4096 (drop (4096 * i) ?xs)"
    by (simp add: chunk_event_def Let_def min_def)
  have split: "take (4096 * i) ?xs @ take 4096 (drop (4096 * i) ?xs) = take (4096 * Suc i) ?xs"
    by (metis add.commute mult_Suc_right take_add)
  have r: "rd_offset rd = 4096 * i" using rd by (simp add: before_chunk_def)
  have "4096 * i + ?k = min (length ?xs) (4096 * Suc i)" using i by auto
  moreover have "drop (4096 * i + ?k) (take (4096 * i) ?xs @ replicate (length ?xs - 4096 * i) zero_insn)
      = replicate (length ?xs - 4096 * Suc i) zero_insn"
    using i by auto
  ultimately show ?thesis
    unfolding copy_chunk_def Let_def k r ins chunk using i split by auto
qed

text \<open>What one program adds to the output.\<close>

definition translated :: "ebpf_insn list \<Rightarrow> sock_filter list \<Rightarrow> bool" where
  "translated xs fs \<longleftrightarrow> ebpf2cbpf xs (length xs) (replicate (length xs) zero_filter) True = Done (Some fs)
     \<and> safe_prog fs \<and> length fs \<le> BPF_MAXINSNS"

lemma do_ebpf_disasm_lists:
  assumes "names_short (te_lib te)" "translated xs fs" "length xs < 2 ^ 31"
  shows "do_ebpf_disasm te h xs (of_nat (length xs)) a d rd = Done (rd\<lparr>rd_cp := rd_cp rd,
    rd_out := rd_out rd @ listing (te_lib te) (te_color te) (trans_ebpf_arch (te_lib te) h a d) fs 0\<rparr>)"
proof -
  have n: "unat (of_nat (length xs) :: u32) = length xs" by (rule unat_of_nat32) (use assms(3) in simp)
  have s: "sock_fprog fs = fs" "length fs < 65536" using assms(2) by (simp_all add: translated_def sock_fprog_def BPF_MAXINSNS_def)
  show ?thesis
    using assms(2) print_prog_listing [OF assms(1) _ s(2), of "te_color te" "trans_ebpf_arch (te_lib te) h a d" 0 "rd_cp rd"]
    by (simp add: do_ebpf_disasm_def n translated_def s)
qed

lemma deliver_chunks:
  assumes lib: "names_short (te_lib te)" and tr: "translated (kp_insns (dc_prog ctx)) fs"
    and p: "whole_prog (dc_prog ctx)" "dc_flen ctx = of_nat (length (kp_insns (dc_prog ctx)))"
    and i: "i + k = chunk_count (kp_insns (dc_prog ctx))" "0 < k"
    and rd: "before_chunk (kp_insns (dc_prog ctx)) i rd"
  shows "\<exists>rd'. deliver te h (map (chunk_event ctx) [i..<i + k]) rd = Done rd'
    \<and> before_chunk [] 0 rd' \<and> rd_scmp_arch rd' = rd_scmp_arch rd \<and> rd_status rd' = rd_status rd
    \<and> rd_out rd' = rd_out rd
      @ listing (te_lib te) (te_color te) (trans_ebpf_arch (te_lib te) h (dc_arch ctx) (rd_scmp_arch rd)) fs 0"
  using i rd
proof (induction k arbitrary: i rd)
  case (Suc k)
  let ?xs = "kp_insns (dc_prog ctx)" and ?e = "chunk_event ctx i"
  let ?rd = "count_filters te ?e rd"
  have i: "4096 * i < length ?xs" using Suc.prems by (simp add: chunk_count_def)
  have b: "before_chunk ?xs i ?rd"
    using Suc.prems(3) count_filters_same [of rd te ?e] unfolding before_chunk_def by metis
  note c = copy_chunk_next [OF p i b]
  have so: "same_output rd ?rd" using count_filters_same by blast
  have last: "k = 0 \<longleftrightarrow> length ?xs - 4096 * i \<le> 4096" using Suc.prems by (auto simp: chunk_count_def)
  show ?case
  proof (cases "k = 0")
    case True
    have xs: "take (4096 * Suc i) ?xs @ replicate (length ?xs - 4096 * Suc i) zero_insn = ?xs"
      using last True by simp
    have st: "ev_status ?e = PROG_DONE" "ev_arch ?e = dc_arch ctx" "ev_flen_total ?e = of_nat (length ?xs)"
      using last True p(2) by (simp_all add: chunk_event_def Let_def)
    have len: "length ?xs < 2 ^ 31" using p(1) by (simp add: whole_prog_def)
    show ?thesis
      using True so by (simp add: on_pid_events_def st c [unfolded xs] do_ebpf_disasm_lists [OF lib tr len]
          reset_reader_def before_chunk_def same_output_def)
  next
    case False
    have st: "ev_status ?e = CHUNK_DONE" using last False by (simp add: chunk_event_def Let_def)
    let ?rd' = "?rd\<lparr>rd_insns := Some (take (4096 * Suc i) ?xs @ replicate (length ?xs - 4096 * Suc i) zero_insn),
      rd_offset := min (length ?xs) (4096 * Suc i)\<rparr>"
    have "4096 * Suc i < length ?xs" using last False by auto
    then have "before_chunk ?xs (Suc i) ?rd'" by (simp add: before_chunk_def)
    from Suc.IH [OF _ _ this] Suc.prems False obtain rd' where
      d: "deliver te h (map (chunk_event ctx) [Suc i..<Suc i + k]) ?rd' = Done rd'" "before_chunk [] 0 rd'"
        "rd_scmp_arch rd' = rd_scmp_arch ?rd'" "rd_status rd' = rd_status ?rd'"
        "rd_out rd' = rd_out ?rd' @ listing (te_lib te) (te_color te)
          (trans_ebpf_arch (te_lib te) h (dc_arch ctx) (rd_scmp_arch ?rd')) fs 0" by auto
    have "on_pid_events te h ?e rd = Done ?rd'" by (simp add: on_pid_events_def st c)
    moreover have "[i..<i + Suc k] = i # [Suc i..<Suc i + k]" by (simp add: upt_conv_Cons)
    ultimately show ?thesis using d so by (simp add: same_output_def)
  qed
qed simp

section \<open>All filters of a process\<close>

definition chunk_status :: "pid_event \<Rightarrow> bool" where
  "chunk_status e \<longleftrightarrow> ev_status e = CHUNK_DONE \<or> ev_status e = PROG_DONE \<or> ev_status e = PROG_ABORTED"

text \<open>A filter that can be followed, whose program becomes \<open>fs\<close>.\<close>

definition good_filter :: "kernel_filter \<Rightarrow> sock_filter list \<Rightarrow> bool" where
  "good_filter f fs \<longleftrightarrow> kf_prev_read f
     \<and> (\<exists>p. kf_prog f = Some (Some p) \<and> whole_prog p \<and> translated (kp_insns p) fs)"

definition prog_ctx :: "kernel_prog \<Rightarrow> u32 \<Rightarrow> ebpf_arch \<Rightarrow> dump_ctx" where
  "prog_ctx p n a = \<lparr>dc_status = CHUNK_DONE, dc_prog = p, dc_filter_count = n,
     dc_flen = of_nat (length (kp_insns p)), dc_arch = a\<rparr>"

lemma chunk_count_word:
  assumes "whole_prog p"
  shows "unat ((of_nat (length (kp_insns p)) + CHUNK_INSN_SIZE - 1) div CHUNK_INSN_SIZE :: u32) = chunk_count (kp_insns p)"
proof -
  let ?n = "length (kp_insns p)"
  have "(of_nat ?n + CHUNK_INSN_SIZE - 1 :: u32) = of_nat (?n + 4095)" by (simp add: CHUNK_INSN_SIZE_def)
  moreover have "unat (of_nat (?n + 4095) :: u32) = ?n + 4095"
    by (rule unat_of_nat32) (use assms in \<open>simp add: whole_prog_def\<close>)
  ultimately have "unat (of_nat ?n + CHUNK_INSN_SIZE - 1 :: u32) = ?n + 4095" by (simp only:)
  then show ?thesis unfolding unat_div_distrib chunk_count_def by (simp add: CHUNK_INSN_SIZE_def)
qed

lemma dump_prog_good:
  assumes "kf_prog f = Some (Some p)" "whole_prog p"
  shows "dump_prog room f n a r = \<lparr>rb_tries = rb_tries r + chunk_count (kp_insns p),
    rb_events = rb_events r @ map (chunk_event (prog_ctx p n a)) [0..<chunk_count (kp_insns p)]\<rparr>"
proof -
  have "kp_len p = Some (of_nat (length (kp_insns p)))" using assms(2) by (simp add: whole_prog_def)
  then show ?thesis
    using assms bpf_loop_whole [of "prog_ctx p n a" 0 "chunk_count (kp_insns p)" r]
    by (simp add: dump_prog_def chunk_count_word prog_ctx_def)
qed

text \<open>The events of the programs of the filters.\<close>

definition filter_events :: "u32 \<Rightarrow> ebpf_arch \<Rightarrow> kernel_filter \<Rightarrow> pid_event list" where
  "filter_events n a f = (case kf_prog f of
     Some (Some p) \<Rightarrow> map (chunk_event (prog_ctx p n a)) [0..<chunk_count (kp_insns p)] | _ \<Rightarrow> [])"

lemma dump_filters_good:
  assumes "list_all2 good_filter (take k kfs) fss"
  shows "\<exists>t. dump_filters room k kfs n a r = (if length kfs \<le> k then ALL_DONE else TRUNCATED,
    \<lparr>rb_tries = t, rb_events = rb_events r @ concat (map (filter_events n a) (take k kfs))\<rparr>)"
  using assms
proof (induction k arbitrary: kfs fss r)
  case 0
  show ?case by (cases kfs; cases r) auto
next
  case (Suc k)
  show ?case
  proof (cases kfs)
    case Nil
    then show ?thesis by (cases r) auto
  next
    case (Cons f kfs')
    with Suc.prems obtain g gs where fss: "good_filter f g" "list_all2 good_filter (take k kfs') gs"
      by (auto simp: list_all2_Cons1)
    then obtain p where p: "kf_prog f = Some (Some p)" "whole_prog p" "kf_prev_read f" by (auto simp: good_filter_def)
    from Suc.IH [OF fss(2), of "dump_prog room f n a r"] show ?thesis
      using Cons p(3) by (auto simp: Let_def dump_prog_good [OF p(1,2)] filter_events_def p(1))
  qed
qed

lemma deliver_filters:
  assumes lib: "names_short (te_lib te)" and fs: "list_all2 good_filter kfs fss" and rd: "before_chunk [] 0 rd"
  shows "\<exists>rd'. deliver te h (concat (map (filter_events n a) kfs)) rd = Done rd' \<and> before_chunk [] 0 rd'
    \<and> rd_scmp_arch rd' = rd_scmp_arch rd \<and> rd_status rd' = rd_status rd
    \<and> rd_out rd' = rd_out rd @ concat (map (\<lambda>fs. listing (te_lib te) (te_color te)
          (trans_ebpf_arch (te_lib te) h a (rd_scmp_arch rd)) fs 0) fss)"
  using fs rd
proof (induction kfs fss arbitrary: rd rule: list_all2_induct)
  case (Cons f kfs g fss)
  then obtain p where p: "kf_prog f = Some (Some p)" "whole_prog p" "translated (kp_insns p) g"
    by (auto simp: good_filter_def)
  let ?c = "prog_ctx p n a"
  have c: "whole_prog (dc_prog ?c)" "dc_flen ?c = of_nat (length (kp_insns (dc_prog ?c)))" "dc_arch ?c = a"
    "translated (kp_insns (dc_prog ?c)) g" using p by (simp_all add: prog_ctx_def)
  have b: "before_chunk (kp_insns (dc_prog ?c)) 0 rd" using Cons.prems by (simp add: before_chunk_def)
  have k: "0 < chunk_count (kp_insns (dc_prog ?c))" using c(1) by (cases "kp_insns p") (auto simp: whole_prog_def chunk_count_def prog_ctx_def)
  from deliver_chunks [OF lib c(4,1,2) _ k b, of h] obtain rd1 where
    r1: "deliver te h (map (chunk_event ?c) [0..<chunk_count (kp_insns p)]) rd = Done rd1" "before_chunk [] 0 rd1"
      "rd_scmp_arch rd1 = rd_scmp_arch rd" "rd_status rd1 = rd_status rd"
      "rd_out rd1 = rd_out rd @ listing (te_lib te) (te_color te) (trans_ebpf_arch (te_lib te) h a (rd_scmp_arch rd)) g 0"
    by (auto simp: prog_ctx_def)
  from Cons.IH [OF r1(2)] r1 show ?case by (auto simp: deliver_append filter_events_def p(1))
qed (auto simp: before_chunk_def)

lemma filter_events_chunks: "e \<in> set (filter_events n a f) \<Longrightarrow> chunk_status e"
  by (auto simp: filter_events_def chunk_event_def chunk_status_def Let_def split: option.splits if_splits)

text \<open>Chunks do not end the polling.\<close>

lemma copy_chunk_status: "copy_chunk e rd = Done rd' \<Longrightarrow> rd_status rd' = rd_status rd"
  by (auto simp: copy_chunk_def Let_def split: if_splits)

lemma disasm_status: "do_ebpf_disasm te h xs n a d rd = Done rd' \<Longrightarrow> rd_status rd' = rd_status rd"
  by (auto simp: do_ebpf_disasm_def split: option.splits)

lemma chunk_keeps_status:
  "on_pid_events te h e rd = Done rd' \<Longrightarrow> chunk_status e \<Longrightarrow> rd_status rd' = rd_status rd"
  using count_filters_same [of rd te e]
  by (auto simp: on_pid_events_def chunk_status_def same_output_def reset_reader_def rd_say_def Let_def
      dest!: copy_chunk_status disasm_status)

lemma chunks_keep_status:
  "deliver te h es rd = Done rd' \<Longrightarrow> \<forall>e \<in> set es. chunk_status e \<Longrightarrow> rd_status rd' = rd_status rd"
  by (induction es arbitrary: rd) (auto dest: chunk_keeps_status)

text \<open>However the events are split into polls, the loop handles all of them.\<close>

lemma poll_loop_all:
  assumes "deliver te h (concat ess) rd = Done rd'" "\<not> finished rd" "finished rd'" "[] \<notin> set ess"
    and "concat ess = es @ [e]" "\<forall>e \<in> set es. chunk_status e"
  shows "poll_loop te h (map Events ess) rd = Done rd'"
  using assms
proof (induction ess arbitrary: rd es)
  case (Cons b ess)
  then obtain rd1 where d: "deliver te h b rd = Done rd1" "deliver te h (concat ess) rd1 = Done rd'"
    by (auto simp: deliver_append)
  have p: "poll_loop te h (map Events (b # ess)) rd = poll_loop te h (map Events ess) rd1"
    using Cons.prems d by (subst poll_loop.simps) auto
  show ?case
  proof (cases "ess = []")
    case True
    with d Cons.prems(3) p show ?thesis by (subst (asm) (2) poll_loop.simps) simp
  next
    case False
    then have ne: "concat ess \<noteq> []" using Cons.prems(4) by (cases ess) auto
    have bes: "b @ concat ess = es @ [e]" using Cons.prems(5) by simp
    then have t: "concat ess = butlast (concat ess) @ [e]" and pre: "b @ butlast (concat ess) = es"
      using ne by (metis append_butlast_last_id last_appendR last_snoc, metis butlast_append butlast_snoc)
    have "rd_status rd1 = rd_status rd"
      by (rule chunks_keep_status [OF d(1)]) (use Cons.prems(6) pre in auto)
    then have "\<not> finished rd1" using Cons.prems(2) by (simp add: finished_def)
    from Cons.IH [OF d(2) this Cons.prems(3) _ t] Cons.prems(4,6) pre p show ?thesis by auto
  qed
qed simp

text \<open>What \<open>capture -p\<close> writes for a process.\<close>

definition captured :: "trace_env \<Rightarrow> host \<Rightarrow> u32 \<Rightarrow> ebpf_arch \<Rightarrow> sock_filter list list \<Rightarrow> string" where
  "captured te h scmp_arch arch fss =
     concat (map (\<lambda>fs. listing (te_lib te) (te_color te) (trans_ebpf_arch (te_lib te) h arch scmp_arch) fs 0) fss)"

lemma last_event_room: "last_event room st r =
  \<lparr>rb_tries = Suc (rb_tries r), rb_events = rb_events r @ [zero_event\<lparr>ev_status := st\<rparr>]\<rparr>"
  by (simp add: last_event_def ring_reserve_def ring_submit_def)

lemma captured_process:
  assumes lib: "names_short (te_lib te)" and su: "su_loaded su" "su_configured su" "su_ring su" "su_attached su"
    and cf: "config = Some \<lparr>cf_target_pid = pid, cf_trigger_pid = self\<rparr>"
    and task: "tasks pid = Some \<lparr>kt_filters = Some kfs, kt_filter_count = Some n, kt_flags = Some flags\<rparr>"
    and fs: "list_all2 good_filter (take 32 kfs) fss"
    and ess: "concat ess = rb_events (capture_pid_entry h room config self tasks \<lparr>rb_tries = 0, rb_events = []\<rparr>)"
      "[] \<notin> set ess"
  shows "\<exists>rd. capture_pid te h su pid scmp_arch (map Events ess) = Done rd
    \<and> rd_out rd = captured te h scmp_arch (compat_arch h flags) fss
    \<and> rd_status rd = (if length kfs \<le> 32 then ALL_DONE else TRUNCATED)"
proof -
  let ?a = "compat_arch h flags" and ?last = "if length kfs \<le> 32 then ALL_DONE else TRUNCATED"
  let ?rd = "start_reader pid scmp_arch"
  have other: "compat_arch h (if h = Host_Other then 0 else flags) = ?a" by (simp add: compat_arch_def)
  from dump_filters_good [OF fs, of n ?a "\<lparr>rb_tries = 0, rb_events = []\<rparr>"] obtain t where
    d: "dump_filters room 32 kfs n ?a \<lparr>rb_tries = 0, rb_events = []\<rparr> =
      (?last, \<lparr>rb_tries = t, rb_events = concat (map (filter_events n ?a) (take 32 kfs))\<rparr>)" by auto
  have ev: "concat ess = concat (map (filter_events n ?a) (take 32 kfs)) @ [zero_event\<lparr>ev_status := ?last\<rparr>]"
    unfolding ess(1) cf capture_pid_entry_def
    using other d by (cases "h = Host_Other") (simp_all add: task last_event_room)
  have "before_chunk [] 0 ?rd" by (simp add: before_chunk_def start_reader_def)
  from deliver_filters [OF lib fs this, of h n ?a] obtain rd1 where
    r: "deliver te h (concat (map (filter_events n ?a) (take 32 kfs))) ?rd = Done rd1"
      "rd_out rd1 = captured te h scmp_arch ?a fss" "rd_status rd1 = rd_status ?rd"
    by (auto simp: captured_def start_reader_def)
  have "\<exists>rd2. on_pid_events te h (zero_event\<lparr>ev_status := ?last\<rparr>) rd1 = Done rd2
      \<and> rd_out rd2 = rd_out rd1 \<and> rd_status rd2 = ?last"
    using count_filters_same [of rd1 te "zero_event\<lparr>ev_status := ?last\<rparr>"]
    by (auto simp: on_pid_events_def Let_def rd_say_def same_output_def)
  then obtain rd2 where r2: "deliver te h (concat ess) ?rd = Done rd2" "rd_out rd2 = rd_out rd1" "rd_status rd2 = ?last"
    unfolding ev deliver_append r(1) by auto
  have "poll_loop te h (map Events ess) ?rd = Done rd2"
  proof (rule poll_loop_all [OF r2(1) _ _ ess(2) ev])
    show "\<not> finished ?rd" by (simp add: finished_def start_reader_def)
    show "finished rd2" using r2(3) by (simp add: finished_def)
  qed (auto dest: filter_events_chunks)
  then show ?thesis using su r2 r(2) by (auto simp: capture_pid_def)
qed

section \<open>A program that is given up half way\<close>

text \<open>The first chunk of one program, and all of a second.\<close>

lemma half_program_overflows:
  assumes "whole_prog p" "whole_prog q" "4096 < length (kp_insns p)" "length (kp_insns q) \<le> 4096"
    and "length (kp_insns p) < 4096 + length (kp_insns q)" and rd: "before_chunk [] 0 rd"
  shows "deliver te h [chunk_event (prog_ctx p n a) 0, chunk_event (prog_ctx q n a) 0] rd = Crash ''write outside ebpf_insns''"
proof -
  let ?c = "prog_ctx p n a" and ?d = "prog_ctx q n a"
  let ?e = "chunk_event ?c 0" and ?f = "chunk_event ?d 0"
  let ?rd = "count_filters te ?e rd"
  have c: "whole_prog (dc_prog ?c)" "dc_flen ?c = of_nat (length (kp_insns (dc_prog ?c)))"
    "4096 * 0 < length (kp_insns (dc_prog ?c))" using assms(1,3) by (auto simp: prog_ctx_def)
  have b: "before_chunk (kp_insns (dc_prog ?c)) 0 ?rd"
    using rd count_filters_same [of rd te ?e] by (simp add: before_chunk_def)
  have sel: "kp_insns (dc_prog ?c) = kp_insns p" by (simp add: prog_ctx_def)
  have st: "ev_status ?e = CHUNK_DONE" "ev_status ?f = PROG_DONE"
    using assms(3,4) by (simp_all add: chunk_event_def prog_ctx_def Let_def)
  obtain rd1 where r1: "on_pid_events te h ?e rd = Done rd1" "rd_offset rd1 = 4096"
    "rd_insns rd1 = Some (take 4096 (kp_insns p) @ replicate (length (kp_insns p) - 4096) zero_insn)"
    using copy_chunk_next [OF c b] assms(3) by (simp add: on_pid_events_def st sel Let_def)
  let ?rd1 = "count_filters te ?f rd1"
  have s: "rd_offset ?rd1 = 4096" "rd_insns ?rd1 = rd_insns rd1" using count_filters_same [of rd1 te ?f] r1 by simp_all
  have k: "unat (ev_flen ?f) = length (kp_insns q)"
    using assms(4) by (simp add: chunk_event_def prog_ctx_def Let_def unat_of_nat take_bit_nat_eq_self)
  have "copy_chunk ?f ?rd1 = Crash ''write outside ebpf_insns''"
    unfolding copy_chunk_def Let_def k s r1(3) using assms(3,5) by simp
  then show ?thesis using r1(1) by (simp add: on_pid_events_def st)
qed

text \<open>The kernel writes these events when the second reservation fails.\<close>

lemma half_program_events:
  assumes p: "kf_prog f = Some (Some p)" "whole_prog p" "4096 < length (kp_insns p)" "length (kp_insns p) \<le> 8192"
    and q: "kf_prog g = Some (Some q)" "whole_prog q" "length (kp_insns q) \<le> 4096"
    and prev: "kf_prev_read f" "kf_prev_read g" and ok: "\<forall>n. ok n \<longleftrightarrow> n \<noteq> 1"
  shows "\<exists>t. dump_filters ok 32 [f, g] n a \<lparr>rb_tries = 0, rb_events = []\<rparr> =
    (ALL_DONE, \<lparr>rb_tries = t, rb_events = [chunk_event (prog_ctx p n a) 0, chunk_event (prog_ctx q n a) 0]\<rparr>)"
proof -
  let ?c = "prog_ctx p n a" and ?d = "prog_ctx q n a"
  let ?r = "\<lparr>rb_tries = 0, rb_events = []\<rparr>"
  have cnt: "chunk_count (kp_insns p) = 2" "chunk_count (kp_insns q) = 1"
    using p q by (auto simp: chunk_count_def whole_prog_def neq_Nil_conv)
  have len: "kp_len p = Some (of_nat (length (kp_insns p)))" "kp_len q = Some (of_nat (length (kp_insns q)))"
    using p(2) q(2) by (simp_all add: whole_prog_def)
  have c: "whole_prog (dc_prog ?c)" "dc_flen ?c = of_nat (length (kp_insns (dc_prog ?c)))"
    "4096 * 0 < length (kp_insns (dc_prog ?c))" using p by (auto simp: prog_ctx_def)
  have d: "whole_prog (dc_prog ?d)" "dc_flen ?d = of_nat (length (kp_insns (dc_prog ?d)))"
    "4096 * 0 < length (kp_insns (dc_prog ?d))" using q by (auto simp: prog_ctx_def whole_prog_def)
  from dump_chunk_whole [OF c, where ok = ok and r = ?r] ok obtain st where
    s1: "dump_chunk ok 0 ?c ?r = (False, ?c\<lparr>dc_status := st\<rparr>, \<lparr>rb_tries = 1, rb_events = [chunk_event ?c 0]\<rparr>)" by auto
  let ?r1 = "\<lparr>rb_tries = 1, rb_events = [chunk_event ?c 0]\<rparr>"
  have s2: "\<exists>x. dump_chunk ok 1 (?c\<lparr>dc_status := st\<rparr>) ?r1 = (True, x, \<lparr>rb_tries = 2, rb_events = [chunk_event ?c 0]\<rparr>)"
    using ok by (simp add: dump_chunk_def ring_reserve_def Let_def split: prod.splits)
  have f: "dump_prog ok f n a ?r = \<lparr>rb_tries = 2, rb_events = [chunk_event ?c 0]\<rparr>"
    using s1 s2 by (auto simp: dump_prog_def p(1) len chunk_count_word [OF p(2)] cnt numeral_2_eq_2 prog_ctx_def)
  let ?r2 = "\<lparr>rb_tries = 2, rb_events = [chunk_event ?c 0]\<rparr>"
  from dump_chunk_whole [OF d, where ok = ok and r = ?r2] ok obtain st' where
    s3: "dump_chunk ok 0 ?d ?r2 = (False, ?d\<lparr>dc_status := st'\<rparr>, \<lparr>rb_tries = 3, rb_events = [chunk_event ?c 0, chunk_event ?d 0]\<rparr>)"
    by auto
  have "dump_prog ok g n a ?r2 = \<lparr>rb_tries = 3, rb_events = [chunk_event ?c 0, chunk_event ?d 0]\<rparr>"
    using s3 by (simp add: dump_prog_def q(1) len chunk_count_word [OF q(2)] cnt prog_ctx_def)
  with f prev show ?thesis by (simp add: numeral_eq_Suc Let_def)
qed

end
