(* ===== verification/Capture_Load.thy ===== *)
theory Capture_Load
  imports Capture_Ok
begin

text \<open>
  The programs of \<open>capture.bpf.c\<close> run in the threads that load filters, in any order: the calls of the
  two hooks are a list, and what one thread finds is what it has left itself.
\<close>

datatype hook = H_Check u32 "sock_filter list" u32 bool | H_Return exit_answers u32 u32 u32 int

primrec hook_pid :: "hook \<Rightarrow> u32" where
  "hook_pid (H_Check pid fs flen copied) = pid"
| "hook_pid (H_Return ans pid op flags ret) = pid"

primrec run_hook :: "host \<Rightarrow> hook \<Rightarrow> capture_state \<Rightarrow> capture_state" where
  "run_hook h (H_Check pid fs flen copied) cs = seccomp_check_filter_entry pid fs flen copied cs"
| "run_hook h (H_Return ans pid op flags ret) cs = seccomp_ret h ans pid op flags ret cs"

definition run_hooks :: "host \<Rightarrow> hook list \<Rightarrow> capture_state \<Rightarrow> capture_state" where
  "run_hooks h hs cs = foldl (\<lambda>cs k. run_hook h k cs) cs hs"

lemma map_of_filter_ne: "map_of (filter (\<lambda>e. fst e \<noteq> k) m) j = (if j = k then None else map_of m j)"
  by (induction m) auto

lemma map_delete_of [simp]: "map_of (map_delete k m) j = (if j = k then None else map_of m j)"
  by (simp add: map_delete_def map_of_filter_ne)

lemma map_update_of: "map_update k v m = Some m' \<Longrightarrow> map_of m' j = (if j = k then Some v else map_of m j)"
  by (auto simp: map_update_def map_of_filter_ne split: if_splits)

text \<open>A thread only changes its own entry.\<close>

lemma check_other:
  "j \<noteq> pid \<Longrightarrow> map_of (cs_unverified (seccomp_check_filter_entry pid fs flen copied cs)) j = map_of (cs_unverified cs) j"
  by (auto simp: seccomp_check_filter_entry_def Let_def map_update_of split: option.splits)

lemma return_other:
  "j \<noteq> pid \<Longrightarrow> map_of (cs_unverified (seccomp_ret h ans pid op flags ret cs)) j = map_of (cs_unverified cs) j"
  by (auto simp: seccomp_ret_def strict_mode_def filter_mode_def Let_def split: option.splits)

lemma run_hooks_other:
  "\<forall>k \<in> set hs. hook_pid k \<noteq> j \<Longrightarrow> map_of (cs_unverified (run_hooks h hs cs)) j = map_of (cs_unverified cs) j"
proof (induction hs arbitrary: cs)
  case (Cons k hs)
  have "map_of (cs_unverified (run_hook h k cs)) j = map_of (cs_unverified cs) j"
    using Cons.prems by (cases k) (auto simp: check_other return_other)
  with Cons show ?case by (simp add: run_hooks_def)
qed (simp add: run_hooks_def)

definition room_for :: "u32 \<Rightarrow> capture_state \<Rightarrow> bool" where
  "room_for pid cs \<longleftrightarrow> map_of (cs_unverified cs) pid \<noteq> None \<or> length (cs_unverified cs) < 16"

definition kept_prog :: "sock_filter list \<Rightarrow> ebpf_prog" where
  "kept_prog fs = \<lparr>ep_flen = of_nat (length fs), ep_filters = fs @ replicate (BPF_MAXINSNS - length fs) zero_filter\<rparr>"

lemma check_keeps:
  assumes "room_for pid cs" "length fs \<le> BPF_MAXINSNS"
  shows "map_of (cs_unverified (seccomp_check_filter_entry pid fs (of_nat (length fs)) True cs)) pid = Some (kept_prog fs)"
proof -
  let ?n = "length fs"
  have n: "?n \<le> 4096" using assms(2) by (simp add: BPF_MAXINSNS_def)
  obtain v m where m: "map_update pid v (cs_unverified cs) = Some m" "v = \<lparr>ep_flen = ucast (of_nat ?n :: u32), ep_filters = replicate BPF_MAXINSNS zero_filter\<rparr>"
    using assms(1) by (auto simp: room_for_def map_update_def)
  have u: "unat (ucast ((of_nat ?n :: u32) * 8) :: u16) = ?n * 8" "ucast (of_nat ?n :: u32) = (of_nat ?n :: u16)"
    by (rule chunk_words [OF n])+
  show ?thesis
    using m n by (auto simp: seccomp_check_filter_entry_def Let_def u kept_prog_def BPF_MAXINSNS_def)
qed

definition loaded_event :: "host \<Rightarrow> u64 \<Rightarrow> string \<Rightarrow> u32 \<Rightarrow> sock_filter list \<Rightarrow> global_event" where
  "loaded_event h tflags comm pid fs =
     \<lparr>ge_arch = compat_arch h tflags, ge_comm = comm, ge_op = 1, ge_pid = pid, ge_prog = kept_prog fs\<rparr>"

lemma compat_other: "h = Host_Other \<Longrightarrow> compat_arch h a = compat_arch h b"
  by (simp add: compat_arch_def)

lemma return_reports:
  assumes "map_of (cs_unverified cs) pid = Some (kept_prog fs)"
    and "ans = \<lparr>xa_room = True, xa_flags = Some tflags, xa_comm = Some comm, xa_copied = True\<rparr>"
  shows "seccomp_ret h ans pid 1 flags ret cs =
    \<lparr>cs_unverified = map_delete pid (cs_unverified cs),
     cs_events = cs_events cs @ (if load_success ret flags then [loaded_event h tflags comm pid fs] else [])\<rparr>"
  using assms compat_other [of h 0 tflags] by (simp add: seccomp_ret_def filter_mode_def loaded_event_def Let_def)

lemma load_captured:
  assumes "room_for pid cs" "length fs \<le> BPF_MAXINSNS" "\<forall>k \<in> set hs. hook_pid k \<noteq> pid"
    and "ans = \<lparr>xa_room = True, xa_flags = Some tflags, xa_comm = Some comm, xa_copied = True\<rparr>"
  shows "\<exists>cs1. run_hooks h (H_Check pid fs (of_nat (length fs)) True # hs) cs = cs1
    \<and> cs_events (run_hook h (H_Return ans pid 1 flags ret) cs1)
      = cs_events cs1 @ (if load_success ret flags then [loaded_event h tflags comm pid fs] else [])
    \<and> map_of (cs_unverified (run_hook h (H_Return ans pid 1 flags ret) cs1)) pid = None"
proof -
  let ?cs1 = "run_hooks h (H_Check pid fs (of_nat (length fs)) True # hs) cs"
  have "map_of (cs_unverified ?cs1) pid = Some (kept_prog fs)"
    using run_hooks_other [OF assms(3), of h "seccomp_check_filter_entry pid fs (of_nat (length fs)) True cs"]
      check_keeps [OF assms(1,2)] by (simp add: run_hooks_def)
  from return_reports [OF this assms(4), of h flags ret] show ?thesis by simp
qed

lemma on_events_lists:
  assumes "names_short (te_lib te)" "safe_prog fs" "length fs \<le> BPF_MAXINSNS"
  shows "\<exists>gr'. on_events te h (loaded_event h tflags comm pid fs) gr = Done gr'
    \<and> gr_out gr' = gr_out gr @ listing (te_lib te) (te_color te)
        (trans_ebpf_arch (te_lib te) h (compat_arch h tflags) (gr_scmp_arch gr)) fs (nat (sint pid))"
proof -
  have "unat (of_nat (length fs) :: u16) = length fs" "length fs < 65536"
    using assms(3) by (simp_all add: unat_of_nat BPF_MAXINSNS_def take_bit_nat_eq_self)
  with assms show ?thesis
    by (simp add: on_events_def loaded_event_def kept_prog_def print_prog_listing Let_def)
qed

text \<open>The map of the unverified filters never holds more than 16 entries, each thread at most once.\<close>

definition small_map :: "(u32 \<times> ebpf_prog) list \<Rightarrow> bool" where
  "small_map m \<longleftrightarrow> length m \<le> 16 \<and> distinct (map fst m)"

lemma length_filter_bound: "length m \<le> n \<Longrightarrow> length (filter P m) \<le> n"
  by (rule le_trans [OF length_filter_le])

lemma small_map_delete: "small_map m \<Longrightarrow> small_map (map_delete k m)"
  by (simp add: small_map_def map_delete_def distinct_map_filter length_filter_bound)

lemma filter_ne_shorter: "map_of m k \<noteq> None \<Longrightarrow> length (filter (\<lambda>e. fst e \<noteq> k) m) < length m"
  by (rule length_filter_less [of "(k, the (map_of m k))"]) (auto simp: map_of_SomeD)

lemma small_map_replace: "small_map m \<Longrightarrow> map_of m k \<noteq> None \<Longrightarrow> small_map ((k, v) # map_delete k m)"
  using filter_ne_shorter [of m k] by (auto simp: small_map_def map_delete_def distinct_map_filter)

lemma small_map_update:
  assumes "map_update k v m = Some m'" "small_map m"
  shows "small_map m' \<and> map_of m' k \<noteq> None"
proof (cases "map_of m k = None")
  case True
  with assms show ?thesis
    by (auto simp: map_update_def small_map_def distinct_map_filter length_filter_bound split: if_splits)
next
  case False
  with assms small_map_replace [OF assms(2) False, of v] show ?thesis by (auto simp: map_update_def map_delete_def)
qed

definition hooks_inv :: "capture_state \<Rightarrow> bool" where
  "hooks_inv cs \<longleftrightarrow> small_map (cs_unverified cs)"

lemma check_inv: "hooks_inv cs \<Longrightarrow> hooks_inv (seccomp_check_filter_entry pid fs flen copied cs)"
proof -
  assume i: "hooks_inv cs"
  show ?thesis
  proof (cases "map_update pid \<lparr>ep_flen = ucast flen, ep_filters = replicate BPF_MAXINSNS zero_filter\<rparr> (cs_unverified cs)")
    case None
    with i show ?thesis by (simp add: seccomp_check_filter_entry_def Let_def)
  next
    case (Some m)
    from small_map_update [OF this] i have "small_map m" "map_of m pid \<noteq> None" by (simp_all add: hooks_inv_def)
    from this(1) small_map_delete [OF this(1)] small_map_replace [OF this] Some show ?thesis
      by (simp add: seccomp_check_filter_entry_def Let_def hooks_inv_def)
  qed
qed

lemma run_hook_inv: "hooks_inv cs \<Longrightarrow> hooks_inv (run_hook h k cs)"
proof (cases k)
  case (H_Return ans pid op flags ret)
  assume "hooks_inv cs"
  then show ?thesis unfolding H_Return run_hook.simps seccomp_ret_def strict_mode_def filter_mode_def Let_def hooks_inv_def
    by (auto simp: small_map_delete split: option.splits)
qed (simp add: check_inv)

lemma run_hooks_inv: "hooks_inv cs \<Longrightarrow> hooks_inv (run_hooks h hs cs)"
  by (induction hs arbitrary: cs) (auto simp: run_hooks_def run_hook_inv)

end
