(* ===== verification/Capture_Facts.thy ===== *)
theory Capture_Facts
  imports Capture_Load Trace_Facts
begin

text \<open>
  The properties of \<open>ceccomp capture\<close>: the eBPF programs in the kernel and the readers of their events,
  put together.
\<close>

section \<open>The filters of a process\<close>










text \<open>C33: A program that is given up half way corrupts the memory of the reader: when the ring has no room for the
  second chunk of a program, no event says so, and the reader writes the next program behind the first
  chunk, outside of the array it has allocated for the first program when the two do not fit.\<close>

theorem lost_chunk_overflows:
  assumes "kf_prog f = Some (Some p)" "whole_prog p" "4096 < length (kp_insns p)" "length (kp_insns p) \<le> 8192"
    and "kf_prog g = Some (Some q)" "whole_prog q" "length (kp_insns q) \<le> 4096"
    and "kf_prev_read f" "kf_prev_read g" "length (kp_insns p) < 4096 + length (kp_insns q)"
  shows "deliver te h (rb_events (snd (dump_filters (\<lambda>n. n \<noteq> 1) 32 [f, g] n a \<lparr>rb_tries = 0, rb_events = []\<rparr>)))
      (start_reader pid scmp_arch) = Crash ''write outside ebpf_insns''"
proof -
  have "before_chunk [] 0 (start_reader pid scmp_arch)" by (simp add: before_chunk_def start_reader_def)
  with half_program_overflows [OF assms(2,6,3,7,10)] half_program_events [OF assms(1-9), of "\<lambda>n. n \<noteq> 1" n a]
  show ?thesis by auto
qed

definition long_filter :: "nat \<Rightarrow> kernel_filter" where
  "long_filter n = \<lparr>kf_prog = Some (Some \<lparr>kp_len = Some (of_nat n), kp_insns = replicate n zero_insn, kp_read = (\<lambda>i. True)\<rparr>),
     kf_prev_read = True\<rparr>"

theorem lost_chunk_overflows_witness:
  "deliver sample_env Host_X86_64
      (rb_events (snd (dump_filters (\<lambda>n. n \<noteq> 1) 32 [long_filter 5000, long_filter 3000] 2 PROC_ARCH_X64 \<lparr>rb_tries = 0, rb_events = []\<rparr>)))
      (start_reader 7 0) = Crash ''write outside ebpf_insns''"
  by (rule lost_chunk_overflows [where p = "the (the (kf_prog (long_filter 5000)))" and q = "the (the (kf_prog (long_filter 3000)))"])
    (simp_all add: long_filter_def whole_prog_def)

section \<open>Filters as they are loaded\<close>





end
