(* ===== verification/Parse_Args.thy ===== *)
theory Parse_Args
  imports Arch_Trans Numbers Emu Asm Logger
begin

text \<open>
  \<open>src/utils/parse_args.c\<close> with the types of \<open>src/include/utils/parse_args.h\<close>. The arguments are cut
  into options and words by \<open>argp_parse\<close> of the C library, which calls \<open>parse_opt\<close> for each:
  an \<open>argp_call\<close> is one such call, with what it finds in its \<open>argp_state\<close>. The static variable
  \<open>stop_parse\<close> is kept beside the arguments. \<open>fopen\<close> is a parameter, the text of the error for a
  file that cannot be opened.
\<close>

section \<open>The arguments of the subcommands\<close>

datatype subcommand_t = ASM_MODE | CAPTURE_MODE | DISASM_MODE | EMU_MODE | TRACE_MODE | PROBE_MODE
  | HELP_MODE | VERSION_MODE | HELP_ABNORMAL

datatype trace_mode_t = UNDECIDED | TRACE_PROG | TRACE_PID

text \<open>A stream of the C library: one of the three that are open, or a file with the mode it is opened in.\<close>

datatype file_t = Stdin | Stdout | Stderr | Opened string string

record asm_arg_t =
  aa_scmp_arch :: u32
  aa_mode :: print_mode_t
  aa_text_file :: file_t

record disasm_arg_t =
  da_scmp_arch :: u32
  da_ebpf :: bool
  da_raw_file :: file_t

record emu_file_arg_t = emu_arg_t +
  ea_text_file :: file_t

record probe_arg_t =
  pr_output_file :: file_t
  pr_quiet :: bool
  pr_prog_idx :: u32

record trace_arg_t =
  ta_mode :: trace_mode_t
  ta_quiet :: bool
  ta_output_file :: file_t
  ta_prog_idx :: u32
  ta_pid :: "32 word"
  ta_seize :: bool

record capture_arg_t =
  ca_pid :: "32 word"
  ca_scmp_arch :: u32

record ceccomp_arg_t =
  cmd :: subcommand_t
  when_color :: color_mode_t
  asm_arg :: asm_arg_t
  disasm_arg :: disasm_arg_t
  emu_arg :: emu_file_arg_t
  probe_arg :: probe_arg_t
  trace_arg :: trace_arg_t
  capture_arg :: capture_arg_t

section \<open>Values\<close>

type_synonym os_files = "string \<Rightarrow> string \<Rightarrow> string option"

definition fail_fast_strtoull :: "string \<Rightarrow> string \<Rightarrow> u64 cres" where
  "fail_fast_strtoull num msg =
     (let (result, n, range) = strtoull 0 num in
      if char_at num n \<noteq> CHR 0x00 \<or> range then Die msg else Done result)"

definition fail_fast_fopen :: "os_files \<Rightarrow> string \<Rightarrow> string \<Rightarrow> file_t cres" where
  "fail_fast_fopen fs filename mode =
     (if filename = ''-'' then Done (if char_at mode 0 = CHR ''r'' then Stdin else Stdout)
      else
        case fs filename mode of
          Some e \<Rightarrow> Die (printf_text M_UNABLE_OPEN_FILE [PStr filename, PStr e])
        | None \<Rightarrow> Done (Opened filename mode))"

definition fail_fast_resolve_arch :: "scmp_lib \<Rightarrow> string \<Rightarrow> u32 cres" where
  "fail_fast_resolve_arch lib archname =
     (let arch = str_to_scmp_arch lib archname True in
      if arch = - 1 then Die (printf_text M_UNSUPPORTED_ARCH [PStr archname]) else Done arch)"

definition parse_subcommand :: "string \<Rightarrow> subcommand_t" where
  "parse_subcommand arg =
     (if arg = ''asm'' then ASM_MODE
      else if arg = ''disasm'' then DISASM_MODE
      else if arg = ''capture'' then CAPTURE_MODE
      else if arg = ''emu'' then EMU_MODE
      else if arg = ''trace'' \<or> arg = ''dump'' then TRACE_MODE
      else if arg = ''probe'' then PROBE_MODE
      else if arg = ''version'' then VERSION_MODE
      else if arg = ''help'' then HELP_MODE
      else HELP_ABNORMAL)"

definition parse_color_mode :: "string \<Rightarrow> color_mode_t cres" where
  "parse_color_mode arg =
     (if arg = ''always'' then Done ALWAYS
      else if arg = ''auto'' then Done AUTO
      else if arg = ''never'' then Done NEVER
      else Die (printf_text ''%s: %s'' [PStr M_INVALID_COLOR_MODE, PStr arg]))"

definition parse_print_mode :: "string \<Rightarrow> print_mode_t cres" where
  "parse_print_mode arg =
     (if arg = ''hexfmt'' then Done HEXFMT
      else if arg = ''hexline'' then Done HEXLINE
      else if arg = ''raw'' then Done RAW
      else if arg = ''c-macro'' then Done C_MACRO
      else Die (printf_text ''%s: %s'' [PStr M_INVALID_ASM_FMT, PStr arg]))"

section \<open>The calls of argp\<close>

text \<open>\<open>KEY_ARG\<close> is \<open>ARGP_KEY_ARG\<close>, an option is its letter, the other keys carry no argument.\<close>

datatype argp_key = KEY_ARG | Opt char | KEY_OTHER

record argp_call =
  ac_key :: argp_key
  ac_arg :: string
  ac_arg_num :: u32
  ac_next :: int

definition parse_asm :: "scmp_lib \<Rightarrow> os_files \<Rightarrow> argp_call \<Rightarrow> asm_arg_t \<Rightarrow> asm_arg_t cres" where
  "parse_asm lib fs c a =
     (case ac_key c of
        KEY_ARG \<Rightarrow>
          (if ac_arg_num c = 1 then cbind (fail_fast_fopen fs (ac_arg c) ''r'') (\<lambda>f. Done (a\<lparr>aa_text_file := f\<rparr>))
           else Done a)
      | Opt k \<Rightarrow>
          (if k = CHR ''a'' then cbind (fail_fast_resolve_arch lib (ac_arg c)) (\<lambda>arch. Done (a\<lparr>aa_scmp_arch := arch\<rparr>))
           else if k = CHR ''f'' then cbind (parse_print_mode (ac_arg c)) (\<lambda>m. Done (a\<lparr>aa_mode := m\<rparr>))
           else Done a)
      | KEY_OTHER \<Rightarrow> Done a)"

definition parse_disasm :: "scmp_lib \<Rightarrow> os_files \<Rightarrow> argp_call \<Rightarrow> disasm_arg_t \<Rightarrow> disasm_arg_t cres" where
  "parse_disasm lib fs c d =
     (case ac_key c of
        KEY_ARG \<Rightarrow>
          (if ac_arg_num c = 1 then cbind (fail_fast_fopen fs (ac_arg c) ''r'') (\<lambda>f. Done (d\<lparr>da_raw_file := f\<rparr>))
           else Done d)
      | Opt k \<Rightarrow>
          (if k = CHR ''a'' then cbind (fail_fast_resolve_arch lib (ac_arg c)) (\<lambda>arch. Done (d\<lparr>da_scmp_arch := arch\<rparr>))
           else if k = CHR ''e'' then Done (d\<lparr>da_ebpf := True\<rparr>)
           else Done d)
      | KEY_OTHER \<Rightarrow> Done d)"

text \<open>A \<open>pid_t\<close> keeps the low half of the number.\<close>

definition parse_capture :: "argp_call \<Rightarrow> capture_arg_t \<Rightarrow> capture_arg_t cres" where
  "parse_capture c p =
     (if ac_key c = Opt CHR ''p''
      then cbind (fail_fast_strtoull (ac_arg c) M_INVALID_NUMBER) (\<lambda>n. Done (p\<lparr>ca_pid := ucast n\<rparr>))
      else Done p)"

definition parse_emu :: "scmp_lib \<Rightarrow> os_files \<Rightarrow> argp_call \<Rightarrow> emu_file_arg_t \<Rightarrow> emu_file_arg_t cres" where
  "parse_emu lib fs c e =
     (case ac_key c of
        KEY_ARG \<Rightarrow>
          (if ac_arg_num c = 1 then cbind (fail_fast_fopen fs (ac_arg c) ''r'') (\<lambda>f. Done (e\<lparr>ea_text_file := f\<rparr>))
           else if ac_arg_num c = 2 then Done (e\<lparr>ea_sys_name := Some (ac_arg c)\<rparr>)
           else if 3 \<le> ac_arg_num c \<and> ac_arg_num c \<le> 8 then
             cbind (fail_fast_strtoull (ac_arg c) M_INVALID_NUMBER) (\<lambda>n.
             Done (e\<lparr>ea_args := (ea_args e)[unat (ac_arg_num c - 3) := n]\<rparr>))
           else if ac_arg_num c = 9 then
             cbind (fail_fast_strtoull (ac_arg c) M_INVALID_NUMBER) (\<lambda>n. Done (e\<lparr>ea_ip := n\<rparr>))
           else Done e)
      | Opt k \<Rightarrow>
          (if k = CHR ''a'' then cbind (fail_fast_resolve_arch lib (ac_arg c)) (\<lambda>arch. Done (e\<lparr>ea_scmp_arch := arch\<rparr>))
           else if k = CHR ''q'' then Done (e\<lparr>ea_quiet := True\<rparr>)
           else Done e)
      | KEY_OTHER \<Rightarrow> Done e)"

text \<open>The boolean is the new value of \<open>stop_parse\<close>, which is false when these are called.\<close>

definition parse_trace :: "os_files \<Rightarrow> argp_call \<Rightarrow> trace_arg_t \<Rightarrow> (trace_arg_t \<times> bool) cres" where
  "parse_trace fs c t =
     (case ac_key c of
        KEY_ARG \<Rightarrow>
          (if ac_arg_num c \<noteq> 1 \<or> ta_mode t \<noteq> UNDECIDED then Done (t, False)
           else Done (t\<lparr>ta_mode := TRACE_PROG, ta_prog_idx := of_int (ac_next c - 1)\<rparr>, True))
      | Opt k \<Rightarrow>
          (if k = CHR ''p'' then
             (if ta_mode t \<noteq> UNDECIDED then Done (t, False)
              else cbind (fail_fast_strtoull (ac_arg c) M_INVALID_NUMBER) (\<lambda>n.
                Done (t\<lparr>ta_mode := TRACE_PID, ta_pid := ucast n\<rparr>, False)))
           else if k = CHR ''o'' then
             (if ta_mode t \<noteq> UNDECIDED then Done (t, False)
              else cbind (fail_fast_fopen fs (ac_arg c) ''w+'') (\<lambda>f. Done (t\<lparr>ta_output_file := f\<rparr>, False)))
           else if k = CHR ''q'' then Done (t\<lparr>ta_quiet := True\<rparr>, False)
           else if k = CHR ''s'' then Done (t\<lparr>ta_seize := True\<rparr>, False)
           else Done (t, False))
      | KEY_OTHER \<Rightarrow> Done (t, False))"

definition parse_probe :: "os_files \<Rightarrow> argp_call \<Rightarrow> probe_arg_t \<Rightarrow> (probe_arg_t \<times> bool) cres" where
  "parse_probe fs c p =
     (case ac_key c of
        KEY_ARG \<Rightarrow>
          (if ac_arg_num c \<noteq> 1 then Done (p, False)
           else Done (p\<lparr>pr_prog_idx := of_int (ac_next c - 1)\<rparr>, True))
      | Opt k \<Rightarrow>
          (if k = CHR ''o'' then cbind (fail_fast_fopen fs (ac_arg c) ''w+'') (\<lambda>f. Done (p\<lparr>pr_output_file := f\<rparr>, False))
           else if k = CHR ''q'' then Done (p\<lparr>pr_quiet := True\<rparr>, False)
           else Done (p, False))
      | KEY_OTHER \<Rightarrow> Done (p, False))"

section \<open>The parser\<close>

text \<open>The call of the parser of the subcommand, the last part of \<open>parse_opt\<close>.\<close>

definition parse_cmd :: "scmp_lib \<Rightarrow> os_files \<Rightarrow> argp_call \<Rightarrow> ceccomp_arg_t \<Rightarrow> (ceccomp_arg_t \<times> bool) cres" where
  "parse_cmd lib fs c args =
     (case cmd args of
        ASM_MODE \<Rightarrow> cbind (parse_asm lib fs c (asm_arg args)) (\<lambda>a. Done (args\<lparr>asm_arg := a\<rparr>, False))
      | CAPTURE_MODE \<Rightarrow> cbind (parse_capture c (capture_arg args)) (\<lambda>a. Done (args\<lparr>capture_arg := a\<rparr>, False))
      | DISASM_MODE \<Rightarrow> cbind (parse_disasm lib fs c (disasm_arg args)) (\<lambda>a. Done (args\<lparr>disasm_arg := a\<rparr>, False))
      | EMU_MODE \<Rightarrow> cbind (parse_emu lib fs c (emu_arg args)) (\<lambda>a. Done (args\<lparr>emu_arg := a\<rparr>, False))
      | TRACE_MODE \<Rightarrow> cbind (parse_trace fs c (trace_arg args)) (\<lambda>(a, stop). Done (args\<lparr>trace_arg := a\<rparr>, stop))
      | PROBE_MODE \<Rightarrow> cbind (parse_probe fs c (probe_arg args)) (\<lambda>(a, stop). Done (args\<lparr>probe_arg := a\<rparr>, stop))
      | _ \<Rightarrow> Done (args, False))"

definition help_option :: "ceccomp_arg_t \<Rightarrow> ceccomp_arg_t" where
  "help_option args = (if cmd args = HELP_ABNORMAL then args\<lparr>cmd := HELP_MODE\<rparr> else args)"

definition parse_opt ::
  "scmp_lib \<Rightarrow> os_files \<Rightarrow> argp_call \<Rightarrow> ceccomp_arg_t \<times> bool \<Rightarrow> (ceccomp_arg_t \<times> bool) cres" where
  "parse_opt lib fs c s =
     (case s of (args, stop_parse) \<Rightarrow>
      if stop_parse then Done (args, stop_parse)
      else
        case ac_key c of
          KEY_ARG \<Rightarrow>
            parse_cmd lib fs c
              (if ac_arg_num c = 0 then args\<lparr>cmd := parse_subcommand (ac_arg c)\<rparr> else args)
        | Opt k \<Rightarrow>
            (if k = CHR ''c'' then
               cbind (parse_color_mode (ac_arg c)) (\<lambda>m. Done (args\<lparr>when_color := m\<rparr>, stop_parse))
             else if k = CHR ''h'' \<or> k = CHR ''u'' then Done (help_option args, stop_parse)
             else parse_cmd lib fs c args)
        | KEY_OTHER \<Rightarrow> parse_cmd lib fs c args)"

text \<open>\<open>argp_parse\<close> makes the calls in order; \<open>parse_opt\<close> always returns 0.\<close>

fun parse_opts ::
  "scmp_lib \<Rightarrow> os_files \<Rightarrow> argp_call list \<Rightarrow> ceccomp_arg_t \<times> bool \<Rightarrow> (ceccomp_arg_t \<times> bool) cres" where
  "parse_opts lib fs [] s = Done s"
| "parse_opts lib fs (c # cs) s = cbind (parse_opt lib fs c s) (parse_opts lib fs cs)"

lemma parse_opts_append:
  "parse_opts lib fs (cs @ ds) s = cbind (parse_opts lib fs cs s) (parse_opts lib fs ds)"
proof (induction cs arbitrary: s)
  case (Cons c cs)
  have "parse_opts lib fs (cs @ ds) = (\<lambda>s. cbind (parse_opts lib fs cs s) (parse_opts lib fs ds))"
    by (rule ext) (rule Cons.IH)
  then show ?case by (simp add: cbind_assoc)
qed simp

lemma parse_opt_stopped [simp]: "parse_opt lib fs c (args, True) = Done (args, True)"
  by (simp add: parse_opt_def)

lemma parse_opts_stopped [simp]: "parse_opts lib fs cs (args, True) = Done (args, True)"
  by (induction cs) simp_all

end
