(* ===== verification/Probe.thy ===== *)
theory Probe
  imports Commands Trace
begin

text \<open>
  \<open>src/probe.c\<close>: the first filter a program loads is traced into a temporary file, the listing is
  parsed like a source, and a list of system calls is emulated on it. What \<open>fork\<close>, \<open>ptrace\<close> and
  \<open>waitpid\<close> do is a \<open>tracee\<close>; the \<open>read\<close> calls on the temporary file are a function of its contents.
\<close>

section \<open>The program to trace\<close>

record tracee =
  tc_pid :: int
  tc_seized :: bool
  tc_interrupted :: bool
  tc_waits :: "wait_result list"

definition to_test_list :: "string list" where
  "to_test_list = [''open'', ''openat'', ''read'', ''write'', ''execve'', ''execveat'',
     ''mmap'', ''mprotect'', ''sendfile'', ''ptrace'', ''fork'']"

text \<open>\<open>tmp\<close> is the error of \<open>tmpfile\<close>, if it fails. The listing is what \<open>program_trace\<close> writes to it.\<close>

definition fetch_text_from_trace ::
  "trace_env \<Rightarrow> string option \<Rightarrow> tracee \<Rightarrow> bool \<Rightarrow> (trace_end \<times> trace_state) cres" where
  "fetch_text_from_trace te tmp tc quiet =
     (case tmp of
        Some e \<Rightarrow> Die (printf_text M_REQUEST_TMPFILE_FAILED [PStr e])
      | None \<Rightarrow> program_trace te (tc_pid tc) quiet True (tc_seized tc) (tc_interrupted tc) (tc_waits tc) start_trace)"

definition init_emu_arg :: "u32 \<Rightarrow> emu_arg_t" where
  "init_emu_arg scmp_arch =
     \<lparr>ea_scmp_arch = scmp_arch, ea_quiet = True, ea_sys_name = None, ea_args = replicate 6 0, ea_ip = 0\<rparr>"

section \<open>The emulations\<close>

text \<open>\<open>%-10s\<close>.\<close>

definition pad_right :: "nat \<Rightarrow> string \<Rightarrow> string" where
  "pad_right n s = s @ replicate (n - length s) (CHR '' '')"

text \<open>What is written to \<open>output_fp\<close>; the vectors and the static variables of the emulator live on.\<close>

fun probe_loop ::
  "scmp_lib \<Rightarrow> u32 list \<Rightarrow> emu_arg_t \<Rightarrow> string list \<Rightarrow> emulation \<Rightarrow> (string \<times> emulation) cres" where
  "probe_loop lib C ea [] m = Done ([], m)"
| "probe_loop lib C ea (name # names) m =
     cbind (emulate_v lib C (ea\<lparr>ea_sys_name := Some name\<rparr>) m) (\<lambda>(out, rest, m).
     cbind (probe_loop lib C ea names m) (\<lambda>(rests, m).
     Done (pad_right 10 name @ ''-> '' @ rest @ rests, m)))"

text \<open>
  The first result is how the tracing ended; the others are what is written to \<open>output_fp\<close> and to
  \<open>stdout\<close>, and the text \<open>program_trace\<close> writes to \<open>stderr\<close>.
\<close>

definition probe ::
  "trace_env \<Rightarrow> color_t \<Rightarrow> (string \<Rightarrow> string option list) \<Rightarrow> string option \<Rightarrow> tracee \<Rightarrow> bool
    \<Rightarrow> (trace_end \<times> string \<times> string \<times> string) cres" where
  "probe te color reads tmp tc quiet =
     cbind (fetch_text_from_trace te tmp tc quiet) (\<lambda>(e, st).
     case e of
       Returned scmp_arch \<Rightarrow>
         cbind (parse_source (te_lib te) scmp_arch (reads (tr_out st))) (\<lambda>(text_v, code_v, L).
         cbind (resolver L (vec_elems text_v) (vec_elems code_v)) (\<lambda>(err, T, log).
         if err then Die M_PROBE_TERMINATED
         else
           cbind (probe_loop (te_lib te) (vec_elems code_v) (init_emu_arg scmp_arch) to_test_list
               \<lparr>m_text = T, m_vars = start_vars, m_color = color, m_out = []\<rparr>) (\<lambda>(out, m).
           Done (e, out, m_out m, tr_err st))))
     | _ \<Rightarrow> Done (e, [], [], tr_err st))"

end
