(* ===== verification/Ceccomp.thy ===== *)
theory Ceccomp
  imports Parse_Args Probe Trace_Pid Capture
begin

text \<open>
  \<open>src/ceccomp.c\<close> with the texts of \<open>src/include/help.h\<close> and \<open>src/include/config.h.in\<close>: the start
  values of the arguments, the choice of colours and the call of the subcommand. A \<open>world\<close> is all
  that \<open>main\<close> can find outside of the program; the messages are not translated.
\<close>

section \<open>The start values\<close>

record build_info =
  bi_version :: string
  bi_tag_time :: string
  bi_builder :: string
  bi_libbpf :: "string option"

record world =
  w_te :: trace_env
  w_host :: host
  w_native :: u32
  w_no_color :: "string option"
  w_tty :: "file_t \<Rightarrow> bool"
  w_fopen :: os_files
  w_reads :: "file_t \<Rightarrow> string option list"
  w_raw :: "file_t \<Rightarrow> u8 list \<times> nat option list"
  w_argv :: "string list"
  w_program :: "string list \<Rightarrow> tracee"
  w_process :: "int \<Rightarrow> pid_answers \<times> bool \<times> wait_result list"
  w_tmpfile :: "string option"
  w_tmp_reads :: "string \<Rightarrow> string option list"
  w_setup :: capture_setup
  w_polls :: "int \<Rightarrow> poll list"
  w_events :: "global_event list"
  w_poll_error :: "int option"
  w_build :: build_info
  w_scmp_version :: "u32 \<times> u32 \<times> u32"

definition init_args :: "world \<Rightarrow> ceccomp_arg_t" where
  "init_args w =
     \<lparr>cmd = HELP_ABNORMAL,
      when_color = (case w_no_color w of Some (c # cs) \<Rightarrow> NEVER | _ \<Rightarrow> AUTO),
      asm_arg = \<lparr>aa_scmp_arch = w_native w, aa_mode = HEXLINE, aa_text_file = Stdin\<rparr>,
      disasm_arg = \<lparr>da_scmp_arch = w_native w, da_ebpf = False, da_raw_file = Stdin\<rparr>,
      emu_arg = \<lparr>ea_scmp_arch = w_native w, ea_quiet = False, ea_sys_name = None, ea_args = replicate 6 0, ea_ip = 0,
                 ea_text_file = Stdin\<rparr>,
      probe_arg = \<lparr>pr_output_file = Stderr, pr_quiet = False, pr_prog_idx = 0\<rparr>,
      trace_arg = \<lparr>ta_mode = UNDECIDED, ta_quiet = False, ta_output_file = Stderr, ta_prog_idx = 0, ta_pid = 0,
                   ta_seize = False\<rparr>,
      capture_arg = \<lparr>ca_pid = 0, ca_scmp_arch = w_native w\<rparr>\<rparr>"

section \<open>Help and version\<close>

abbreviation (input) nl :: string where "nl \<equiv> [CHR 0x0A]"

definition M_CECCOMP_USAGE :: string where
  "M_CECCOMP_USAGE = ''Usage: ceccomp <subcommand> <args> <options>'' @ nl"

definition HINTS :: "string list" where
  "HINTS =
    [''ceccomp asm     [ -c WHEN ] [ -a ARCH ] [ -f FMT ] [ text ]'',
     ''ceccomp disasm  [ -c WHEN ] [ -a ARCH ] [ -e ] [ raw ]'',
     ''ceccomp emu     [ -c WHEN ] [ -a ARCH ] [ -q ] text syscall_nr [ args[0-5] ip ]'',
     ''ceccomp probe   [ -c WHEN ] [ -o FILE ] [ -q ] PROGRAM [ program-args ]'',
     ''ceccomp trace   [ -c WHEN ] [ -o FILE ] [ -q ] PROGRAM [ program-args ]'' @ nl
       @ ''                [ -c WHEN ] [ -s ] [ -q ] -p PID'',
     ''ceccomp capture [ -c WHEN ] [ -p PID ]'',
     ''ceccomp help'',
     ''ceccomp version'']"

definition M_SUBCMD_HINT :: string where
  "M_SUBCMD_HINT = concat (map (\<lambda>l. l @ nl)
    [''asm          -- Assemble bpf text to raw bytes'',
     ''capture      -- Install eBPF prog to capture all seccomp filters during installation or extract installed filters in a process'',
     ''disasm       -- Disassemble raw bytes to bpf text'',
     ''emu          -- Emulate bpf program with given syscall and bpf text'',
     ''help         -- Display ceccomp help information'',
     ''probe        -- Trace the program for the first filter and emulate common syscalls'',
     ''trace (dump) -- Run program or trace pid, extract bpf filter and then print to text'',
     ''version      -- Display ceccomp version''])"

definition M_OPTION_HINT :: string where
  "M_OPTION_HINT = concat (map (\<lambda>l. l @ nl)
    [''Options:'',
     ''-a, --arch (x86_64|aarch64|...)  Which architecture to resolve syscall_nr, read or write bytestream by the byteorder of arch, default as your arch'',
     ''-c, --color (auto|always|never)  When to print in color, default as auto'',
     ''-e, --ebpf                       Treat input as eBPF-migrated filter bytes'',
     ''-f, --fmt (hexline|hexfmt|raw)   Output format, default as hexline'',
     ''-o, --output file                Print to file to avoid mixing ceccomp output and tracee program output, default as stderr'',
     ''-p, --pid task_id                Extract bpf filters from process (or thread) and print with bpf text form; CAP_SYS_ADMIN is needed to work'',
     ''-q, --quiet                      Print emulate result only or suppress the process info message in trace and probe'',
     ''-s, --seize                      Follow process to trace load-filter operation'',
     [],
     ''syscall_nr                       System call number or name (e.g. 0|read)'',
     ''args[0-5], ip                    args and ip (instruction pointer) used for emulation, default as 0'',
     ''raw, text                        File with BPF RAW or BPF TEXT, see docs for detail, default as stdin''])"

definition help_text :: string where
  "help_text = M_CECCOMP_USAGE @ nl @ concat (map (\<lambda>l. l @ nl) HINTS) @ nl @ M_SUBCMD_HINT @ nl @ nl @ M_OPTION_HINT @ nl"

text \<open>The version of libseccomp is printed into the bytes of \<open>buf\<close> between the two colour sequences.\<close>

definition scmp_version_text :: "bool \<Rightarrow> u32 \<times> u32 \<times> u32 \<Rightarrow> string cres" where
  "scmp_version_text color ver =
     (case ver of (major, minor, micro) \<Rightarrow>
      let t = ''v'' @ dec_str (unat major) @ ''.'' @ dec_str (unat minor) @ ''.'' @ dec_str (unat micro) in
      if \<not> color then Done (take 21 t)
      else if 22 < length t then Crash ''write outside buf''
      else Done (GREENCLR @ (if length t \<le> 21 then t @ CLR else take 21 t)))"

definition version :: "bool \<Rightarrow> build_info \<Rightarrow> u32 \<times> u32 \<times> u32 \<Rightarrow> string cres" where
  "version color b ver =
     cbind (scmp_version_text color ver) (\<lambda>v.
     Done (''ceccomp '' @ bi_version b @ nl @ ''Tagged on '' @ bi_tag_time b @ nl @ ''Built by '' @ bi_builder b @ nl
       @ ''Dependencies:'' @ nl @ ''libseccomp ('' @ v @ '')'' @ nl
       @ (case bi_libbpf b of
            Some s \<Rightarrow> ''libbpf     ('' @ (if color then GREENCLR else []) @ s @ (if color then CLR else []) @ '')''
          | None \<Rightarrow> ''libbpf     ('' @ (if color then REDCLR else []) @ ''-'' @ (if color then CLR else []) @ '')'') @ nl))"

section \<open>The subcommands\<close>

text \<open>
  How \<open>main\<close> ends: the status (\<open>None\<close> when it waits for events that never come), what is written to
  which stream, and the messages of the disassembler.
\<close>

record finish =
  fi_status :: "int option"
  fi_text :: "(file_t \<times> string) list"
  fi_log :: "string list"

definition show_help :: "int \<Rightarrow> finish" where
  "show_help exit_code = \<lparr>fi_status = Some exit_code, fi_text = [(Stdout, help_text)], fi_log = []\<rparr>"

definition wrote :: "(file_t \<times> string) list \<Rightarrow> finish" where
  "wrote ts = \<lparr>fi_status = Some 0, fi_text = ts, fi_log = []\<rparr>"

definition end_status :: "trace_end \<Rightarrow> int option" where
  "end_status e = (if e = Blocked then None else Some 0)"

definition traced :: "file_t \<Rightarrow> trace_end \<times> trace_state \<Rightarrow> finish" where
  "traced f r = (case r of (e, st) \<Rightarrow>
     \<lparr>fi_status = end_status e, fi_text = [(f, tr_out st), (Stderr, tr_err st)], fi_log = []\<rparr>)"

text \<open>The environment of the tracer under the colours chosen.\<close>

definition colored :: "log_color_t \<Rightarrow> trace_env \<Rightarrow> trace_env" where
  "colored c te = te\<lparr>te_color := color_enable c, te_log_color := log_color_enable c\<rparr>"

definition stack_color :: "log_color_t \<Rightarrow> color_t" where
  "stack_color c = \<lparr>color_enable = color_enable c, enable_stack = enable_stack c\<rparr>"

text \<open>The file the colours are chosen for.\<close>

definition color_file :: "ceccomp_arg_t \<Rightarrow> file_t" where
  "color_file args =
     (if cmd args = TRACE_MODE \<and> ta_mode (trace_arg args) = TRACE_PROG then ta_output_file (trace_arg args)
      else if cmd args = PROBE_MODE then pr_output_file (probe_arg args)
      else Stdout)"

definition run_emu :: "world \<Rightarrow> log_color_t \<Rightarrow> emu_file_arg_t \<Rightarrow> finish cres" where
  "run_emu w c ea =
     (if ea_sys_name ea = None then Done (show_help 1)
      else
        cbind (emulate (te_lib (w_te w)) (stack_color c) (emu_arg_t.truncate ea) (w_reads w (ea_text_file ea)))
          (\<lambda>(out, rest). Done (wrote [(Stdout, out @ rest)])))"

text \<open>Tracing by \<open>PTRACE_GET_FILTER\<close> may never end: \<open>None\<close>.\<close>

definition run_trace :: "world \<Rightarrow> log_color_t \<Rightarrow> trace_arg_t \<Rightarrow> finish cres option" where
  "run_trace w c t =
     (let te = colored c (w_te w) in
      case ta_mode t of
        TRACE_PID \<Rightarrow>
          (case w_process w (sint (ta_pid t)) of (pa, interrupted, ws) \<Rightarrow>
             map_option (\<lambda>r. cbind r (\<lambda>r. Done (traced Stdout r)))
               (pid_trace te pa (sint (ta_pid t)) (ta_seize t) (ta_quiet t) interrupted ws start_trace))
      | TRACE_PROG \<Rightarrow>
          Some
            (if ta_prog_idx t = 0 then Done (show_help 1)
             else
               let tc = w_program w (drop (unat (ta_prog_idx t)) (w_argv w)) in
               cbind (program_trace te (tc_pid tc) (ta_quiet t) False (tc_seized tc) (tc_interrupted tc) (tc_waits tc)
                 start_trace) (\<lambda>r. Done (traced (ta_output_file t) r)))
      | UNDECIDED \<Rightarrow> Some (Done (show_help 1)))"

definition run_probe :: "world \<Rightarrow> log_color_t \<Rightarrow> probe_arg_t \<Rightarrow> finish cres" where
  "run_probe w c p =
     (if pr_prog_idx p = 0 then Done (show_help 1)
      else
        cbind (probe (colored c (w_te w)) (stack_color c) (w_tmp_reads w) (w_tmpfile w)
                 (w_program w (drop (unat (pr_prog_idx p)) (w_argv w))) (pr_quiet p)) (\<lambda>(e, out, std, err).
        Done \<lparr>fi_status = end_status e, fi_text = [(pr_output_file p, out), (Stdout, std), (Stderr, err)], fi_log = []\<rparr>))"

text \<open>The part of \<open>main\<close> behind \<open>argp_parse\<close>.\<close>

definition run_cmd :: "world \<Rightarrow> log_color_t \<Rightarrow> ceccomp_arg_t \<Rightarrow> finish cres option" where
  "run_cmd w c args =
     (let lib = te_lib (w_te w); big = te_big (w_te w) in
      case cmd args of
        ASM_MODE \<Rightarrow>
          (let a = asm_arg args in
           Some (cbind (assemble lib big (aa_scmp_arch a) (aa_mode a) (w_reads w (aa_text_file a))) (\<lambda>s.
             Done (wrote [(Stdout, s)]))))
      | CAPTURE_MODE \<Rightarrow>
          (let a = capture_arg args; pid = sint (ca_pid a) in
           Some (cbind (capture (colored c (w_te w)) (w_host w) (w_setup w) pid (ca_scmp_arch a) (w_polls w pid)
               (w_events w) (w_poll_error w)) (\<lambda>(out, err).
             Done (wrote [(Stdout, out), (Stderr, err)]))))
      | DISASM_MODE \<Rightarrow>
          (let a = disasm_arg args; (input, reads) = w_raw w (da_raw_file a) in
           Some (cbind (disasm lib big (color_enable c) (da_scmp_arch a) (da_ebpf a) input reads) (\<lambda>(out, log).
             Done \<lparr>fi_status = Some 0, fi_text = [(Stdout, out)], fi_log = log\<rparr>)))
      | EMU_MODE \<Rightarrow> Some (run_emu w c (emu_arg args))
      | TRACE_MODE \<Rightarrow> run_trace w c (trace_arg args)
      | PROBE_MODE \<Rightarrow> Some (run_probe w c (probe_arg args))
      | HELP_MODE \<Rightarrow> Some (Done (show_help 0))
      | HELP_ABNORMAL \<Rightarrow> Some (Done (show_help 1))
      | VERSION_MODE \<Rightarrow>
          Some (cbind (version (color_enable c) (w_build w) (w_scmp_version w)) (\<lambda>s. Done (wrote [(Stdout, s)]))))"

definition main :: "world \<Rightarrow> argp_call list \<Rightarrow> finish cres option" where
  "main w calls =
     (let lib = te_lib (w_te w); tty = w_tty w; args = init_args w;
          c = set_color (when_color args) (tty Stderr) (tty Stderr) start_color in
      case parse_opts lib (w_fopen w) calls (args, False) of
        Done (args, stop) \<Rightarrow>
          run_cmd w (set_color (when_color args) (tty (color_file args)) (tty Stderr) c) args
      | Die m \<Rightarrow> Some (Die m)
      | Crash m \<Rightarrow> Some (Crash m))"

end
