(* ===== verification/Probe_Ok.thy ===== *)
theory Probe_Ok
  imports Probe Pipeline
begin

text \<open>
  The emulations of \<open>probe\<close> share the text and the memory of the emulator. A run changes nothing but
  what is shown of a return, so every run is one of the same program, and each line of the output is
  the action the kernel takes for that system call.
\<close>

section \<open>Texts with the same code\<close>

definition same_text :: "statement_t list \<Rightarrow> statement_t list \<Rightarrow> bool" where
  "same_text T T' \<longleftrightarrow> list_all2 same_code T T'"

lemma same_text_refl [simp]: "same_text T T"
  by (simp add: same_text_def list_all2_refl)

lemma same_code_trans: "same_code a b \<Longrightarrow> same_code b c \<Longrightarrow> same_code a c"
  unfolding same_code_def by (elim conjE disjE exE) (auto, metis)

lemma same_text_trans: "same_text T T1 \<Longrightarrow> same_text T1 T2 \<Longrightarrow> same_text T T2"
  unfolding same_text_def by (rule list_all2_trans [of same_code same_code same_code]) (auto intro: same_code_trans)

lemma same_text_update: "same_code (T ! i) st \<Longrightarrow> same_text T (T[i := st])"
  unfolding same_text_def list_all2_conv_all_nth
proof (intro conjI allI impI)
  fix j assume "same_code (T ! i) st" "j < length T"
  then show "same_code (T ! j) (T[i := st] ! j)" by (cases "i = j") simp_all
qed simp

lemma same_text_length: "same_text T T' \<Longrightarrow> length T' = length T"
  by (simp add: same_text_def list_all2_lengthD)

lemma same_text_nth: "same_text T T' \<Longrightarrow> i < length T \<Longrightarrow> same_code (T ! i) (T' ! i)"
  by (simp add: same_text_def list_all2_nthD)

text \<open>What the later stages look at does not change.\<close>

lemma same_code_line:
  assumes "same_code st st'"
  shows "is_code st' = is_code st" "is_return (line st') = is_return (line st)"
    "line_ok m len n (line st') = line_ok m len n (line st)" "targets n (line st') = targets n (line st)"
    "mem_out m (line st') = mem_out m (line st)" "line_labels L n (line st') = line_labels L n (line st)"
    "asm_statement st' = asm_statement st" "plain_shift (line st') = plain_shift (line st)"
  using assms
  by (auto simp: same_code_def is_code_def is_return_def line_ok_def return_ok_def wf_return_def wf_return_data_def
      targets_def mem_out_def line_labels_def asm_statement_def Asm.return_line_def plain_shift_def)

lemma same_text_code:
  assumes "same_text T T'"
  shows "code_lines T' = code_lines T" "code_count T' i = code_count T i"
proof -
  have "list_all2 (\<lambda>a b. is_code b = is_code a) T T'"
    using assms by (auto simp: same_text_def same_code_line elim: list_all2_mono)
  then have m: "map is_code T' = map is_code T"
    by (simp add: list_eq_iff_nth_eq list_all2_conv_all_nth)
  have "\<And>i. i < length T \<Longrightarrow> is_code (T' ! i) = is_code (T ! i)"
    using same_text_nth [OF assms] by (simp add: same_code_line)
  then show "code_lines T' = code_lines T"
    unfolding code_lines_def same_text_length [OF assms] by (intro filter_cong) auto
  have c: "length (filter is_code (take i xs)) = length (filter id (take i (map is_code xs)))" for xs
    by (simp add: take_map filter_map comp_def)
  show "code_count T' i = code_count T i" unfolding code_count_def c m ..
qed

lemma same_text_asm:
  assumes "same_text T T'"
  shows "asm_lines (code_statements T') = asm_lines (code_statements T)"
proof -
  have "asm_lines sts' = asm_lines sts" if "list_all2 same_code sts sts'" for sts sts'
    using that by (induction rule: list_all2_induct) (simp_all add: same_code_line(7))
  moreover have "list_all2 same_code (code_statements T) (code_statements T')"
    using same_text_nth [OF assms] list.set_sel(2) [of "code_lines T"]
    by (fastforce simp: code_statements_def same_text_code [OF assms] list_all2_map1 list_all2_map2 list_all2_same
        code_lines_simps)
  ultimately show ?thesis by blast
qed

lemma same_text_resolved:
  assumes "same_text T T'" "resolved L V T"
  shows "resolved L V T'"
proof -
  have c: "code_lines T ! k < length T" if "k < length (code_lines T)" for k
    using that nth_mem [of k "code_lines T"] by (simp add: code_lines_simps)
  have s: "same_code (T ! (code_lines T ! k)) (T' ! (code_lines T ! k))" if "k < length (code_lines T)" for k
    by (rule same_text_nth [OF assms(1) c [OF that]])
  have "passed L (code_lines T) V T' (length (code_lines T)) = passed L (code_lines T) V T (length (code_lines T))"
    using same_code_line [OF s] by (simp add: passed_def certified_def cong: imp_cong)
  moreover have "is_return (line (code T' (length (code_lines T) - 1))) = is_return (line (code T (length (code_lines T) - 1)))"
    if "0 < length (code_lines T) - 1"
    using same_code_line(2) [OF s [of "length (code_lines T) - 1"]] that
    by (simp add: code_def same_text_code(1) [OF assms(1)])
  ultimately show ?thesis
    using assms(2) by (simp add: resolved_def same_text_code(1) [OF assms(1)] Let_def)
qed

lemma same_text_laid:
  assumes "same_text T T'" "laid L T" "T' ! 0 = zero_statement"
  shows "laid L T'"
proof -
  have f: "text_nr (T' ! i) = text_nr (T ! i)" "code_nr (T' ! i) = code_nr (T ! i)" "label_decl (T' ! i) = label_decl (T ! i)"
    if "i < length T" for i
    using same_text_nth [OF assms(1) that] by (simp_all add: same_code_def)
  have "T' \<noteq> [] \<longleftrightarrow> T \<noteq> []" using same_text_length [OF assms(1)] by auto
  with assms(2,3) show ?thesis
    by (simp add: laid_def same_text_code [OF assms(1)] same_text_length [OF assms(1)] f cong: conj_cong)
qed

section \<open>One emulation\<close>

text \<open>The emulator before a run: the program of \<open>T\<close>, and memory of the right size with any content.\<close>

definition ready :: "statement_t list \<Rightarrow> emulation \<Rightarrow> bool" where
  "ready T m \<longleftrightarrow> same_text T (m_text m) \<and> m_text m ! 0 = zero_statement
     \<and> length (e_mem (m_vars m)) = BPF_MEMWORDS \<and> scmp_data_len (m_vars m) = 64"

lemma emulate_v_ready:
  assumes R: "resolved L V T" "laid L T" and C: "C = map of_nat (code_lines T)"
    and sh: "\<forall>st \<in> set T. plain_shift (line st)" and col: "length (enable_stack (m_color m)) < 0x10"
    and q: "ea_quiet ea" and nr: "resolve_sysnr lib (ea_scmp_arch ea) (ea_sys_name ea) = Done nr" "length (ea_args ea) = 6"
    and rd: "ready T m" and fs: "asm_lines (code_statements T) = Done fs"
  shows "\<exists>w r s m'. vm_run (emu_data ea nr) fs 0 (vm_start mem) = Some w \<and> reports w r
    \<and> obj_printer (color_enable (m_color m)) r = Done s
    \<and> emulate_v lib C ea m = Done (m_out m, s @ [CHR 0x0A], m')
    \<and> ready T m' \<and> m_color m' = m_color m \<and> m_out m' = m_out m"
proof -
  let ?T = "m_text m"
  from rd have st: "same_text T ?T" "?T ! 0 = zero_statement" "length (e_mem (m_vars m)) = BPF_MEMWORDS"
    "scmp_data_len (m_vars m) = 64" by (simp_all add: ready_def)
  from init_attr_inputs [OF nr st(3,4)] obtain v where
    v: "init_attr lib ea (m_vars m) = Done v" "inputs (emu_data ea nr) v" "A_reg v = 0" "X_reg v = 0" by blast
  have sh': "\<forall>x \<in> set ?T. plain_shift (line x)"
    using sh same_code_line(8) [OF same_text_nth [OF st(1)]] same_text_length [OF st(1)]
    by (simp add: all_set_conv_all_nth)
  have C': "C = map of_nat (code_lines ?T)" using C same_text_code(1) [OF st(1)] by simp
  have m: "m_text (m\<lparr>m_vars := v\<rparr>) = ?T" "length (enable_stack (m_color (m\<lparr>m_vars := v\<rparr>))) < 0x10"
    "inputs (emu_data ea nr) (m_vars (m\<lparr>m_vars := v\<rparr>))" "A_reg (m_vars (m\<lparr>m_vars := v\<rparr>)) = 0"
    "X_reg (m_vars (m\<lparr>m_vars := v\<rparr>)) = 0"
    using v col by simp_all
  from emulator_vm [OF same_text_resolved [OF st(1) R(1)] same_text_laid [OF st(1) R(2) st(2)] C' sh' m, of "True" mem]
  obtain i m' w where r: "emulator C True (m\<lparr>m_vars := v\<rparr>) = Done (i, m')"
    "vm_run (emu_data ea nr) fs 0 (vm_start mem) = Some w" "ends_with w (line (m_text m' ! i))"
    "i < length ?T" "m_text m' = ?T[i := m_text m' ! i]" "m_color m' = m_color m" "0 < i"
    "same_code (?T ! i) (m_text m' ! i)" "inputs (emu_data ea nr) (m_vars m')"
    using fs same_text_asm [OF st(1)] by auto
  have rd': "ready T m'"
    using same_text_trans [OF st(1) same_text_update [OF r(8)]] r(5,7,9) st(2)
    unfolding ready_def inputs_def by (metis nth_list_update_neq less_numeral_extra(3))
  define obj where "obj = (case line (m_text m' ! i) of RETURN_LINE r \<Rightarrow> real_obj r | _ \<Rightarrow> zero_obj\<lparr>obj_type := KILL\<rparr>)"
  have obj: "reports w obj"
    using r(3) kill_reports by (auto simp: ends_with_def obj_def split: line_t.splits)
  then obtain t where t: "obj_printer (color_enable (m_color m)) obj = Done t" using reports_printer by blast
  have o: "m_out m' = m_out m" using emulator_quiet [OF r(1)] by simp
  have "emulate_v lib C ea m = Done (m_out m, t @ [CHR 0x0A], m')"
    using v(1) r(1,6) q o t by (simp add: emulate_v_def Let_def obj_def split: line_t.splits)
  with r(2,6) obj t rd' o show ?thesis by blast
qed

section \<open>The list of system calls\<close>

text \<open>The line of one system call: the action, with its data, the kernel takes for it.\<close>

definition verdict_line :: "scmp_lib \<Rightarrow> bool \<Rightarrow> sock_filter list \<Rightarrow> emu_arg_t \<Rightarrow> string \<Rightarrow> string \<Rightarrow> bool" where
  "verdict_line lib color fs ea name t \<longleftrightarrow>
     (\<exists>nr w r s. resolve_sysnr lib (ea_scmp_arch ea) (Some name) = Done nr
       \<and> vm_run (emu_data ea nr) fs 0 (vm_start (\<lambda>_. 0)) = Some w \<and> reports w r
       \<and> obj_printer color r = Done s \<and> t = pad_right 10 name @ ''-> '' @ s @ [CHR 0x0A])"

lemma probe_loop_verdicts:
  assumes R: "resolved L V T" "laid L T" and C: "C = map of_nat (code_lines T)"
    and sh: "\<forall>st \<in> set T. plain_shift (line st)"
    and q: "ea_quiet ea" "length (ea_args ea) = 6" and fs: "asm_lines (code_statements T) = Done fs"
    and nr: "\<forall>name \<in> set names. \<exists>nr. resolve_sysnr lib (ea_scmp_arch ea) (Some name) = Done nr"
    and rd: "ready T m" "length (enable_stack (m_color m)) < 0x10"
  shows "\<exists>ts m'. probe_loop lib C ea names m = Done (concat ts, m') \<and> m_out m' = m_out m
    \<and> list_all2 (verdict_line lib (color_enable (m_color m)) fs ea) names ts"
  using nr rd
proof (induction names arbitrary: m)
  case (Cons name names)
  let ?ea = "ea\<lparr>ea_sys_name := Some name\<rparr>"
  from Cons.prems(1) obtain nr where nr: "resolve_sysnr lib (ea_scmp_arch ea) (Some name) = Done nr" by auto
  have e: "ea_quiet ?ea" "resolve_sysnr lib (ea_scmp_arch ?ea) (ea_sys_name ?ea) = Done nr" "length (ea_args ?ea) = 6"
    using nr q by simp_all
  from emulate_v_ready [OF R C sh Cons.prems(3) e Cons.prems(2) fs, of "\<lambda>_. 0"] obtain w r s m1 where
    w: "vm_run (emu_data ?ea nr) fs 0 (vm_start (\<lambda>_. 0)) = Some w" "reports w r"
    "obj_printer (color_enable (m_color m)) r = Done s" "emulate_v lib C ?ea m = Done (m_out m, s @ [CHR 0x0A], m1)"
    "ready T m1" "m_color m1 = m_color m" "m_out m1 = m_out m" by blast
  have v: "verdict_line lib (color_enable (m_color m)) fs ea name (pad_right 10 name @ ''-> '' @ s @ [CHR 0x0A])"
    using w(1-3) nr by (auto simp: verdict_line_def emu_data_def)
  have "\<forall>name \<in> set names. \<exists>nr. resolve_sysnr lib (ea_scmp_arch ea) (Some name) = Done nr" using Cons.prems(1) by simp
  from Cons.IH [OF this w(5)] Cons.prems(3) w(6) obtain ts m' where
    t: "probe_loop lib C ea names m1 = Done (concat ts, m')" "m_out m' = m_out m1"
    "list_all2 (verdict_line lib (color_enable (m_color m)) fs ea) names ts" by auto
  show ?case
    by (intro exI [of _ "(pad_right 10 name @ ''-> '' @ s @ [CHR 0x0A]) # ts"] exI [of _ m'])
      (use t w(4,7) v in simp)
qed simp

text \<open>The whole command, for a program that has loaded a filter.\<close>

lemma probe_verdicts:
  assumes tr: "program_trace te (tc_pid tc) quiet True (tc_seized tc) (tc_interrupted tc) (tc_waits tc) start_trace
      = Done (Returned arch, st)"
    and acc: "accepted (te_lib te) arch (reads (tr_out st)) L C T" and sh: "\<forall>x \<in> set T. plain_shift (line x)"
    and nr: "\<forall>name \<in> set to_test_list. \<exists>nr. resolve_sysnr (te_lib te) arch (Some name) = Done nr"
    and col: "length (enable_stack color) < 0x10"
  shows "\<exists>fs ts. asm_lines (code_statements T) = Done fs
    \<and> probe te color reads None tc quiet = Done (Returned arch, concat ts, [], tr_err st)
    \<and> list_all2 (verdict_line (te_lib te) (color_enable color) fs (init_emu_arg arch)) to_test_list ts"
proof -
  from acceptedD [OF acc] obtain tv cv log where p: "parse_source (te_lib te) arch (reads (tr_out st)) = Done (tv, cv, L)"
    "vec_elems cv = C" "resolver L (vec_elems tv) C = Done (False, T, log)" .
  from accepted_pipeline [OF acc] obtain V fs where R: "resolved L V T" "laid L T" "C = map of_nat (code_lines T)"
    "asm_lines (code_statements T) = Done fs" "T ! 0 = zero_statement" .
  let ?m = "\<lparr>m_text = T, m_vars = start_vars, m_color = color, m_out = []\<rparr>"
  have q: "ea_quiet (init_emu_arg arch)" "length (ea_args (init_emu_arg arch)) = 6"
    "\<forall>name \<in> set to_test_list. \<exists>nr. resolve_sysnr (te_lib te) (ea_scmp_arch (init_emu_arg arch)) (Some name) = Done nr"
    using nr by (simp_all add: init_emu_arg_def)
  have "ready T ?m" "length (enable_stack (m_color ?m)) < 0x10" using R(5) col by (simp_all add: ready_def start_vars_def)
  from probe_loop_verdicts [OF R(1-3) sh q(1,2) R(4) q(3) this] obtain ts m' where
    "probe_loop (te_lib te) C (init_emu_arg arch) to_test_list ?m = Done (concat ts, m')" "m_out m' = []"
    and t: "list_all2 (verdict_line (te_lib te) (color_enable color) fs (init_emu_arg arch)) to_test_list ts" by auto
  with tr p have "probe te color reads None tc quiet = Done (Returned arch, concat ts, [], tr_err st)"
    by (simp add: probe_def fetch_text_from_trace_def)
  with R(4) t show ?thesis by blast
qed

end
