(* ===== verification/Main_Facts.thy ===== *)
theory Main_Facts
  imports Ceccomp Probe_Ok Sample Trace_Ok Fast_Eval
begin

text \<open>
  The properties of the command line: what each word and option of a command does to the run of
  the program, and the verdicts \<open>ceccomp probe\<close> prints.
\<close>

section \<open>Probing\<close>

text \<open>C9: \<open>ceccomp probe\<close> prints, for each of its system calls and in their order, the action the kernel takes for it
  under the filter that was traced: when the listing of the traced filter is accepted as a source, shifts by constants only,
  and the names are known, the command does not crash, and each line is the name and the action, with its data, that the
  abstract machine returns for the filters assembled from the listing, the number of the call, the architecture of
  the tracee and arguments of zero, although all the runs share the memory and the text of one emulator.\<close>

theorem probe_prints_verdicts:
  assumes "program_trace te (tc_pid tc) quiet True (tc_seized tc) (tc_interrupted tc) (tc_waits tc) start_trace
      = Done (Returned arch, st)"
    and "accepted (te_lib te) arch (reads (tr_out st)) L C T" and "\<forall>x \<in> set T. plain_shift (line x)"
    and "\<forall>name \<in> set to_test_list. \<exists>nr. resolve_sysnr (te_lib te) arch (Some name) = Done nr"
    and "length (enable_stack color) < 0x10"
  shows "\<exists>fs ts. asm_lines (code_statements T) = Done fs
    \<and> probe te color reads None tc quiet = Done (Returned arch, concat ts, [], tr_err st)
    \<and> list_all2 (verdict_line (te_lib te) (color_enable color) fs (init_emu_arg arch)) to_test_list ts"
  using assms by (rule probe_verdicts)

text \<open>A process of 64 bits that loads \<open>return ALLOW\<close> with \<open>prctl\<close>.\<close>

definition probe_numbers :: "string \<Rightarrow> u32" where
  "probe_numbers s = (case map_of (zip (to_test_list @ [''seccomp'', ''prctl''])
     [2, 257, 0, 1, 59, 322, 9, 10, 40, 101, 57, 317, 157]) s of Some n \<Rightarrow> n | None \<Rightarrow> - 1)"

definition probe_env :: trace_env where
  "probe_env = \<lparr>te_lib = sample_lib\<lparr>syscall_resolve_name_arch := (\<lambda>a. probe_numbers)\<rparr>, te_big = False, te_color = False,
     te_log_color = False, te_strerror = (\<lambda>e. [])\<rparr>"

definition probe_memory :: "u64 \<Rightarrow> u8 option" where
  "probe_memory = mem_of 0x10
     ([1, 0] @ replicate 6 0 @ [0x20, 0, 0, 0, 0, 0, 0, 0] @ filter_bytes False (CBPF_STMT 6 0x7fff0000))"

definition entry_stop :: "u64 \<Rightarrow> u64 list \<Rightarrow> stop_answers" where
  "entry_stop nr args =
     \<lparr>sa_info = \<lparr>si_op = OP_ENTRY, si_arch = 0xC000003E, si_nr = nr, si_args = args, si_rval = 0\<rparr>,
      sa_exit = \<lparr>si_op = OP_EXIT, si_arch = 0xC000003E, si_nr = nr, si_args = [], si_rval = 0\<rparr>,
      sa_mem = probe_memory, sa_link = Map.empty, sa_new_pid = 0\<rparr>"

definition probe_tracee :: tracee where
  "probe_tracee = \<lparr>tc_pid = 7, tc_seized = True, tc_interrupted = True,
     tc_waits = [Waited 7 0x857f (entry_stop 1 [0, 0, 0, 0, 0, 0]), Waited 7 0x857f (entry_stop 157 [22, 2, 0x10, 0, 0, 0])]\<rparr>"

definition probe_listing :: string where
  "probe_listing = ''#Label  CODE  JT   JF      K'' @ [CHR 0x0A] @ ''#PID=7 ---------------------------'' @ [CHR 0x0A]
     @ '' L0001: 0x06 0x00 0x00 0x7fff0000 return ALLOW'' @ [CHR 0x0A] @ ''#---------------------------------'' @ [CHR 0x0A]"

definition whole_file :: "string \<Rightarrow> string option list" where
  "whole_file s = [Some s, Some []]"

definition listing_comment :: "u16 \<Rightarrow> u16 \<Rightarrow> string \<Rightarrow> statement_t" where
  "listing_comment t c s = \<lparr>line = EMPTY_LINE, label_decl = None, text_nr = t, code_nr = c, line_text = Some s, comment = 0\<rparr>"

definition probe_text :: "statement_t list" where
  "probe_text =
     [zero_statement,
      listing_comment 1 1 ''#Label  CODE  JT   JF      K'',
      listing_comment 2 1 ''#PID=7 ---------------------------'',
      \<lparr>line = RETURN_LINE \<lparr>ret_obj = sample_obj ALLOW 0 ''ALLOW'', real_obj = zero_obj\<rparr>, label_decl = Some ''L0001'',
       text_nr = 3, code_nr = 1, line_text = Some ''L0001: 0x06 0x00 0x00 0x7fff0000 return ALLOW'', comment = - 1\<rparr>,
      listing_comment 4 2 ''#---------------------------------'']"

lemma sample_return: "safe_prog [CBPF_STMT 6 0x7fff0000]"
proof -
  have "filter_safe 0 1 0 (CBPF_STMT 6 0x7fff0000)" "BPF_CLASS 6 = BPF_RET" by code_simp+
  then show ?thesis
    by (auto simp: safe_prog_def safe_with_def filter_targets_plain CBPF_STMT_def intro!: exI [of _ "\<lambda>_. 0"])
qed

lemma probe_listed: "listing (te_lib probe_env) False 0xC000003E [CBPF_STMT 6 0x7fff0000] 7 = probe_listing"
proof -
  have "print_prog (te_lib probe_env) False 0xC000003E [CBPF_STMT 6 0x7fff0000] 7 True start_cp = Done (probe_listing, start_cp)"
    by code_simp
  then show ?thesis by (simp add: listing_def)
qed

lemma probe_program: "fprog_at False 0xC000003E probe_memory 0x10 [CBPF_STMT 6 0x7fff0000]"
proof -
  let ?p = "[0x20, 0, 0, 0, 0, 0, 0, 0] :: u8 list"
  let ?bs = "[1, 0] @ replicate 6 0 @ ?p @ filter_bytes False (CBPF_STMT 6 0x7fff0000)"
  have le: "word_of_bytes False ?p = 0x20" by code_simp
  have all: "mem_holds probe_memory 0x10 ?bs"
    unfolding probe_memory_def by (rule mem_of_holds) (simp add: filter_bytes_def bytes16_def bytes32_def)
  from all [unfolded mem_holds_append]
  have "mem_holds probe_memory 0x10 [1, 0]" and p: "mem_holds probe_memory 0x18 ?p"
    and "mem_holds probe_memory 0x20 (filter_bytes False (CBPF_STMT 6 0x7fff0000))"
    by simp_all
  moreover have "mem_holds probe_memory 0x10 (take 8 ?bs)" using mem_holds_part [of probe_memory "0x10" ?bs 0 8] all by simp
  then have "mem_bytes probe_memory 0x10 8 \<noteq> None" by (auto dest!: mem_bytes_holds simp: numeral_eq_Suc)
  moreover have "mem_bytes probe_memory 0x18 8 = Some ?p" using mem_bytes_holds [of probe_memory "0x18" ?p] p by (simp add: numeral_eq_Suc)
  ultimately show ?thesis
    using le by (auto simp: fprog_at_def pointer_at_def bytes16_def bit_simps
        intro!: exI [of _ "0x20 :: u64"] exI [of _ ?p])
qed

lemma probe_first_stop:
  "handle_syscall probe_env True True 7 (entry_stop 1 [0, 0, 0, 0, 0, 0]) st =
    Done (False, st\<lparr>saved_arch := 0xC000003E, seccomp_nr := 317, prctl_nr := 157\<rparr>)"
  if "saved_arch st = - 1"
proof -
  have "probe_numbers ''seccomp'' = 317" "probe_numbers ''prctl'' = 157" by code_simp+
  with that show ?thesis
    by (simp add: handle_syscall_def new_arch_def entry_stop_def probe_env_def resolve_nr_def check_scmp_mode_def
        load_attempt_def)
qed

lemma probe_traced:
  "\<exists>st. program_trace probe_env (tc_pid probe_tracee) True True (tc_seized probe_tracee) (tc_interrupted probe_tracee)
      (tc_waits probe_tracee) start_trace = Done (Returned 0xC000003E, st) \<and> tr_out st = probe_listing"
proof -
  let ?w = "entry_stop 157 [22, 2, 0x10, 0, 0, 0]"
  let ?s0 = "request (PT_SYSCALL 7 0) (request (WAIT_STOP 7) (request (PT_INTERRUPT 7) (request (PT_SEIZE 7 0x10000F) start_trace)))"
  let ?s1 = "(request (WAIT_STOP 7) ?s0)\<lparr>saved_arch := 0xC000003E, seccomp_nr := 317, prctl_nr := 157\<rparr>"
  let ?s2 = "request (WAIT_STOP 7) (request (PT_SYSCALL 7 0) ?s1)"
  have a: "saved_arch (request (WAIT_STOP 7) ?s0) = - 1" by (simp add: request_def start_trace_def)
  have l: "filter_load ?s2 ?w 0"
    by (simp add: filter_load_def load_attempt_def entry_stop_def request_def load_succeeds_def load_success_def)
  have "names_short (te_lib probe_env)" by (simp add: names_short_def probe_env_def sample_lib_def)
  from handle_syscall_lists [OF l this sample_return, of True True 7] probe_program probe_listed
  obtain st where st: "handle_syscall probe_env True True 7 ?w ?s2 = Done (True, st)" "tr_out st = probe_listing"
      "saved_arch st = 0xC000003E"
    by (auto simp: entry_stop_def probe_env_def request_def start_trace_def BPF_MAXINSNS_def)
  have "handle_stop probe_env True True 7 0x857f ?w ?s2 = Done (True, st)"
    using st(1) by (simp add: handle_stop_def WSTOPSIG_def)
  moreover have "handle_stop probe_env True True 7 0x857f (entry_stop 1 [0, 0, 0, 0, 0, 0]) (request (WAIT_STOP 7) ?s0) =
      Done (False, request (PT_SYSCALL 7 0) ?s1)"
    using probe_first_stop [OF a] by (simp add: handle_stop_def WSTOPSIG_def)
  ultimately show ?thesis
    using st(2,3)
    by (simp add: program_trace_def parent_def probe_tracee_def WIFEXITED_def WIFSIGNALED_def WIFCONTINUED_def)
qed

lemma probe_accepted:
  "accepted (te_lib probe_env) 0xC000003E (whole_file probe_listing) [(''L0001'', 1)] [0, 3] probe_text"
  by code_simp

lemma probe_names: "list_all (\<lambda>name. resolve_sysnr (te_lib probe_env) 0xC000003E (Some name) = Done (probe_numbers name)) to_test_list"
  by code_simp

theorem probe_prints_verdicts_witness:
  "\<exists>ts err. probe probe_env sample_color whole_file None probe_tracee True = Done (Returned 0xC000003E, concat ts, [], err)
    \<and> list_all2 (verdict_line (te_lib probe_env) False [CBPF_STMT 6 0x7fff0000] (init_emu_arg 0xC000003E)) to_test_list ts"
proof -
  have n: "\<forall>name \<in> set to_test_list. \<exists>nr. resolve_sysnr (te_lib probe_env) 0xC000003E (Some name) = Done nr"
    using probe_names unfolding list_all_iff by blast
  have s: "\<forall>x \<in> set probe_text. plain_shift (line x)" by code_simp
  have a: "asm_lines (code_statements probe_text) = Done [CBPF_STMT 6 0x7fff0000]" by code_simp
  obtain st where tr: "program_trace probe_env (tc_pid probe_tracee) True True (tc_seized probe_tracee) (tc_interrupted probe_tracee)
      (tc_waits probe_tracee) start_trace = Done (Returned 0xC000003E, st)" "tr_out st = probe_listing"
    using probe_traced by blast
  have acc: "accepted (te_lib probe_env) 0xC000003E (whole_file (tr_out st)) [(''L0001'', 1)] [0, 3] probe_text"
    using probe_accepted tr(2) by simp
  have c: "length (enable_stack sample_color) < 0x10" by (simp add: sample_color_def)
  from probe_prints_verdicts [where reads = whole_file, OF tr(1) acc s n c] a show ?thesis
    by (auto simp: sample_color_def)
qed

section \<open>Commands without their operand\<close>





definition word :: "string \<Rightarrow> u32 \<Rightarrow> int \<Rightarrow> argp_call" where
  "word s n nx = \<lparr>ac_key = KEY_ARG, ac_arg = s, ac_arg_num = n, ac_next = nx\<rparr>"

definition option :: "char \<Rightarrow> string \<Rightarrow> argp_call" where
  "option k s = \<lparr>ac_key = Opt k, ac_arg = s, ac_arg_num = 0, ac_next = 0\<rparr>"

lemma values_no_crash [simp]:
  "fail_fast_strtoull num e \<noteq> Crash m" "fail_fast_fopen fo f md \<noteq> Crash m" "fail_fast_resolve_arch lib a \<noteq> Crash m"
  "parse_color_mode s \<noteq> Crash m" "parse_print_mode s \<noteq> Crash m"
  by (simp_all add: fail_fast_strtoull_def fail_fast_fopen_def fail_fast_resolve_arch_def parse_color_mode_def
      parse_print_mode_def Let_def split: option.split prod.split)

lemma parsers_no_crash [simp]:
  "parse_asm lib fo c a \<noteq> Crash m" "parse_disasm lib fo c d \<noteq> Crash m" "parse_capture c p \<noteq> Crash m"
  "parse_emu lib fo c e \<noteq> Crash m" "parse_trace fo c t \<noteq> Crash m" "parse_probe fo c q \<noteq> Crash m"
  by (simp_all add: parse_asm_def parse_disasm_def parse_capture_def parse_emu_def parse_trace_def parse_probe_def
      split: argp_key.split)








section \<open>The program to run\<close>

text \<open>The colours of a run that writes to \<open>f\<close>.\<close>

definition run_colors :: "world \<Rightarrow> color_mode_t \<Rightarrow> file_t \<Rightarrow> log_color_t" where
  "run_colors w mode f = set_color mode (w_tty w f) (w_tty w Stderr) start_color"

lemma set_color_twice: "set_color m a b (set_color m' a' b' c) = set_color m a b c"
  by (simp add: set_color_def split: color_mode_t.split)



section \<open>The process to capture\<close>

text \<open>C37: A process number is cut to 32 bits without a message: \<open>ceccomp capture -p\<close> with a number whose low half is
  zero, as 4294967296, or with an empty number, does not reject it but captures the filters of all processes.\<close>

theorem capture_pid_cut:
  assumes "fail_fast_strtoull num M_INVALID_NUMBER = Done n" "(ucast n :: 32 word) = 0"
  shows "main w [word ''capture'' 0 nx, option CHR ''p'' num] = main w [word ''capture'' 0 nx]
    \<and> main w [word ''capture'' 0 nx] =
      run_cmd w (run_colors w (when_color (init_args w)) Stdout) ((init_args w)\<lparr>cmd := CAPTURE_MODE\<rparr>)
    \<and> ca_pid (capture_arg (init_args w)) = 0"
  using assms
  by (simp add: main_def Let_def parse_opt_def parse_cmd_def word_def option_def parse_subcommand_def parse_capture_def
      set_color_twice run_colors_def color_file_def init_args_def)

theorem capture_pid_cut_witness:
  "\<forall>w. main w [word ''capture'' 0 2, option CHR ''p'' ''4294967296''] = main w [word ''capture'' 0 2]"
proof
  fix w
  have "fail_fast_strtoull ''4294967296'' M_INVALID_NUMBER = Done 4294967296" by code_simp
  from capture_pid_cut [OF this, of w 2]
  show "main w [word ''capture'' 0 2, option CHR ''p'' ''4294967296''] = main w [word ''capture'' 0 2]" by simp
qed

end
