(* ===== verification/Spec2Isabelle.thy ===== *)
theory Spec2Isabelle
  imports Total_Facts Text_Facts Filter_Facts Trans_Facts Listing_Facts Trace_Facts Capture_Facts Main_Facts
begin

text \<open>
  A model of ceccomp, a tool for the seccomp filters of Linux, with its correctness properties.
  The functions of \<open>src/src\<close> and \<open>src/ebpf\<close> and the types and tables of \<open>src/include\<close> are
  translated with their names.

  \<^bold>\<open>The program.\<close> A source of filters is read into one memory map and its lines are normalised and
  handed out (\<open>utils/read_source.c\<close>). The scanner cuts it into tokens, the parser makes statements of
  them and enters the labels into a table, and the resolver checks the statements and turns the
  labels into distances. From there \<open>asm\<close> makes filters and \<open>emu\<close> runs the statements for one system
  call. The other way, \<open>disasm\<close> reads filters, or the eBPF instructions the kernel made of them and
  translates those back, checks them, decodes them to the same statements, and prints them with the names of
  system calls and architectures where the renderer can tell what a number stands for. \<open>trace\<close> follows a
  process through ptrace and lists the filters it loads, or fetches those of a running process;
  \<open>capture\<close> gets them from eBPF programs in the kernel, in chunks through a ring buffer; \<open>probe\<close> traces a
  program into a temporary file and emulates a list of system calls on the listing. \<open>main\<close> takes the
  subcommand and its options apart and calls one of them.

  \<^bold>\<open>Conventions.\<close> A C function that may leave the process returns a \<open>cres\<close>: \<open>Done\<close>, \<open>Die\<close> with the message of
  \<open>error ()\<close>, or \<open>Crash\<close> where the C code would fail an assertion or access memory outside of an object;
  so "no crash" in a property says that all of these accesses were checked. Integers keep their
  width as words. Static variables are records that are passed and returned, pointers into arrays are
  indices, text written to a stream is the string written. A structure that is only used through a few
  functions is stated as a locale (\<open>label_table\<close>, \<open>growable\<close>, \<open>index_set\<close>), which is interpreted on the model
  of the code.

  \<^bold>\<open>The theories\<close>, in the order of the data.
  \<^item> \<open>Prelude\<close>: words, \<open>cres\<close>, characters. \<open>Tokens\<close>: \<open>lexical/token.c\<close>, \<open>token.h\<close>. \<open>Messages\<close>: \<open>utils/error.h\<close>.
    \<open>Numbers\<close>: the number formats of the C library the code uses. \<open>Arch_Trans\<close>: \<open>utils/arch_trans.c\<close>.
    \<open>Hash_Table\<close>: \<open>utils/hash.c\<close>. \<open>Vectors\<close>: \<open>utils/vector.c\<close>. \<open>Logger\<close>: \<open>utils/logger.c\<close>, \<open>set_color\<close>.
  \<^item> \<open>Read_Source\<close>: \<open>utils/read_source.c\<close>. \<open>Scanner\<close>: \<open>lexical/scanner.c\<close>. \<open>Statements\<close>, \<open>Parser\<close>: \<open>lexical/parser.h\<close>,
    \<open>parser.c\<close>. \<open>Parser_Inv\<close> has a rule for each parser function, \<open>Parser_Layout\<close> and \<open>Source_Parse\<close> what the parser
    returns: lines of the shapes of the grammar, numbered, with the labels at their lines (\<open>well_laid\<close>). \<open>Scan_Lines\<close>,
    \<open>Parser_Lines\<close> and \<open>Source_Lines\<close> bound the length of the lines, so of the reports (\<open>report_fits\<close>).
  \<^item> \<open>Bpf\<close>: filters as in memory and in bytes, the table of valid instructions (\<open>valid_codes.h\<close>, \<open>valid_insns.c\<close>,
    \<open>reverse_endian.h\<close>). \<open>Bpf_Vm\<close> is the machine the kernel runs filters on, the specification for \<open>asm\<close>, \<open>emu\<close>
    and \<open>check_prog\<close>; \<open>Filter_Safe\<close> is the program the kernel accepts (\<open>safe_prog\<close>) and the proof that it returns.
  \<^item> \<open>Resolver\<close>: \<open>resolver/resolver.c\<close>; \<open>Resolver_Ok\<close>: its promise (\<open>resolved\<close>). \<open>Asm\<close>: \<open>asm.c\<close>; \<open>Asm_Ok\<close>: the filters of
    resolved statements are a safe program. \<open>Emu\<close>: \<open>emu.c\<close>; \<open>Emu_Vm\<close>: its run, whose steps keep what they
    keep (\<open>emu_keeps\<close>), and its simulation by the machine.
    \<open>Commands\<close>: \<open>assemble\<close>, \<open>emulate\<close>; \<open>Pipeline\<close> puts these together for an \<open>accepted\<close> source,
    \<open>Asm_Total\<close> and \<open>Emu_Total\<close> for every source, and \<open>Escape_Overflow\<close> runs one with open colours.
  \<^item> \<open>Check_Prog\<close>: \<open>decoder/check_prog.c\<close>; \<open>Check_Sound\<close>: what it is worth. \<open>Decoder\<close>, \<open>Formatter\<close>: \<open>decoder/decoder.c\<close>,
    \<open>formatter.c\<close>. \<open>Decode_Asm\<close>: the assembler undoes the decoder. \<open>Str_Pile\<close>, \<open>Render\<close>: \<open>utils/str_pile.c\<close>,
    \<open>resolver/render.c\<close>. \<open>Bitmap\<close>, \<open>Bpf_Trans\<close>: \<open>utils/bpf_trans.c\<close>; \<open>Bpf_Trans_Safe\<close>: its accesses. \<open>Disasm\<close>: \<open>disasm.c\<close>;
    \<open>Disasm_Ok\<close>: the listing is printed to its end; \<open>Disasm_Asm\<close>: the disassembler on what the assembler writes.
  \<^item> \<open>Proc_Status\<close>: \<open>utils/proc_status.c\<close>. \<open>Trace\<close>, \<open>Trace_Pid\<close>: \<open>trace.c\<close>; \<open>Trace_Ok\<close>: stopped threads, filters read from
    a process. \<open>Capture_Bpf\<close>: \<open>ebpf/capture_pid.bpf.c\<close>, \<open>capture.bpf.c\<close>, \<open>ebpf_share.h\<close>; \<open>Capture\<close>: \<open>capture.c\<close>; \<open>Capture_Ok\<close>,
    \<open>Capture_Load\<close>: the chunks, and the hooks in any order of threads. \<open>Probe\<close>: \<open>probe.c\<close>; \<open>Probe_Ok\<close>: the runs are
    independent of each other. \<open>Parse_Args\<close>: \<open>utils/parse_args.c\<close>; \<open>Ceccomp\<close>: \<open>ceccomp.c\<close>, \<open>help.h\<close>.
  \<^item> \<open>Total_Facts\<close>, \<open>Text_Facts\<close>, \<open>Filter_Facts\<close>, \<open>Trans_Facts\<close>, \<open>Listing_Facts\<close>, \<open>Trace_Facts\<close>, \<open>Capture_Facts\<close>, \<open>Main_Facts\<close> and this theory hold the
    properties C1 to C40, each with the run that shows its hypotheses can hold: \<open>Sample\<close> is the source most of them
    use, and \<open>Fast_Eval\<close> makes these runs fast.

  \<^bold>\<open>The properties\<close> follow the data. The text side: no input makes the reader, the scanner or the parser leave
  a buffer or loop (C6, C24, C25), the whole of \<open>asm\<close> and of \<open>emu\<close> never leave their memory on a source
  without escape characters (C4, C5), and the tables and containers do what their users rely on (C26 to C30). From
  there a chain: what the resolver accepts is certified (C3), so what \<open>asm\<close> writes is a safe program (C1), which always decides (C17),
  passes the check of the disassembler (C18) and is listed without a message (C12), and \<open>emu\<close> prints what the
  kernel would do with it (C2). The listing side: \<open>disasm\<close> ends on every input (C7), its translation of eBPF stays
  inside its arrays on input that is not trusted (C8, C31), a program it has nothing to report on returns (C16), and
  its decoder is inverse to the assembler (C15). The processes: no thread is left stopped (C13), the program a process
  loads is the one that is listed (C10, C14, C20), or all of its filters are (C11, C19), and \<open>probe\<close> prints the
  verdicts of the kernel (C9). The command line: C21, C22. C33 to C37 and C40 state what the code does where it
  departs from this: a ring that is full, a colour escape that is not closed, a process of 32 bits on a big endian
  machine, a filter that is not classic, a process number that is cut, and a register that is listed as a system call.

  \<^bold>\<open>Loops.\<close> Loops over lists and counters are structural or have a measure. The loops of the parser, which follow the
  scanner, take the number of characters left and three more as fuel; each round consumes a token
  (C24), and C6 shows that the fuel never runs out. The loop of the emulator passes every statement once, executed or
  skipped, so it is recursive over the number of statements; the machine moves forward only. The loop of \<open>pid_trace\<close>
  has no bound: it is a partial function (\<open>filter_rounds\<close>), C19 shows that it ends where the kernel gives all filters, and C36 that it does not where one is skipped.

  \<^bold>\<open>Parameters.\<close> What is not code of the repository is an argument: libseccomp (the values of its macros and the
  names of system calls: \<open>scmp_lib\<close>), the results of the \<open>read\<close> calls, what ptrace, waitpid, the memory and the files of a process
  answer (\<open>trace_env\<close>, \<open>stop_answers\<close>, \<open>wait_result\<close>, \<open>pid_answers\<close>), libbpf and the helper functions of the kernel, which may fail
  (\<open>capture_setup\<close>, \<open>ring\<close>, \<open>exit_answers\<close>), and the calls \<open>argp_parse\<close> makes of \<open>parse_opt\<close>. The host is the
  one of a 64 bit machine, of either byte order where it matters, and of little endian in \<open>Bpf_Vm\<close>.

  \<^bold>\<open>Not modelled.\<close> Memory is always granted (\<open>malloc\<close>, \<open>mmap\<close>, \<open>calloc\<close>). gettext: the messages are the untranslated texts.
  The vendored Verstable and a5hash: \<open>hash.c\<close> is modelled over an association list. The DEBUG build, the build without libbpf, the
  dump of eBPF instructions to a file for a bug report, and the unit tests. Signals enter only as the flag that
  interrupts the loops.
\<close>

section \<open>From the source to the filters\<close>

text \<open>C1: What \<open>ceccomp asm\<close> writes is a safe program. When the parser and the resolver accept a source,
  \<open>assemble\<close> does not crash in any of the three byte formats, and writes the bytes, in the byte order of
  the target, of at most 4096 filters that form a safe program: every code is valid, every jump and every
  fall through ends inside the program, no constant division by 0 or shift by 32 or more, every load of the data is
  aligned and inside it, every word of memory is written on all paths before it is read, and the last
  filter returns.\<close>

theorem assembled_program_safe:
  assumes "accepted lib a reads L C T" "mode \<noteq> C_MACRO"
  shows "\<exists>fs. asm_lines (code_statements T) = Done fs \<and> safe_prog fs \<and> length fs \<le> BPF_MAXINSNS
    \<and> assemble lib big a mode reads =
        Done (concat (map (\<lambda>f. filter_text mode (filter_bytes (big \<noteq> need_reverse_endian big a) f)) fs)
          @ (if mode = HEXLINE then [CHR 0x0A] else []))"
  by (rule assemble_filters [OF assms])

theorem assembled_program_safe_witness:
  "\<exists>fs. safe_prog fs \<and> assemble sample_lib False 0xC000003E RAW sample_reads =
     Done (concat (map (\<lambda>f. filter_text RAW (filter_bytes (False \<noteq> need_reverse_endian False 0xC000003E) f)) fs))"
  using assembled_program_safe [OF sample_accepted, of RAW False] by auto

text \<open>C17: An assembled program always decides: on the abstract machine of the kernel it returns a value for
  every content of the registers, of the memory and of the 64 bytes of data, and it never gets stuck on an instruction.\<close>

theorem assembled_program_decides:
  assumes "accepted lib a reads L C T" "asm_lines (code_statements T) = Done fs" "length (sd_args d) = 6"
  shows "\<exists>w. vm_run d fs 0 s = Some w"
  using accepted_pipeline [OF assms(1)] assms(2,3) by (metis cres.inject(1) safe_prog_returns)

theorem assembled_program_decides_witness:
  "\<exists>fs. asm_lines (code_statements sample_text) = Done fs \<and> (\<exists>w. vm_run sample_data fs 0 (vm_start (\<lambda>_. 0)) = Some w)"
proof -
  obtain fs where "asm_lines (code_statements sample_text) = Done fs"
    using accepted_pipeline [OF sample_accepted] by blast
  moreover have "length (sd_args sample_data) = 6" by (simp add: sample_data_def)
  ultimately show ?thesis using assembled_program_decides [OF sample_accepted] by blast
qed

section \<open>The emulator\<close>

text \<open>C2: \<open>ceccomp emu -q\<close> prints the action the kernel would take: on an accepted source whose shifts
  are by constants, the whole command from the bytes of the source does not crash and its only output is the
  action, with its data, that the abstract machine returns for the filters \<open>asm\<close> makes of the same source
  and the arguments given, a division by a zero register included, whatever the memory holds at the start.\<close>

theorem emulator_agrees:
  assumes "accepted lib (ea_scmp_arch ea) reads L C T" "ea_quiet ea"
    and "resolve_sysnr lib (ea_scmp_arch ea) (ea_sys_name ea) = Done nr" "length (ea_args ea) = 6"
    and "\<forall>st \<in> set T. plain_shift (line st)" "length (enable_stack color) < 0x10"
  shows "\<exists>fs w r s. asm_lines (code_statements T) = Done fs
    \<and> vm_run (emu_data ea nr) fs 0 (vm_start mem) = Some w \<and> reports w r
    \<and> obj_printer (color_enable color) r = Done s
    \<and> emulate lib color ea reads = Done ([], s @ [CHR 0x0A])"
  by (rule emulate_quiet_action [OF assms])

theorem emulator_agrees_witness:
  "\<exists>fs w r s. asm_lines (code_statements sample_text) = Done fs
    \<and> vm_run (emu_data (sample_args True) 0) fs 0 (vm_start (\<lambda>_. 7)) = Some w \<and> reports w r
    \<and> obj_printer False r = Done s
    \<and> emulate sample_lib sample_color (sample_args True) sample_reads = Done ([], s @ [CHR 0x0A])"
  using emulator_agrees [of sample_lib "sample_args True" sample_reads sample_labels sample_ptrs sample_text 0
      sample_color "\<lambda>_. 7"] sample_accepted sample_sysnr [of True] sample_plain_shift
  by (simp add: sample_args_def sample_color_def)

section \<open>The resolver\<close>



section \<open>The checker\<close>

text \<open>C18: \<open>check_prog\<close> has nothing to report on a safe program, so it accepts every program \<open>asm\<close> makes:
  the log and both counters stay what they were.\<close>

theorem checker_accepts_safe:
  assumes "safe_prog prog" "length prog < 65536" "fatal_count cp = 0"
  shows "\<exists>cp'. check_prog prog cp = Done (error_count cp \<noteq> 0, cp') \<and> cp_log cp' = cp_log cp
    \<and> error_count cp' = error_count cp \<and> fatal_count cp' = 0"
  using check_prog_safe [OF assms] assms(3) by (auto simp: quiet_from_def)

theorem checker_accepts_safe_witness:
  "\<exists>fs cp'. asm_lines (code_statements sample_text) = Done fs \<and> check_prog fs start_cp = Done (False, cp')"
proof -
  obtain fs where "asm_lines (code_statements sample_text) = Done fs" "safe_prog fs" "length fs \<le> BPF_MAXINSNS"
    using accepted_pipeline [OF sample_accepted] by blast
  then show ?thesis using checker_accepts_safe [of fs start_cp] by (auto simp: start_cp_def BPF_MAXINSNS_def)
qed

end
